(* ===== verification/PyPrelude.thy ===== *)
theory PyPrelude
  imports Main "HOL-Library.List_Lexorder" "HOL-Library.Product_Lexorder" "HOL-Library.Word"
begin

text \<open>
  Shared vocabulary of the development: Python text, JSON values, UUID text,
  and the generic facts on lists that the table and service theories use.

  Python's \<^verbatim>\<open>str\<close> is a sequence of code points, here \<^typ>\<open>nat list\<close>. The
  text functions of the standard library are defined exactly on U+0000 to
  U+017F (Basic Latin, Latin-1 and Latin Extended-A, which holds every letter
  of the application's Czech texts): \<open>casefold\<close> follows the Unicode case
  folding of that range, \<open>strip\<close> and \<open>split\<close> its white space, and
  \<open>nfc\<close> is the identity, because every code point of the range is its own
  NFC form and none combines with its neighbour. Code points above the range
  are left alone.
\<close>

named_theorems table_simps \<open>rewriting of row lookups after a table operation\<close>
named_theorems svc_defs \<open>definitions of service operations, unfolded in their proofs\<close>

section \<open>Python text\<close>

type_synonym pystr = "nat list"

text \<open>Text written in ASCII in the source.\<close>

definition asc :: "string \<Rightarrow> pystr" where
  "asc s = map of_char s"

definition is_space :: "nat \<Rightarrow> bool" where
  "is_space c \<longleftrightarrow> (9 \<le> c \<and> c \<le> 13) \<or> (28 \<le> c \<and> c \<le> 32) \<or> c = 133 \<or> c = 160"

definition lstrip :: "pystr \<Rightarrow> pystr" where
  "lstrip s = dropWhile is_space s"

definition strip :: "pystr \<Rightarrow> pystr" where
  "strip s = rev (lstrip (rev (lstrip s)))"

text \<open>\<^verbatim>\<open>str.split()\<close> without a separator: the maximal runs of other characters.\<close>

fun split_aux :: "pystr \<Rightarrow> pystr \<Rightarrow> pystr list" where
  "split_aux w [] = (if w = [] then [] else [rev w])"
| "split_aux w (c # cs) =
     (if is_space c then (if w = [] then split_aux [] cs else rev w # split_aux [] cs)
      else split_aux (c # w) cs)"

definition py_split :: "pystr \<Rightarrow> pystr list" where
  "py_split s = split_aux [] s"

fun py_join :: "pystr \<Rightarrow> pystr list \<Rightarrow> pystr" where
  "py_join sep [] = []"
| "py_join sep [w] = w"
| "py_join sep (w # v # ws) = w @ sep @ py_join sep (v # ws)"

definition starts_with :: "pystr \<Rightarrow> pystr \<Rightarrow> bool" where
  "starts_with p s \<longleftrightarrow> take (length p) s = p"

text \<open>\<^verbatim>\<open>sub in s\<close> on strings.\<close>

fun contains :: "pystr \<Rightarrow> pystr \<Rightarrow> bool" where
  "contains p [] = (p = [])"
| "contains p (c # cs) = (starts_with p (c # cs) \<or> contains p cs)"

definition fold_char :: "nat \<Rightarrow> pystr" where
  "fold_char c =
     (if c < 65 then [c]
      else if c \<le> 90 then [c + 32]
      else if c = 181 then [956]
      else if c < 192 then [c]
      else if c \<le> 222 \<and> c \<noteq> 215 then [c + 32]
      else if c = 223 then [115, 115]
      else if c < 256 then [c]
      else if c = 304 then [105, 775]
      else if c = 329 then [700, 110]
      else if c = 376 then [255]
      else if c = 383 then [115]
      else if c < 304 \<or> (306 \<le> c \<and> c \<le> 311) \<or> (330 \<le> c \<and> c \<le> 375)
        then (if even c then [c + 1] else [c])
      else if (313 \<le> c \<and> c \<le> 328) \<or> (377 \<le> c \<and> c \<le> 382)
        then (if odd c then [c + 1] else [c])
      else [c])"

definition casefold :: "pystr \<Rightarrow> pystr" where
  "casefold s = concat (map fold_char s)"

definition nfc :: "pystr \<Rightarrow> pystr" where
  "nfc s = s"

text \<open>\<^verbatim>\<open>s.replace(p, "")\<close> for a non-empty \<open>p\<close>: left to right, not overlapping.\<close>

function py_remove :: "pystr \<Rightarrow> pystr \<Rightarrow> pystr" where
  "py_remove p [] = []"
| "py_remove p (c # cs) =
     (if p \<noteq> [] \<and> starts_with p (c # cs) then py_remove p (drop (length p) (c # cs))
      else c # py_remove p cs)"
  by pat_completeness auto
termination
  by (relation "measure (\<lambda>(p, s). length s)") (auto simp: Suc_diff_le)

definition rstrip_char :: "nat \<Rightarrow> pystr \<Rightarrow> pystr" where
  "rstrip_char c s = rev (dropWhile (\<lambda>x. x = c) (rev s))"

lemma contains_iff: "contains p s \<longleftrightarrow> (\<exists>u v. s = u @ p @ v)"
proof (induction s)
  case Nil
  then show ?case by auto
next
  case (Cons c cs)
  have "starts_with p (c # cs) \<longleftrightarrow> (\<exists>v. c # cs = p @ v)"
    unfolding starts_with_def by (metis append_eq_conv_conj append_take_drop_id)
  with Cons.IH show ?case
    by (simp add: Cons_eq_append_conv) metis
qed

lemma casefold_Nil [simp]: "casefold [] = []"
  and casefold_Cons [simp]: "casefold (c # s) = fold_char c @ casefold s"
  and casefold_append [simp]: "casefold (s @ t) = casefold s @ casefold t"
  by (simp_all add: casefold_def)

lemma fold_char_idem: "casefold (fold_char c) = fold_char c"
  by (auto simp: fold_char_def casefold_def)

lemma casefold_idem [simp]: "casefold (casefold s) = casefold s"
  by (induction s) (simp_all add: fold_char_idem)

lemma set_lstrip: "set (lstrip s) \<subseteq> set s"
  by (auto simp: lstrip_def dest: set_dropWhileD)

lemma set_strip: "set (strip s) \<subseteq> set s"
  unfolding strip_def using set_lstrip [of "rev (lstrip s)"] set_lstrip [of s] by simp

lemma length_strip: "length (strip s) \<le> length s"
  unfolding strip_def lstrip_def
  by (metis length_dropWhile_le length_rev order_trans)

lemma rev_lstrip_strip: "rev (lstrip (rev (strip s))) = strip s"
  by (simp add: strip_def lstrip_def)

lemma strip_Nil [simp]: "strip [] = []"
  by (simp add: strip_def lstrip_def)

lemma strip_eq_Nil_iff: "strip s = [] \<longleftrightarrow> (\<forall>c \<in> set s. is_space c)"
proof -
  have "strip s = [] \<longleftrightarrow> (\<forall>c \<in> set (lstrip s). is_space c)"
    by (simp add: strip_def lstrip_def)
  also have "\<dots> \<longleftrightarrow> (\<forall>c \<in> set s. is_space c)"
  proof
    assume *: "\<forall>c \<in> set (lstrip s). is_space c"
    show "\<forall>c \<in> set s. is_space c"
    proof (cases "dropWhile is_space s")
      case Nil
      then show ?thesis by simp
    next
      case (Cons c cs)
      then have "\<not> is_space c" by (simp add: dropWhile_eq_Cons_conv)
      with * Cons show ?thesis by (simp add: lstrip_def)
    qed
  qed (use set_lstrip in blast)
  finally show ?thesis .
qed

lemma strip_id:
  assumes "s \<noteq> []" "\<not> is_space (hd s)" "\<not> is_space (last s)"
  shows "strip s = s"
proof -
  have "lstrip s = s" using assms by (cases s) (simp_all add: lstrip_def)
  moreover have "lstrip (rev s) = rev s"
    using assms by (cases s rule: rev_cases) (simp_all add: lstrip_def)
  ultimately show ?thesis by (simp add: strip_def)
qed

lemma strip_ends:
  assumes "strip s \<noteq> []"
  shows "\<not> is_space (hd (strip s))" "\<not> is_space (last (strip s))"
proof -
  let ?t = "lstrip s"
  have ne: "lstrip (rev ?t) \<noteq> []" using assms by (simp add: strip_def)
  then have "\<not> is_space (hd (lstrip (rev ?t)))"
    unfolding lstrip_def by (rule hd_dropWhile)
  then show "\<not> is_space (last (strip s))"
    using ne by (simp add: strip_def last_rev)
  obtain u where u: "rev ?t = u @ lstrip (rev ?t)"
    unfolding lstrip_def by (metis takeWhile_dropWhile_id)
  then have t: "?t = strip s @ rev u"
    by (metis rev_append rev_rev_ident strip_def)
  then have "hd (strip s) = hd ?t" using assms by simp
  moreover have "?t \<noteq> []" using t assms by simp
  then have "\<not> is_space (hd ?t)" unfolding lstrip_def by (rule hd_dropWhile)
  ultimately show "\<not> is_space (hd (strip s))" by simp
qed

lemma strip_idem [simp]: "strip (strip s) = strip s"
  using strip_ends strip_id by (cases "strip s = []") auto

lemma strip_infix: "\<exists>u v. s = u @ strip s @ v"
proof -
  have 1: "s = takeWhile is_space s @ lstrip s" by (simp add: lstrip_def)
  have "rev (lstrip s) = takeWhile is_space (rev (lstrip s)) @ lstrip (rev (lstrip s))"
    unfolding lstrip_def by simp
  then have "lstrip s = strip s @ rev (takeWhile is_space (rev (lstrip s)))"
    unfolding strip_def by (metis rev_append rev_rev_ident)
  with 1 show ?thesis by metis
qed

lemma split_aux_words:
  assumes "\<forall>c \<in> set w. \<not> is_space c" "x \<in> set (split_aux w s)"
  shows "x \<noteq> [] \<and> (\<forall>c \<in> set x. \<not> is_space c)"
  using assms
proof (induction w s rule: split_aux.induct)
  case (2 w c cs)
  show ?case
  proof (cases "is_space c")
    case True
    have rest: ?thesis if "x \<in> set (split_aux [] cs)"
    proof (cases "w = []")
      case e: True
      show ?thesis by (rule "2.IH"(1) [OF True e _ that]) simp
    next
      case e: False
      show ?thesis by (rule "2.IH"(2) [OF True e _ that]) simp
    qed
    show ?thesis
    proof (cases "x \<in> set (split_aux [] cs)")
      case False
      with "2.prems"(2) True have "w \<noteq> []" "x = rev w" by (simp_all split: if_splits)
      with "2.prems"(1) show ?thesis by simp
    qed (rule rest)
  next
    case False
    then show ?thesis using "2.IH"(3) "2.prems" by simp
  qed
qed (simp split: if_splits)

lemma py_split_words: "x \<in> set (py_split s) \<Longrightarrow> x \<noteq> [] \<and> (\<forall>c \<in> set x. \<not> is_space c)"
  unfolding py_split_def by (rule split_aux_words [of "[]"]) auto

lemma split_aux_run:
  "\<forall>c \<in> set x. \<not> is_space c \<Longrightarrow> split_aux w (x @ s) = split_aux (rev x @ w) s"
  by (induction x arbitrary: w) auto

lemma py_split_join:
  assumes "\<forall>x \<in> set ws. x \<noteq> [] \<and> (\<forall>c \<in> set x. \<not> is_space c)"
  shows "py_split (py_join [32] ws) = ws"
  unfolding py_split_def using assms
proof (induction "[32::nat]" ws rule: py_join.induct)
  case (2 w)
  then show ?case using split_aux_run [of w "[]" "[]"] by simp
next
  case (3 w v ws)
  then show ?case
    by (simp add: split_aux_run is_space_def)
qed simp

lemma casefold_join: "casefold (py_join [32] ws) = py_join [32] (map casefold ws)"
  by (induction "[32::nat]" ws rule: py_join.induct) (simp_all add: fold_char_def)

lemma fold_char_space: "is_space c \<Longrightarrow> fold_char c = [c]"
proof -
  assume "is_space c"
  then have "c < 65 \<or> c = 133 \<or> c = 160" by (auto simp: is_space_def)
  then show ?thesis by (elim disjE) (simp_all add: fold_char_def)
qed

lemma fold_char_big: "c < 33 \<or> c \<in> {133, 160} \<or> (\<forall>x \<in> set (fold_char c). 33 \<le> x \<and> x \<noteq> 133 \<and> x \<noteq> 160)"
  unfolding fold_char_def by (simp split: if_split) linarith

lemma fold_char_ne: "fold_char c \<noteq> []"
  by (simp add: fold_char_def)

lemma fold_char_nonspace:
  assumes "\<not> is_space c"
  shows "fold_char c \<noteq> [] \<and> (\<forall>x \<in> set (fold_char c). \<not> is_space x)"
proof (cases "c < 33")
  case True
  with assms show ?thesis by (simp add: fold_char_def)
next
  case False
  with assms fold_char_big [of c] have "\<forall>x \<in> set (fold_char c). 33 \<le> x \<and> x \<noteq> 133 \<and> x \<noteq> 160"
    by (simp add: is_space_def)
  then show ?thesis using fold_char_ne by (auto simp: is_space_def)
qed

lemma casefold_nonspace:
  "\<forall>c \<in> set x. \<not> is_space c \<Longrightarrow> \<forall>c \<in> set (casefold x). \<not> is_space c"
  by (induction x) (use fold_char_nonspace in auto)

lemma casefold_eq_Nil [simp]: "casefold x = [] \<longleftrightarrow> x = []"
  by (cases x) (simp_all add: fold_char_ne)

lemma split_aux_casefold:
  "split_aux (rev (casefold (rev w))) (casefold s) = map casefold (split_aux w s)"
  if "\<forall>c \<in> set w. \<not> is_space c"
  using that
proof (induction w s rule: split_aux.induct)
  case (1 w)
  then show ?case by simp
next
  case (2 w c cs)
  show ?case
  proof (cases "is_space c")
    case True
    with 2 show ?thesis by (simp add: fold_char_space)
  next
    case False
    with 2 have "split_aux (rev (casefold (rev (c # w)))) (casefold cs) = map casefold (split_aux (c # w) cs)"
      by simp
    with False fold_char_nonspace [OF False] show ?thesis
      by (simp add: split_aux_run)
  qed
qed

lemma py_split_casefold: "py_split (casefold s) = map casefold (py_split s)"
  unfolding py_split_def using split_aux_casefold [of "[]" s] by simp

section \<open>SQL patterns\<close>

text \<open>
  \<^verbatim>\<open>LIKE\<close> as PostgreSQL documents it: \<^verbatim>\<open>%\<close> (37) stands for any text, \<^verbatim>\<open>_\<close> (95) for
  one character, and a backslash (92) takes the next character literally.
  SQLAlchemy's \<^verbatim>\<open>column.contains(t)\<close> is \<^verbatim>\<open>LIKE '%' || t || '%'\<close> without escaping
  \<open>t\<close>. \<^verbatim>\<open>ILIKE\<close> compares in lower case; the database's \<open>lower\<close> depends on its
  collation and is an argument.
\<close>

fun sql_like :: "pystr \<Rightarrow> pystr \<Rightarrow> bool" where
  "sql_like [] s = (s = [])"
| "sql_like (p # ps) [] = (p = 37 \<and> sql_like ps [])"
| "sql_like (p # ps) (c # cs) =
     (if p = 37 then sql_like ps (c # cs) \<or> sql_like (p # ps) cs
      else if p = 95 then sql_like ps cs
      else if p = 92 then (case ps of [] \<Rightarrow> False | q # qs \<Rightarrow> q = c \<and> sql_like qs cs)
      else p = c \<and> sql_like ps cs)"

definition sql_contains :: "pystr \<Rightarrow> pystr \<Rightarrow> bool" where
  "sql_contains t s = sql_like ([37] @ t @ [37]) s"

definition sql_ilike :: "(pystr \<Rightarrow> pystr) \<Rightarrow> pystr \<Rightarrow> pystr \<Rightarrow> bool" where
  "sql_ilike lower p s = sql_like (lower p) (lower s)"

lemma sql_like_any: "sql_like [37] s"
  by (induction s) simp_all

lemma sql_like_literal:
  assumes "set t \<inter> {37, 92, 95} = {}"
  shows "sql_like (t @ [37]) s = starts_with t s"
  using assms
proof (induction t arbitrary: s)
  case Nil
  then show ?case by (simp add: starts_with_def sql_like_any)
next
  case (Cons p t)
  then show ?case by (cases s) (auto simp: starts_with_def)
qed

text \<open>For a text without pattern characters, \<^verbatim>\<open>contains\<close> in SQL is the substring test.\<close>

lemma sql_contains_literal:
  assumes "set t \<inter> {37, 92, 95} = {}"
  shows "sql_contains t s = contains t s"
  unfolding sql_contains_def
proof (induction s)
  case Nil
  show ?case
  proof (cases t)
    case (Cons p ps)
    then have "p \<noteq> 37" using assms by auto
    with Cons show ?thesis by simp
  qed simp
next
  case (Cons c cs)
  then show ?case using sql_like_literal [OF assms, of "c # cs"] by simp
qed

section \<open>Decimal text\<close>

text \<open>The decimal text of a natural number and of an integer, as \<^verbatim>\<open>str\<close> and f-strings write it.\<close>

function nat_str :: "nat \<Rightarrow> pystr" where
  "nat_str n = (if n < 10 then [48 + n] else nat_str (n div 10) @ [48 + n mod 10])"
  by pat_completeness auto
termination by (relation "measure id") auto

declare nat_str.simps [simp del]

definition int_str :: "int \<Rightarrow> pystr" where
  "int_str i = (if i < 0 then 45 # nat_str (nat (- i)) else nat_str (nat i))"

section \<open>JSON values\<close>

text \<open>
  The values of a \<^verbatim>\<open>dict[str, Any]\<close> that came from JSON. A float is kept as its
  64-bit pattern; no operation computes with one.
\<close>

datatype json =
    JNull
  | JBool bool
  | JInt int
  | JFloat "64 word"
  | JStr pystr
  | JList "json list"
  | JObj "(pystr \<times> json) list"

definition jobj :: "(string \<times> json) list \<Rightarrow> json" where
  "jobj kvs = JObj (map (\<lambda>(k, v). (asc k, v)) kvs)"

definition jstr :: "string \<Rightarrow> json" where
  "jstr s = JStr (asc s)"

text \<open>\<^verbatim>\<open>d.get(k)\<close>; \<open>None\<close> is a missing key.\<close>

definition jget :: "(pystr \<times> json) list \<Rightarrow> string \<Rightarrow> json option" where
  "jget d k = map_of d (asc k)"

text \<open>\<^verbatim>\<open>d.get(k, fallback)\<close>\<close>

definition get_or :: "(pystr \<times> json) list \<Rightarrow> string \<Rightarrow> json \<Rightarrow> json" where
  "get_or args k fallback = (case jget args k of None \<Rightarrow> fallback | Some v \<Rightarrow> v)"

text \<open>Python's truth value of a JSON value; the two zero floats are false.\<close>

fun truthy :: "json \<Rightarrow> bool" where
  "truthy JNull = False"
| "truthy (JBool b) = b"
| "truthy (JInt n) = (n \<noteq> 0)"
| "truthy (JFloat w) = (w \<noteq> 0 \<and> w \<noteq> 9223372036854775808)"
| "truthy (JStr s) = (s \<noteq> [])"
| "truthy (JList xs) = (xs \<noteq> [])"
| "truthy (JObj d) = (d \<noteq> [])"

text \<open>\<^verbatim>\<open>sort_keys=True\<close>: every object with its keys in code point order.\<close>

fun jsort :: "json \<Rightarrow> json" where
  "jsort (JList xs) = JList (map jsort xs)"
| "jsort (JObj d) = JObj (sort_key fst (map (\<lambda>(k, v). (k, jsort v)) d))"
| "jsort j = j"

section \<open>UUID text\<close>

text \<open>
  A UUID is its 128-bit value. \<open>uuid_str\<close> is \<^verbatim>\<open>str(uuid)\<close>, the 8-4-4-4-12
  form; \<open>uuid_parse\<close> is the constructor \<^verbatim>\<open>UUID(text)\<close>, where \<open>None\<close> is its
  \<open>ValueError\<close>: it drops \<^verbatim>\<open>urn:\<close>, \<^verbatim>\<open>uuid:\<close>, braces and hyphens and wants 32
  hexadecimal digits.
\<close>

type_synonym uuid = nat

definition hexdigit :: "nat \<Rightarrow> nat" where
  "hexdigit n = (if n < 10 then 48 + n else 87 + n)"

definition unhex :: "nat \<Rightarrow> nat option" where
  "unhex c =
     (if 48 \<le> c \<and> c \<le> 57 then Some (c - 48)
      else if 97 \<le> c \<and> c \<le> 102 then Some (c - 87)
      else if 65 \<le> c \<and> c \<le> 70 then Some (c - 55)
      else None)"

primrec hex_digits :: "nat \<Rightarrow> nat \<Rightarrow> pystr" where
  "hex_digits 0 n = []"
| "hex_digits (Suc k) n = hex_digits k (n div 16) @ [hexdigit (n mod 16)]"

fun unhex_digits :: "nat \<Rightarrow> pystr \<Rightarrow> nat option" where
  "unhex_digits acc [] = Some acc"
| "unhex_digits acc (c # cs) =
     (case unhex c of None \<Rightarrow> None | Some d \<Rightarrow> unhex_digits (16 * acc + d) cs)"

definition uuid_str :: "uuid \<Rightarrow> pystr" where
  "uuid_str u =
     (let h = hex_digits 32 u
      in take 8 h @ [45] @ take 4 (drop 8 h) @ [45] @ take 4 (drop 12 h) @ [45]
           @ take 4 (drop 16 h) @ [45] @ drop 20 h)"

definition uuid_parse :: "pystr \<Rightarrow> uuid option" where
  "uuid_parse s =
     (let s1 = py_remove (asc ''uuid:'') (py_remove (asc ''urn:'') s);
          s2 = dropWhile (\<lambda>c. c = 123 \<or> c = 125) s1;
          s3 = rev (dropWhile (\<lambda>c. c = 123 \<or> c = 125) (rev s2));
          h = py_remove [45] s3
      in if length h \<noteq> 32 then None else unhex_digits 0 h)"

lemma asc_simps [simp]:
  "asc [] = []" "asc (c # s) = of_char c # asc s" "asc (s @ t) = asc s @ asc t"
  by (simp_all add: asc_def)

lemma inj_asc: "inj asc"
  unfolding asc_def by (rule inj_mapI) (simp add: inj_on_def)

lemma asc_eq_iff [simp]: "asc s = asc t \<longleftrightarrow> s = t"
  using inj_asc by (auto dest: injD)

lemma length_hex_digits [simp]: "length (hex_digits k n) = k"
  by (induction k arbitrary: n) simp_all

lemma unhex_hexdigit [simp]: "n < 16 \<Longrightarrow> unhex (hexdigit n) = Some n"
  by (auto simp: unhex_def hexdigit_def)

lemma set_hex_digits: "c \<in> set (hex_digits k n) \<Longrightarrow> (48 \<le> c \<and> c \<le> 57) \<or> (97 \<le> c \<and> c \<le> 102)"
proof (induction k arbitrary: n)
  case (Suc k)
  have "n mod 16 < 16" by simp
  then have "(48 \<le> hexdigit (n mod 16) \<and> hexdigit (n mod 16) \<le> 57)
      \<or> (97 \<le> hexdigit (n mod 16) \<and> hexdigit (n mod 16) \<le> 102)"
    by (cases "n mod 16 < 10") (auto simp: hexdigit_def)
  with Suc show ?case by auto
qed simp

lemma unhex_digits_append:
  "unhex_digits acc (s @ t) =
     (case unhex_digits acc s of None \<Rightarrow> None | Some a \<Rightarrow> unhex_digits a t)"
  by (induction acc s rule: unhex_digits.induct) (auto split: option.splits)

lemma unhex_hex_digits: "unhex_digits acc (hex_digits k n) = Some (16 ^ k * acc + n mod 16 ^ k)"
proof (induction k arbitrary: n acc)
  case (Suc k)
  have "n mod 16 ^ Suc k = 16 * (n div 16 mod 16 ^ k) + n mod 16"
    using mod_mult2_eq [of n 16 "16 ^ k"] by simp
  with Suc show ?case by (simp add: unhex_digits_append algebra_simps)
qed simp

lemma py_remove_absent: "p \<noteq> [] \<Longrightarrow> hd p \<notin> set s \<Longrightarrow> py_remove p s = s"
proof (induction p s rule: py_remove.induct)
  case (2 p c cs)
  then have "\<not> starts_with p (c # cs)"
    by (cases p) (auto simp: starts_with_def)
  with 2 show ?case by simp
qed simp

lemma py_remove_char: "py_remove [x] s = filter (\<lambda>c. c \<noteq> x) s"
  by (induction "[x]" s rule: py_remove.induct) (auto simp: starts_with_def)

lemma dropWhile_none: "(\<forall>c \<in> set s. \<not> P c) \<Longrightarrow> dropWhile P s = s"
  by (cases s) auto

lemma filter_all: "(\<forall>c \<in> set s. P c) \<Longrightarrow> filter P s = s"
  by (induction s) auto

lemma set_uuid_str: "c \<in> set (uuid_str u) \<Longrightarrow> c = 45 \<or> (48 \<le> c \<and> c \<le> 57) \<or> (97 \<le> c \<and> c \<le> 102)"
  by (auto simp: uuid_str_def Let_def dest!: in_set_takeD in_set_dropD dest: set_hex_digits)

lemma uuid_str_digits: "filter (\<lambda>c. c \<noteq> 45) (uuid_str u) = hex_digits 32 u"
proof -
  let ?h = "hex_digits 32 u" and ?P = "\<lambda>c::nat. c \<noteq> 45"
  have all: "\<And>t. set t \<subseteq> set ?h \<Longrightarrow> filter ?P t = t"
    using set_hex_digits by (intro filter_all) fastforce
  have sub: "\<And>m n. set (take m (drop n ?h)) \<subseteq> set ?h" "\<And>n. set (drop n ?h) \<subseteq> set ?h"
      "\<And>m. set (take m ?h) \<subseteq> set ?h"
    by (meson set_drop_subset set_take_subset subset_trans)+
  have "filter ?P (uuid_str u) = take 8 ?h @ take 4 (drop 8 ?h) @ take 4 (drop 12 ?h)
      @ take 4 (drop 16 ?h) @ drop 20 ?h"
    by (simp add: uuid_str_def Let_def all sub)
  also have "\<dots> = ?h"
    by (rule nth_equalityI) (auto simp: nth_append not_less)
  finally show ?thesis .
qed

text \<open>Parsing the text of a UUID gives the UUID back.\<close>

lemma uuid_parse_str:
  assumes "u < 2 ^ 128"
  shows "uuid_parse (uuid_str u) = Some u"
proof -
  have nu: "(117::nat) \<notin> set (uuid_str u)" using set_uuid_str by fastforce
  have nb: "\<forall>c \<in> set (uuid_str u). \<not> (c = 123 \<or> c = 125)" using set_uuid_str by fastforce
  have p: "hd (asc ''urn:'') = 117" "hd (asc ''uuid:'') = 117" by simp_all
  have "py_remove (asc ''uuid:'') (py_remove (asc ''urn:'') (uuid_str u)) = uuid_str u"
    using nu by (simp add: py_remove_absent)
  then have "uuid_parse (uuid_str u) = unhex_digits 0 (hex_digits 32 u)"
    using nb by (simp add: uuid_parse_def Let_def dropWhile_none py_remove_char uuid_str_digits)
  also have "\<dots> = Some u" using assms by (simp add: unhex_hex_digits)
  finally show ?thesis .
qed

section \<open>Lists\<close>

lemma find_Some_D: "List.find P xs = Some x \<Longrightarrow> x \<in> set xs \<and> P x"
  by (auto simp: find_Some_iff)

lemma find_None_D: "List.find P xs = None \<Longrightarrow> x \<in> set xs \<Longrightarrow> \<not> P x"
  by (auto simp: find_None_iff)

lemma distinct_map_fst_unique:
  "distinct (map f xs) \<Longrightarrow> x \<in> set xs \<Longrightarrow> y \<in> set xs \<Longrightarrow> f x = f y \<Longrightarrow> x = y"
  by (auto simp: distinct_map dest: inj_onD)

lemma find_unique:
  "distinct (map f xs) \<Longrightarrow> x \<in> set xs \<Longrightarrow> List.find (\<lambda>y. f y = f x) xs = Some x"
  by (induction xs) (auto simp: rev_image_eqI)

text \<open>A page of a sorted list: what is left out sorts after what is in it.\<close>

lemma sorted_take_le:
  assumes "sorted (map f xs)" "x \<in> set (take n xs)" "y \<in> set xs" "y \<notin> set (take n xs)"
  shows "f x \<le> f y"
proof -
  have "y \<in> set (take n xs @ drop n xs)" using assms(3) by simp
  then have y: "y \<in> set (drop n xs)" using assms(4) by (simp only: set_append) blast
  have "sorted (map f (take n xs @ drop n xs))" using assms(1) by simp
  then have "\<forall>a \<in> set (take n xs). \<forall>b \<in> set (drop n xs). f a \<le> f b"
    unfolding map_append sorted_append by simp
  with assms(2) y show ?thesis by blast
qed

end
