(* ===== verification/Models.thy ===== *)
theory Models
  imports PyPrelude
begin

text \<open>
  The relational schema of \<^verbatim>\<open>db/models.py\<close>, the enumerations of \<^verbatim>\<open>types.py\<close>,
  the exceptions of \<^verbatim>\<open>errors.py\<close> and the transaction of \<^verbatim>\<open>db/session.py\<close>.

  A table is the list of its rows in insertion order, a row is a record that
  extends the two mixins of the source (\<open>row\<close>: the UUID key, \<open>vrow\<close>: the
  timestamps and the optimistic-locking version). Every instant is an integer
  number of microseconds. \<^verbatim>\<open>uuid4()\<close> is a counter of the database state that
  never repeats an identifier. A query without \<^verbatim>\<open>ORDER BY\<close> reads the rows in
  table order. The column widths and the foreign keys of the schema are not
  modelled; its unique constraints are (\<open>constraints\<close>), and a commit checks
  them (\<open>run_tx\<close>).
\<close>

section \<open>Enumerations (types.py) and exceptions (errors.py)\<close>

datatype account_state = AccUninitialized | AccActive | AccTemporarilyRestricted | AccRecovery

datatype conversation_state = CActive | CCompleted | CInterrupted | CRecovered | CDeleted

datatype memory_state = MPending | MActive | MOutdated | MMerged | MDeleted

datatype memory_category =
  PersonalFact | Preference | Rule | Decision | Commitment | Event | Note | Other

datatype origin_type = ExplicitCommand | Manual | AssistantSuggestion

datatype run_state = RunRunning | RunAwaiting | RunCompleted | RunFailed | RunCancelled

datatype action_state = APending | ARunning | ACompleted | AFailed | AExpired | ACancelled

datatype job_state = JobQueued | JobRunning | JobCompleted | JobFailed

text \<open>The texts the rows and the JSON details hold for them.\<close>

fun memory_state_str :: "memory_state \<Rightarrow> string" where
  "memory_state_str MPending = ''pending_confirmation''"
| "memory_state_str MActive = ''active''"
| "memory_state_str MOutdated = ''outdated''"
| "memory_state_str MMerged = ''merged''"
| "memory_state_str MDeleted = ''deleted''"

fun memory_category_str :: "memory_category \<Rightarrow> string" where
  "memory_category_str PersonalFact = ''personal_fact''"
| "memory_category_str Preference = ''preference''"
| "memory_category_str Rule = ''rule''"
| "memory_category_str Decision = ''decision''"
| "memory_category_str Commitment = ''commitment''"
| "memory_category_str Event = ''event''"
| "memory_category_str Note = ''note''"
| "memory_category_str Other = ''other''"

fun conversation_state_str :: "conversation_state \<Rightarrow> string" where
  "conversation_state_str CActive = ''active''"
| "conversation_state_str CCompleted = ''completed''"
| "conversation_state_str CInterrupted = ''interrupted''"
| "conversation_state_str CRecovered = ''recovered''"
| "conversation_state_str CDeleted = ''deleted''"

datatype email_state = EmailNotSet | EmailPending | EmailVerified

type_synonym instant = int
type_synonym jdict = "(pystr \<times> json) list"

text \<open>The human-readable message of an exception is left out; its code, HTTP status,
  details and durability are kept.\<close>

record domain_error =
  err_code :: string
  status_code :: int
  err_details :: "json option"
  durable :: bool

datatype exc =
    Domain domain_error
  | ValueError
  | RuntimeError
  | IntegrityError
  | KeyError
  | TypeError
  | AttributeError
  | OverflowError
  | OSError
  | ProviderFailure string

type_synonym 'a result = "exc + 'a"

definition DomainError :: "string \<Rightarrow> int \<Rightarrow> exc" where
  "DomainError c s = Domain \<lparr>err_code = c, status_code = s, err_details = None, durable = False\<rparr>"

definition DomainErrorWith :: "string \<Rightarrow> int \<Rightarrow> json \<Rightarrow> exc" where
  "DomainErrorWith c s j =
     Domain \<lparr>err_code = c, status_code = s, err_details = Some j, durable = False\<rparr>"

definition ConflictError :: "json option \<Rightarrow> exc" where
  "ConflictError j =
     Domain \<lparr>err_code = ''conflict'', status_code = 409, err_details = j, durable = False\<rparr>"

definition NotFoundError :: exc where
  "NotFoundError =
     Domain \<lparr>err_code = ''not_found'', status_code = 404, err_details = None, durable = False\<rparr>"

definition UnauthorizedError :: exc where
  "UnauthorizedError =
     Domain \<lparr>err_code = ''unauthorized'', status_code = 401, err_details = None, durable = True\<rparr>"

definition CapabilityUnavailableError :: "string \<Rightarrow> exc" where
  "CapabilityUnavailableError c =
     Domain \<lparr>err_code = ''capability_unavailable'', status_code = 503,
       err_details = Some (jobj [(''capability'', jstr c)]), durable = False\<rparr>"

lemmas exc_defs = DomainError_def DomainErrorWith_def ConflictError_def NotFoundError_def
  UnauthorizedError_def CapabilityUnavailableError_def

text \<open>\<^verbatim>\<open>exc.durable = True\<close> on a \<open>DomainError\<close>, and the test of \<^verbatim>\<open>db/session.py\<close>.\<close>

fun make_durable :: "exc \<Rightarrow> exc" where
  "make_durable (Domain e) = Domain (e\<lparr>durable := True\<rparr>)"
| "make_durable e = e"

fun is_durable :: "exc \<Rightarrow> bool" where
  "is_durable (Domain e) = durable e"
| "is_durable _ = False"

text \<open>\<^verbatim>\<open>getattr(exc, "code", exc.__class__.__name__)\<close>\<close>

fun error_code_of :: "exc \<Rightarrow> string" where
  "error_code_of (Domain e) = err_code e"
| "error_code_of ValueError = ''ValueError''"
| "error_code_of RuntimeError = ''RuntimeError''"
| "error_code_of IntegrityError = ''IntegrityError''"
| "error_code_of KeyError = ''KeyError''"
| "error_code_of TypeError = ''TypeError''"
| "error_code_of AttributeError = ''AttributeError''"
| "error_code_of OverflowError = ''OverflowError''"
| "error_code_of OSError = ''OSError''"
| "error_code_of (ProviderFailure c) = c"

section \<open>Decisions of the language model (orchestration/contracts.py)\<close>

text \<open>The object that a model answer is parsed into. The column that keeps it in a run holds its
  JSON dump; the model keeps the object itself.\<close>

record memory_proposal =
  mp_content :: pystr
  mp_category :: memory_category
  mp_rationale :: pystr
  mp_event_at :: "pystr option"
  mp_valid_from :: "pystr option"
  mp_valid_until :: "pystr option"
  mp_source_message_id :: "pystr option"

record tool_call_decision =
  tl_name :: string
  tl_arguments :: jdict

record source_reference =
  sf_source_type :: string
  sf_source_id :: pystr
  sf_label :: pystr

record model_decision =
  md_intent :: string
  md_result_type :: string
  md_answer :: pystr
  md_uncertainty :: string
  md_sources :: "source_reference list"
  md_tool_calls :: "tool_call_decision list"
  md_memory_proposal :: "memory_proposal option"
  md_requires_confirmation :: bool

section \<open>Rows (db/models.py)\<close>

record row =
  row_id :: uuid

record vrow = row +
  created_at :: instant
  updated_at :: instant
  version :: int

record system_instance = vrow +
  si_singleton_key :: string
  si_state :: string
  si_specification_revision :: string
  si_initialized_at :: "instant option"
  si_secret_digest :: pystr
  si_secret_consumed_at :: "instant option"
  si_schema_version :: string

record worker_heartbeat = vrow +
  wh_worker_id :: string
  wh_state :: string
  wh_last_seen_at :: instant
  wh_details :: jdict

record account = vrow +
  acc_username :: pystr
  acc_state :: account_state
  acc_failed_login_count :: nat
  acc_restricted_until :: "instant option"
  acc_last_login_at :: "instant option"

record profile = vrow +
  pr_account_id :: uuid
  pr_display_name :: pystr
  pr_email :: "pystr option"
  pr_pending_email :: "pystr option"
  pr_email_state :: email_state
  pr_email_verified_at :: "instant option"
  pr_locale :: string
  pr_timezone :: string

record credential = vrow +
  cr_account_id :: uuid
  cr_password_hash :: pystr
  cr_algorithm :: string
  cr_changed_at :: instant

record auth_session = row +
  as_account_id :: uuid
  as_secret_digest :: pystr
  as_csrf_digest :: pystr
  as_created_at :: instant
  as_last_activity_at :: instant
  as_expires_at :: instant
  as_absolute_expires_at :: instant
  as_revoked_at :: "instant option"
  as_revoke_reason :: "string option"
  as_network_prefix :: "string option"
  as_user_agent_summary :: "string option"
  as_device_label :: "pystr option"
  as_active_voice_session_id :: "uuid option"

record security_token = row +
  tk_account_id :: uuid
  tk_purpose :: string
  tk_digest :: pystr
  tk_target_digest :: "pystr option"
  tk_created_at :: instant
  tk_expires_at :: instant
  tk_used_at :: "instant option"
  tk_invalidated_at :: "instant option"
  tk_attempt_count :: nat

record voice_key = vrow +
  vk_key_prefix :: pystr
  vk_secret_digest :: pystr
  vk_scope :: string
  vk_last_used_at :: "instant option"
  vk_revoked_at :: "instant option"
  vk_revoke_reason :: "string option"
  vk_created_by_account_id :: "uuid option"

record access_notice = row +
  sn_account_id :: uuid
  sn_api_key_id :: "uuid option"
  sn_occurred_at :: instant
  sn_result :: string
  sn_endpoint :: string
  sn_network_context :: "string option"
  sn_correlation_id :: "string option"
  sn_acknowledged_at :: "instant option"

record provider_row = vrow +
  pv_type :: string
  pv_display_name :: pystr
  pv_base_url :: pystr
  pv_enabled :: bool
  pv_verification_state :: string
  pv_verified_at :: "instant option"
  pv_catalog_refreshed_at :: "instant option"
  pv_catalog_state :: string
  pv_last_error_code :: "string option"
  pv_capabilities :: jdict
  pv_secret_id :: "uuid option"

text \<open>The column of the ciphertext holds the JSON text of this object; the model keeps the object.\<close>

record encrypted_value =
  ev_key_version :: nat
  ev_nonce :: pystr
  ev_ciphertext :: pystr
  ev_associated_data :: pystr

record secret_row = vrow +
  es_purpose :: pystr
  es_ciphertext :: encrypted_value
  es_key_version :: nat
  es_masked_hint :: pystr
  es_verified_at :: "instant option"
  es_revoked_at :: "instant option"

record setting_row = vrow +
  st_area :: string
  st_key :: string
  st_value :: jdict
  st_schema_version :: string
  st_effect_boundary :: string
  st_changed_by :: "uuid option"

record setting_revision = row +
  sr_setting_id :: uuid
  sr_revision_number :: int
  sr_value :: jdict
  sr_effect_boundary :: string
  sr_changed_by :: "uuid option"
  sr_created_at :: instant
  sr_change_kind :: string

record catalog_entry = vrow +
  mc_provider_id :: uuid
  mc_external_id :: pystr
  mc_display_name :: pystr
  mc_role :: string
  mc_capabilities :: jdict
  mc_available :: bool
  mc_last_seen_at :: instant

record conversation = vrow +
  cv_account_id :: uuid
  cv_state :: conversation_state
  cv_input_mode :: string
  cv_language :: pystr
  cv_title :: "pystr option"
  cv_title_source :: string
  cv_summary :: "pystr option"
  cv_summary_source :: string
  cv_started_at :: instant
  cv_ended_at :: "instant option"
  cv_last_activity_at :: instant
  cv_end_reason :: "string option"
  cv_continuation_of_id :: "uuid option"
  cv_deleted_at :: "instant option"
  cv_purge_after :: "instant option"
  cv_message_count :: nat
  cv_context_summary :: "pystr option"
  cv_context_summary_version :: nat

record message = vrow +
  ms_conversation_id :: uuid
  ms_sequence :: nat
  ms_role :: string
  ms_content :: pystr
  ms_input_mode :: string
  ms_status :: string
  ms_idempotency_key :: pystr
  ms_request_hash :: "pystr option"
  ms_provider_message_id :: "pystr option"
  ms_response_run_id :: "uuid option"
  ms_interrupted :: bool
  ms_audio_played_until_ms :: "int option"
  ms_finalized_at :: "instant option"
  ms_metadata_json :: jdict

record run_row = vrow +
  rn_account_id :: uuid
  rn_conversation_id :: uuid
  rn_source_message_id :: uuid
  rn_response_message_id :: "uuid option"
  rn_state :: run_state
  rn_intent :: "string option"
  rn_orchestration_version :: string
  rn_prompt_version :: string
  rn_provider_id :: "uuid option"
  rn_model_id :: "uuid option"
  rn_context_manifest :: json
  rn_decision :: "model_decision option"
  rn_attempt_count :: nat
  rn_started_at :: instant
  rn_completed_at :: "instant option"
  rn_cancelled_at :: "instant option"
  rn_usage :: json
  rn_error_code :: "string option"

record attempt_row = row +
  at_run_id :: uuid
  at_attempt_number :: nat
  at_provider_id :: uuid
  at_model_id :: uuid
  at_state :: run_state
  at_provider_response_id :: "pystr option"
  at_started_at :: instant
  at_completed_at :: "instant option"
  at_latency_ms :: "int option"
  at_usage :: json
  at_error_code :: "string option"

record tool_action = vrow +
  ta_run_id :: uuid
  ta_name :: string
  ta_contract_version :: string
  ta_arguments :: json
  ta_arguments_hash :: pystr
  ta_side_effect :: string
  ta_confirmation_required :: bool
  ta_state :: action_state
  ta_preview :: json
  ta_expected_target_version :: "int option"
  ta_expires_at :: "instant option"
  ta_idempotency_key :: pystr
  ta_confirmed_at :: "instant option"
  ta_completed_at :: "instant option"
  ta_result :: "json option"
  ta_error_code :: "string option"

record message_revision = row +
  mr_message_id :: uuid
  mr_revision_number :: int
  mr_original_content :: pystr
  mr_revised_content :: pystr
  mr_reason :: string
  mr_created_at :: instant
  mr_created_by :: uuid

record conversation_link = row +
  cl_source_id :: uuid
  cl_target_id :: uuid
  cl_relation :: string
  cl_created_at :: instant

record conversation_summary = row +
  cs_conversation_id :: uuid
  cs_revision_number :: int
  cs_title :: pystr
  cs_summary :: pystr
  cs_source :: string
  cs_created_at :: instant

record memory_item = vrow +
  mi_account_id :: uuid
  mi_content :: pystr
  mi_category :: memory_category
  mi_state :: memory_state
  mi_origin_type :: origin_type
  mi_event_at :: "instant option"
  mi_valid_from :: "instant option"
  mi_valid_until :: "instant option"
  mi_original_expression :: "pystr option"
  mi_keywords :: "pystr list"
  mi_merged_into_id :: "uuid option"
  mi_deleted_at :: "instant option"
  mi_purge_after :: "instant option"
  mi_confirmed_at :: "instant option"

record memory_snapshot =
  sn_content :: pystr
  sn_category :: memory_category
  sn_state :: memory_state
  sn_event_at :: "instant option"
  sn_valid_from :: "instant option"
  sn_valid_until :: "instant option"
  sn_keywords :: "pystr list"

record memory_version = row +
  mv_memory_id :: uuid
  mv_version_number :: int
  mv_content :: pystr
  mv_category :: memory_category
  mv_state :: memory_state
  mv_change_kind :: string
  mv_changed_by :: uuid
  mv_changed_at :: instant
  mv_snapshot :: memory_snapshot

record memory_source = row +
  mo_memory_id :: uuid
  mo_source_type :: origin_type
  mo_conversation_id :: "uuid option"
  mo_message_id :: "uuid option"
  mo_source_excerpt :: "pystr option"
  mo_manual_reference :: "pystr option"
  mo_created_at :: instant

record search_document = vrow +
  sd_owner_type :: string
  sd_owner_id :: uuid
  sd_account_id :: uuid
  sd_searchable_text :: pystr
  sd_language :: string
  sd_source_version :: int
  sd_stale :: bool
  sd_indexed_at :: instant

record search_embedding = vrow +
  se_document_id :: uuid
  se_model_id :: pystr
  se_dimensions :: nat
  se_embedding_text :: pystr
  se_source_hash :: pystr
  se_vector_data :: pystr

record job_row = vrow +
  jb_kind :: string
  jb_state :: job_state
  jb_payload :: jdict
  jb_priority :: int
  jb_available_at :: instant
  jb_locked_at :: "instant option"
  jb_locked_by :: "string option"
  jb_attempts :: nat
  jb_max_attempts :: nat
  jb_last_error_code :: "string option"
  jb_completed_at :: "instant option"
  jb_correlation_id :: "string option"

record outbox_event = row +
  ob_aggregate_type :: string
  ob_aggregate_id :: uuid
  ob_event_type :: string
  ob_payload :: jdict
  ob_sequence :: int
  ob_created_at :: instant
  ob_published_at :: "instant option"
  ob_attempts :: nat
  ob_last_error_code :: "string option"

record delivery_row = vrow +
  nd_kind :: string
  nd_recipient_digest :: pystr
  nd_state :: string
  nd_provider_message_id :: "pystr option"
  nd_template_id :: string
  nd_safe_parameters :: jdict
  nd_sent_at :: "instant option"
  nd_failed_at :: "instant option"
  nd_error_code :: "string option"

record audit_event =
  ae_id :: nat
  ae_occurred_at :: instant
  ae_actor_type :: string
  ae_actor_id :: "uuid option"
  ae_session_id :: "uuid option"
  ae_event_type :: string
  ae_target_type :: "string option"
  ae_target_id :: "uuid option"
  ae_result :: string
  ae_network_context :: "string option"
  ae_correlation_id :: "string option"
  ae_details :: jdict
  ae_previous_hash :: "pystr option"
  ae_event_hash :: pystr

record backup_record = vrow +
  bk_backup_type :: string
  bk_state :: string
  bk_started_at :: instant
  bk_completed_at :: "instant option"
  bk_repository_name :: string
  bk_stanza :: string
  bk_label :: "pystr option"
  bk_manifest_digest :: "pystr option"
  bk_verified_at :: "instant option"
  bk_restore_tested_at :: "instant option"
  bk_size_bytes :: "int option"
  bk_error_code :: "string option"

record export_record = vrow +
  ex_account_id :: uuid
  ex_kind :: string
  ex_state :: string
  ex_format :: string
  ex_scope :: jdict
  ex_file_path :: "pystr option"
  ex_file_digest :: "pystr option"
  ex_expires_at :: "instant option"
  ex_completed_at :: "instant option"
  ex_error_code :: "string option"

section \<open>The database\<close>

record db =
  next_id :: uuid
  instances :: "system_instance list"
  heartbeats :: "worker_heartbeat list"
  accounts :: "account list"
  profiles :: "profile list"
  credentials :: "credential list"
  auth_sessions :: "auth_session list"
  security_tokens :: "security_token list"
  voice_keys :: "voice_key list"
  access_notices :: "access_notice list"
  providers :: "provider_row list"
  secrets :: "secret_row list"
  settings :: "setting_row list"
  setting_revisions :: "setting_revision list"
  catalog :: "catalog_entry list"
  conversations :: "conversation list"
  messages :: "message list"
  runs :: "run_row list"
  attempts :: "attempt_row list"
  actions :: "tool_action list"
  revisions :: "message_revision list"
  links :: "conversation_link list"
  summaries :: "conversation_summary list"
  memories :: "memory_item list"
  memory_versions :: "memory_version list"
  memory_sources :: "memory_source list"
  search_documents :: "search_document list"
  search_embeddings :: "search_embedding list"
  jobs :: "job_row list"
  outbox :: "outbox_event list"
  deliveries :: "delivery_row list"
  audit_events :: "audit_event list"
  backups :: "backup_record list"
  exports :: "export_record list"

section \<open>Queries and updates\<close>

text \<open>
  \<open>get_row\<close> is \<^verbatim>\<open>session.get(Model, id)\<close>, \<open>query_one\<close> is
  \<^verbatim>\<open>session.scalar(select(Model).where(...))\<close>, \<open>update_where\<close> a bulk
  \<^verbatim>\<open>UPDATE ... WHERE\<close>. \<open>save_row\<close> is the flush of one changed object: its row is
  replaced and, as the mixin's \<^verbatim>\<open>onupdate\<close> says, its \<open>updated_at\<close> is set.
\<close>

definition get_row :: "uuid \<Rightarrow> 'a row_scheme list \<Rightarrow> 'a row_scheme option" where
  "get_row i t = List.find (\<lambda>r. row_id r = i) t"

definition query_one :: "('r \<Rightarrow> bool) \<Rightarrow> 'r list \<Rightarrow> 'r option" where
  "query_one P t = List.find P t"

definition put_row :: "'a row_scheme \<Rightarrow> 'a row_scheme list \<Rightarrow> 'a row_scheme list" where
  "put_row r t = map (\<lambda>x. if row_id x = row_id r then r else x) t"

definition save_row :: "instant \<Rightarrow> 'a vrow_scheme \<Rightarrow> 'a vrow_scheme list \<Rightarrow> 'a vrow_scheme list" where
  "save_row now r t = put_row (r\<lparr>updated_at := now\<rparr>) t"

definition update_where :: "('r \<Rightarrow> bool) \<Rightarrow> ('r \<Rightarrow> 'r) \<Rightarrow> 'r list \<Rightarrow> 'r list" where
  "update_where P f t = map (\<lambda>r. if P r then f r else r) t"

definition fresh :: "db \<Rightarrow> db" where
  "fresh d = d\<lparr>next_id := Suc (next_id d)\<rparr>"

text \<open>A table whose keys are distinct and below the next identifier.\<close>

definition keyed :: "uuid \<Rightarrow> 'a row_scheme list \<Rightarrow> bool" where
  "keyed n t \<longleftrightarrow> distinct (map row_id t) \<and> (\<forall>r \<in> set t. row_id r < n)"

lemma map_row_id_put_row [simp, table_simps]: "map row_id (put_row r t) = map row_id t"
  by (auto simp: put_row_def)

lemma keyed_put_row [simp, table_simps]: "keyed n (put_row r t) \<longleftrightarrow> keyed n t"
proof -
  have "set (map row_id (put_row r t)) = set (map row_id t)" by simp
  then have "(\<forall>x \<in> set (put_row r t). row_id x < n) \<longleftrightarrow> (\<forall>x \<in> set t. row_id x < n)"
    by (metis (mono_tags, lifting) imageE image_eqI set_map)
  then show ?thesis by (simp add: keyed_def)
qed

lemma keyed_save_row [simp, table_simps]: "keyed n (save_row now r t) \<longleftrightarrow> keyed n t"
  by (simp add: save_row_def)

lemma keyed_mono: "keyed n t \<Longrightarrow> n \<le> m \<Longrightarrow> keyed m t"
  by (auto simp: keyed_def)

lemma keyed_Nil [simp]: "keyed n []"
  by (simp add: keyed_def)

lemma keyed_append_new: "keyed n t \<Longrightarrow> n \<le> row_id r \<Longrightarrow> row_id r < m \<Longrightarrow> n \<le> m \<Longrightarrow> keyed m (t @ [r])"
  by (auto simp: keyed_def)

lemma get_row_Some: "get_row i t = Some r \<Longrightarrow> r \<in> set t \<and> row_id r = i"
  unfolding get_row_def by (rule find_Some_D)

lemma get_row_id [dest]: "get_row i t = Some r \<Longrightarrow> row_id r = i"
  by (simp add: get_row_Some)

lemma get_row_mem: "keyed n t \<Longrightarrow> r \<in> set t \<Longrightarrow> get_row (row_id r) t = Some r"
  unfolding get_row_def keyed_def by (simp add: find_unique)

lemma get_row_iff: "keyed n t \<Longrightarrow> get_row i t = Some r \<longleftrightarrow> r \<in> set t \<and> row_id r = i"
  using get_row_mem get_row_Some by blast

lemma keyed_unique: "keyed n t \<Longrightarrow> x \<in> set t \<Longrightarrow> y \<in> set t \<Longrightarrow> row_id x = row_id y \<Longrightarrow> x = y"
  unfolding keyed_def by (blast intro: distinct_map_fst_unique)

lemma get_row_fresh: "keyed n t \<Longrightarrow> n \<le> i \<Longrightarrow> get_row i t = None"
  by (auto simp: get_row_def keyed_def find_None_iff)

lemma get_row_Cons [simp]: "get_row i (r # t) = (if row_id r = i then Some r else get_row i t)"
  by (simp add: get_row_def)

lemma get_row_Nil [simp]: "get_row i [] = None"
  by (simp add: get_row_def)

lemma get_row_append:
  "get_row i (t @ u) = (case get_row i t of None \<Rightarrow> get_row i u | Some r \<Rightarrow> Some r)"
  by (induction t) simp_all

lemma get_row_map:
  assumes "\<And>r. row_id (f r) = row_id r"
  shows "get_row i (map f t) = map_option f (get_row i t)"
  using assms by (induction t) auto

lemma get_row_put_row [table_simps]:
  "get_row i (put_row r t) =
     (if i = row_id r then (if get_row i t = None then None else Some r) else get_row i t)"
  by (induction t) (auto simp: put_row_def)

lemma get_row_save_row [table_simps]:
  "get_row i (save_row now r t) =
     (if i = row_id r then (if get_row i t = None then None else Some (r\<lparr>updated_at := now\<rparr>))
      else get_row i t)"
  by (simp add: save_row_def get_row_put_row)

lemma get_row_update_where [table_simps]:
  assumes "\<And>r. row_id (f r) = row_id r"
  shows "get_row i (update_where P f t) = map_option (\<lambda>r. if P r then f r else r) (get_row i t)"
  using assms by (induction t) (auto simp: update_where_def)

lemma keyed_update_where [table_simps]:
  assumes "\<And>r. row_id (f r) = row_id r"
  shows "keyed n (update_where P f t) \<longleftrightarrow> keyed n t"
proof -
  have "map row_id (update_where P f t) = map row_id t"
    using assms by (auto simp: update_where_def)
  then show ?thesis
    unfolding keyed_def by (metis (no_types, lifting) in_set_conv_nth length_map nth_map)
qed

text \<open>A query for a key and a further condition.\<close>

lemma query_one_owned:
  assumes "keyed n t"
  shows "query_one (\<lambda>r. row_id r = i \<and> Q r) t =
    (case get_row i t of None \<Rightarrow> None | Some r \<Rightarrow> if Q r then Some r else None)"
  using assms
proof (induction t)
  case (Cons x t)
  then have k: "keyed n t" by (simp add: keyed_def)
  show ?case
  proof (cases "row_id x = i")
    case True
    have "\<And>r. r \<in> set t \<Longrightarrow> row_id r \<noteq> i"
      using Cons.prems True by (auto simp: keyed_def image_iff)
    then have "query_one (\<lambda>r. row_id r = i \<and> Q r) t = None"
      by (auto simp: query_one_def find_None_iff)
    with True show ?thesis by (simp add: query_one_def)
  next
    case False
    with Cons.IH [OF k] show ?thesis by (simp add: query_one_def)
  qed
qed (simp add: query_one_def)

lemma query_one_Some: "query_one P t = Some r \<Longrightarrow> r \<in> set t \<and> P r"
  unfolding query_one_def by (rule find_Some_D)

lemma query_one_None: "query_one P t = None \<longleftrightarrow> (\<forall>r \<in> set t. \<not> P r)"
  by (auto simp: query_one_def find_None_iff)

lemma query_one_put_row:
  assumes "keyed n t" "query_one P t = Some r" "P r'" "row_id r' = row_id r"
  shows "query_one P (put_row r' t) = Some r'"
  using assms
proof (induction t)
  case (Cons x t)
  then have k: "keyed n t" by (simp add: keyed_def)
  show ?case
  proof (cases "P x")
    case True
    with Cons.prems show ?thesis by (simp add: query_one_def put_row_def)
  next
    case False
    then have q: "query_one P t = Some r" using Cons.prems(2) by (simp add: query_one_def)
    then have "r \<in> set t" by (auto simp: query_one_def dest: find_Some_D)
    then have "row_id x \<noteq> row_id r" using Cons.prems(1) by (auto simp: keyed_def)
    with Cons.IH [OF k q] Cons.prems(3,4) False show ?thesis by (simp add: query_one_def put_row_def)
  qed
qed (simp add: query_one_def)

lemma query_one_put_row_other:
  assumes "\<And>x. x \<in> set t \<Longrightarrow> row_id x = row_id r \<Longrightarrow> \<not> P x" "\<not> P r"
  shows "query_one P (put_row r t) = query_one P t"
  using assms by (induction t) (auto simp: query_one_def put_row_def)

lemma query_one_snoc:
  "query_one P (t @ [r]) = (case query_one P t of Some x \<Rightarrow> Some x | None \<Rightarrow> if P r then Some r else None)"
  by (induction t) (auto simp: query_one_def)

lemma map_put_row:
  assumes "keyed n t" "r \<in> set t" "row_id r' = row_id r" "f r' = f r"
  shows "map f (put_row r' t) = map f t"
  using assms keyed_unique by (fastforce simp: put_row_def)

lemma set_put_row:
  "keyed n t \<Longrightarrow> get_row (row_id r) t \<noteq> None \<Longrightarrow>
     set (put_row r t) = insert r {x \<in> set t. row_id x \<noteq> row_id r}"
  by (auto simp: put_row_def get_row_def find_None_iff image_iff)

lemma filter_put_row:
  "(\<And>x. row_id x = row_id r \<Longrightarrow> x \<in> set t \<Longrightarrow> \<not> P x) \<Longrightarrow> \<not> P r \<Longrightarrow> filter P (put_row r t) = filter P t"
  by (induction t) (auto simp: put_row_def)

section \<open>Constraints and transactions (db/session.py)\<close>

definition unique_by :: "('r \<Rightarrow> 'k) \<Rightarrow> 'r list \<Rightarrow> bool" where
  "unique_by f t \<longleftrightarrow> distinct (map f t)"

definition constraints :: "db \<Rightarrow> bool" where
  "constraints d \<longleftrightarrow>
     unique_by si_singleton_key (instances d)
   \<and> unique_by wh_worker_id (heartbeats d)
   \<and> unique_by acc_username (accounts d)
   \<and> unique_by pr_account_id (profiles d)
   \<and> unique_by cr_account_id (credentials d)
   \<and> unique_by as_secret_digest (auth_sessions d)
   \<and> unique_by tk_digest (security_tokens d)
   \<and> unique_by vk_key_prefix (voice_keys d)
   \<and> unique_by vk_secret_digest (voice_keys d)
   \<and> unique_by (\<lambda>r. (pv_type r, pv_display_name r)) (providers d)
   \<and> unique_by (\<lambda>r. (st_area r, st_key r)) (settings d)
   \<and> unique_by (\<lambda>r. (sr_setting_id r, sr_revision_number r)) (setting_revisions d)
   \<and> unique_by (\<lambda>r. (mc_provider_id r, mc_external_id r, mc_role r)) (catalog d)
   \<and> unique_by (\<lambda>r. (ms_conversation_id r, ms_sequence r)) (messages d)
   \<and> unique_by (\<lambda>r. (ms_conversation_id r, ms_idempotency_key r)) (messages d)
   \<and> (\<forall>r \<in> set (messages d). 0 < ms_sequence r)
   \<and> unique_by rn_source_message_id (runs d)
   \<and> unique_by (\<lambda>r. (at_run_id r, at_attempt_number r)) (attempts d)
   \<and> unique_by ta_idempotency_key (actions d)
   \<and> unique_by (\<lambda>r. (mr_message_id r, mr_revision_number r)) (revisions d)
   \<and> unique_by (\<lambda>r. (cl_source_id r, cl_target_id r, cl_relation r)) (links d)
   \<and> unique_by (\<lambda>r. (cs_conversation_id r, cs_revision_number r)) (summaries d)
   \<and> unique_by (\<lambda>r. (mv_memory_id r, mv_version_number r)) (memory_versions d)
   \<and> unique_by (\<lambda>r. (sd_owner_type r, sd_owner_id r)) (search_documents d)
   \<and> unique_by (\<lambda>r. (se_document_id r, se_model_id r)) (search_embeddings d)
   \<and> unique_by (\<lambda>r. (ob_aggregate_type r, ob_aggregate_id r, ob_sequence r)) (outbox d)"

text \<open>
  \<^verbatim>\<open>Database.session\<close>: commit on success, commit on a durable exception, roll
  back on any other. A commit that would break a constraint raises
  \<open>IntegrityError\<close> and leaves the database as it was.
\<close>

definition commit :: "'a result \<Rightarrow> db \<Rightarrow> db \<Rightarrow> 'a result \<times> db" where
  "commit r d d' = (if constraints d' then (r, d') else (Inl IntegrityError, d))"

definition run_tx :: "(db \<Rightarrow> 'a result \<times> db) \<Rightarrow> db \<Rightarrow> 'a result \<times> db" where
  "run_tx f d =
     (case f d of
        (Inr v, d') \<Rightarrow> commit (Inr v) d d'
      | (Inl e, d') \<Rightarrow> if is_durable e then commit (Inl e) d d' else (Inl e, d))"

lemma run_tx_constraints: "constraints d \<Longrightarrow> run_tx f d = (r, d') \<Longrightarrow> constraints d'"
  by (auto simp: run_tx_def commit_def split: prod.splits sum.splits if_splits)

text \<open>An exception that is not durable leaves no trace.\<close>

lemma run_tx_rollback: "run_tx f d = (Inl e, d') \<Longrightarrow> \<not> is_durable e \<Longrightarrow> d' = d"
  by (auto simp: run_tx_def commit_def split: prod.splits sum.splits if_splits)

lemma run_tx_commitD: "run_tx f d = (Inr v, d') \<Longrightarrow> f d = (Inr v, d') \<and> constraints d'"
  by (auto simp: run_tx_def commit_def split: prod.splits sum.splits if_splits)

lemma run_tx_failed:
  assumes "run_tx f d = (Inl e, d')" "\<And>e d'. f d = (Inl e, d') \<Longrightarrow> \<not> is_durable e"
  shows "d' = d"
  using assms by (auto simp: run_tx_def commit_def split: prod.splits sum.splits if_splits)

lemma run_tx_step:
  assumes "run_tx f d = (r, d')" "\<And>e d'. f d = (Inl e, d') \<Longrightarrow> \<not> is_durable e"
  shows "d' = d \<or> (\<exists>v. f d = (Inr v, d'))"
  using assms run_tx_failed [of f d _ d'] run_tx_commitD [of f d _ d'] by (cases r) blast+

lemma run_tx_state:
  "run_tx f d = (r, d') \<Longrightarrow> d' = d \<or> d' = snd (f d) \<and> constraints d'"
  by (auto simp: run_tx_def commit_def split: prod.splits sum.splits if_splits)

lemma not_isl_result: "\<not> isl (fst x) \<Longrightarrow> \<exists>r d'. x = (Inr r, d')"
  by (metis isl_def prod.collapse sum.exhaust)

section \<open>What the services rely on outside the repository\<close>

text \<open>
  The cryptographic primitives are parameters of the model: the hexadecimal
  SHA-256 of a text, the SHA-256 of the compact JSON text with sorted keys
  (\<open>canonical_digest\<close>, the pattern of the audit chain, of the idempotency
  hash and of the action hash), and the Argon2 functions of the password
  hasher (\<open>pw_verify\<close> is \<open>None\<close> where the library raises a mismatch or an
  invalid hash).
\<close>

record crypto =
  sha256 :: "pystr \<Rightarrow> pystr"
  json_sha256 :: "json \<Rightarrow> pystr"
  pw_hash :: "pystr \<Rightarrow> pystr"
  pw_verify :: "pystr \<Rightarrow> pystr \<Rightarrow> bool option"
  pw_needs_rehash :: "pystr \<Rightarrow> bool"

definition canonical_digest :: "crypto \<Rightarrow> json \<Rightarrow> pystr" where
  "canonical_digest c j = json_sha256 c (jsort j)"

text \<open>Durations in microseconds.\<close>

definition seconds :: "int \<Rightarrow> int" where
  "seconds n = n * 1000000"

definition minutes :: "int \<Rightarrow> int" where
  "minutes n = seconds (60 * n)"

definition hours :: "int \<Rightarrow> int" where
  "hours n = minutes (60 * n)"

definition days :: "int \<Rightarrow> int" where
  "days n = hours (24 * n)"

section \<open>The transactional outbox\<close>

text \<open>\<^verbatim>\<open>session.add(OutboxEvent(...))\<close>, as the services write it.\<close>

definition add_outbox ::
  "instant \<Rightarrow> string \<Rightarrow> uuid \<Rightarrow> string \<Rightarrow> jdict \<Rightarrow> int \<Rightarrow> db \<Rightarrow> db" where
  "add_outbox now agg i ety payload sq d =
     (fresh d)\<lparr>outbox := outbox d @
        [\<lparr>row_id = next_id d, ob_aggregate_type = agg, ob_aggregate_id = i, ob_event_type = ety,
          ob_payload = payload, ob_sequence = sq, ob_created_at = now, ob_published_at = None,
          ob_attempts = 0, ob_last_error_code = None\<rparr>]\<rparr>"

lemma constraints_audit_events [simp]: "constraints (d\<lparr>audit_events := e\<rparr>) = constraints d"
  by (simp add: constraints_def)

lemma constraints_next_id [simp]: "constraints (d\<lparr>next_id := n\<rparr>) = constraints d"
  by (simp add: constraints_def)

lemma fresh_sel [simp]: "next_id (fresh d) = Suc (next_id d)" "constraints (fresh d) = constraints d"
  by (simp_all add: fresh_def)

section \<open>A concrete instance for evaluation\<close>

text \<open>The empty database, and primitives that satisfy what is asked of the real ones where
  a theorem asks something: used only to evaluate definitions on concrete inputs.\<close>

definition empty_db :: db where
  "empty_db = \<lparr>next_id = 1, instances = [], heartbeats = [], accounts = [], profiles = [],
     credentials = [], auth_sessions = [], security_tokens = [], voice_keys = [],
     access_notices = [], providers = [], secrets = [], settings = [], setting_revisions = [],
     catalog = [], conversations = [], messages = [], runs = [], attempts = [], actions = [],
     revisions = [], links = [], summaries = [], memories = [], memory_versions = [],
     memory_sources = [], search_documents = [], search_embeddings = [], jobs = [], outbox = [],
     deliveries = [], audit_events = [], backups = [], exports = []\<rparr>"

definition plain_crypto :: crypto where
  "plain_crypto = \<lparr>sha256 = (\<lambda>s. 35 # s), json_sha256 = (\<lambda>j. [48]), pw_hash = (\<lambda>p. 36 # p),
     pw_verify = (\<lambda>h p. if h = 36 # p then Some True else None), pw_needs_rehash = (\<lambda>h. False)\<rparr>"

text \<open>A digest that keeps the whole value, for inputs where different values must differ.\<close>

fun json_code :: "json \<Rightarrow> pystr" where
  "json_code JNull = [0]"
| "json_code (JBool b) = [1, if b then 1 else 0]"
| "json_code (JInt i) = [2, nat (if 0 \<le> i then 2 * i else - 2 * i - 1)]"
| "json_code (JFloat w) = [3, unat w]"
| "json_code (JStr s) = 4 # length s # s"
| "json_code (JList js) = 5 # length js # concat (map json_code js)"
| "json_code (JObj d) = 6 # length d # concat (map (\<lambda>(k, v). length k # k @ json_code v) d)"

definition text_crypto :: crypto where
  "text_crypto = plain_crypto\<lparr>json_sha256 := json_code\<rparr>"

lemma constraints_empty [simp]: "constraints empty_db"
  by (simp add: constraints_def unique_by_def empty_db_def)

end
