(* ===== verification/AuditLog.thy ===== *)
theory AuditLog
  imports Models
begin

text \<open>
  \<^verbatim>\<open>audit/service.py\<close>: the append-only hash chain of audit events, the
  sanitising of event details, and the check of the chain that
  \<^verbatim>\<open>GET /operations/audit/integrity\<close> and the backup agent share. The interface
  \<open>audit_log\<close> states what the other services rely on: one event more, linked
  to the last, and nothing else touched.
\<close>

section \<open>Definitions\<close>

record audit_context =
  ac_actor_type :: string
  ac_actor_id :: "uuid option"
  ac_session_id :: "uuid option"
  ac_network_context :: "string option"
  ac_correlation_id :: "string option"

definition system_context :: "string \<Rightarrow> uuid option \<Rightarrow> audit_context" where
  "system_context t i = \<lparr>ac_actor_type = t, ac_actor_id = i, ac_session_id = None,
     ac_network_context = None, ac_correlation_id = None\<rparr>"

definition forbidden_words :: "pystr list" where
  "forbidden_words = map asc [''password'', ''token'', ''secret'', ''api_key'', ''authorization'',
     ''content'', ''transcript'']"

definition forbidden_key :: "pystr \<Rightarrow> bool" where
  "forbidden_key k \<longleftrightarrow> (\<exists>w \<in> set forbidden_words. contains w (casefold k))"

text \<open>\<open>_sanitize\<close>, on the items of one object. \<open>sanitize_value\<close> is the chain of
  \<^verbatim>\<open>isinstance\<close> tests for a key that is not forbidden; in a list only the objects
  directly in it are sanitised.\<close>

fun sanitize :: "jdict \<Rightarrow> jdict"
and sanitize_value :: "json \<Rightarrow> json"
and sanitize_items :: "json list \<Rightarrow> json list" where
  "sanitize [] = []"
| "sanitize ((k, v) # d) =
     (k, if forbidden_key k then jstr ''[redacted]'' else sanitize_value v) # sanitize d"
| "sanitize_value (JObj d) = JObj (sanitize d)"
| "sanitize_value (JList xs) = JList (sanitize_items xs)"
| "sanitize_value (JStr s) = JStr (if length s > 500 then take 500 s else s)"
| "sanitize_value v = v"
| "sanitize_items [] = []"
| "sanitize_items (x # xs) =
     (case x of JObj d \<Rightarrow> JObj (sanitize d) | _ \<Rightarrow> x) # sanitize_items xs"

definition opt_uuid :: "uuid option \<Rightarrow> json" where
  "opt_uuid u = (case u of None \<Rightarrow> JNull | Some i \<Rightarrow> JStr (uuid_str i))"

definition opt_str :: "string option \<Rightarrow> json" where
  "opt_str s = (case s of None \<Rightarrow> JNull | Some t \<Rightarrow> jstr t)"

text \<open>The object whose compact JSON text is hashed. The instant stands for its ISO text.\<close>

definition canonical_items :: "audit_event \<Rightarrow> pystr option \<Rightarrow> (string \<times> json) list" where
  "canonical_items e prev =
     [(''occurred_at'', JInt (ae_occurred_at e)),
           (''actor_type'', jstr (ae_actor_type e)),
           (''actor_id'', opt_uuid (ae_actor_id e)),
           (''session_id'', opt_uuid (ae_session_id e)),
           (''event_type'', jstr (ae_event_type e)),
           (''target_type'', opt_str (ae_target_type e)),
           (''target_id'', opt_uuid (ae_target_id e)),
           (''result'', jstr (ae_result e)),
           (''network_context'', opt_str (ae_network_context e)),
           (''correlation_id'', opt_str (ae_correlation_id e)),
           (''details'', JObj (ae_details e)),
           (''previous_hash'', case prev of None \<Rightarrow> JNull | Some h \<Rightarrow> JStr h)]"

definition canonical :: "audit_event \<Rightarrow> pystr option \<Rightarrow> json" where
  "canonical e prev = jobj (canonical_items e prev)"

definition last_hash :: "audit_event list \<Rightarrow> pystr option" where
  "last_hash es = (if es = [] then None else Some (ae_event_hash (last es)))"

definition append_event ::
  "crypto \<Rightarrow> instant \<Rightarrow> audit_context \<Rightarrow> string \<Rightarrow> string \<Rightarrow> string option \<Rightarrow> uuid option
    \<Rightarrow> jdict \<Rightarrow> audit_event list \<Rightarrow> audit_event list" where
  "append_event c now ctx ety res tty tid details es =
     (let prev = last_hash es;
          e = \<lparr>ae_id = (if es = [] then 1 else Suc (ae_id (last es))),
               ae_occurred_at = now, ae_actor_type = ac_actor_type ctx,
               ae_actor_id = ac_actor_id ctx, ae_session_id = ac_session_id ctx,
               ae_event_type = ety, ae_target_type = tty, ae_target_id = tid,
               ae_result = res, ae_network_context = ac_network_context ctx,
               ae_correlation_id = ac_correlation_id ctx, ae_details = sanitize details,
               ae_previous_hash = prev, ae_event_hash = []\<rparr>
      in es @ [e\<lparr>ae_event_hash := canonical_digest c (canonical e prev)\<rparr>])"

definition audit_append ::
  "crypto \<Rightarrow> instant \<Rightarrow> audit_context \<Rightarrow> string \<Rightarrow> string \<Rightarrow> string option \<Rightarrow> uuid option
    \<Rightarrow> jdict \<Rightarrow> db \<Rightarrow> db" where
  "audit_append c now ctx ety res tty tid details d =
     d\<lparr>audit_events := append_event c now ctx ety res tty tid details (audit_events d)\<rparr>"

text \<open>\<open>verify_chain\<close>: the identifier of the first event that does not check, if any.\<close>

fun verify_from :: "crypto \<Rightarrow> pystr option \<Rightarrow> audit_event list \<Rightarrow> nat option" where
  "verify_from c prev [] = None"
| "verify_from c prev (e # es) =
     (if ae_previous_hash e \<noteq> prev \<or> ae_event_hash e \<noteq> canonical_digest c (canonical e prev)
      then Some (ae_id e)
      else verify_from c (Some (ae_event_hash e)) es)"

definition verify_chain :: "crypto \<Rightarrow> audit_event list \<Rightarrow> bool \<times> nat option" where
  "verify_chain c es =
     (case verify_from c None es of None \<Rightarrow> (True, None) | Some i \<Rightarrow> (False, Some i))"

section \<open>The interface of the audit log\<close>

text \<open>
  A log that a service appends to: \<open>chain_ok\<close> is kept, the log grows by one
  event, and \<open>frame\<close>, everything else the service sees of the state, is kept.
\<close>

locale audit_log =
  fixes chain_ok :: "'s \<Rightarrow> bool"
    and events :: "'s \<Rightarrow> 'e list"
    and frame :: "'s \<Rightarrow> 'f"
    and log :: "'a \<Rightarrow> 's \<Rightarrow> 's"
  assumes log_chain: "chain_ok s \<Longrightarrow> chain_ok (log a s)"
    and log_grows: "\<exists>e. events (log a s) = events s @ [e]"
    and log_frame: "frame (log a s) = frame s"
begin

definition logs :: "'a list \<Rightarrow> 's \<Rightarrow> 's" where
  "logs as s = foldl (\<lambda>s a. log a s) s as"

lemma logs_chain: "chain_ok s \<Longrightarrow> chain_ok (logs as s)"
  unfolding logs_def by (induction as arbitrary: s) (simp_all add: log_chain)

lemma logs_append_only: "\<exists>es. events (logs as s) = events s @ es \<and> length es = length as"
proof (induction as arbitrary: s)
  case Nil
  then show ?case by (simp add: logs_def)
next
  case (Cons a as)
  obtain e where e: "events (log a s) = events s @ [e]" using log_grows by blast
  obtain es where "events (logs as (log a s)) = events (log a s) @ es" "length es = length as"
    using Cons.IH by blast
  with e have "events (logs (a # as) s) = events s @ (e # es) \<and> length (e # es) = length (a # as)"
    by (simp add: logs_def)
  then show ?case by blast
qed

lemma logs_frame: "frame (logs as s) = frame s"
  unfolding logs_def by (induction as arbitrary: s) (simp_all add: log_frame)

end

section \<open>The chain\<close>

lemma verify_from_append:
  "verify_from c prev (es @ fs) =
     (case verify_from c prev es of
        Some i \<Rightarrow> Some i
      | None \<Rightarrow> verify_from c (if es = [] then prev else Some (ae_event_hash (last es))) fs)"
  by (induction c prev es rule: verify_from.induct) (auto split: option.splits)

lemma canonical_ignores_hash [simp]: "canonical (e\<lparr>ae_event_hash := h\<rparr>) p = canonical e p"
  by (simp add: canonical_def canonical_items_def)

lemma append_event_keeps_chain:
  assumes "verify_from c None es = None"
  shows "verify_from c None (append_event c now ctx ety res tty tid details es) = None"
  using assms
  by (simp add: append_event_def Let_def verify_from_append last_hash_def canonical_def canonical_items_def)

lemma append_event_grows:
  "\<exists>e. append_event c now ctx ety res tty tid details es = es @ [e]"
  by (simp add: append_event_def Let_def)

lemma verify_chain_iff: "verify_chain c es = (True, None) \<longleftrightarrow> verify_from c None es = None"
  by (simp add: verify_chain_def split: option.split)

definition audit_call ::
  "crypto \<Rightarrow> instant \<times> audit_context \<times> string \<times> string \<times> string option \<times> uuid option \<times> jdict
    \<Rightarrow> db \<Rightarrow> db" where
  "audit_call c a d =
     (case a of (now, ctx, ety, res, tty, tid, details) \<Rightarrow>
        audit_append c now ctx ety res tty tid details d)"

interpretation audit: audit_log
  "\<lambda>d. verify_chain c (audit_events d) = (True, None)"
  audit_events
  "\<lambda>d. d\<lparr>audit_events := []\<rparr>"
  "audit_call c"
  for c
proof unfold_locales
  fix s :: db and a
  assume "verify_chain c (audit_events s) = (True, None)"
  then show "verify_chain c (audit_events (audit_call c a s)) = (True, None)"
    by (cases a)
      (simp add: audit_call_def audit_append_def verify_chain_iff append_event_keeps_chain)
next
  fix s :: db and a
  show "\<exists>e. audit_events (audit_call c a s) = audit_events s @ [e]"
    by (cases a) (simp add: audit_call_def audit_append_def append_event_grows)
next
  fix s :: db and a
  show "(audit_call c a s)\<lparr>audit_events := []\<rparr> = s\<lparr>audit_events := []\<rparr>"
    by (cases a) (simp add: audit_call_def audit_append_def)
qed

text \<open>What appending leaves alone, field by field, for the proofs of the services.\<close>

lemma audit_append_frame [simp]:
  "next_id (audit_append c now ctx ety res tty tid det d) = next_id d"
  "instances (audit_append c now ctx ety res tty tid det d) = instances d"
  "heartbeats (audit_append c now ctx ety res tty tid det d) = heartbeats d"
  "constraints (audit_append c now ctx ety res tty tid det d) = constraints d"
  "accounts (audit_append c now ctx ety res tty tid det d) = accounts d"
  "profiles (audit_append c now ctx ety res tty tid det d) = profiles d"
  "credentials (audit_append c now ctx ety res tty tid det d) = credentials d"
  "auth_sessions (audit_append c now ctx ety res tty tid det d) = auth_sessions d"
  "security_tokens (audit_append c now ctx ety res tty tid det d) = security_tokens d"
  "voice_keys (audit_append c now ctx ety res tty tid det d) = voice_keys d"
  "access_notices (audit_append c now ctx ety res tty tid det d) = access_notices d"
  "providers (audit_append c now ctx ety res tty tid det d) = providers d"
  "secrets (audit_append c now ctx ety res tty tid det d) = secrets d"
  "settings (audit_append c now ctx ety res tty tid det d) = settings d"
  "setting_revisions (audit_append c now ctx ety res tty tid det d) = setting_revisions d"
  "catalog (audit_append c now ctx ety res tty tid det d) = catalog d"
  "conversations (audit_append c now ctx ety res tty tid det d) = conversations d"
  "messages (audit_append c now ctx ety res tty tid det d) = messages d"
  "runs (audit_append c now ctx ety res tty tid det d) = runs d"
  "attempts (audit_append c now ctx ety res tty tid det d) = attempts d"
  "actions (audit_append c now ctx ety res tty tid det d) = actions d"
  "revisions (audit_append c now ctx ety res tty tid det d) = revisions d"
  "links (audit_append c now ctx ety res tty tid det d) = links d"
  "summaries (audit_append c now ctx ety res tty tid det d) = summaries d"
  "memories (audit_append c now ctx ety res tty tid det d) = memories d"
  "memory_versions (audit_append c now ctx ety res tty tid det d) = memory_versions d"
  "memory_sources (audit_append c now ctx ety res tty tid det d) = memory_sources d"
  "search_documents (audit_append c now ctx ety res tty tid det d) = search_documents d"
  "search_embeddings (audit_append c now ctx ety res tty tid det d) = search_embeddings d"
  "jobs (audit_append c now ctx ety res tty tid det d) = jobs d"
  "outbox (audit_append c now ctx ety res tty tid det d) = outbox d"
  "deliveries (audit_append c now ctx ety res tty tid det d) = deliveries d"
  "backups (audit_append c now ctx ety res tty tid det d) = backups d"
  "exports (audit_append c now ctx ety res tty tid det d) = exports d"
  by (simp_all add: audit_append_def)

section \<open>What the hash of an event fixes\<close>

text \<open>Sorting the keys of an object keeps its fields.\<close>

lemma map_of_sort_key:
  assumes "distinct (map fst d)"
  shows "map_of (sort_key fst d) = map_of d"
  using assms by (intro map_of_inject_set [THEN iffD2]) (simp_all add: distinct_map)

lemma jsort_field:
  assumes "distinct (map fst d)"
  shows "\<exists>d'. jsort (JObj d) = JObj d' \<and> map_of d' k = map_option jsort (map_of d k)"
proof -
  let ?e = "map (\<lambda>(k, v). (k, jsort v)) d"
  have "map fst ?e = map fst d" by auto
  then have "map_of (sort_key fst ?e) = map_of ?e" using assms by (simp only: map_of_sort_key)
  then show ?thesis by (simp add: map_of_map)
qed

text \<open>What the canonical object of an event says about it.\<close>

definition audit_content :: "audit_event \<Rightarrow> json list" where
  "audit_content e =
     [JInt (ae_occurred_at e), jstr (ae_actor_type e), opt_uuid (ae_actor_id e),
      opt_uuid (ae_session_id e), jstr (ae_event_type e), opt_str (ae_target_type e),
      opt_uuid (ae_target_id e), jstr (ae_result e), opt_str (ae_network_context e),
      opt_str (ae_correlation_id e), jsort (JObj (ae_details e))]"

lemma jsort_atoms [simp]:
  "jsort (opt_uuid u) = opt_uuid u" "jsort (opt_str s) = opt_str s" "jsort (jstr t) = jstr t"
  by (simp_all add: opt_uuid_def opt_str_def jstr_def split: option.split)

lemma canonical_fields:
  assumes "jsort (canonical e p) = jsort (canonical f q)"
  shows "audit_content e = audit_content f" and "p = q"
proof -
  let ?D = "\<lambda>e p. map (\<lambda>(k, v). (asc k, v)) (canonical_items e p)"
  have dist: "distinct (map fst (?D e p))" for e p
    by (simp add: asc_def canonical_items_def)
  have f: "map_option jsort (map_of (?D e p) k) = map_option jsort (map_of (?D f q) k)" for k
    using jsort_field [OF dist, of e p k] jsort_field [OF dist, of f q k] assms
    unfolding canonical_def jobj_def by (metis json.inject(6))
  have g: "map_of (map (\<lambda>(k, v). (asc k, v)) kvs) (asc k) = map_of kvs k" for kvs :: "(string \<times> json) list" and k
    by (induction kvs) auto
  have h: "map_option jsort (map_of (canonical_items e p) k) = map_option jsort (map_of (canonical_items f q) k)" for k
    using f [of "asc k"] unfolding g .
  show "audit_content e = audit_content f"
    unfolding audit_content_def
    using h [of "''occurred_at''"] h [of "''actor_type''"] h [of "''actor_id''"]
      h [of "''session_id''"] h [of "''event_type''"] h [of "''target_type''"] h [of "''target_id''"]
      h [of "''result''"] h [of "''network_context''"] h [of "''correlation_id''"] h [of "''details''"]
    by (simp add: canonical_items_def)
  show "p = q" using h [of "''previous_hash''"] by (simp add: canonical_items_def split: option.splits)
qed

text \<open>The claims of a chain about its events: their content, and the hashes that link them.\<close>

definition audit_claims :: "audit_event \<Rightarrow> json list \<times> pystr option \<times> pystr" where
  "audit_claims e = (audit_content e, ae_previous_hash e, ae_event_hash e)"

lemma verify_snoc:
  "verify_from c None (es @ [e]) = None \<longleftrightarrow>
     verify_from c None es = None \<and> ae_previous_hash e = last_hash es
     \<and> ae_event_hash e = canonical_digest c (canonical e (last_hash es))"
  by (auto simp: verify_from_append last_hash_def split: option.splits)

text \<open>The object whose hash a stored event carries.\<close>

definition audit_text :: "audit_event \<Rightarrow> json" where
  "audit_text e = jsort (canonical e (ae_previous_hash e))"

lemma chains_agree:
  assumes "\<And>i. i < length es \<Longrightarrow> json_sha256 c (audit_text (es ! i)) = json_sha256 c (audit_text (fs ! i))
      \<Longrightarrow> audit_text (es ! i) = audit_text (fs ! i)"
    and "verify_from c None es = None" "verify_from c None fs = None"
    and "length es = length fs" "last_hash es = last_hash fs"
  shows "map audit_claims es = map audit_claims fs"
  using assms
proof (induction es arbitrary: fs rule: rev_induct)
  case (snoc e es)
  then obtain gs f where fs: "fs = gs @ [f]" by (cases fs rule: rev_cases) auto
  have len: "length gs = length es" using snoc.prems(4) fs by simp
  have e: "verify_from c None es = None" "ae_previous_hash e = last_hash es"
      "ae_event_hash e = canonical_digest c (canonical e (last_hash es))"
    and f: "verify_from c None gs = None" "ae_previous_hash f = last_hash gs"
      "ae_event_hash f = canonical_digest c (canonical f (last_hash gs))"
    using snoc.prems(2,3) fs by (simp_all add: verify_snoc)
  have same: "ae_event_hash e = ae_event_hash f" using snoc.prems(5) fs by (simp add: last_hash_def)
  then have "json_sha256 c (audit_text e) = json_sha256 c (audit_text f)"
    using e(2,3) f(2,3) by (simp add: canonical_digest_def audit_text_def)
  moreover have "(es @ [e]) ! length es = e \<and> fs ! length es = f \<and> length es < length (es @ [e])"
    using len unfolding fs by (simp add: nth_append)
  ultimately have "audit_text e = audit_text f" using snoc.prems(1) [of "length es"] by metis
  then have "jsort (canonical e (last_hash es)) = jsort (canonical f (last_hash gs))"
    unfolding audit_text_def e(2) f(2) .
  then have t: "audit_content e = audit_content f" "last_hash es = last_hash gs"
    by (rule canonical_fields)+
  have n: "(es @ [e]) ! i = es ! i \<and> fs ! i = gs ! i \<and> i < length (es @ [e])" if "i < length es" for i
    using that len unfolding fs by (simp add: nth_append)
  have "map audit_claims es = map audit_claims gs"
  proof (rule snoc.IH [OF _ e(1) f(1) len [symmetric] t(2)])
    fix i assume "i < length es" "json_sha256 c (audit_text (es ! i)) = json_sha256 c (audit_text (gs ! i))"
    then show "audit_text (es ! i) = audit_text (gs ! i)" using snoc.prems(1) [of i] n [of i] by metis
  qed
  moreover have "audit_claims e = audit_claims f"
    using t e(2) f(2) same by (simp add: audit_claims_def)
  ultimately show ?case by (simp add: fs)
qed simp

section \<open>Sanitising\<close>

text \<open>An object is clean when every value under a forbidden key is the redaction mark, every
  text is cut to 500 characters, and its objects, and the objects of its lists, are clean.\<close>

fun clean :: "jdict \<Rightarrow> bool"
and clean_value :: "json \<Rightarrow> bool"
and clean_items :: "json list \<Rightarrow> bool" where
  "clean [] = True"
| "clean ((k, v) # d) = ((if forbidden_key k then v = jstr ''[redacted]'' else clean_value v) \<and> clean d)"
| "clean_value (JObj d) = clean d"
| "clean_value (JList xs) = clean_items xs"
| "clean_value (JStr s) = (length s \<le> 500)"
| "clean_value v = True"
| "clean_items [] = True"
| "clean_items (x # xs) = ((case x of JObj d \<Rightarrow> clean d | _ \<Rightarrow> True) \<and> clean_items xs)"

lemma clean_sanitize:
  "clean (sanitize d)" "clean_value (sanitize_value v)" "clean_items (sanitize_items xs)"
  by (induction d and v and xs rule: sanitize_sanitize_value_sanitize_items.induct)
    (auto split: json.split)

lemma sanitize_clean:
  "clean d \<Longrightarrow> sanitize d = d" "clean_value v \<Longrightarrow> sanitize_value v = v"
  "clean_items xs \<Longrightarrow> sanitize_items xs = xs"
  by (induction d and v and xs rule: sanitize_sanitize_value_sanitize_items.induct)
    (auto split: json.splits if_splits)

section \<open>Properties\<close>

text \<open>
  C15. However many events are appended, the chain that held before holds after, the
  earlier events stay in their place, and every event is stored sanitised.
\<close>

theorem audit_chain_grows:
  assumes "verify_chain c (audit_events d) = (True, None)"
  shows "verify_chain c (audit_events (audit.logs c calls d)) = (True, None)
    \<and> (\<exists>es. audit_events (audit.logs c calls d) = audit_events d @ es \<and> length es = length calls
         \<and> (\<forall>e \<in> set es. clean (ae_details e)))
    \<and> (audit.logs c calls d)\<lparr>audit_events := []\<rparr> = d\<lparr>audit_events := []\<rparr>"
proof -
  have cl: "\<exists>es. audit_events (audit.logs c calls d) = audit_events d @ es \<and> length es = length calls
      \<and> (\<forall>e \<in> set es. clean (ae_details e))"
  proof (induction calls arbitrary: d)
    case Nil
    then show ?case by (simp add: audit.logs_def)
  next
    case (Cons a calls)
    obtain e where e: "audit_events (audit_call c a d) = audit_events d @ [e]" "clean (ae_details e)"
      by (cases a) (simp add: audit_call_def audit_append_def append_event_def Let_def clean_sanitize)
    obtain es where "audit_events (audit.logs c calls (audit_call c a d)) = audit_events (audit_call c a d) @ es"
        "length es = length calls" "\<forall>e \<in> set es. clean (ae_details e)"
      using Cons.IH by blast
    with e have "audit_events (audit.logs c (a # calls) d) = audit_events d @ (e # es)
        \<and> length (e # es) = length (a # calls) \<and> (\<forall>e \<in> set (e # es). clean (ae_details e))"
      by (simp add: audit.logs_def)
    then show ?case by blast
  qed
  show ?thesis using audit.logs_chain [OF assms] cl audit.logs_frame by blast
qed

theorem audit_chain_grows_witness:
  "verify_chain plain_crypto (audit_events (audit.logs plain_crypto
     [(1, system_context ''user'' None, ''a'', ''success'', None, None, [(asc ''token'', JInt 5)])] empty_db))
     = (True, None)"
  using audit_chain_grows [of plain_crypto empty_db] by (simp add: empty_db_def verify_chain_def)

text \<open>
  C16. Tampering shows: two logs of the same length that both pass the check and end in
  the same hash say the same about every event (instant, actor, kind, target,
  result, details up to the order of keys, links), or at some position the two logs
  hold two different texts with the same SHA-256 hash. Only the row number is outside the hash.
\<close>

theorem audit_tamper_evident:
  assumes "verify_chain c es = (True, None)" "verify_chain c fs = (True, None)"
    and "length es = length fs" "last_hash es = last_hash fs"
  shows "map audit_claims es = map audit_claims fs
    \<or> (\<exists>i < length es. audit_text (es ! i) \<noteq> audit_text (fs ! i)
         \<and> json_sha256 c (audit_text (es ! i)) = json_sha256 c (audit_text (fs ! i)))"
  using chains_agree [of es c fs] assms unfolding verify_chain_iff by blast

theorem audit_tamper_evident_witness:
  "\<exists>es fs. es \<noteq> fs \<and> map audit_claims es = map audit_claims fs"
proof -
  let ?es = "append_event plain_crypto 1 (system_context ''user'' None) ''a'' ''success'' None None [] []"
  let ?fs = "map (\<lambda>e. e\<lparr>ae_id := 7\<rparr>) ?es"
  have es: "verify_chain plain_crypto ?es = (True, None)"
    by (simp add: verify_chain_iff append_event_keeps_chain)
  have fs: "verify_chain plain_crypto ?fs = (True, None)" by code_simp
  have "map ae_id ?es \<noteq> map ae_id ?fs" by code_simp
  then have ne: "?es \<noteq> ?fs" by metis
  have t: "audit_text (?es ! 0) = audit_text (?fs ! 0)" by code_simp
  have len: "length ?es = 1" "length ?es = length ?fs" by code_simp+
  have h: "last_hash ?es = last_hash ?fs" by code_simp
  have "map audit_claims ?es = map audit_claims ?fs"
    using audit_tamper_evident [OF es fs len(2) h] t unfolding len(1) by (metis less_one)
  with ne show ?thesis by blast
qed

text \<open>
  Sanitising removes every value under a key that names a secret or private text, at
  every depth of nested objects, cuts long texts, and is idempotent.
\<close>

theorem sanitize_removes_secrets:
  "clean (sanitize details) \<and> sanitize (sanitize details) = sanitize details
   \<and> map fst (sanitize details) = map fst details"
proof -
  have "map fst (sanitize d) = map fst d" for d
    by (induction d) (auto simp del: sanitize.simps simp add: sanitize.simps(1,2))
  then show ?thesis using clean_sanitize sanitize_clean by blast
qed

text \<open>A list directly inside a list is passed through as it is, whatever it holds.\<close>

theorem sanitize_keeps_nested_lists:
  "sanitize [(asc ''rows'', JList [JList [JObj [(asc ''password'', JStr p)]]])] =
     [(asc ''rows'', JList [JList [JObj [(asc ''password'', JStr p)]]])]"
  by (simp add: forbidden_key_def forbidden_words_def casefold_def fold_char_def starts_with_def)

end
