(* ===== verification/Interfaces.thy ===== *)
theory Interfaces
  imports Models
begin

text \<open>
  Contracts that several services share, stated once. \<open>versioned_store\<close> is the
  optimistic locking of memory items, conversations and messages;
  \<open>single_use\<close> is the one-time redemption of tickets and security tokens;
  \<open>step_system\<close> is a transition system with an invariant. The services
  interpret them on their own operations, and inherit the lemmas.
\<close>

section \<open>Optimistic locking\<close>

text \<open>
  A write names a key and the version it was based on. It succeeds only on
  that version, and either leaves the state as it is or moves the key to the
  next version; a write that fails changes nothing.
\<close>

locale versioned_store =
  fixes wf :: "'s \<Rightarrow> bool"
    and lookup :: "'k \<Rightarrow> 's \<Rightarrow> 'r option"
    and ver :: "'r \<Rightarrow> int"
    and put :: "'w \<Rightarrow> 'k \<Rightarrow> int \<Rightarrow> 's \<Rightarrow> ('e + 'a) \<times> 's"
  assumes put_wf: "wf s \<Longrightarrow> put w k v s = (r, s') \<Longrightarrow> wf s'"
    and put_matched: "wf s \<Longrightarrow> put w k v s = (Inr a, s') \<Longrightarrow> \<exists>x. lookup k s = Some x \<and> ver x = v"
    and put_effect: "wf s \<Longrightarrow> put w k v s = (Inr a, s') \<Longrightarrow>
          s' = s \<or> (\<exists>x. lookup k s' = Some x \<and> ver x = v + 1)"
    and put_failed: "wf s \<Longrightarrow> put w k v s = (Inl e, s') \<Longrightarrow> s' = s"
    and put_other: "wf s \<Longrightarrow> put w k v s = (r, s') \<Longrightarrow> k' \<noteq> k \<Longrightarrow> lookup k' s' = lookup k' s"
begin

text \<open>The state after a sequence of writes of any clients.\<close>

fun writes :: "('w \<times> 'k \<times> int) list \<Rightarrow> 's \<Rightarrow> 's" where
  "writes [] s = s"
| "writes ((w, k, v) # ws) s = writes ws (snd (put w k v s))"

lemma put_mono:
  assumes "wf s" "put w k v s = (r, s')" "lookup k' s = Some x"
  shows "\<exists>y. lookup k' s' = Some y \<and> ver x \<le> ver y"
proof (cases "k' = k")
  case False
  with assms show ?thesis using put_other by force
next
  case True
  show ?thesis
  proof (cases r)
    case (Inl e)
    with assms show ?thesis using put_failed by fastforce
  next
    case (Inr a)
    with assms True have "ver x = v" using put_matched by fastforce
    with assms True Inr show ?thesis using put_effect [of s w k v a s'] by force
  qed
qed

lemma writes_mono:
  assumes "wf s" "lookup k s = Some x"
  shows "wf (writes ws s) \<and> (\<exists>y. lookup k (writes ws s) = Some y \<and> ver x \<le> ver y)"
  using assms
proof (induction ws s arbitrary: x rule: writes.induct)
  case (2 w k1 v ws s)
  obtain r s' where w: "put w k1 v s = (r, s')" by fastforce
  obtain y where y: "lookup k s' = Some y" "ver x \<le> ver y"
    using put_mono [OF "2.prems"(1) w "2.prems"(2)] by blast
  show ?case
    using "2.IH" [of y] put_wf [OF "2.prems"(1) w] y w by fastforce
qed auto

text \<open>No lost update: once a write based on a version has taken effect, no other write
  based on that version succeeds, whatever is written in between.\<close>

lemma stale_write_fails:
  assumes "wf s" "put w k v s = (Inr a, s1)" "s1 \<noteq> s"
  shows "\<exists>e. put w' k v (writes ws s1) = (Inl e, writes ws s1)"
proof -
  have wf1: "wf s1" using assms put_wf by blast
  obtain x where x: "lookup k s1 = Some x" "ver x = v + 1"
    using assms put_effect by blast
  obtain y where y: "wf (writes ws s1)" "lookup k (writes ws s1) = Some y" "v + 1 \<le> ver y"
    using writes_mono [OF wf1 x(1)] x(2) by auto
  obtain r s2 where r: "put w' k v (writes ws s1) = (r, s2)" by fastforce
  show ?thesis
  proof (cases r)
    case (Inl e)
    then show ?thesis using r y put_failed by blast
  next
    case (Inr b)
    then show ?thesis using r y put_matched by fastforce
  qed
qed

end

section \<open>Transition systems\<close>

text \<open>A step relation with an invariant that every step keeps.\<close>

locale step_system =
  fixes step :: "'s \<Rightarrow> 's \<Rightarrow> bool"
    and inv :: "'s \<Rightarrow> bool"
  assumes step_inv: "inv s \<Longrightarrow> step s s' \<Longrightarrow> inv s'"
begin

lemma reach_inv: "step\<^sup>*\<^sup>* s s' \<Longrightarrow> inv s \<Longrightarrow> inv s'"
  by (induction rule: rtranclp_induct) (auto intro: step_inv)

text \<open>A reflexive and transitive relation that every step of a good state satisfies
  relates the ends of every run.\<close>

lemma reach_rel:
  assumes "step\<^sup>*\<^sup>* s s'" "inv s"
    and "\<And>a. R a a" "\<And>a b c. R a b \<Longrightarrow> R b c \<Longrightarrow> R a c"
    and "\<And>a b. inv a \<Longrightarrow> step a b \<Longrightarrow> R a b"
  shows "R s s'"
  using assms(1)
proof (induction rule: rtranclp_induct)
  case base
  then show ?case by (rule assms(3))
next
  case (step y z)
  have "inv y" using step.hyps(1) assms(2) by (rule reach_inv)
  with step.hyps(2) have "R y z" by (intro assms(5))
  with step.IH show ?case by (rule assms(4))
qed

end

section \<open>One-time redemption\<close>

text \<open>
  A secret that is redeemed is spent. Redeeming a spent secret fails and changes
  nothing, and no step of the component makes a spent secret good again.
\<close>

locale single_use = step_system +
  fixes spent :: "'k \<Rightarrow> 'a \<Rightarrow> bool"
    and redeem :: "'w \<Rightarrow> 'k \<Rightarrow> 'a \<Rightarrow> ('e + 'v) \<times> 'a"
  assumes redeem_step: "inv s \<Longrightarrow> redeem w k s = (r, s') \<Longrightarrow> step s s'"
    and redeem_spends: "inv s \<Longrightarrow> redeem w k s = (Inr v, s') \<Longrightarrow> spent k s'"
    and redeem_spent: "inv s \<Longrightarrow> spent k s \<Longrightarrow> \<exists>e. redeem w k s = (Inl e, s)"
    and step_spent: "inv s \<Longrightarrow> step s s' \<Longrightarrow> spent k s \<Longrightarrow> spent k s'"
begin

lemma reach_spent:
  assumes "step\<^sup>*\<^sup>* s s'" "inv s" "spent k s"
  shows "spent k s'"
  using reach_rel [OF assms(1,2), of "\<lambda>a b. spent k a \<longrightarrow> spent k b"] step_spent assms(3) by blast

lemma redeemed_once:
  assumes "inv s" "redeem w k s = (Inr v, s1)" "step\<^sup>*\<^sup>* s1 s2"
  shows "\<exists>e. redeem w' k s2 = (Inl e, s2)"
proof -
  have i: "inv s1" using step_inv [OF assms(1) redeem_step [OF assms(1,2)]] .
  have "spent k s2" using reach_spent [OF assms(3) i redeem_spends [OF assms(1,2)]] .
  with reach_inv [OF assms(3) i] show ?thesis by (rule redeem_spent)
qed

end

end
