(* ===== verification/Memory.thy ===== *)
theory Memory
  imports AuditLog Interfaces
begin

text \<open>
  \<^verbatim>\<open>memory/service.py\<close> and \<^verbatim>\<open>memory/schemas.py\<close>: long-term memory. Every
  operation takes the cryptographic parameters, the instant, the account and
  the audit context, and returns its result together with the state of the
  session. On an exception that state holds what the operation had already
  changed in its objects: the transaction around it (\<open>run_tx\<close>) decides whether
  it is committed.
\<close>

section \<open>Requests (memory/schemas.py)\<close>

record memory_create_request =
  rq_content :: pystr
  rq_category :: memory_category
  rq_origin_type :: origin_type
  rq_source_conversation_id :: "uuid option"
  rq_source_message_id :: "uuid option"
  rq_original_expression :: "pystr option"
  rq_event_at :: "instant option"
  rq_valid_from :: "instant option"
  rq_valid_until :: "instant option"
  rq_keywords :: "pystr list"
  rq_confirmed :: bool

record memory_update_request =
  up_expected_version :: int
  up_content :: "pystr option"
  up_category :: "memory_category option"
  up_event_at :: "instant option"
  up_valid_from :: "instant option"
  up_valid_until :: "instant option"
  up_mark_outdated :: bool

record memory_search_request =
  sq_query :: pystr
  sq_categories :: "memory_category list"
  sq_states :: "memory_state list"
  sq_from_at :: "instant option"
  sq_to_at :: "instant option"
  sq_limit :: nat

text \<open>The validators: the content is stripped before its length is checked.\<close>

definition validate_create :: "memory_create_request \<Rightarrow> memory_create_request result" where
  "validate_create r =
     (let c = strip (rq_content r)
      in if c = [] \<or> 10000 < int (length c) \<or> 30 < length (rq_keywords r)
            \<or> (case rq_original_expression r of None \<Rightarrow> False | Some e \<Rightarrow> 10000 < int (length e))
         then Inl ValueError
         else Inr (r\<lparr>rq_content := c\<rparr>))"

definition validate_update :: "memory_update_request \<Rightarrow> memory_update_request result" where
  "validate_update r =
     (if up_expected_version r < 1 then Inl ValueError
      else case up_content r of
        None \<Rightarrow> Inr r
      | Some t \<Rightarrow> (let c = strip t in if c = [] \<or> 10000 < int (length c) then Inl ValueError
                    else Inr (r\<lparr>up_content := Some c\<rparr>)))"

section \<open>Content rules\<close>

definition SECRET_TERMS :: "pystr list" where
  "SECRET_TERMS =
     [asc ''api key'', asc ''api kl'' @ [237, 269], asc ''password'', asc ''heslo'', asc ''token'',
      asc ''obnovovac'' @ [237] @ asc '' k'' @ [243] @ asc ''d'', asc ''secret'']"

definition canonical_content :: "pystr \<Rightarrow> pystr" where
  "canonical_content v = py_join [32] (py_split (casefold (nfc v)))"

definition contains_secret_instruction :: "pystr \<Rightarrow> bool" where
  "contains_secret_instruction content =
     (let lowered = casefold content in \<exists>t \<in> set SECRET_TERMS. contains t lowered)"

section \<open>Bookkeeping shared by the operations\<close>

definition snapshot :: "memory_item \<Rightarrow> memory_snapshot" where
  "snapshot i = \<lparr>sn_content = mi_content i, sn_category = mi_category i, sn_state = mi_state i,
     sn_event_at = mi_event_at i, sn_valid_from = mi_valid_from i,
     sn_valid_until = mi_valid_until i, sn_keywords = mi_keywords i\<rparr>"

definition record_version :: "instant \<Rightarrow> memory_item \<Rightarrow> uuid \<Rightarrow> string \<Rightarrow> db \<Rightarrow> db" where
  "record_version now i acc kind d =
     (fresh d)\<lparr>memory_versions := memory_versions d @
        [\<lparr>row_id = next_id d, mv_memory_id = row_id i, mv_version_number = version i,
          mv_content = mi_content i, mv_category = mi_category i, mv_state = mi_state i,
          mv_change_kind = kind, mv_changed_by = acc, mv_changed_at = now,
          mv_snapshot = snapshot i\<rparr>]\<rparr>"

definition request_index :: "instant \<Rightarrow> memory_item \<Rightarrow> int \<Rightarrow> db \<Rightarrow> db" where
  "request_index now i sq d =
     add_outbox now ''memory'' (row_id i) ''memory.index_requested''
       [(asc ''memory_id'', JStr (uuid_str (row_id i)))] sq d"

definition save_memory :: "instant \<Rightarrow> memory_item \<Rightarrow> db \<Rightarrow> db" where
  "save_memory now i d = d\<lparr>memories := save_row now i (memories d)\<rparr>"

definition locked_item :: "uuid \<Rightarrow> uuid \<Rightarrow> db \<Rightarrow> memory_item option" where
  "locked_item acc mid d =
     query_one (\<lambda>i. row_id i = mid \<and> mi_account_id i = acc) (memories d)"

definition version_conflict :: "int \<Rightarrow> int \<Rightarrow> exc" where
  "version_conflict expected actual =
     ConflictError (Some (jobj [(''expected_version'', JInt expected), (''actual_version'', JInt actual)]))"

text \<open>Whether a row counts as a possible duplicate of new content of the account.\<close>

definition current :: "uuid \<Rightarrow> memory_item \<Rightarrow> bool" where
  "current acc i \<longleftrightarrow> mi_account_id i = acc \<and> mi_state i \<in> {MActive, MPending}"

definition invalid_interval :: "instant option \<Rightarrow> instant option \<Rightarrow> bool" where
  "invalid_interval vfrom vuntil \<longleftrightarrow>
     (case (vfrom, vuntil) of (Some a, Some b) \<Rightarrow> b < a | _ \<Rightarrow> False)"

definition duplicate_conflict :: "memory_item \<Rightarrow> exc" where
  "duplicate_conflict i = ConflictError (Some (jobj [(''memory_id'', JStr (uuid_str (row_id i)))]))"

section \<open>Operations (memory/service.py)\<close>

definition new_item :: "instant \<Rightarrow> uuid \<Rightarrow> memory_create_request \<Rightarrow> db \<Rightarrow> memory_item" where
  "new_item now acc rq d =
     (let state = (if rq_confirmed rq \<or> rq_origin_type rq \<in> {ExplicitCommand, Manual}
                   then MActive else MPending)
      in \<lparr>row_id = next_id d, created_at = now, updated_at = now, version = 1,
          mi_account_id = acc, mi_content = strip (rq_content rq),
          mi_category = rq_category rq, mi_state = state,
          mi_origin_type = rq_origin_type rq, mi_event_at = rq_event_at rq,
          mi_valid_from = rq_valid_from rq, mi_valid_until = rq_valid_until rq,
          mi_original_expression = rq_original_expression rq,
          mi_keywords = sort (remdups (map strip (filter (\<lambda>k. strip k \<noteq> []) (rq_keywords rq)))),
          mi_merged_into_id = None, mi_deleted_at = None, mi_purge_after = None,
          mi_confirmed_at = (if state = MActive then Some now else None)\<rparr>)"

definition insert_item ::
  "instant \<Rightarrow> uuid \<Rightarrow> memory_create_request \<Rightarrow> memory_item \<Rightarrow> db \<Rightarrow> db" where
  "insert_item now acc rq item d =
     (let d1 = (fresh d)\<lparr>memories := memories d @ [item]\<rparr>;
          d2 = record_version now item acc ''created'' d1;
          d3 = (fresh d2)\<lparr>memory_sources := memory_sources d2 @
                 [\<lparr>row_id = next_id d2, mo_memory_id = row_id item,
                   mo_source_type = rq_origin_type rq,
                   mo_conversation_id = rq_source_conversation_id rq,
                   mo_message_id = rq_source_message_id rq,
                   mo_source_excerpt = rq_original_expression rq, mo_manual_reference = None,
                   mo_created_at = now\<rparr>]\<rparr>
      in request_index now item 1 d3)"

definition memory_create ::
  "crypto \<Rightarrow> instant \<Rightarrow> uuid \<Rightarrow> memory_create_request \<Rightarrow> audit_context \<Rightarrow> db
    \<Rightarrow> memory_item result \<times> db" where
  "memory_create c now acc rq ctx d =
     (if contains_secret_instruction (rq_content rq)
      then (Inl (DomainError ''secret_memory_forbidden'' 422), d)
      else if invalid_interval (rq_valid_from rq) (rq_valid_until rq)
      then (Inl (DomainError ''invalid_validity'' 422), d)
      else
        let found = filter (current acc) (memories d);
            candidates = (if found = []
              then (case query_one (current acc) (memories d) of None \<Rightarrow> [] | Some i \<Rightarrow> [i])
              else found)
        in case List.find (\<lambda>i. canonical_content (mi_content i)
                                 = canonical_content (rq_content rq)) candidates of
             Some dup \<Rightarrow> (Inl (duplicate_conflict dup), d)
           | None \<Rightarrow>
               let item = new_item now acc rq d
               in (Inr item, audit_append c now ctx ''memory.created'' ''success''
                     (Some ''memory_item'') (Some (row_id item))
                     [(asc ''category'', jstr (memory_category_str (mi_category item))),
                      (asc ''state'', jstr (memory_state_str (mi_state item)))]
                     (insert_item now acc rq item d)))"

definition memory_get ::
  "uuid \<Rightarrow> uuid \<Rightarrow> bool \<Rightarrow> db \<Rightarrow> memory_item result" where
  "memory_get acc mid include_deleted d =
     (case query_one (\<lambda>i. row_id i = mid \<and> mi_account_id i = acc
                          \<and> (include_deleted \<or> mi_state i \<noteq> MDeleted)) (memories d) of
        None \<Rightarrow> Inl NotFoundError
      | Some i \<Rightarrow> Inr i)"

definition memory_confirm ::
  "crypto \<Rightarrow> instant \<Rightarrow> uuid \<Rightarrow> uuid \<Rightarrow> int \<Rightarrow> audit_context \<Rightarrow> db \<Rightarrow> memory_item result \<times> db" where
  "memory_confirm c now acc mid expected ctx d =
     (case locked_item acc mid d of
        None \<Rightarrow> (Inl NotFoundError, d)
      | Some i \<Rightarrow>
          if version i \<noteq> expected then (Inl (version_conflict expected (version i)), d)
          else if mi_state i \<noteq> MPending then (Inl (ConflictError None), d)
          else
            let i1 = i\<lparr>mi_state := MActive, mi_confirmed_at := Some now, version := version i + 1\<rparr>;
                d1 = record_version now i1 acc ''confirmed'' (save_memory now i1 d)
            in (Inr (i1\<lparr>updated_at := now\<rparr>), audit_append c now ctx ''memory.confirmed'' ''success''
                  None (Some (row_id i)) [] d1))"

text \<open>The duplicate test of \<open>update\<close> reads one other current item of the account only
  (\<^verbatim>\<open>.limit(1)\<close>).\<close>

definition update_duplicate :: "uuid \<Rightarrow> memory_item \<Rightarrow> pystr \<Rightarrow> db \<Rightarrow> memory_item option" where
  "update_duplicate acc i content d =
     (case query_one (\<lambda>x. current acc x \<and> row_id x \<noteq> row_id i) (memories d) of
        None \<Rightarrow> None
      | Some x \<Rightarrow> if canonical_content (mi_content x) = canonical_content content
                  then Some x else None)"

definition apply_update :: "memory_update_request \<Rightarrow> memory_item \<Rightarrow> memory_item" where
  "apply_update rq i =
     i\<lparr>mi_content := (case up_content rq of None \<Rightarrow> mi_content i | Some t \<Rightarrow> strip t),
       mi_category := (case up_category rq of None \<Rightarrow> mi_category i | Some x \<Rightarrow> x),
       mi_event_at := (case up_event_at rq of None \<Rightarrow> mi_event_at i | t \<Rightarrow> t),
       mi_valid_from := (case up_valid_from rq of None \<Rightarrow> mi_valid_from i | t \<Rightarrow> t),
       mi_valid_until := (case up_valid_until rq of None \<Rightarrow> mi_valid_until i | t \<Rightarrow> t),
       mi_state := (if up_mark_outdated rq then MOutdated else mi_state i)\<rparr>"

definition memory_update ::
  "crypto \<Rightarrow> instant \<Rightarrow> uuid \<Rightarrow> uuid \<Rightarrow> memory_update_request \<Rightarrow> audit_context \<Rightarrow> db
    \<Rightarrow> memory_item result \<times> db" where
  "memory_update c now acc mid rq ctx d =
     (case locked_item acc mid d of
        None \<Rightarrow> (Inl NotFoundError, d)
      | Some i \<Rightarrow>
          if version i \<noteq> up_expected_version rq
          then (Inl (version_conflict (up_expected_version rq) (version i)), d)
          else if mi_state i \<in> {MDeleted, MMerged} then (Inl (ConflictError None), d)
          else if (case up_content rq of None \<Rightarrow> False | Some t \<Rightarrow> contains_secret_instruction t)
          then (Inl (DomainError ''secret_memory_forbidden'' 422), d)
          else (case (case up_content rq of None \<Rightarrow> None | Some t \<Rightarrow> update_duplicate acc i t d) of
             Some dup \<Rightarrow> (Inl (duplicate_conflict dup), d)
           | None \<Rightarrow>
              let i1 = apply_update rq i
              in if invalid_interval (mi_valid_from i1) (mi_valid_until i1)
                 then (Inl (DomainError ''invalid_validity'' 422), save_memory now i1 d)
                 else
                   let i2 = i1\<lparr>version := version i1 + 1\<rparr>;
                       d1 = record_version now i2 acc ''updated'' (save_memory now i2 d);
                       d2 = request_index now i2 (version i2) d1
                   in (Inr (i2\<lparr>updated_at := now\<rparr>), audit_append c now ctx ''memory.updated'' ''success''
                         None (Some (row_id i2))
                         [(asc ''version'', JInt (version i2)),
                          (asc ''state'', jstr (memory_state_str (mi_state i2)))] d2)))"

definition memory_soft_delete ::
  "crypto \<Rightarrow> instant \<Rightarrow> uuid \<Rightarrow> uuid \<Rightarrow> int \<Rightarrow> int \<Rightarrow> audit_context \<Rightarrow> db
    \<Rightarrow> memory_item result \<times> db" where
  "memory_soft_delete c now acc mid expected retention_days ctx d =
     (case locked_item acc mid d of
        None \<Rightarrow> (Inl NotFoundError, d)
      | Some i \<Rightarrow>
          if version i \<noteq> expected then (Inl (version_conflict expected (version i)), d)
          else if mi_state i = MDeleted then (Inr i, d)
          else
            let i1 = i\<lparr>mi_state := MDeleted, mi_deleted_at := Some now,
                       mi_purge_after := Some (now + days retention_days),
                       version := version i + 1\<rparr>;
                d1 = record_version now i1 acc ''deleted'' (save_memory now i1 d)
            in (Inr (i1\<lparr>updated_at := now\<rparr>), audit_append c now ctx ''memory.deleted'' ''success''
                  None (Some (row_id i))
                  [(asc ''recoverable_until'', JInt (now + days retention_days))] d1))"

definition memory_restore ::
  "crypto \<Rightarrow> instant \<Rightarrow> uuid \<Rightarrow> uuid \<Rightarrow> int \<Rightarrow> audit_context \<Rightarrow> db \<Rightarrow> memory_item result \<times> db" where
  "memory_restore c now acc mid expected ctx d =
     (case locked_item acc mid d of
        None \<Rightarrow> (Inl NotFoundError, d)
      | Some i \<Rightarrow>
          if version i \<noteq> expected then (Inl (version_conflict expected (version i)), d)
          else if mi_state i \<noteq> MDeleted
                \<or> (case mi_purge_after i of None \<Rightarrow> True | Some t \<Rightarrow> t \<le> now)
          then (Inl (ConflictError None), d)
          else
            let i1 = i\<lparr>mi_state := MActive, mi_deleted_at := None, mi_purge_after := None,
                       version := version i + 1\<rparr>;
                d1 = record_version now i1 acc ''restored'' (save_memory now i1 d);
                d2 = request_index now i1 (version i1) d1
            in (Inr (i1\<lparr>updated_at := now\<rparr>), audit_append c now ctx ''memory.restored'' ''success''
                  None (Some (row_id i)) [] d2))"

definition mark_merged :: "instant \<Rightarrow> uuid \<Rightarrow> uuid \<Rightarrow> memory_item \<Rightarrow> db \<Rightarrow> db" where
  "mark_merged now acc target s d =
     (let s1 = s\<lparr>mi_state := MMerged, mi_merged_into_id := Some target, version := version s + 1\<rparr>
      in record_version now s1 acc ''merged'' (save_memory now s1 d))"

definition memory_merge ::
  "crypto \<Rightarrow> instant \<Rightarrow> uuid \<Rightarrow> uuid list \<Rightarrow> memory_create_request \<Rightarrow> audit_context \<Rightarrow> db
    \<Rightarrow> memory_item result \<times> db" where
  "memory_merge c now acc source_ids target ctx d =
     (if card (set source_ids) < 2 then (Inl (DomainError ''merge_requires_multiple'' 422), d)
      else
        let sources = filter (\<lambda>i. mi_account_id i = acc \<and> row_id i \<in> set source_ids) (memories d)
        in if length sources \<noteq> card (set source_ids)
              \<or> (\<exists>i \<in> set sources. mi_state i \<notin> {MActive, MOutdated})
           then (Inl (ConflictError None), d)
           else (case memory_create c now acc (target\<lparr>rq_confirmed := True\<rparr>) ctx d of
               (Inl e, d1) \<Rightarrow> (Inl e, d1)
             | (Inr merged, d1) \<Rightarrow>
                 let d2 = foldl (\<lambda>d s. mark_merged now acc (row_id merged) s d) d1 sources
                 in (Inr merged, audit_append c now ctx ''memory.merged'' ''success''
                       None (Some (row_id merged))
                       [(asc ''source_ids'', JList (map (\<lambda>i. JStr (uuid_str i)) source_ids))] d2)))"

text \<open>
  \<open>search\<close>: the clauses of the \<^verbatim>\<open>WHERE\<close>, then the order. \<^verbatim>\<open>func.lower\<close> is the
  database's and an argument. A ranked identifier sorts by its position (the
  last one when it is listed twice, as in the dictionary of the source), the
  others after all of them.
\<close>

definition date_match :: "instant option \<Rightarrow> (instant \<Rightarrow> instant \<Rightarrow> bool) \<Rightarrow> memory_item \<Rightarrow> bool" where
  "date_match bound cmp i =
     (case bound of None \<Rightarrow> True
      | Some b \<Rightarrow> (case mi_event_at i of None \<Rightarrow> False | Some t \<Rightarrow> cmp t b) \<or> cmp (created_at i) b)"

definition rank_of :: "uuid list \<Rightarrow> uuid \<Rightarrow> nat" where
  "rank_of ranked i =
     (case List.find (\<lambda>p. snd p = i) (rev (enumerate 0 ranked)) of
        Some p \<Rightarrow> fst p | None \<Rightarrow> length ranked + 1)"

definition memory_search ::
  "(pystr \<Rightarrow> pystr) \<Rightarrow> uuid \<Rightarrow> memory_search_request \<Rightarrow> uuid list \<Rightarrow> db \<Rightarrow> memory_item list" where
  "memory_search lower acc rq ranked d =
     (let base = filter (\<lambda>i. mi_account_id i = acc \<and> mi_state i \<in> set (sq_states rq)
                    \<and> (sq_categories rq = [] \<or> mi_category i \<in> set (sq_categories rq))
                    \<and> date_match (sq_from_at rq) (\<lambda>t b. b \<le> t) i
                    \<and> date_match (sq_to_at rq) (\<lambda>t b. t \<le> b) i) (memories d);
          terms = py_split (sq_query rq);
          hit = (\<lambda>i. \<exists>t \<in> set terms. sql_contains (casefold t) (lower (mi_content i)));
          recent = (\<lambda>i::memory_item. (- updated_at i, row_id i))
      in take (sq_limit rq)
        (if strip (sq_query rq) = [] then sort_key recent base
         else if ranked = [] then sort_key recent (filter hit base)
         else sort_key (\<lambda>i. (int (rank_of ranked (row_id i)), recent i))
                (filter (\<lambda>i. hit i \<or> row_id i \<in> set ranked) base)))"

section \<open>Content rules: lemmas\<close>

lemma canonical_words: "py_split (canonical_content v) = map casefold (py_split v)"
  unfolding canonical_content_def nfc_def py_split_casefold
  by (rule py_split_join) (auto dest: py_split_words casefold_nonspace)

lemma canonical_content_eq_iff:
  "canonical_content u = canonical_content v
     \<longleftrightarrow> map casefold (py_split u) = map casefold (py_split v)"
  by (metis canonical_words canonical_content_def nfc_def py_split_casefold)

text \<open>The canonical form is a fixed point, so content stored from it compares like itself.\<close>

lemma canonical_content_idem: "canonical_content (canonical_content v) = canonical_content v"
  by (simp add: canonical_content_eq_iff canonical_words comp_def)

lemma secret_strip: "contains_secret_instruction (strip s) \<Longrightarrow> contains_secret_instruction s"
proof -
  assume "contains_secret_instruction (strip s)"
  then obtain t where t: "t \<in> set SECRET_TERMS" "contains t (casefold (strip s))"
    by (auto simp: contains_secret_instruction_def Let_def)
  obtain u v where uv: "s = u @ strip s @ v" using strip_infix by blast
  have "casefold s = casefold u @ casefold (strip s) @ casefold v"
    using arg_cong [OF uv, of casefold] by simp
  with t have "contains t (casefold s)" by (simp add: contains_iff) (metis append.assoc)
  with t show ?thesis by (auto simp: contains_secret_instruction_def Let_def)
qed

section \<open>The invariant of the memory tables\<close>

text \<open>
  \<open>row_ok\<close>: what a row says on its own. \<open>history_ok\<close>: the version rows of an item
  are numbered 1 up to its version, and the last of them is its present content. The exception is
  an item whose validity interval is reversed: \<open>update\<close> changes the row before it looks at the
  interval, and a confirmed action commits the change although the update was refused.
  \<open>events_ok\<close>: no index request of an item is ahead of its version.
\<close>

definition history_of :: "uuid \<Rightarrow> db \<Rightarrow> memory_version list" where
  "history_of i d = filter (\<lambda>v. mv_memory_id v = i) (memory_versions d)"

definition row_ok :: "memory_item \<Rightarrow> bool" where
  "row_ok i \<longleftrightarrow>
     1 \<le> version i
   \<and> (mi_state i = MDeleted \<longleftrightarrow> mi_purge_after i \<noteq> None)
   \<and> (mi_state i = MDeleted \<longleftrightarrow> mi_deleted_at i \<noteq> None)
   \<and> \<not> contains_secret_instruction (mi_content i)"

definition history_ok :: "db \<Rightarrow> memory_item \<Rightarrow> bool" where
  "history_ok d i \<longleftrightarrow>
     map mv_version_number (history_of (row_id i) d) = [1..version i]
   \<and> (\<not> invalid_interval (mi_valid_from i) (mi_valid_until i) \<longrightarrow>
        mv_snapshot (last (history_of (row_id i) d)) = snapshot i)"

definition events_ok :: "db \<Rightarrow> bool" where
  "events_ok d \<longleftrightarrow>
     (\<forall>e \<in> set (outbox d). ob_aggregate_type e = ''memory'' \<longrightarrow>
        ob_aggregate_id e < next_id d
      \<and> (\<forall>i \<in> set (memories d). row_id i = ob_aggregate_id e \<longrightarrow> ob_sequence e \<le> version i))"

definition memory_inv :: "db \<Rightarrow> bool" where
  "memory_inv d \<longleftrightarrow>
     keyed (next_id d) (memories d)
   \<and> (\<forall>i \<in> set (memories d). row_ok i \<and> history_ok d i)
   \<and> (\<forall>v \<in> set (memory_versions d). mv_memory_id v < next_id d)
   \<and> events_ok d"

lemma snapshot_updated_at [simp]: "snapshot (i\<lparr>updated_at := t\<rparr>) = snapshot i"
  and row_ok_updated_at [simp]: "row_ok (i\<lparr>updated_at := t\<rparr>) = row_ok i"
  and history_ok_updated_at [simp]: "history_ok d (i\<lparr>updated_at := t\<rparr>) = history_ok d i"
  by (simp_all add: snapshot_def row_ok_def history_ok_def)

text \<open>The common tail of the operations: the new version of one item, its version row
  and, where its text changed, the request to index it.\<close>

definition bump :: "instant \<Rightarrow> uuid \<Rightarrow> string \<Rightarrow> bool \<Rightarrow> memory_item \<Rightarrow> db \<Rightarrow> db" where
  "bump now acc kind index i d =
     (let d1 = record_version now i acc kind (save_memory now i d)
      in if index then request_index now i (version i) d1 else d1)"

lemma bump_sel [simp]:
  "memories (bump now acc kind ix i d) = save_row now i (memories d)"
  "next_id (bump now acc kind ix i d) = next_id d + (if ix then 2 else 1)"
  by (simp_all add: bump_def Let_def record_version_def save_memory_def request_index_def
      add_outbox_def fresh_def)

lemma history_of_bump:
  "history_of k (bump now acc kind ix i d) =
     history_of k d @ (if k = row_id i then [\<lparr>row_id = next_id d, mv_memory_id = row_id i,
       mv_version_number = version i, mv_content = mi_content i, mv_category = mi_category i,
       mv_state = mi_state i, mv_change_kind = kind, mv_changed_by = acc, mv_changed_at = now,
       mv_snapshot = snapshot i\<rparr>] else [])"
  by (simp add: history_of_def bump_def Let_def record_version_def save_memory_def
      request_index_def add_outbox_def fresh_def)

lemma upto_snoc: "1 \<le> n \<Longrightarrow> [1..n] @ [n + 1] = [1..n + (1::int)]"
  by (simp add: upto_rec2)

lemma bump_inv:
  assumes inv: "memory_inv d" and i0: "get_row (row_id i) (memories d) = Some i0"
    and v: "version i = version i0 + 1" and ok: "row_ok i"
  shows "memory_inv (bump now acc kind ix i d)"
proof -
  let ?d = "bump now acc kind ix i d"
  have k: "keyed (next_id d) (memories d)" using inv by (simp add: memory_inv_def)
  have mem: "i0 \<in> set (memories d)" "row_id i0 = row_id i" using get_row_Some [OF i0] by auto
  have old: "row_ok i0" "history_ok d i0" using inv mem by (auto simp: memory_inv_def)
  have new: "history_ok ?d i"
    using old mem(2) v
    by (simp add: history_ok_def history_of_bump row_ok_def upto_snoc)
  have rows: "set (memories ?d) = insert (i\<lparr>updated_at := now\<rparr>) {x \<in> set (memories d). row_id x \<noteq> row_id i}"
    using set_put_row [OF k, of "i\<lparr>updated_at := now\<rparr>"] i0 by (simp add: save_row_def)
  have others: "history_ok ?d x" if "x \<in> set (memories d)" "row_id x \<noteq> row_id i" for x
    using that inv by (simp add: memory_inv_def history_ok_def history_of_bump)
  have "events_ok ?d"
    unfolding events_ok_def rows
  proof (intro ballI impI)
    fix e assume e: "e \<in> set (outbox ?d)" "ob_aggregate_type e = ''memory''"
    have bnd: "row_id i < next_id d" using k mem by (auto simp: keyed_def)
    have "e \<in> set (outbox d) \<or> (ob_aggregate_id e = row_id i \<and> ob_sequence e = version i)"
      using e by (auto simp: bump_def Let_def record_version_def save_memory_def request_index_def
          add_outbox_def fresh_def split: if_splits)
    moreover have "ob_aggregate_id e < next_id d \<and> (\<forall>x \<in> set (memories d).
        row_id x = ob_aggregate_id e \<longrightarrow> ob_sequence e \<le> version x)" if "e \<in> set (outbox d)"
      using inv that e(2) by (simp add: memory_inv_def events_ok_def)
    ultimately show "ob_aggregate_id e < next_id ?d \<and>
        (\<forall>x \<in> insert (i\<lparr>updated_at := now\<rparr>) {x \<in> set (memories d). row_id x \<noteq> row_id i}.
           row_id x = ob_aggregate_id e \<longrightarrow> ob_sequence e \<le> version x)"
      using bnd mem v by fastforce
  qed
  moreover have "\<forall>w \<in> set (memory_versions ?d). mv_memory_id w < next_id ?d"
  proof -
    have "row_id i < next_id d" using k mem by (auto simp: keyed_def)
    then show ?thesis using inv
      by (fastforce simp: memory_inv_def bump_def Let_def record_version_def save_memory_def
          request_index_def add_outbox_def fresh_def)
  qed
  moreover have "keyed (next_id ?d) (memories ?d)"
    using keyed_mono [OF k] by simp
  ultimately show ?thesis
    unfolding memory_inv_def using rows new ok others inv
    by (auto simp: memory_inv_def)
qed

lemma memory_inv_audit [simp]:
  "memory_inv (audit_append c now ctx ety res tty tid det d) = memory_inv d"
  by (simp add: memory_inv_def events_ok_def history_ok_def history_of_def)

section \<open>The version-guarded writes\<close>

text \<open>The four operations that name an item and the version they are based on, as one
  family; \<open>w\<close> says which one, with its instant, account and audit context.\<close>

datatype memory_change =
    Confirm
  | Update memory_update_request
  | SoftDelete int
  | Restore

record memory_call =
  ca_change :: memory_change
  ca_now :: instant
  ca_account :: uuid
  ca_context :: audit_context

definition memory_write ::
  "crypto \<Rightarrow> memory_call \<Rightarrow> uuid \<Rightarrow> int \<Rightarrow> db \<Rightarrow> memory_item result \<times> db" where
  "memory_write c w mid v d =
     (case ca_change w of
        Confirm \<Rightarrow> memory_confirm c (ca_now w) (ca_account w) mid v (ca_context w) d
      | Update rq \<Rightarrow> memory_update c (ca_now w) (ca_account w) mid (rq\<lparr>up_expected_version := v\<rparr>)
                       (ca_context w) d
      | SoftDelete n \<Rightarrow> memory_soft_delete c (ca_now w) (ca_account w) mid v n (ca_context w) d
      | Restore \<Rightarrow> memory_restore c (ca_now w) (ca_account w) mid v (ca_context w) d)"

lemma locked_item_row:
  assumes "keyed n (memories d)"
  shows "locked_item acc mid d = Some i \<longleftrightarrow> get_row mid (memories d) = Some i \<and> mi_account_id i = acc"
  unfolding locked_item_def query_one_owned [OF assms] by (auto split: option.splits)

lemma row_ok_update:
  assumes "row_ok i" "mi_state i \<notin> {MDeleted, MMerged}"
    "case up_content rq of None \<Rightarrow> True | Some t \<Rightarrow> \<not> contains_secret_instruction t"
  shows "row_ok ((apply_update rq i)\<lparr>version := version i + 1\<rparr>)" and "row_ok (apply_update rq i)"
  using assms by (auto simp: row_ok_def apply_update_def dest: secret_strip split: option.splits)

text \<open>A successful write: the item was at the named version and belongs to the account, and
  either it was already deleted and nothing changed, or it is bumped once and one event
  is logged. What the new row is depends on the operation (\<open>changed\<close>).\<close>

definition changed :: "memory_change \<Rightarrow> instant \<Rightarrow> memory_item \<Rightarrow> memory_item" where
  "changed ch now i =
     (case ch of
        Confirm \<Rightarrow> i\<lparr>mi_state := MActive, mi_confirmed_at := Some now\<rparr>
      | Update rq \<Rightarrow> apply_update rq i
      | SoftDelete n \<Rightarrow> i\<lparr>mi_state := MDeleted, mi_deleted_at := Some now,
                           mi_purge_after := Some (now + days n)\<rparr>
      | Restore \<Rightarrow> i\<lparr>mi_state := MActive, mi_deleted_at := None, mi_purge_after := None\<rparr>)
     \<lparr>version := version i + 1\<rparr>"

lemma changed_sel [simp]:
  "row_id (changed ch now i) = row_id i"
  "mi_account_id (changed ch now i) = mi_account_id i"
  "version (changed ch now i) = version i + 1"
  "created_at (changed ch now i) = created_at i"
  by (simp_all add: changed_def apply_update_def split: memory_change.splits)

lemma apply_update_expected [simp]: "apply_update (rq\<lparr>up_expected_version := v\<rparr>) i = apply_update rq i"
  by (simp add: apply_update_def)

lemma memory_write_success:
  assumes "memory_write c w mid v d = (Inr r, d')"
  obtains (noop) i where "locked_item (ca_account w) mid d = Some i" "version i = v"
      "mi_state i = MDeleted" "r = i" "d' = d"
  | (change) i kind ix ety det where "locked_item (ca_account w) mid d = Some i" "version i = v"
      "row_ok i \<Longrightarrow> row_ok (changed (ca_change w) (ca_now w) i)"
      "r = (changed (ca_change w) (ca_now w) i)\<lparr>updated_at := ca_now w\<rparr>"
      "d' = audit_append c (ca_now w) (ca_context w) ety ''success'' None (Some (row_id i)) det
              (bump (ca_now w) (ca_account w) kind ix (changed (ca_change w) (ca_now w) i) d)"
proof (cases "locked_item (ca_account w) mid d")
  case None
  then show ?thesis
    using assms by (simp add: memory_write_def memory_confirm_def memory_update_def
        memory_soft_delete_def memory_restore_def split: memory_change.splits)
next
  case (Some i)
  show ?thesis
  proof (cases "ca_change w")
    case Confirm
    with assms Some have *: "version i = v" "mi_state i = MPending"
      by (auto simp: memory_write_def memory_confirm_def split: if_splits)
    show ?thesis
      using change [OF Some *(1), where kind = "''confirmed''" and ix = False and ety = "''memory.confirmed''"
          and det = "[]"] assms * Some Confirm
      by (simp add: memory_write_def memory_confirm_def Let_def bump_def changed_def row_ok_def)
  next
    case (Update rq)
    let ?i = "changed (Update rq) (ca_now w) i"
    from assms Some Update have *: "version i = v" "mi_state i \<notin> {MDeleted, MMerged}"
        "case up_content rq of None \<Rightarrow> True | Some t \<Rightarrow> \<not> contains_secret_instruction t"
        "\<not> invalid_interval (mi_valid_from (apply_update rq i)) (mi_valid_until (apply_update rq i))"
      by (auto simp: memory_write_def memory_update_def Let_def
          split: if_splits option.splits)
    have r: "r = ?i\<lparr>updated_at := ca_now w\<rparr>"
      and d': "d' = audit_append c (ca_now w) (ca_context w) ''memory.updated'' ''success'' None
        (Some (row_id i)) [(asc ''version'', JInt (version ?i)),
           (asc ''state'', jstr (memory_state_str (mi_state ?i)))]
        (bump (ca_now w) (ca_account w) ''updated'' True ?i d)"
      using assms Some Update
      by (auto simp: memory_write_def memory_update_def Let_def bump_def changed_def
          split: if_splits option.splits)
        (simp_all add: apply_update_def)
    have "row_ok i \<Longrightarrow> row_ok ?i"
      using row_ok_update(1) [OF _ *(2,3)] by (simp add: changed_def)
    with Update r d' * show ?thesis by (intro change [OF Some *(1)]) simp_all
  next
    case (SoftDelete n)
    with assms Some have *: "version i = v"
      by (auto simp: memory_write_def memory_soft_delete_def split: if_splits)
    show ?thesis
    proof (cases "mi_state i = MDeleted")
      case True
      with assms Some SoftDelete * show ?thesis
        by (intro noop [OF Some]) (auto simp: memory_write_def memory_soft_delete_def)
    next
      case False
      show ?thesis
        using change [OF Some *, where kind = "''deleted''" and ix = False and ety = "''memory.deleted''"
            and det = "[(asc ''recoverable_until'', JInt (ca_now w + days n))]"] assms * Some SoftDelete False
        by (simp add: memory_write_def memory_soft_delete_def Let_def bump_def changed_def row_ok_def)
    qed
  next
    case Restore
    with assms Some have *: "version i = v" "mi_state i = MDeleted"
      by (auto simp: memory_write_def memory_restore_def split: if_splits)
    show ?thesis
      using change [OF Some *(1), where kind = "''restored''" and ix = True and ety = "''memory.restored''"
          and det = "[]"] assms * Some Restore
      by (auto simp: memory_write_def memory_restore_def Let_def bump_def changed_def row_ok_def
          split: if_splits)
  qed
qed

lemma memory_write_inv:
  assumes "memory_inv d" "memory_write c w mid v d = (Inr r, d')"
  shows "memory_inv d'"
  using assms(2)
proof (cases rule: memory_write_success)
  case (change i kind ix ety det)
  have "keyed (next_id d) (memories d)" using assms(1) by (simp add: memory_inv_def)
  then have i: "get_row mid (memories d) = Some i" using change(1) locked_item_row by blast
  then have "row_ok i" using assms(1) get_row_Some by (fastforce simp: memory_inv_def)
  with i change show ?thesis
    using bump_inv [OF assms(1), of "changed (ca_change w) (ca_now w) i" i] get_row_id [OF i]
    by simp
qed (simp add: assms(1))

lemma memory_write_rows:
  assumes "memory_inv d" "memory_write c w mid v d = (Inr r, d')"
  shows "\<exists>i. get_row mid (memories d) = Some i \<and> version i = v"
    and "d' = d \<or> get_row mid (memories d') = Some r \<and> version r = v + 1"
    and "k \<noteq> mid \<Longrightarrow> get_row k (memories d') = get_row k (memories d)"
proof -
  have k: "keyed (next_id d) (memories d)" using assms(1) by (simp add: memory_inv_def)
  show "\<exists>i. get_row mid (memories d) = Some i \<and> version i = v"
    using assms(2) by (cases rule: memory_write_success) (auto simp: locked_item_row [OF k])
  show "d' = d \<or> get_row mid (memories d') = Some r \<and> version r = v + 1"
    using assms(2)
    by (cases rule: memory_write_success)
      (auto simp: locked_item_row [OF k] get_row_save_row dest: get_row_id)
  show "k \<noteq> mid \<Longrightarrow> get_row k (memories d') = get_row k (memories d)"
    using assms(2)
    by (cases rule: memory_write_success)
      (auto simp: locked_item_row [OF k] get_row_save_row dest: get_row_id)
qed

lemma memory_write_not_durable: "memory_write c w mid v d = (Inl e, d') \<Longrightarrow> \<not> is_durable e"
  by (auto simp: memory_write_def memory_confirm_def memory_update_def memory_soft_delete_def
      memory_restore_def Let_def exc_defs version_conflict_def duplicate_conflict_def
      split: memory_change.splits option.splits if_splits)

interpretation mem: versioned_store memory_inv "\<lambda>k d. get_row k (memories d)" version
  "\<lambda>w k v. run_tx (memory_write c w k v)" for c
proof unfold_locales
  fix s s' :: db and w k v and a :: memory_item
  assume i: "memory_inv s" and t: "run_tx (memory_write c w k v) s = (Inr a, s')"
  note w = run_tx_commitD [OF t, THEN conjunct1]
  show "\<exists>x. get_row k (memories s) = Some x \<and> version x = v"
    using memory_write_rows(1) [OF i w] .
  show "s' = s \<or> (\<exists>x. get_row k (memories s') = Some x \<and> version x = v + 1)"
    using memory_write_rows(2) [OF i w] by blast
next
  fix s s' :: db and w k v e
  assume "run_tx (memory_write c w k v) s = (Inl e, s')"
  then show "s' = s" by (rule run_tx_failed) (rule memory_write_not_durable)
next
  fix s s' :: db and w k v k' and r
  assume i: "memory_inv s" and t: "run_tx (memory_write c w k v) s = (r, s')"
  have f: "r = Inl e \<Longrightarrow> s' = s" for e
    using run_tx_failed [of "memory_write c w k v" s e s'] memory_write_not_durable t by blast
  show "memory_inv s'"
    using f i t memory_write_inv [OF i] by (cases r) (auto dest!: run_tx_commitD)
  show "k' \<noteq> k \<Longrightarrow> get_row k' (memories s') = get_row k' (memories s)"
    using f t memory_write_rows(3) [OF i] by (cases r) (auto dest!: run_tx_commitD)
qed

section \<open>Creating and merging\<close>

lemma candidates_eq:
  "(if filter P t = [] then (case query_one P t of None \<Rightarrow> [] | Some i \<Rightarrow> [i]) else filter P t) = filter P t"
  by (auto simp: filter_empty_conv query_one_def split: option.split dest: find_Some_D)

lemma memory_create_success:
  assumes "memory_create c now acc rq ctx d = (Inr r, d')"
  shows "\<not> contains_secret_instruction (rq_content rq)"
    and "\<not> invalid_interval (rq_valid_from rq) (rq_valid_until rq)"
    and "\<And>i. i \<in> set (memories d) \<Longrightarrow> current acc i \<Longrightarrow>
           canonical_content (mi_content i) \<noteq> canonical_content (rq_content rq)"
    and "r = new_item now acc rq d"
    and "\<exists>det. d' = audit_append c now ctx ''memory.created'' ''success'' (Some ''memory_item'')
           (Some (row_id r)) det (insert_item now acc rq r d)"
  using assms unfolding memory_create_def Let_def candidates_eq
  by (auto split: if_splits option.splits simp: find_None_iff)

lemma memory_create_ok:
  assumes "\<not> contains_secret_instruction (rq_content rq)"
    and "\<not> invalid_interval (rq_valid_from rq) (rq_valid_until rq)"
    and "\<forall>i \<in> set (memories d). current acc i \<longrightarrow>
           canonical_content (mi_content i) \<noteq> canonical_content (rq_content rq)"
  shows "\<exists>d'. memory_create c now acc rq ctx d = (Inr (new_item now acc rq d), d')"
proof -
  have "List.find (\<lambda>i. canonical_content (mi_content i) = canonical_content (rq_content rq))
      (filter (current acc) (memories d)) = None"
    using assms(3) by (auto simp: find_None_iff)
  with assms(1,2) show ?thesis unfolding memory_create_def Let_def candidates_eq by simp
qed

lemma insert_item_sel:
  "memories (insert_item now acc rq i d) = memories d @ [i]"
  "next_id (insert_item now acc rq i d) = next_id d + 4"
  "memory_versions (insert_item now acc rq i d) = memory_versions d @
     [\<lparr>row_id = next_id d + 1, mv_memory_id = row_id i, mv_version_number = version i,
       mv_content = mi_content i, mv_category = mi_category i, mv_state = mi_state i,
       mv_change_kind = ''created'', mv_changed_by = acc, mv_changed_at = now,
       mv_snapshot = snapshot i\<rparr>]"
  "outbox (insert_item now acc rq i d) = outbox d @
     [\<lparr>row_id = next_id d + 3, ob_aggregate_type = ''memory'', ob_aggregate_id = row_id i,
       ob_event_type = ''memory.index_requested'',
       ob_payload = [(asc ''memory_id'', JStr (uuid_str (row_id i)))], ob_sequence = 1,
       ob_created_at = now, ob_published_at = None, ob_attempts = 0, ob_last_error_code = None\<rparr>]"
  by (simp_all add: insert_item_def Let_def record_version_def request_index_def add_outbox_def fresh_def)

lemma new_item_sel [simp]:
  "row_id (new_item now acc rq d) = next_id d" "version (new_item now acc rq d) = 1"
  "mi_account_id (new_item now acc rq d) = acc"
  "mi_content (new_item now acc rq d) = strip (rq_content rq)"
  "mi_state (new_item now acc rq d) =
     (if rq_confirmed rq \<or> rq_origin_type rq \<in> {ExplicitCommand, Manual} then MActive else MPending)"
  by (simp_all add: new_item_def Let_def)

lemma insert_item_inv:
  assumes inv: "memory_inv d" and i: "row_id i = next_id d" "version i = 1" "row_ok i"
  shows "memory_inv (insert_item now acc rq i d)"
proof -
  let ?d = "insert_item now acc rq i d"
  have k: "keyed (next_id d) (memories d)" and old: "\<And>x. x \<in> set (memories d) \<Longrightarrow> row_id x < next_id d"
    using inv by (auto simp: memory_inv_def keyed_def)
  have none: "history_of (next_id d) d = []"
    using inv by (auto simp: memory_inv_def history_of_def filter_empty_conv)
  have "history_ok ?d x" if "x \<in> set (memories d)" for x
    using that inv old [OF that] i(1)
    by (simp add: memory_inv_def history_ok_def history_of_def insert_item_sel)
  moreover have "history_ok ?d i"
    using none i by (simp add: history_ok_def history_of_def insert_item_sel)
  moreover have "events_ok ?d"
    using inv i old by (fastforce simp: memory_inv_def events_ok_def insert_item_sel)
  moreover have "keyed (next_id ?d) (memories ?d)"
    using keyed_append_new [OF k, of i] i by (simp add: insert_item_sel)
  ultimately show ?thesis
    using inv i by (fastforce simp: memory_inv_def insert_item_sel)
qed

lemma new_item_ok:
  assumes "\<not> contains_secret_instruction (rq_content rq)"
    "\<not> invalid_interval (rq_valid_from rq) (rq_valid_until rq)"
  shows "row_ok (new_item now acc rq d)"
  using assms by (auto simp: row_ok_def new_item_def Let_def dest: secret_strip)

lemma memory_create_inv:
  assumes "memory_inv d" "memory_create c now acc rq ctx d = (Inr r, d')"
  shows "memory_inv d'"
proof -
  note s = memory_create_success [OF assms(2)]
  have "memory_inv (insert_item now acc rq r d)"
    using insert_item_inv [OF assms(1)] new_item_ok [OF s(1,2)] s(4) by simp
  with s(5) show ?thesis by auto
qed

lemma mark_merged_bump:
  "mark_merged now acc t s d =
     bump now acc ''merged'' False (s\<lparr>mi_state := MMerged, mi_merged_into_id := Some t,
       version := version s + 1\<rparr>) d"
  by (simp add: mark_merged_def bump_def Let_def)

text \<open>The loop of \<open>merge\<close>: every source is marked, every other row is kept.\<close>

lemma merge_loop:
  assumes "memory_inv d" "distinct (map row_id ss)"
    and "\<And>s. s \<in> set ss \<Longrightarrow> get_row (row_id s) (memories d) = Some s \<and> mi_state s \<in> {MActive, MOutdated}"
  shows "memory_inv (foldl (\<lambda>d s. mark_merged now acc t s d) d ss)"
    and "get_row k (memories (foldl (\<lambda>d s. mark_merged now acc t s d) d ss)) =
      (case get_row k ss of None \<Rightarrow> get_row k (memories d)
       | Some s \<Rightarrow> Some (s\<lparr>mi_state := MMerged, mi_merged_into_id := Some t, version := version s + 1,
           updated_at := now\<rparr>))"
  using assms
proof (induction ss arbitrary: d)
  case Nil
  { case 1 then show ?case by simp }
  { case 2 then show ?case by simp }
next
  case (Cons s ss)
  let ?i = "s\<lparr>mi_state := MMerged, mi_merged_into_id := Some t, version := version s + 1\<rparr>"
  have pre: "memory_inv (mark_merged now acc t s d)"
    if "memory_inv d" "get_row (row_id s) (memories d) = Some s \<and> mi_state s \<in> {MActive, MOutdated}"
    for d
  proof -
    have "row_ok s" using that get_row_Some by (fastforce simp: memory_inv_def)
    with that(2) have "row_ok ?i" by (auto simp: row_ok_def)
    then show ?thesis
      unfolding mark_merged_bump using that by (intro bump_inv) simp_all
  qed
  have keep: "get_row k (memories (mark_merged now acc t s d)) = get_row k (memories d)"
    if "k \<noteq> row_id s" for k d
    using that by (simp add: mark_merged_bump get_row_save_row)
  have ne: "row_id x \<noteq> row_id s" if "distinct (map row_id (s # ss))" "x \<in> set ss" for x
    using that by (force simp: image_iff)
  { case (1 d)
    have "memory_inv (mark_merged now acc t s d)" using 1(3) by (intro pre [OF 1(1)]) simp
    then show ?case using Cons.IH(1) 1(2,3) by (simp add: keep ne [OF 1(2)]) }
  { case (2 d)
    let ?d = "mark_merged now acc t s d"
    have inv: "memory_inv ?d" using 2(3) by (intro pre [OF 2(1)]) simp
    have "get_row (row_id s) ss = None"
      using ne [OF 2(2)] by (force simp: get_row_def find_None_iff)
    moreover have "get_row (row_id s) (memories ?d) = Some (?i\<lparr>updated_at := now\<rparr>)"
      using 2(3) [of s] by (simp add: mark_merged_bump get_row_save_row)
    moreover have "\<And>x. x \<in> set ss \<Longrightarrow>
        get_row (row_id x) (memories ?d) = Some x \<and> mi_state x \<in> {MActive, MOutdated}"
      using 2(3) by (simp add: keep ne [OF 2(2)])
    ultimately show ?case
      using Cons.IH(2) [OF inv] 2(2) keep by (auto split: option.split) }
qed

definition merge_sources :: "uuid \<Rightarrow> uuid list \<Rightarrow> db \<Rightarrow> memory_item list" where
  "merge_sources acc ids d = filter (\<lambda>i. mi_account_id i = acc \<and> row_id i \<in> set ids) (memories d)"

lemma memory_merge_success:
  assumes "memory_merge c now acc ids rq ctx d = (Inr r, d')"
  obtains d1 det where "memory_create c now acc (rq\<lparr>rq_confirmed := True\<rparr>) ctx d = (Inr r, d1)"
    "2 \<le> card (set ids)" "length (merge_sources acc ids d) = card (set ids)"
    "\<forall>s \<in> set (merge_sources acc ids d). mi_state s \<in> {MActive, MOutdated}"
    "d' = audit_append c now ctx ''memory.merged'' ''success'' None (Some (row_id r)) det
       (foldl (\<lambda>d s. mark_merged now acc (row_id r) s d) d1 (merge_sources acc ids d))"
  using assms unfolding memory_merge_def merge_sources_def Let_def
  by (auto split: if_splits prod.splits sum.splits)

lemma memory_merge_accepts:
  assumes "2 \<le> card (set ids)" "length (merge_sources acc ids d) = card (set ids)"
    and "\<forall>s \<in> set (merge_sources acc ids d). mi_state s \<in> {MActive, MOutdated}"
    and "memory_create c now acc (rq\<lparr>rq_confirmed := True\<rparr>) ctx d = (Inr r, d1)"
  shows "\<exists>d'. memory_merge c now acc ids rq ctx d = (Inr r, d')"
  using assms unfolding memory_merge_def merge_sources_def Let_def by auto

lemma create_keeps_rows:
  assumes "memory_inv d" "memory_create c now acc rq ctx d = (Inr r, d1)"
  shows "get_row k (memories d1) = (if k = next_id d then Some r else get_row k (memories d))"
proof -
  note s = memory_create_success [OF assms(2)]
  have "get_row (next_id d) (memories d) = None"
    using assms(1) get_row_fresh by (auto simp: memory_inv_def)
  with s(4,5) show ?thesis
    by (auto simp: insert_item_sel get_row_append split: option.split)
qed

lemma merge_sources_rows:
  assumes "memory_inv d"
  shows "distinct (map row_id (merge_sources acc ids d))"
    and "s \<in> set (merge_sources acc ids d) \<Longrightarrow> get_row (row_id s) (memories d) = Some s"
    and "s \<in> set (merge_sources acc ids d) \<Longrightarrow> row_id s < next_id d"
proof -
  have k: "keyed (next_id d) (memories d)" using assms by (simp add: memory_inv_def)
  show "distinct (map row_id (merge_sources acc ids d))"
    using k by (auto simp: keyed_def merge_sources_def intro: distinct_map_filter)
  show "s \<in> set (merge_sources acc ids d) \<Longrightarrow> get_row (row_id s) (memories d) = Some s"
    using get_row_mem [OF k] by (auto simp: merge_sources_def)
  show "s \<in> set (merge_sources acc ids d) \<Longrightarrow> row_id s < next_id d"
    using k by (auto simp: merge_sources_def keyed_def)
qed

lemma memory_merge_effect:
  assumes "memory_inv d" "memory_merge c now acc ids rq ctx d = (Inr r, d')"
  shows "memory_inv d'"
    and "get_row k (memories d') =
      (case get_row k (merge_sources acc ids d) of
         Some s \<Rightarrow> Some (s\<lparr>mi_state := MMerged, mi_merged_into_id := Some (row_id r),
           version := version s + 1, updated_at := now\<rparr>)
       | None \<Rightarrow> if k = row_id r then Some r else get_row k (memories d))"
proof -
  from assms(2) obtain d1 det where m:
    "memory_create c now acc (rq\<lparr>rq_confirmed := True\<rparr>) ctx d = (Inr r, d1)"
    "\<forall>s \<in> set (merge_sources acc ids d). mi_state s \<in> {MActive, MOutdated}"
    "d' = audit_append c now ctx ''memory.merged'' ''success'' None (Some (row_id r)) det
       (foldl (\<lambda>d s. mark_merged now acc (row_id r) s d) d1 (merge_sources acc ids d))"
    by (elim memory_merge_success)
  have r: "row_id r = next_id d" using memory_create_success(4) [OF m(1)] by simp
  have rows: "get_row (row_id s) (memories d1) = Some s \<and> mi_state s \<in> {MActive, MOutdated}"
    if "s \<in> set (merge_sources acc ids d)" for s
    using that m(2) merge_sources_rows [OF assms(1)] create_keeps_rows [OF assms(1) m(1)] by fastforce
  note loop = merge_loop [OF memory_create_inv [OF assms(1) m(1)] merge_sources_rows(1) [OF assms(1)]
      rows, of acc ids]
  show "memory_inv d'" using loop(1) m(3) by simp
  show "get_row k (memories d') =
      (case get_row k (merge_sources acc ids d) of
         Some s \<Rightarrow> Some (s\<lparr>mi_state := MMerged, mi_merged_into_id := Some (row_id r),
           version := version s + 1, updated_at := now\<rparr>)
       | None \<Rightarrow> if k = row_id r then Some r else get_row k (memories d))"
    unfolding m(3) using loop(2) [where now = now and acc = acc and t = "row_id r" and k = k] create_keeps_rows [OF assms(1) m(1), of k] r
    by (cases "get_row k (merge_sources acc ids d)") auto
qed

lemma merge_source_ids:
  assumes "memory_inv d" "memory_merge c now acc ids rq ctx d = (Inr r, d')"
  shows "row_id ` set (merge_sources acc ids d) = set ids"
proof -
  let ?ss = "merge_sources acc ids d"
  have "length ?ss = card (set ids)" using assms(2) by (elim memory_merge_success)
  then have "card (set (map row_id ?ss)) = card (set ids)"
    using merge_sources_rows(1) [OF assms(1)] by (metis distinct_card length_map)
  moreover have "set (map row_id ?ss) \<subseteq> set ids" by (auto simp: merge_sources_def)
  ultimately show ?thesis using card_subset_eq [of "set ids"] by (simp only: set_map) blast
qed

lemma memory_create_error: "memory_create c now acc rq ctx d = (Inl e, d') \<Longrightarrow> d' = d"
  by (auto simp: memory_create_def Let_def split: if_splits option.splits)

lemma memory_merge_error: "memory_merge c now acc ids rq ctx d = (Inl e, d') \<Longrightarrow> d' = d"
  by (auto simp: memory_merge_def Let_def dest: memory_create_error
      split: if_splits prod.splits sum.splits)

lemma memory_create_not_durable: "memory_create c now acc rq ctx d = (Inl e, d') \<Longrightarrow> \<not> is_durable e"
  by (auto simp: memory_create_def Let_def exc_defs duplicate_conflict_def split: if_splits option.splits)

lemma memory_merge_not_durable: "memory_merge c now acc ids rq ctx d = (Inl e, d') \<Longrightarrow> \<not> is_durable e"
  using memory_create_not_durable
  by (auto simp: memory_merge_def Let_def exc_defs split: if_splits prod.splits sum.splits)

section \<open>Refused requests\<close>

text \<open>A refused update changes nothing, except when it is refused for the validity interval: then the
  row was already changed, without a new version.\<close>

lemma memory_update_refused:
  assumes "memory_update c now acc mid rq ctx d = (Inl e, d')"
  obtains (same) "d' = d"
  | (row) i where "locked_item acc mid d = Some i" "mi_state i \<notin> {MDeleted, MMerged}"
      "case up_content rq of None \<Rightarrow> True | Some t \<Rightarrow> \<not> contains_secret_instruction t"
      "invalid_interval (mi_valid_from (apply_update rq i)) (mi_valid_until (apply_update rq i))"
      "d' = save_memory now (apply_update rq i) d"
proof (cases "locked_item acc mid d")
  case None
  then show ?thesis using assms same by (simp add: memory_update_def)
next
  case (Some i)
  show ?thesis
  proof (cases "d' = d")
    case False
    then show ?thesis
      using assms Some row [of i]
      by (auto simp: memory_update_def Let_def split: if_splits option.splits)
  qed (rule same)
qed

lemma save_memory_inv:
  assumes inv: "memory_inv d" and i0: "get_row (row_id i) (memories d) = Some i0"
    and i: "version i = version i0" "row_ok i" "invalid_interval (mi_valid_from i) (mi_valid_until i)"
  shows "memory_inv (save_memory now i d)"
proof -
  let ?d = "save_memory now i d"
  have k: "keyed (next_id d) (memories d)" using inv by (simp add: memory_inv_def)
  have mem: "i0 \<in> set (memories d)" "row_id i0 = row_id i" using get_row_Some [OF i0] by auto
  have rows: "set (memories ?d) = insert (i\<lparr>updated_at := now\<rparr>) {x \<in> set (memories d). row_id x \<noteq> row_id i}"
    using set_put_row [OF k, of "i\<lparr>updated_at := now\<rparr>"] i0 by (simp add: save_memory_def save_row_def)
  have h: "history_of x ?d = history_of x d" for x by (simp add: history_of_def save_memory_def)
  have o: "outbox ?d = outbox d" "next_id ?d = next_id d" "memory_versions ?d = memory_versions d"
    by (simp_all add: save_memory_def)
  have "history_ok ?d i"
    using inv mem i(1,3) by (auto simp: memory_inv_def history_ok_def h)
  moreover have "history_ok ?d x" if "x \<in> set (memories d)" for x
    using inv that by (auto simp: memory_inv_def history_ok_def h)
  moreover have "events_ok ?d"
    using inv mem i(1) unfolding memory_inv_def events_ok_def o rows by force
  moreover have "keyed (next_id ?d) (memories ?d)" using k by (simp add: save_memory_def)
  ultimately show ?thesis
    using inv i(2) unfolding memory_inv_def o rows by auto
qed

text \<open>Every operation keeps the invariant, whether it succeeds or is refused.\<close>

lemma memory_services_inv:
  assumes "memory_inv d"
  shows "memory_inv (snd (memory_create c now acc rq ctx d))"
    and "memory_inv (snd (memory_update c now acc mid urq ctx d))"
    and "memory_inv (snd (memory_soft_delete c now acc mid v n ctx d))"
    and "memory_inv (snd (memory_restore c now acc mid v ctx d))"
    and "memory_inv (snd (memory_confirm c now acc mid v ctx d))"
    and "memory_inv (snd (memory_merge c now acc ids rq ctx d))"
proof -
  have k: "keyed (next_id d) (memories d)" using assms by (simp add: memory_inv_def)
  let ?w = "\<lambda>ch. \<lparr>ca_change = ch, ca_now = now, ca_account = acc, ca_context = ctx\<rparr>"
  have w: "memory_inv d'" if "memory_write c (?w ch) mid v d = (Inr r, d')" for ch v r d'
    using memory_write_inv [OF assms that] .
  show "memory_inv (snd (memory_create c now acc rq ctx d))"
    using memory_create_inv [OF assms] memory_create_error assms
    by (cases "memory_create c now acc rq ctx d" rule: prod.exhaust; cases "fst (memory_create c now acc rq ctx d)")
      fastforce+
  show "memory_inv (snd (memory_merge c now acc ids rq ctx d))"
    using memory_merge_effect(1) [OF assms] memory_merge_error assms
    by (cases "memory_merge c now acc ids rq ctx d" rule: prod.exhaust; cases "fst (memory_merge c now acc ids rq ctx d)")
      fastforce+
  show "memory_inv (snd (memory_soft_delete c now acc mid v n ctx d))"
  proof (cases "memory_soft_delete c now acc mid v n ctx d")
    case (Pair q d')
    then show ?thesis
      using w [of "SoftDelete n" v _ d'] assms
      by (cases q) (auto simp: memory_write_def memory_soft_delete_def Let_def split: option.splits if_splits)
  qed
  show "memory_inv (snd (memory_restore c now acc mid v ctx d))"
  proof (cases "memory_restore c now acc mid v ctx d")
    case (Pair q d')
    then show ?thesis
      using w [of Restore v _ d'] assms
      by (cases q) (auto simp: memory_write_def memory_restore_def Let_def split: option.splits if_splits)
  qed
  show "memory_inv (snd (memory_confirm c now acc mid v ctx d))"
  proof (cases "memory_confirm c now acc mid v ctx d")
    case (Pair q d')
    then show ?thesis
      using w [of Confirm v _ d'] assms
      by (cases q) (auto simp: memory_write_def memory_confirm_def Let_def split: option.splits if_splits)
  qed
  show "memory_inv (snd (memory_update c now acc mid urq ctx d))"
  proof (cases "memory_update c now acc mid urq ctx d")
    case (Pair q d')
    show ?thesis
    proof (cases q)
      case (Inr r)
      then show ?thesis
        using w [of "Update urq" "up_expected_version urq" r d'] Pair by (simp add: memory_write_def)
    next
      case (Inl e)
      with Pair have "memory_update c now acc mid urq ctx d = (Inl e, d')" by simp
      then show ?thesis
      proof (cases rule: memory_update_refused)
        case same
        then show ?thesis using Pair assms by simp
      next
        case (row i)
        have g: "get_row mid (memories d) = Some i" using row(1) by (simp add: locked_item_row [OF k])
        have "row_ok i" using assms get_row_Some [OF g] by (simp add: memory_inv_def)
        then have "memory_inv (save_memory now (apply_update urq i) d)"
          using save_memory_inv [OF assms, of "apply_update urq i" i] row_ok_update(2) [of i urq] row(2-4) g
            get_row_id [OF g] by (simp add: apply_update_def)
        then show ?thesis using Pair row(5) by simp
      qed
    qed
  qed
qed

lemma memory_write_tx_inv:
  assumes "memory_inv d"
  shows "memory_inv (snd (memory_write c w mid v d))"
  using memory_services_inv [OF assms]
  by (cases "ca_change w") (simp_all add: memory_write_def)

end
