(* ===== verification/Conversations.thy ===== *)
theory Conversations
  imports AuditLog Interfaces
begin

text \<open>
  \<^verbatim>\<open>conversations/service.py\<close> and \<^verbatim>\<open>conversations/schemas.py\<close>: starting a
  conversation, adding the turns of the user and of the assistant with their
  idempotency keys, correcting a transcript and ending a conversation.
\<close>

section \<open>Requests (conversations/schemas.py)\<close>

record conversation_start =
  cq_input_mode :: string
  cq_language :: pystr
  cq_continuation_of_id :: "uuid option"

record user_turn =
  ut_idempotency_key :: pystr
  ut_content :: pystr
  ut_input_mode :: string
  ut_language :: pystr

record transcript_correction =
  tc_expected_message_version :: int
  tc_corrected_content :: pystr
  tc_request_new_answer :: bool

definition validate_start :: "conversation_start \<Rightarrow> conversation_start result" where
  "validate_start r =
     (if cq_input_mode r \<notin> {''voice'', ''text''} \<or> length (cq_language r) < 2
         \<or> 16 < length (cq_language r) then Inl ValueError else Inr r)"

definition validate_turn :: "user_turn \<Rightarrow> user_turn result" where
  "validate_turn r =
     (let t = strip (ut_content r)
      in if t = [] \<or> 50000 < length t \<or> length (ut_idempotency_key r) < 16
            \<or> 128 < length (ut_idempotency_key r) \<or> ut_input_mode r \<notin> {''voice'', ''text''}
            \<or> length (ut_language r) < 2 \<or> 16 < length (ut_language r)
         then Inl ValueError else Inr (r\<lparr>ut_content := t\<rparr>))"

definition validate_correction :: "transcript_correction \<Rightarrow> transcript_correction result" where
  "validate_correction r =
     (let t = strip (tc_corrected_content r)
      in if tc_expected_message_version r < 1 \<or> t = [] \<or> 50000 < length t
         then Inl ValueError else Inr (r\<lparr>tc_corrected_content := t\<rparr>))"

section \<open>Operations (conversations/service.py)\<close>

text \<open>\<^verbatim>\<open>Conversation(...)\<close> with the defaults of its columns.\<close>

definition new_conversation ::
  "instant \<Rightarrow> uuid \<Rightarrow> string \<Rightarrow> pystr \<Rightarrow> uuid option \<Rightarrow> db \<Rightarrow> conversation" where
  "new_conversation now acc mode lang cont d =
     \<lparr>row_id = next_id d, created_at = now, updated_at = now, version = 1, cv_account_id = acc,
      cv_state = CActive, cv_input_mode = mode, cv_language = lang, cv_title = None,
      cv_title_source = ''automatic'', cv_summary = None, cv_summary_source = ''automatic'',
      cv_started_at = now, cv_ended_at = None, cv_last_activity_at = now, cv_end_reason = None,
      cv_continuation_of_id = cont, cv_deleted_at = None, cv_purge_after = None,
      cv_message_count = 0, cv_context_summary = None,
      cv_context_summary_version = 0\<rparr>"

definition add_link :: "instant \<Rightarrow> uuid \<Rightarrow> uuid \<Rightarrow> db \<Rightarrow> db" where
  "add_link now source target d =
     (fresh d)\<lparr>links := links d @ [\<lparr>row_id = next_id d, cl_source_id = source, cl_target_id = target,
        cl_relation = ''continued_by'', cl_created_at = now\<rparr>]\<rparr>"

definition start ::
  "crypto \<Rightarrow> instant \<Rightarrow> uuid \<Rightarrow> conversation_start \<Rightarrow> audit_context \<Rightarrow> db \<Rightarrow> conversation result \<times> db" where
  "start c now acc rq ctx d =
     (if (case cq_continuation_of_id rq of None \<Rightarrow> False
          | Some o1 \<Rightarrow> query_one (\<lambda>x. row_id x = o1 \<and> cv_account_id x = acc \<and> cv_deleted_at x = None)
                        (conversations d) = None)
      then (Inl NotFoundError, d)
      else
        let cv = new_conversation now acc (cq_input_mode rq) (cq_language rq)
                   (cq_continuation_of_id rq) d;
            d1 = (fresh d)\<lparr>conversations := conversations d @ [cv]\<rparr>;
            d2 = (case cq_continuation_of_id rq of None \<Rightarrow> d1
                  | Some o1 \<Rightarrow> add_link now o1 (row_id cv) d1)
        in (Inr cv, audit_append c now ctx ''conversation.started'' ''success'' None (Some (row_id cv))
              [(asc ''input_mode'', jstr (cq_input_mode rq)),
               (asc ''continuation'', JBool (cq_continuation_of_id rq \<noteq> None))] d2))"

definition turn_object :: "user_turn \<Rightarrow> json" where
  "turn_object rq =
     jobj [(''content'', JStr (strip (ut_content rq))),
       (''input_mode'', jstr (ut_input_mode rq)), (''language'', JStr (ut_language rq))]"

definition request_hash :: "crypto \<Rightarrow> user_turn \<Rightarrow> pystr" where
  "request_hash c rq = canonical_digest c (turn_object rq)"

definition find_turn :: "uuid \<Rightarrow> pystr \<Rightarrow> db \<Rightarrow> message option" where
  "find_turn cid key d =
     query_one (\<lambda>m. ms_conversation_id m = cid \<and> ms_idempotency_key m = key) (messages d)"

text \<open>\<^verbatim>\<open>coalesce(max(sequence), 0) + 1\<close> over the messages of the conversation.\<close>

definition next_sequence :: "uuid \<Rightarrow> db \<Rightarrow> nat" where
  "next_sequence cid d =
     foldr max (map ms_sequence (filter (\<lambda>m. ms_conversation_id m = cid) (messages d))) 0 + 1"

definition add_message :: "instant \<Rightarrow> conversation \<Rightarrow> message \<Rightarrow> db \<Rightarrow> db" where
  "add_message now cv m d =
     (fresh d)\<lparr>messages := messages d @ [m],
       conversations := save_row now (cv\<lparr>cv_message_count := Suc (cv_message_count cv),
         cv_last_activity_at := now, version := version cv + 1\<rparr>) (conversations d)\<rparr>"

definition add_user_turn ::
  "crypto \<Rightarrow> instant \<Rightarrow> uuid \<Rightarrow> uuid \<Rightarrow> user_turn \<Rightarrow> audit_context \<Rightarrow> db \<Rightarrow> message result \<times> db" where
  "add_user_turn c now acc cid rq ctx d =
     (case query_one (\<lambda>x. row_id x = cid \<and> cv_account_id x = acc) (conversations d) of
        None \<Rightarrow> (Inl NotFoundError, d)
      | Some cv \<Rightarrow>
          if cv_state cv \<noteq> CActive then (Inl (ConflictError None), d)
          else (case find_turn cid (ut_idempotency_key rq) d of
              Some m \<Rightarrow>
                if (case ms_request_hash m of None \<Rightarrow> False
                    | Some h \<Rightarrow> h \<noteq> [] \<and> h \<noteq> request_hash c rq)
                then (Inl (ConflictError None), d)
                else (Inr m, d)
            | None \<Rightarrow>
                let sq = next_sequence cid d;
                    m = \<lparr>row_id = next_id d, created_at = now, updated_at = now, version = 1,
                         ms_conversation_id = cid, ms_sequence = sq, ms_role = ''user'',
                         ms_content = strip (ut_content rq), ms_input_mode = ut_input_mode rq,
                         ms_status = ''final'', ms_idempotency_key = ut_idempotency_key rq,
                         ms_request_hash = Some (request_hash c rq),
                         ms_provider_message_id = None, ms_response_run_id = None,
                         ms_interrupted = False, ms_audio_played_until_ms = None,
                         ms_finalized_at = Some now, ms_metadata_json = []\<rparr>;
                    d1 = add_message now cv m d;
                    d2 = add_outbox now ''conversation'' cid ''conversation.user_turn_finalized''
                           [(asc ''conversation_id'', JStr (uuid_str cid)),
                            (asc ''message_id'', JStr (uuid_str (row_id m)))]
                           (int (Suc (cv_message_count cv))) d1
                in (Inr m, audit_append c now ctx ''conversation.user_turn_added'' ''success'' None
                      (Some (row_id m))
                      [(asc ''conversation_id'', JStr (uuid_str cid)), (asc ''sequence'', JInt (int sq))] d2)))"

definition add_assistant_turn ::
  "instant \<Rightarrow> uuid \<Rightarrow> pystr \<Rightarrow> pystr \<Rightarrow> uuid \<Rightarrow> bool \<Rightarrow> db \<Rightarrow> message result \<times> db" where
  "add_assistant_turn now cid content key run interrupted d =
     (case get_row cid (conversations d) of
        None \<Rightarrow> (Inl NotFoundError, d)
      | Some cv \<Rightarrow>
          (case find_turn cid key d of
              Some m \<Rightarrow> (Inr m, d)
            | None \<Rightarrow>
                let m = \<lparr>row_id = next_id d, created_at = now, updated_at = now, version = 1,
                         ms_conversation_id = cid, ms_sequence = next_sequence cid d,
                         ms_role = ''assistant'', ms_content = content, ms_input_mode = ''generated'',
                         ms_status = (if interrupted then ''interrupted'' else ''final''),
                         ms_idempotency_key = key, ms_request_hash = None,
                         ms_provider_message_id = None, ms_response_run_id = Some run,
                         ms_interrupted = interrupted, ms_audio_played_until_ms = None,
                         ms_finalized_at = Some now, ms_metadata_json = []\<rparr>
                in (Inr m, add_message now cv m d)))"

definition user_message :: "uuid \<Rightarrow> uuid \<Rightarrow> db \<Rightarrow> message option" where
  "user_message acc mid d =
     query_one (\<lambda>m. row_id m = mid \<and> ms_role m = ''user''
       \<and> (\<exists>x \<in> set (conversations d). row_id x = ms_conversation_id m \<and> cv_account_id x = acc)) (messages d)"

definition correct_transcript ::
  "crypto \<Rightarrow> instant \<Rightarrow> uuid \<Rightarrow> uuid \<Rightarrow> transcript_correction \<Rightarrow> audit_context \<Rightarrow> db
    \<Rightarrow> message result \<times> db" where
  "correct_transcript c now acc mid rq ctx d =
     (case user_message acc mid d of
        None \<Rightarrow> (Inl NotFoundError, d)
      | Some m \<Rightarrow>
          if version m \<noteq> tc_expected_message_version rq then (Inl (ConflictError None), d)
          else
            let m1 = m\<lparr>ms_content := strip (tc_corrected_content rq), version := version m + 1\<rparr>;
                d1 = d\<lparr>messages := save_row now m1 (messages d)\<rparr>;
                d2 = (fresh d1)\<lparr>revisions := revisions d1 @
                       [\<lparr>row_id = next_id d1, mr_message_id = mid, mr_revision_number = version m1,
                         mr_original_content = ms_content m, mr_revised_content = ms_content m1,
                         mr_reason = ''transcript_correction'', mr_created_at = now,
                         mr_created_by = acc\<rparr>]\<rparr>;
                d3 = audit_append c now ctx ''conversation.transcript_corrected'' ''success'' None
                       (Some mid)
                       [(asc ''version'', JInt (version m1)),
                        (asc ''new_answer_requested'', JBool (tc_request_new_answer rq))] d2
            in (Inr (m1\<lparr>updated_at := now\<rparr>),
                if tc_request_new_answer rq
                then add_outbox now ''conversation'' (ms_conversation_id m)
                       ''conversation.corrected_turn_reprocess_requested''
                       [(asc ''message_id'', JStr (uuid_str mid))] (int (ms_sequence m)) d3
                else d3))"

definition end_conversation ::
  "crypto \<Rightarrow> instant \<Rightarrow> uuid \<Rightarrow> uuid \<Rightarrow> string \<Rightarrow> audit_context \<Rightarrow> db \<Rightarrow> conversation result \<times> db" where
  "end_conversation c now acc cid reason ctx d =
     (case query_one (\<lambda>x. row_id x = cid \<and> cv_account_id x = acc) (conversations d) of
        None \<Rightarrow> (Inl NotFoundError, d)
      | Some cv \<Rightarrow>
          if cv_state cv \<noteq> CActive then (Inr cv, d)
          else
            let cv1 = cv\<lparr>cv_state := (if reason = ''user_ended'' then CCompleted else CInterrupted),
                       cv_end_reason := Some reason, cv_ended_at := Some now,
                       cv_last_activity_at := now, version := version cv + 1\<rparr>;
                d1 = d\<lparr>conversations := save_row now cv1 (conversations d)\<rparr>;
                d2 = add_outbox now ''conversation'' cid ''conversation.closed''
                       [(asc ''conversation_id'', JStr (uuid_str cid))]
                       (int (cv_message_count cv1) + 1) d1
            in (Inr (cv1\<lparr>updated_at := now\<rparr>),
                audit_append c now ctx ''conversation.ended'' ''success'' None (Some cid)
                  [(asc ''reason'', jstr reason),
                   (asc ''state'', jstr (conversation_state_str (cv_state cv1)))] d2))"

section \<open>The invariant of conversations and messages\<close>

definition conv_messages :: "uuid \<Rightarrow> db \<Rightarrow> message list" where
  "conv_messages cid d = filter (\<lambda>m. ms_conversation_id m = cid) (messages d)"

text \<open>The messages of a conversation are numbered 1 up to its message count, in the order they
  were added; only a deleted conversation has a deletion and a purge instant.\<close>

definition conversation_ok :: "db \<Rightarrow> conversation \<Rightarrow> bool" where
  "conversation_ok d cv \<longleftrightarrow>
     map ms_sequence (conv_messages (row_id cv) d) = [1..<Suc (cv_message_count cv)]
   \<and> (cv_state cv = CDeleted \<longleftrightarrow> cv_deleted_at cv \<noteq> None)
   \<and> (cv_state cv = CDeleted \<longleftrightarrow> cv_purge_after cv \<noteq> None)"

definition turns_ok :: "db \<Rightarrow> bool" where
  "turns_ok d \<longleftrightarrow>
     keyed (next_id d) (conversations d) \<and> keyed (next_id d) (messages d)
   \<and> (\<forall>cv \<in> set (conversations d). conversation_ok d cv)
   \<and> (\<forall>m \<in> set (messages d). ms_conversation_id m < next_id d)"

abbreviation outbox_key :: "outbox_event \<Rightarrow> string \<times> uuid \<times> int" where
  "outbox_key e \<equiv> (ob_aggregate_type e, ob_aggregate_id e, ob_sequence e)"

text \<open>No event of an active conversation is ahead of its message count, and every user turn
  has the event of its number.\<close>

definition turn_events_ok :: "db \<Rightarrow> bool" where
  "turn_events_ok d \<longleftrightarrow>
     (\<forall>e \<in> set (outbox d). ob_aggregate_type e = ''conversation'' \<longrightarrow>
        ob_aggregate_id e < next_id d
      \<and> (\<forall>cv \<in> set (conversations d). row_id cv = ob_aggregate_id e \<and> cv_state cv = CActive \<longrightarrow>
           ob_sequence e \<le> int (cv_message_count cv)))
   \<and> (\<forall>m \<in> set (messages d). ms_role m = ''user'' \<longrightarrow>
        (''conversation'', ms_conversation_id m, int (ms_sequence m)) \<in> outbox_key ` set (outbox d))"

definition conversation_inv :: "db \<Rightarrow> bool" where
  "conversation_inv d \<longleftrightarrow> turns_ok d \<and> turn_events_ok d"

lemma conversation_ok_cong:
  "conv_messages (row_id cv) d' = conv_messages (row_id cv) d \<Longrightarrow> conversation_ok d' cv = conversation_ok d cv"
  by (simp add: conversation_ok_def)

lemma foldr_max_upt: "foldr max [1..<Suc n] k = max n k"
proof (induction n arbitrary: k)
  case (Suc n)
  have "foldr max [1..<Suc (Suc n)] k = foldr max [1..<Suc n] (max (Suc n) k)" by simp
  also have "\<dots> = max n (max (Suc n) k)" by (rule Suc.IH)
  finally show ?case by simp
qed simp

lemma next_sequence_count:
  assumes "turns_ok d" "cv \<in> set (conversations d)"
  shows "next_sequence (row_id cv) d = Suc (cv_message_count cv)"
proof -
  have "map ms_sequence (conv_messages (row_id cv) d) = [1..<Suc (cv_message_count cv)]"
    using assms by (simp add: turns_ok_def conversation_ok_def)
  then show ?thesis
    unfolding next_sequence_def conv_messages_def by (simp only: foldr_max_upt)
qed

lemma owned_conversation:
  assumes "turns_ok d" "query_one (\<lambda>x. row_id x = cid \<and> Q x) (conversations d) = Some cv"
  shows "get_row cid (conversations d) = Some cv" "row_id cv = cid" "cv \<in> set (conversations d)" "Q cv"
proof -
  have k: "keyed (next_id d) (conversations d)" using assms(1) by (simp add: turns_ok_def)
  show g: "get_row cid (conversations d) = Some cv" and "Q cv"
    using assms(2) unfolding query_one_owned [OF k] by (auto split: option.splits if_splits)
  show "row_id cv = cid" "cv \<in> set (conversations d)" using get_row_Some [OF g] by auto
qed

text \<open>Adding the next message of a conversation.\<close>

lemma add_message_ok:
  assumes t: "turns_ok d" and cv: "get_row cid (conversations d) = Some cv"
    and m: "row_id m = next_id d" "ms_conversation_id m = cid" "ms_sequence m = next_sequence cid d"
  shows "turns_ok (add_message now cv m d)"
proof -
  let ?d = "add_message now cv m d"
  let ?cv = "cv\<lparr>cv_message_count := Suc (cv_message_count cv), cv_last_activity_at := now,
      version := version cv + 1\<rparr>"
  have k: "keyed (next_id d) (conversations d)" "keyed (next_id d) (messages d)"
    using t by (auto simp: turns_ok_def)
  have mem: "cv \<in> set (conversations d)" "row_id cv = cid" using get_row_Some [OF cv] by auto
  have sel: "messages ?d = messages d @ [m]" "conversations ?d = save_row now ?cv (conversations d)"
      "next_id ?d = Suc (next_id d)"
    by (simp_all add: add_message_def fresh_def)
  have set: "set (conversations ?d) = insert (?cv\<lparr>updated_at := now\<rparr>) {x \<in> set (conversations d). row_id x \<noteq> cid}"
    using set_put_row [OF k(1), of "?cv\<lparr>updated_at := now\<rparr>"] cv mem(2) sel(2) by (simp add: save_row_def)
  have n: "ms_sequence m = Suc (cv_message_count cv)"
    using next_sequence_count [OF t mem(1)] mem(2) m(3) by simp
  have "conversation_ok d cv" using t mem(1) by (simp add: turns_ok_def)
  then have "conversation_ok ?d (?cv\<lparr>updated_at := now\<rparr>)"
    using mem(2) m(2) n
    by (auto simp: conversation_ok_def conv_messages_def sel upt_Suc_append simp del: upt_Suc)
  moreover have "conversation_ok ?d x" if "x \<in> set (conversations d)" "row_id x \<noteq> cid" for x
    using t that m(2) conversation_ok_cong [of x ?d d] by (simp add: turns_ok_def conv_messages_def sel)
  moreover have "cid < next_id d" using k(1) mem by (auto simp: keyed_def)
  moreover have "keyed (Suc (next_id d)) (messages d @ [m])"
    using keyed_append_new [OF k(2), of m] m(1) by simp
  moreover have "keyed (Suc (next_id d)) (conversations ?d)"
    using keyed_mono [OF k(1), of "Suc (next_id d)"] sel(2) by simp
  ultimately show ?thesis
    using t m(2) set by (fastforce simp: turns_ok_def sel)
qed

lemma turns_ok_frame:
  assumes "turns_ok d" "conversations d' = conversations d" "messages d' = messages d" "next_id d \<le> next_id d'"
  shows "turns_ok d'"
  using assms by (fastforce simp: turns_ok_def conversation_ok_def conv_messages_def dest: keyed_mono)

lemma add_outbox_sel [simp]:
  "conversations (add_outbox now a i e p s d) = conversations d"
  "messages (add_outbox now a i e p s d) = messages d"
  "next_id (add_outbox now a i e p s d) = Suc (next_id d)"
  "outbox_key ` set (outbox (add_outbox now a i e p s d)) = insert (a, i, s) (outbox_key ` set (outbox d))"
  by (simp_all add: add_outbox_def fresh_def)

text \<open>The event condition, in terms of the keys of the outbox only.\<close>

lemma turn_events_ok_keys:
  "turn_events_ok d \<longleftrightarrow>
     (\<forall>(a, i, s) \<in> outbox_key ` set (outbox d). a = ''conversation'' \<longrightarrow> i < next_id d
      \<and> (\<forall>cv \<in> set (conversations d). row_id cv = i \<and> cv_state cv = CActive \<longrightarrow> s \<le> int (cv_message_count cv)))
   \<and> (\<forall>m \<in> set (messages d). ms_role m = ''user'' \<longrightarrow>
        (''conversation'', ms_conversation_id m, int (ms_sequence m)) \<in> outbox_key ` set (outbox d))"
  unfolding turn_events_ok_def by (simp add: image_iff)

section \<open>The operations keep the invariant\<close>

lemma keys_add_message [simp]: "outbox (add_message now cv m d) = outbox d"
  "next_id (add_message now cv m d) = Suc (next_id d)"
  "messages (add_message now cv m d) = messages d @ [m]"
  by (simp_all add: add_message_def fresh_def)

lemma set_add_message:
  assumes "turns_ok d" "get_row cid (conversations d) = Some cv"
  shows "set (conversations (add_message now cv m d)) =
    insert (cv\<lparr>cv_message_count := Suc (cv_message_count cv), cv_last_activity_at := now,
      version := version cv + 1, updated_at := now\<rparr>) {x \<in> set (conversations d). row_id x \<noteq> cid}"
proof -
  let ?cv = "cv\<lparr>cv_message_count := Suc (cv_message_count cv), cv_last_activity_at := now,
      version := version cv + 1, updated_at := now\<rparr>"
  have "keyed (next_id d) (conversations d)" using assms(1) by (simp add: turns_ok_def)
  from set_put_row [OF this, of ?cv] assms(2) get_row_id [OF assms(2)]
  show ?thesis by (simp add: add_message_def save_row_def)
qed

lemma add_message_events:
  assumes "conversation_inv d" "get_row cid (conversations d) = Some cv"
    and "ms_role m \<noteq> ''user''" "ms_conversation_id m = cid"
  shows "turn_events_ok (add_message now cv m d)"
proof -
  have t: "turns_ok d" and ev: "turn_events_ok d" using assms(1) by (auto simp: conversation_inv_def)
  have mem: "cv \<in> set (conversations d)" "row_id cv = cid" using get_row_Some [OF assms(2)] by auto
  show ?thesis
    using ev mem assms(3) unfolding turn_events_ok_def set_add_message [OF t assms(2)]
    by (auto intro: less_SucI dest!: bspec)
qed

lemma add_user_message_events:
  assumes "conversation_inv d" "get_row cid (conversations d) = Some cv"
    and "ms_conversation_id m = cid" "ms_sequence m = Suc (cv_message_count cv)"
  shows "turn_events_ok (add_outbox now ''conversation'' cid ety pl (int (Suc (cv_message_count cv)))
    (add_message now cv m d))"
proof -
  have t: "turns_ok d" and ev: "turn_events_ok d" using assms(1) by (auto simp: conversation_inv_def)
  have mem: "cv \<in> set (conversations d)" "row_id cv = cid" using get_row_Some [OF assms(2)] by auto
  have "cid < next_id d" using t mem by (auto simp: turns_ok_def keyed_def)
  then show ?thesis
    using ev mem assms(3,4)
    unfolding turn_events_ok_keys add_outbox_sel set_add_message [OF t assms(2)]
    by (fastforce simp: less_Suc_eq)
qed

lemma add_user_turn_success:
  assumes "turns_ok d" "add_user_turn c now acc cid rq ctx d = (Inr m, d')"
  obtains (replay) cv where "get_row cid (conversations d) = Some cv" "cv_state cv = CActive"
      "find_turn cid (ut_idempotency_key rq) d = Some m" "d' = d"
  | (new) cv det ety pl where "get_row cid (conversations d) = Some cv" "cv_state cv = CActive"
      "cv_account_id cv = acc" "find_turn cid (ut_idempotency_key rq) d = None"
      "row_id m = next_id d" "ms_conversation_id m = cid" "ms_sequence m = Suc (cv_message_count cv)"
      "ms_content m = strip (ut_content rq)" "ms_idempotency_key m = ut_idempotency_key rq"
      "ms_request_hash m = Some (request_hash c rq)" "ms_role m = ''user''" "version m = 1"
      "d' = audit_append c now ctx ''conversation.user_turn_added'' ''success'' None (Some (row_id m)) det
        (add_outbox now ''conversation'' cid ety pl (int (Suc (cv_message_count cv))) (add_message now cv m d))"
proof (cases "query_one (\<lambda>x. row_id x = cid \<and> cv_account_id x = acc) (conversations d)")
  case None
  with assms(2) show ?thesis by (simp add: add_user_turn_def)
next
  case (Some cv)
  note o = owned_conversation [OF assms(1) Some]
  have act: "cv_state cv = CActive" using assms(2) Some by (auto simp: add_user_turn_def split: if_splits)
  show ?thesis
  proof (cases "find_turn cid (ut_idempotency_key rq) d")
    case None
    note n = next_sequence_count [OF assms(1) o(3)]
    show ?thesis
      by (rule new [OF o(1) act o(4) None])
        (use assms(2) Some act None n o(2) in \<open>auto simp: add_user_turn_def Let_def\<close>)
  next
    case (Some m')
    with \<open>query_one _ _ = Some cv\<close> assms(2) act have "m' = m" "d' = d"
      by (auto simp: add_user_turn_def split: if_splits option.splits)
    with Some replay [OF o(1) act] show ?thesis by simp
  qed
qed

lemma conversation_inv_audit [simp]:
  "conversation_inv (audit_append c now ctx ety res tty tid det d) = conversation_inv d"
  by (simp add: conversation_inv_def turns_ok_def turn_events_ok_def conversation_ok_def conv_messages_def)

lemma add_user_turn_inv:
  assumes "conversation_inv d" "add_user_turn c now acc cid rq ctx d = (Inr m, d')"
  shows "conversation_inv d'"
proof -
  have t: "turns_ok d" using assms(1) by (simp add: conversation_inv_def)
  from t assms(2) show ?thesis
  proof (cases rule: add_user_turn_success)
    case (new cv det ety pl)
    have "cv \<in> set (conversations d)" "row_id cv = cid" using get_row_Some [OF new(1)] by auto
    then have "turns_ok (add_message now cv m d)"
      using add_message_ok [OF t new(1,5,6)] next_sequence_count [OF t] new(7) by metis
    then have "turns_ok (add_outbox now ''conversation'' cid ety pl (int (Suc (cv_message_count cv)))
        (add_message now cv m d))"
      by (rule turns_ok_frame) simp_all
    then show ?thesis
      using add_user_message_events [OF assms(1) new(1,6,7)] unfolding new(13) conversation_inv_audit
      by (simp only: conversation_inv_def)
  qed (use assms(1) in simp)
qed

lemma add_assistant_turn_inv:
  assumes "conversation_inv d" "add_assistant_turn now cid content key run intr d = (Inr m, d')"
  shows "conversation_inv d'"
proof -
  have t: "turns_ok d" using assms(1) by (simp add: conversation_inv_def)
  from assms(2) obtain cv where cv: "get_row cid (conversations d) = Some cv"
    by (auto simp: add_assistant_turn_def split: option.splits)
  show ?thesis
  proof (cases "find_turn cid key d")
    case None
    have m: "row_id m = next_id d" "ms_conversation_id m = cid" "ms_sequence m = next_sequence cid d"
        "ms_role m \<noteq> ''user''" and d': "d' = add_message now cv m d"
      using assms(2) cv None by (auto simp: add_assistant_turn_def Let_def)
    show ?thesis
      using add_message_ok [OF t cv m(1-3)] add_message_events [OF assms(1) cv m(4,2)] d'
      by (simp add: conversation_inv_def)
  next
    case (Some m')
    with assms cv show ?thesis by (simp add: add_assistant_turn_def)
  qed
qed

text \<open>Replacing a conversation by one with the same count, not made active.\<close>

lemma save_conversation_inv:
  assumes "conversation_inv d" "get_row (row_id x) (conversations d) = Some cv"
    and "cv_message_count x = cv_message_count cv" "cv_state x = CActive \<Longrightarrow> cv_state cv = CActive"
    and "cv_state x = CDeleted \<longleftrightarrow> cv_deleted_at x \<noteq> None" "cv_state x = CDeleted \<longleftrightarrow> cv_purge_after x \<noteq> None"
    and d': "conversations d' = save_row now x (conversations d)" "messages d' = messages d"
      "outbox d' = outbox d" "next_id d \<le> next_id d'"
  shows "conversation_inv d'"
proof -
  have t: "turns_ok d" and ev: "turn_events_ok d" using assms(1) by (auto simp: conversation_inv_def)
  have k: "keyed (next_id d) (conversations d)" "keyed (next_id d) (messages d)"
    using t by (auto simp: turns_ok_def)
  have mem: "cv \<in> set (conversations d)" "row_id cv = row_id x" using get_row_Some [OF assms(2)] by auto
  have set: "set (conversations d') = insert (x\<lparr>updated_at := now\<rparr>) {y \<in> set (conversations d). row_id y \<noteq> row_id x}"
    using set_put_row [OF k(1), of "x\<lparr>updated_at := now\<rparr>"] assms(2) d'(1) by (simp add: save_row_def)
  have "conversation_ok d cv" using t mem by (simp add: turns_ok_def)
  then have "conversation_ok d' (x\<lparr>updated_at := now\<rparr>)"
    using assms(3,5,6) mem(2) d'(2) by (simp add: conversation_ok_def conv_messages_def)
  moreover have "conversation_ok d' y" if "y \<in> set (conversations d)" for y
    using t that d'(2) conversation_ok_cong [of y d' d] by (simp add: turns_ok_def conv_messages_def)
  ultimately have "turns_ok d'"
    using t set d' keyed_mono [OF k(1) d'(4)] keyed_mono [OF k(2) d'(4)]
    by (fastforce simp: turns_ok_def)
  moreover have "turn_events_ok d'"
    unfolding turn_events_ok_def set d'(2,3)
  proof (intro conjI ballI impI)
    fix e assume e: "e \<in> set (outbox d)" "ob_aggregate_type e = ''conversation''"
    show "ob_aggregate_id e < next_id d'" using ev e d'(4) by (fastforce simp: turn_events_ok_def)
    fix y assume "y \<in> insert (x\<lparr>updated_at := now\<rparr>) {y \<in> set (conversations d). row_id y \<noteq> row_id x}"
      "row_id y = ob_aggregate_id e \<and> cv_state y = CActive"
    then show "ob_sequence e \<le> int (cv_message_count y)"
      using ev e mem assms(3,4) by (auto simp: turn_events_ok_def)
  qed (use ev in \<open>auto simp: turn_events_ok_def\<close>)
  ultimately show ?thesis by (simp add: conversation_inv_def)
qed

lemma add_outbox_closed_inv:
  assumes "conversation_inv d" "get_row cid (conversations d) = Some cv" "cv_state cv \<noteq> CActive"
  shows "conversation_inv (add_outbox now ''conversation'' cid ety pl s d)"
proof -
  have t: "turns_ok d" and ev: "turn_events_ok d" using assms(1) by (auto simp: conversation_inv_def)
  have k: "keyed (next_id d) (conversations d)" using t by (simp add: turns_ok_def)
  have "cid < next_id d" using k get_row_Some [OF assms(2)] by (auto simp: keyed_def)
  moreover have "x = cv" if "x \<in> set (conversations d)" "row_id x = cid" for x
    using that assms(2) get_row_iff [OF k, of cid x] by simp
  ultimately have "turn_events_ok (add_outbox now ''conversation'' cid ety pl s d)"
    using ev assms(3) unfolding turn_events_ok_keys add_outbox_sel by (fastforce simp: less_Suc_eq)
  moreover have "turns_ok (add_outbox now ''conversation'' cid ety pl s d)"
    using t by (rule turns_ok_frame) simp_all
  ultimately show ?thesis by (simp add: conversation_inv_def)
qed

lemma end_conversation_inv:
  assumes "conversation_inv d" "end_conversation c now acc cid reason ctx d = (Inr r, d')"
  shows "conversation_inv d'"
proof -
  have t: "turns_ok d" using assms(1) by (simp add: conversation_inv_def)
  obtain cv where cv: "query_one (\<lambda>x. row_id x = cid \<and> cv_account_id x = acc) (conversations d) = Some cv"
    using assms(2) by (auto simp: end_conversation_def split: option.splits)
  note o = owned_conversation [OF t cv]
  show ?thesis
  proof (cases "cv_state cv = CActive")
    case False
    with assms cv show ?thesis by (simp add: end_conversation_def)
  next
    case True
    let ?cv = "cv\<lparr>cv_state := (if reason = ''user_ended'' then CCompleted else CInterrupted),
        cv_end_reason := Some reason, cv_ended_at := Some now, cv_last_activity_at := now,
        version := version cv + 1\<rparr>"
    let ?d = "d\<lparr>conversations := save_row now ?cv (conversations d)\<rparr>"
    have ok: "conversation_ok d cv" using t o(3) by (simp add: turns_ok_def)
    then have "conversation_inv ?d"
      using True o by (intro save_conversation_inv [OF assms(1), of ?cv cv ?d now])
        (auto simp: conversation_ok_def)
    moreover have "get_row cid (conversations ?d) = Some (?cv\<lparr>updated_at := now\<rparr>)"
      using o by (simp add: get_row_save_row)
    ultimately have "conversation_inv (add_outbox now ''conversation'' cid ''conversation.closed''
        [(asc ''conversation_id'', JStr (uuid_str cid))] (int (cv_message_count cv) + 1) ?d)"
      by (rule add_outbox_closed_inv) simp
    with assms(2) cv True show ?thesis by (auto simp: end_conversation_def Let_def)
  qed
qed

lemma insert_conversation_inv:
  assumes "conversation_inv d" "row_id cv = next_id d" "cv_message_count cv = 0"
    and "cv_state cv = CActive" "cv_deleted_at cv = None" "cv_purge_after cv = None"
    and d': "conversations d' = conversations d @ [cv]" "messages d' = messages d" "outbox d' = outbox d"
      "next_id d < next_id d'"
  shows "conversation_inv d'"
proof -
  have t: "turns_ok d" and ev: "turn_events_ok d" using assms(1) by (auto simp: conversation_inv_def)
  have k: "keyed (next_id d) (conversations d)" "keyed (next_id d) (messages d)"
    using t by (auto simp: turns_ok_def)
  have none: "conv_messages (next_id d) d = []"
    using t by (auto simp: turns_ok_def conv_messages_def filter_empty_conv)
  then have "conversation_ok d' cv"
    using assms(2-6) d'(2) by (simp add: conversation_ok_def conv_messages_def)
  moreover have "conversation_ok d' y" if "y \<in> set (conversations d)" for y
    using t that d'(2) conversation_ok_cong [of y d' d] by (simp add: turns_ok_def conv_messages_def)
  ultimately have "turns_ok d'"
    using t d' keyed_append_new [OF k(1), of cv "next_id d'"] keyed_mono [OF k(2), of "next_id d'"] assms(2)
    by (fastforce simp: turns_ok_def)
  moreover have "turn_events_ok d'"
    unfolding turn_events_ok_def d'(1-3)
  proof (intro conjI ballI impI)
    fix e assume e: "e \<in> set (outbox d)" "ob_aggregate_type e = ''conversation''"
    have lt: "ob_aggregate_id e < next_id d" using ev e by (simp add: turn_events_ok_def)
    then show "ob_aggregate_id e < next_id d'" using d'(4) by simp
    fix y assume "y \<in> set (conversations d @ [cv])" "row_id y = ob_aggregate_id e \<and> cv_state y = CActive"
    with lt ev e assms(2) show "ob_sequence e \<le> int (cv_message_count y)"
      by (auto simp: turn_events_ok_def)
  qed (use ev in \<open>auto simp: turn_events_ok_def\<close>)
  ultimately show ?thesis by (simp add: conversation_inv_def)
qed

lemma start_inv:
  assumes "conversation_inv d" "start c now acc rq ctx d = (Inr cv, d')"
  shows "conversation_inv d'"
proof (rule insert_conversation_inv [OF assms(1)])
  have cv: "cv = new_conversation now acc (cq_input_mode rq) (cq_language rq) (cq_continuation_of_id rq) d"
    using assms(2) by (auto simp: start_def Let_def split: if_splits)
  then show "row_id cv = next_id d" "cv_message_count cv = 0" "cv_state cv = CActive"
    "cv_deleted_at cv = None" "cv_purge_after cv = None"
    by (simp_all add: new_conversation_def)
  show "conversations d' = conversations d @ [cv]" "messages d' = messages d" "outbox d' = outbox d"
    "next_id d < next_id d'"
    using assms(2)
    by (auto simp: start_def Let_def add_link_def fresh_def split: if_splits option.splits)
qed

section \<open>Correcting a transcript\<close>

lemma correct_transcript_success:
  assumes "turns_ok d" "correct_transcript c now acc mid rq ctx d = (Inr r, d')"
  obtains m where "get_row mid (messages d) = Some m" "ms_role m = ''user''"
    "version m = tc_expected_message_version rq"
    "r = m\<lparr>ms_content := strip (tc_corrected_content rq), version := version m + 1, updated_at := now\<rparr>"
    "messages d' = put_row r (messages d)" "conversations d' = conversations d"
    "next_id d < next_id d'"
    "revisions d' = revisions d @ [\<lparr>row_id = next_id d, mr_message_id = mid,
       mr_revision_number = version m + 1, mr_original_content = ms_content m,
       mr_revised_content = ms_content r, mr_reason = ''transcript_correction'', mr_created_at = now,
       mr_created_by = acc\<rparr>]"
    "\<not> tc_request_new_answer rq \<Longrightarrow> outbox d' = outbox d"
    "tc_request_new_answer rq \<Longrightarrow> map outbox_key (outbox d') =
       map outbox_key (outbox d) @ [(''conversation'', ms_conversation_id m, int (ms_sequence m))]"
proof -
  have k: "keyed (next_id d) (messages d)" using assms(1) by (simp add: turns_ok_def)
  obtain m where m: "user_message acc mid d = Some m" "version m = tc_expected_message_version rq"
    using assms(2) by (auto simp: correct_transcript_def split: option.splits if_splits)
  have g: "get_row mid (messages d) = Some m" "ms_role m = ''user''"
    using m(1) unfolding user_message_def query_one_owned [OF k] by (auto split: option.splits if_splits)
  show thesis
    by (rule that [OF g m(2)])
      (use assms(2) m in \<open>auto simp: correct_transcript_def Let_def save_row_def add_outbox_def fresh_def\<close>)
qed

lemma save_message_inv:
  assumes "conversation_inv d" "get_row (row_id r) (messages d) = Some m"
    and "ms_conversation_id r = ms_conversation_id m" "ms_sequence r = ms_sequence m" "ms_role r = ms_role m"
    and d': "messages d' = put_row r (messages d)" "conversations d' = conversations d"
      "outbox d' = outbox d" "next_id d \<le> next_id d'"
  shows "conversation_inv d'"
proof -
  have t: "turns_ok d" and ev: "turn_events_ok d" using assms(1) by (auto simp: conversation_inv_def)
  have k: "keyed (next_id d) (conversations d)" "keyed (next_id d) (messages d)"
    using t by (auto simp: turns_ok_def)
  have same: "x = m" if "x \<in> set (messages d)" "row_id x = row_id r" for x
    using that assms(2) get_row_iff [OF k(2), of "row_id r" x] by simp
  have "map ms_sequence (filter (\<lambda>m. ms_conversation_id m = i) (put_row r t))
      = map ms_sequence (filter (\<lambda>m. ms_conversation_id m = i) t)" if "set t \<subseteq> set (messages d)" for i t
    using that same assms(3,4) by (induction t) (auto simp: put_row_def)
  then have "map ms_sequence (conv_messages i d') = map ms_sequence (conv_messages i d)" for i
    by (simp add: conv_messages_def d'(1))
  then have "turns_ok d'"
    using t d' keyed_mono [OF k(1) d'(4)] keyed_mono [OF k(2) d'(4)] set_put_row [OF k(2), of r] assms(2,3)
      get_row_Some [OF assms(2)]
    by (fastforce simp: turns_ok_def conversation_ok_def)
  moreover have "turn_events_ok d'"
    using ev d' set_put_row [OF k(2), of r] assms(2-5) get_row_Some [OF assms(2)]
    by (fastforce simp: turn_events_ok_def)
  ultimately show ?thesis by (simp add: conversation_inv_def)
qed

end
