(* ===== verification/History.thy ===== *)
theory History
  imports Conversations
begin

text \<open>
  \<^verbatim>\<open>history/service.py\<close> and \<^verbatim>\<open>history/schemas.py\<close>: finding past conversations,
  reading one, changing its title and summary, continuing it in a new
  conversation, deleting and restoring it.
\<close>

section \<open>Requests (history/schemas.py)\<close>

record history_search =
  hs_query :: pystr
  hs_states :: "conversation_state list"
  hs_from_at :: "instant option"
  hs_to_at :: "instant option"
  hs_limit :: nat
  hs_offset :: nat

record metadata_update =
  mu_expected_version :: int
  mu_title :: "pystr option"
  mu_summary :: "pystr option"

definition validate_metadata :: "metadata_update \<Rightarrow> metadata_update result" where
  "validate_metadata r =
     (if mu_expected_version r < 1
         \<or> (case mu_title r of None \<Rightarrow> False | Some t \<Rightarrow> t = [] \<or> 240 < length t)
         \<or> (case mu_summary r of None \<Rightarrow> False | Some t \<Rightarrow> t = [] \<or> 10000 < length t)
      then Inl ValueError else Inr r)"

definition validate_history_search :: "history_search \<Rightarrow> history_search result" where
  "validate_history_search r =
     (if 500 < length (hs_query r) \<or> hs_limit r < 1 \<or> 100 < hs_limit r then Inl ValueError else Inr r)"

section \<open>Operations (history/service.py)\<close>

definition history_rank :: "uuid list \<Rightarrow> uuid \<Rightarrow> nat" where
  "history_rank ranked i =
     (case List.find (\<lambda>p. snd p = i) (rev (enumerate 0 ranked)) of
        Some p \<Rightarrow> fst p | None \<Rightarrow> length ranked + 1)"

definition history_match :: "(pystr \<Rightarrow> pystr) \<Rightarrow> pystr \<Rightarrow> uuid list \<Rightarrow> db \<Rightarrow> conversation \<Rightarrow> bool" where
  "history_match lower query ranked d cv =
     (let term = [37] @ strip query @ [37];
          like = (\<lambda>t. case t of None \<Rightarrow> False | Some s \<Rightarrow> sql_ilike lower term s)
      in like (cv_title cv) \<or> like (cv_summary cv)
       \<or> (\<exists>m \<in> set (messages d). ms_conversation_id m = row_id cv \<and> sql_ilike lower term (ms_content m))
       \<or> row_id cv \<in> set ranked)"

definition search_history ::
  "(pystr \<Rightarrow> pystr) \<Rightarrow> uuid \<Rightarrow> history_search \<Rightarrow> uuid list \<Rightarrow> db \<Rightarrow> conversation list" where
  "search_history lower acc rq ranked d =
     (let base = filter (\<lambda>cv. cv_account_id cv = acc \<and> cv_state cv \<in> set (hs_states rq)
                   \<and> cv_deleted_at cv = None
                   \<and> (case hs_from_at rq of None \<Rightarrow> True | Some t \<Rightarrow> t \<le> cv_last_activity_at cv)
                   \<and> (case hs_to_at rq of None \<Rightarrow> True | Some t \<Rightarrow> cv_last_activity_at cv \<le> t)
                   \<and> (strip (hs_query rq) = [] \<or> history_match lower (hs_query rq) ranked d cv))
                 (conversations d);
          recent = (\<lambda>cv::conversation. (- cv_last_activity_at cv, row_id cv))
      in take (hs_limit rq) (drop (hs_offset rq)
           (if strip (hs_query rq) \<noteq> [] \<and> ranked \<noteq> []
            then sort_key (\<lambda>cv. (int (history_rank ranked (row_id cv)), recent cv)) base
            else sort_key recent base)))"

definition detail ::
  "uuid \<Rightarrow> uuid \<Rightarrow> bool \<Rightarrow> db \<Rightarrow> (conversation \<times> message list) result" where
  "detail acc cid include_deleted d =
     (case query_one (\<lambda>x. row_id x = cid \<and> cv_account_id x = acc
                          \<and> (include_deleted \<or> cv_deleted_at x = None)) (conversations d) of
        None \<Rightarrow> Inl NotFoundError
      | Some cv \<Rightarrow> Inr (cv, sort_key ms_sequence
                         (filter (\<lambda>m. ms_conversation_id m = row_id cv) (messages d))))"

definition or_default :: "pystr option \<Rightarrow> pystr \<Rightarrow> pystr" where
  "or_default t dflt = (case t of None \<Rightarrow> dflt | Some s \<Rightarrow> if s = [] then dflt else s)"

definition update_metadata ::
  "crypto \<Rightarrow> instant \<Rightarrow> uuid \<Rightarrow> uuid \<Rightarrow> metadata_update \<Rightarrow> audit_context \<Rightarrow> db
    \<Rightarrow> conversation result \<times> db" where
  "update_metadata c now acc cid rq ctx d =
     (case query_one (\<lambda>x. row_id x = cid \<and> cv_account_id x = acc) (conversations d) of
        None \<Rightarrow> (Inl NotFoundError, d)
      | Some cv \<Rightarrow>
          if version cv \<noteq> mu_expected_version rq
          then (Inl (ConflictError (Some (jobj [(''expected_version'', JInt (mu_expected_version rq)),
                  (''actual_version'', JInt (version cv))]))), d)
          else
            let cv1 = (case mu_title rq of None \<Rightarrow> cv
                       | Some t \<Rightarrow> cv\<lparr>cv_title := Some (strip t), cv_title_source := ''manual''\<rparr>);
                cv2 = (case mu_summary rq of None \<Rightarrow> cv1
                       | Some t \<Rightarrow> cv1\<lparr>cv_summary := Some (strip t), cv_summary_source := ''manual''\<rparr>);
                cv3 = cv2\<lparr>version := version cv + 1\<rparr>;
                d1 = d\<lparr>conversations := save_row now cv3 (conversations d)\<rparr>;
                d2 = (fresh d1)\<lparr>summaries := summaries d1 @
                       [\<lparr>row_id = next_id d1, cs_conversation_id = cid,
                         cs_revision_number = version cv3,
                         cs_title = or_default (cv_title cv3) (asc ''Rozhovor''),
                         cs_summary = or_default (cv_summary cv3) (asc ''Bez shrnut'' @ [237]),
                         cs_source = ''manual'', cs_created_at = now\<rparr>]\<rparr>
            in (Inr (cv3\<lparr>updated_at := now\<rparr>),
                audit_append c now ctx ''history.metadata_changed'' ''success'' None (Some cid)
                  [(asc ''version'', JInt (version cv3))] d2))"

definition continue_from ::
  "crypto \<Rightarrow> instant \<Rightarrow> uuid \<Rightarrow> uuid \<Rightarrow> audit_context \<Rightarrow> db \<Rightarrow> conversation result \<times> db" where
  "continue_from c now acc cid ctx d =
     (case detail acc cid False d of
        Inl e \<Rightarrow> (Inl e, d)
      | Inr (orig, _) \<Rightarrow>
          let cv = new_conversation now acc ''voice'' (cv_language orig) (Some (row_id orig)) d;
              d1 = (fresh d)\<lparr>conversations := conversations d @ [cv]\<rparr>;
              d2 = add_link now (row_id orig) (row_id cv) d1
          in (Inr cv, audit_append c now ctx ''history.continued'' ''success'' None (Some (row_id cv))
                [(asc ''source_id'', JStr (uuid_str (row_id orig)))] d2))"

definition history_soft_delete ::
  "crypto \<Rightarrow> instant \<Rightarrow> uuid \<Rightarrow> uuid \<Rightarrow> int \<Rightarrow> int \<Rightarrow> audit_context \<Rightarrow> db \<Rightarrow> conversation result \<times> db" where
  "history_soft_delete c now acc cid expected retention_days ctx d =
     (case query_one (\<lambda>x. row_id x = cid \<and> cv_account_id x = acc) (conversations d) of
        None \<Rightarrow> (Inl NotFoundError, d)
      | Some cv \<Rightarrow>
          if version cv \<noteq> expected then (Inl (ConflictError None), d)
          else
            let cv1 = cv\<lparr>cv_deleted_at := Some now, cv_purge_after := Some (now + days retention_days),
                       cv_state := CDeleted, version := version cv + 1\<rparr>
            in (Inr (cv1\<lparr>updated_at := now\<rparr>),
                audit_append c now ctx ''history.deleted'' ''success'' None (Some cid)
                  [(asc ''recoverable_until'', JInt (now + days retention_days))]
                  (d\<lparr>conversations := save_row now cv1 (conversations d)\<rparr>)))"

definition history_restore ::
  "crypto \<Rightarrow> instant \<Rightarrow> uuid \<Rightarrow> uuid \<Rightarrow> int \<Rightarrow> audit_context \<Rightarrow> db \<Rightarrow> conversation result \<times> db" where
  "history_restore c now acc cid expected ctx d =
     (case query_one (\<lambda>x. row_id x = cid \<and> cv_account_id x = acc) (conversations d) of
        None \<Rightarrow> (Inl NotFoundError, d)
      | Some cv \<Rightarrow>
          if version cv \<noteq> expected then (Inl (ConflictError None), d)
          else if cv_deleted_at cv = None
                \<or> (case cv_purge_after cv of None \<Rightarrow> True | Some t \<Rightarrow> t \<le> now)
          then (Inl (ConflictError None), d)
          else
            let cv1 = cv\<lparr>cv_deleted_at := None, cv_purge_after := None,
                       cv_state := (if cv_ended_at cv = None then CInterrupted else CCompleted),
                       version := version cv + 1\<rparr>
            in (Inr (cv1\<lparr>updated_at := now\<rparr>),
                audit_append c now ctx ''history.restored'' ''success'' None (Some cid) []
                  (d\<lparr>conversations := save_row now cv1 (conversations d)\<rparr>)))"

section \<open>The version-guarded writes\<close>

datatype history_change =
    Metadata metadata_update
  | DeleteConversation int
  | RestoreConversation

record history_call =
  hc_change :: history_change
  hc_now :: instant
  hc_account :: uuid
  hc_context :: audit_context

definition history_write ::
  "crypto \<Rightarrow> history_call \<Rightarrow> uuid \<Rightarrow> int \<Rightarrow> db \<Rightarrow> conversation result \<times> db" where
  "history_write c w cid v d =
     (case hc_change w of
        Metadata rq \<Rightarrow> update_metadata c (hc_now w) (hc_account w) cid (rq\<lparr>mu_expected_version := v\<rparr>)
                         (hc_context w) d
      | DeleteConversation n \<Rightarrow> history_soft_delete c (hc_now w) (hc_account w) cid v n (hc_context w) d
      | RestoreConversation \<Rightarrow> history_restore c (hc_now w) (hc_account w) cid v (hc_context w) d)"

text \<open>A successful write: the conversation was at the named version and its row is replaced by one
  of the next version, with the same count, never made active.\<close>

lemma history_write_success:
  assumes "turns_ok d" "history_write c w cid v d = (Inr r, d')"
  obtains cv x where "get_row cid (conversations d) = Some cv" "cv_account_id cv = hc_account w"
    "version cv = v" "row_id x = cid" "version x = v + 1" "r = x\<lparr>updated_at := hc_now w\<rparr>"
    "cv_message_count x = cv_message_count cv" "cv_state x = CActive \<Longrightarrow> cv_state cv = CActive"
    "conversation_ok d cv \<Longrightarrow> (cv_state x = CDeleted \<longleftrightarrow> cv_deleted_at x \<noteq> None)
       \<and> (cv_state x = CDeleted \<longleftrightarrow> cv_purge_after x \<noteq> None)"
    "conversations d' = save_row (hc_now w) x (conversations d)" "messages d' = messages d"
    "outbox d' = outbox d" "next_id d \<le> next_id d'"
proof -
  obtain cv where cv: "query_one (\<lambda>x. row_id x = cid \<and> cv_account_id x = hc_account w) (conversations d) = Some cv"
    using assms(2) by (auto simp: history_write_def update_metadata_def history_soft_delete_def
        history_restore_def split: history_change.splits option.splits)
  note o = owned_conversation [OF assms(1) cv]
  show thesis
  proof (cases "hc_change w")
    case (Metadata rq)
    let ?x = "((case mu_summary rq of None \<Rightarrow> id | Some t \<Rightarrow> \<lambda>y. y\<lparr>cv_summary := Some (strip t), cv_summary_source := ''manual''\<rparr>)
      ((case mu_title rq of None \<Rightarrow> cv
                       | Some t \<Rightarrow> cv\<lparr>cv_title := Some (strip t), cv_title_source := ''manual''\<rparr>)))\<lparr>version := v + 1\<rparr>"
    have v: "version cv = v" using assms(2) Metadata cv
      by (auto simp: history_write_def update_metadata_def split: if_splits)
    show thesis
      by (rule that [OF o(1) o(4) v, of ?x])
        (use assms(2) Metadata cv o(2) v in \<open>auto simp: history_write_def update_metadata_def Let_def
           fresh_def conversation_ok_def split: option.splits\<close>)
  next
    case (DeleteConversation n)
    let ?x = "cv\<lparr>cv_deleted_at := Some (hc_now w), cv_purge_after := Some (hc_now w + days n),
                       cv_state := CDeleted, version := v + 1\<rparr>"
    have v: "version cv = v" using assms(2) DeleteConversation cv
      by (auto simp: history_write_def history_soft_delete_def split: if_splits)
    show thesis
      by (rule that [OF o(1) o(4) v, of ?x])
        (use assms(2) DeleteConversation cv o(2) v in \<open>auto simp: history_write_def history_soft_delete_def Let_def\<close>)
  next
    case RestoreConversation
    let ?x = "cv\<lparr>cv_deleted_at := None, cv_purge_after := None,
                       cv_state := (if cv_ended_at cv = None then CInterrupted else CCompleted),
                       version := v + 1\<rparr>"
    have v: "version cv = v" using assms(2) RestoreConversation cv
      by (auto simp: history_write_def history_restore_def split: if_splits)
    show thesis
      by (rule that [OF o(1) o(4) v, of ?x])
        (use assms(2) RestoreConversation cv o(2) v in \<open>auto simp: history_write_def history_restore_def Let_def
           split: if_splits\<close>)
  qed
qed

lemma history_write_inv:
  assumes "conversation_inv d" "history_write c w cid v d = (Inr r, d')"
  shows "conversation_inv d'"
proof -
  have t: "turns_ok d" using assms(1) by (simp add: conversation_inv_def)
  from t assms(2) show ?thesis
  proof (cases rule: history_write_success)
    case (1 cv x)
    have "conversation_ok d cv" using t get_row_Some [OF 1(1)] by (simp add: turns_ok_def)
    with 1 show ?thesis
      by (intro save_conversation_inv [OF assms(1), of x cv d' "hc_now w"]) auto
  qed
qed

lemma history_write_not_durable: "history_write c w cid v d = (Inl e, d') \<Longrightarrow> \<not> is_durable e"
  by (auto simp: history_write_def update_metadata_def history_soft_delete_def history_restore_def
      Let_def exc_defs split: history_change.splits option.splits if_splits)

end
