(* ===== verification/Orchestration.thy ===== *)
theory Orchestration
  imports Memory History
begin

text \<open>
  \<^verbatim>\<open>orchestration/service.py\<close> and \<^verbatim>\<open>orchestration/contracts.py\<close>: answering a user
  turn with the language model, turning its proposals into actions that wait
  for a confirmation, executing a confirmed action, cancelling a run.

  The model provider, the ranking of the search index and the conversions of
  the validation library are fields of \<open>orch_env\<close>. The texts shown to people
  (the system prompt's wording, the impact texts of previews) are left out: a
  prompt is the record of the values formatted into it.
\<close>

section \<open>The environment\<close>

record prompt_parts =
  pp_language :: pystr
  pp_verbosity :: pystr
  pp_manifest :: json
  pp_summary :: "pystr option"
  pp_conversation :: json
  pp_memories :: json
  pp_tool_results :: "json list"

record chat_request =
  ch_model :: pystr
  ch_prompt :: prompt_parts
  ch_messages :: "(string \<times> pystr) list"
  ch_capabilities :: jdict

text \<open>\<open>cx_structured\<close> is \<open>None\<close> when the structured output does not have the shape of a decision.\<close>

record chat_result =
  cx_provider_response_id :: pystr
  cx_structured :: "model_decision option"
  cx_input_units :: "int option"
  cx_output_units :: "int option"

record orch_env =
  oe_test_environment :: bool
  oe_decrypts :: "secret_row \<Rightarrow> bool"
  oe_ranked :: "uuid \<Rightarrow> string \<Rightarrow> pystr \<Rightarrow> nat \<Rightarrow> db \<Rightarrow> uuid list"
  oe_chat :: "nat \<Rightarrow> chat_request \<Rightarrow> chat_result result"
  oe_latency :: "nat \<Rightarrow> int"
  oe_lower :: "pystr \<Rightarrow> pystr"
  oe_iso :: "instant \<Rightarrow> pystr"
  oe_isoformat :: "instant \<Rightarrow> pystr"
  oe_validation_errors :: "chat_result \<Rightarrow> json"
  oe_parse_iso :: "pystr \<Rightarrow> instant option"
  oe_datetime :: "json \<Rightarrow> instant option"
  oe_repr :: "json \<Rightarrow> pystr"
  oe_int :: "json \<Rightarrow> int option"

section \<open>Contracts (orchestration/contracts.py)\<close>

definition INTENTS :: "string list" where
  "INTENTS = [''conversation'', ''search'', ''read_memory'', ''read_history'', ''change_proposal'',
     ''confirmed_change'', ''memory_management'', ''history_management'', ''administration'',
     ''security_sensitive'']"

definition READ_ONLY_TOOLS :: "string list" where
  "READ_ONLY_TOOLS = [''memory_search'', ''history_search'']"

definition STATE_TOOLS :: "string list" where
  "STATE_TOOLS = [''memory_create'', ''memory_update'', ''memory_mark_outdated'', ''memory_delete'',
     ''memory_restore'', ''memory_merge'', ''history_continue'', ''history_delete'', ''history_restore'']"

definition TOOL_NAMES :: "string list" where
  "TOOL_NAMES = READ_ONLY_TOOLS @ STATE_TOOLS @ [''none'']"

definition proposal_valid :: "memory_proposal \<Rightarrow> bool" where
  "proposal_valid p \<longleftrightarrow> mp_content p \<noteq> [] \<and> int (length (mp_content p)) \<le> 10000
     \<and> mp_rationale p \<noteq> [] \<and> int (length (mp_rationale p)) \<le> 500"

definition source_valid :: "source_reference \<Rightarrow> bool" where
  "source_valid s \<longleftrightarrow>
     sf_source_type s \<in> {''memory'', ''history'', ''conversation'', ''application_state'', ''tool''}
   \<and> sf_label s \<noteq> [] \<and> int (length (sf_label s)) \<le> 240"

text \<open>The field constraints, and \<open>validate_confirmation_consistency\<close>.\<close>

definition decision_valid :: "model_decision \<Rightarrow> bool" where
  "decision_valid d \<longleftrightarrow>
     md_intent d \<in> set INTENTS
   \<and> md_result_type d \<in> {''answer'', ''clarification'', ''confirmation_required'', ''blocked''}
   \<and> md_answer d \<noteq> [] \<and> int (length (md_answer d)) \<le> 50000
   \<and> md_uncertainty d \<in> {''none'', ''low'', ''material''}
   \<and> length (md_sources d) \<le> 20 \<and> list_all source_valid (md_sources d)
   \<and> length (md_tool_calls d) \<le> 5 \<and> list_all (\<lambda>t. tl_name t \<in> set TOOL_NAMES) (md_tool_calls d)
   \<and> (case md_memory_proposal d of None \<Rightarrow> True | Some p \<Rightarrow> proposal_valid p)
   \<and> (md_requires_confirmation d
      \<or> (list_all (\<lambda>t. tl_name t \<in> {''none'', ''memory_search'', ''history_search''}) (md_tool_calls d)
         \<and> md_result_type d \<noteq> ''confirmation_required'' \<and> md_memory_proposal d = None))"

section \<open>Values\<close>

text \<open>\<^verbatim>\<open>str(value)\<close> of a JSON value.\<close>

fun py_str :: "orch_env \<Rightarrow> json \<Rightarrow> pystr" where
  "py_str env (JStr s) = s"
| "py_str env JNull = asc ''None''"
| "py_str env (JBool b) = (if b then asc ''True'' else asc ''False'')"
| "py_str env (JInt i) = int_str i"
| "py_str env j = oe_repr env j"

text \<open>\<^verbatim>\<open>int(value)\<close>; \<open>oe_int\<close> is the conversion of a text or a float.\<close>

fun py_int :: "orch_env \<Rightarrow> json \<Rightarrow> int result" where
  "py_int env (JInt i) = Inr i"
| "py_int env (JBool b) = Inr (if b then 1 else 0)"
| "py_int env (JStr s) = (case oe_int env (JStr s) of None \<Rightarrow> Inl ValueError | Some i \<Rightarrow> Inr i)"
| "py_int env (JFloat w) = (case oe_int env (JFloat w) of None \<Rightarrow> Inl ValueError | Some i \<Rightarrow> Inr i)"
| "py_int env j = Inl TypeError"

definition normalize_text :: "pystr \<Rightarrow> pystr" where
  "normalize_text v = strip (py_join [32] (py_split (nfc v)))"

definition parse_category :: "pystr \<Rightarrow> memory_category option" where
  "parse_category s =
     List.find (\<lambda>x. asc (memory_category_str x) = s)
       [PersonalFact, Preference, Rule, Decision, Commitment, Event, Note, Other]"

text \<open>An optional instant of a request, as the validation library reads it.\<close>

definition parse_instant :: "orch_env \<Rightarrow> json \<Rightarrow> instant option result" where
  "parse_instant env j =
     (case j of
        JNull \<Rightarrow> Inr None
      | JStr s \<Rightarrow> (case oe_parse_iso env s of None \<Rightarrow> Inl ValueError | Some t \<Rightarrow> Inr (Some t))
      | _ \<Rightarrow> (case oe_datetime env j of None \<Rightarrow> Inl ValueError | Some t \<Rightarrow> Inr (Some t)))"

definition opt_iso :: "orch_env \<Rightarrow> instant option \<Rightarrow> json" where
  "opt_iso env t = (case t of None \<Rightarrow> JNull | Some x \<Rightarrow> JStr (oe_iso env x))"

definition origin_str :: "origin_type \<Rightarrow> string" where
  "origin_str t = (case t of ExplicitCommand \<Rightarrow> ''explicit_command'' | Manual \<Rightarrow> ''manual''
     | AssistantSuggestion \<Rightarrow> ''assistant_suggestion'')"

text \<open>\<^verbatim>\<open>MemoryCreate.model_dump(mode="json")\<close> and \<^verbatim>\<open>MemoryCreate.model_validate\<close>.\<close>

definition dump_create :: "orch_env \<Rightarrow> memory_create_request \<Rightarrow> jdict" where
  "dump_create env r =
     [(asc ''content'', JStr (rq_content r)),
      (asc ''category'', jstr (memory_category_str (rq_category r))),
      (asc ''origin_type'', jstr (origin_str (rq_origin_type r))),
      (asc ''source_conversation_id'', opt_uuid (rq_source_conversation_id r)),
      (asc ''source_message_id'', opt_uuid (rq_source_message_id r)),
      (asc ''original_expression'', case rq_original_expression r of None \<Rightarrow> JNull | Some t \<Rightarrow> JStr t),
      (asc ''event_at'', opt_iso env (rq_event_at r)),
      (asc ''valid_from'', opt_iso env (rq_valid_from r)),
      (asc ''valid_until'', opt_iso env (rq_valid_until r)),
      (asc ''keywords'', JList (map JStr (rq_keywords r))),
      (asc ''confirmed'', JBool (rq_confirmed r))]"

definition parse_opt_uuid :: "json \<Rightarrow> uuid option result" where
  "parse_opt_uuid j =
     (case j of JNull \<Rightarrow> Inr None
      | JStr s \<Rightarrow> (case uuid_parse s of None \<Rightarrow> Inl ValueError | Some u \<Rightarrow> Inr (Some u))
      | _ \<Rightarrow> Inl ValueError)"

definition parse_opt_text :: "json \<Rightarrow> pystr option result" where
  "parse_opt_text j = (case j of JNull \<Rightarrow> Inr None | JStr s \<Rightarrow> Inr (Some s) | _ \<Rightarrow> Inl ValueError)"

fun parse_texts :: "json list \<Rightarrow> pystr list result" where
  "parse_texts [] = Inr []"
| "parse_texts (JStr s # js) = (case parse_texts js of Inl e \<Rightarrow> Inl e | Inr ss \<Rightarrow> Inr (s # ss))"
| "parse_texts (j # js) = Inl ValueError"

definition parse_origin :: "json \<Rightarrow> origin_type result" where
  "parse_origin j =
     (case List.find (\<lambda>t. jstr (origin_str t) = j) [ExplicitCommand, Manual, AssistantSuggestion] of
        None \<Rightarrow> Inl ValueError | Some t \<Rightarrow> Inr t)"

definition parse_create :: "orch_env \<Rightarrow> jdict \<Rightarrow> memory_create_request result" where
  "parse_create env args =
     (case (jget args ''content'', jget args ''category'', parse_origin (get_or args ''origin_type'' JNull)) of
        (Some (JStr content), Some (JStr category), Inr origin) \<Rightarrow>
          (case (parse_category category, parse_opt_uuid (get_or args ''source_conversation_id'' JNull),
                 parse_opt_uuid (get_or args ''source_message_id'' JNull),
                 parse_opt_text (get_or args ''original_expression'' JNull)) of
             (Some cat, Inr conv, Inr msg, Inr expr) \<Rightarrow>
               (case (parse_instant env (get_or args ''event_at'' JNull),
                      parse_instant env (get_or args ''valid_from'' JNull),
                      parse_instant env (get_or args ''valid_until'' JNull),
                      get_or args ''keywords'' (JList []), get_or args ''confirmed'' (JBool False)) of
                  (Inr ev, Inr vf, Inr vu, JList ks, JBool conf) \<Rightarrow>
                    (case parse_texts ks of
                       Inl e \<Rightarrow> Inl e
                     | Inr kws \<Rightarrow> validate_create \<lparr>rq_content = content, rq_category = cat, rq_origin_type = origin,
                         rq_source_conversation_id = conv, rq_source_message_id = msg,
                         rq_original_expression = expr, rq_event_at = ev, rq_valid_from = vf,
                         rq_valid_until = vu, rq_keywords = kws, rq_confirmed = conf\<rparr>)
                | _ \<Rightarrow> Inl ValueError)
           | _ \<Rightarrow> Inl ValueError)
      | _ \<Rightarrow> Inl ValueError)"

section \<open>Settings and the model in use\<close>

text \<open>\<open>_setting\<close>: the value of a setting row, or the fallback.\<close>

definition setting_value :: "string \<Rightarrow> string \<Rightarrow> json \<Rightarrow> db \<Rightarrow> json" where
  "setting_value area key fallback d =
     (case query_one (\<lambda>s. st_area s = area \<and> st_key s = key) (settings d) of
        None \<Rightarrow> fallback
      | Some s \<Rightarrow> get_or (st_value s) ''value'' fallback)"

definition has_capability :: "string \<Rightarrow> jdict \<Rightarrow> bool" where
  "has_capability k caps \<longleftrightarrow> jget caps k = Some (JBool True)"

definition primary_model :: "orch_env \<Rightarrow> db \<Rightarrow> (provider_row \<times> catalog_entry) result" where
  "primary_model env d =
     (case query_one (\<lambda>s. st_area s = ''models'' \<and> st_key s = ''conversation_model'') (settings d) of
        None \<Rightarrow> Inl (CapabilityUnavailableError ''conversation_model'')
      | Some s \<Rightarrow>
          if \<not> truthy (get_or (st_value s) ''value'' JNull)
          then Inl (CapabilityUnavailableError ''conversation_model'')
          else (case uuid_parse (py_str env (get_or (st_value s) ''value'' JNull)) of
              None \<Rightarrow> Inl (CapabilityUnavailableError ''conversation_model'')
            | Some u \<Rightarrow> (case get_row u (catalog d) of
                None \<Rightarrow> Inl (CapabilityUnavailableError ''conversation_model'')
              | Some mdl \<Rightarrow>
                  if \<not> mc_available mdl \<or> \<not> has_capability ''responses'' (mc_capabilities mdl)
                     \<or> \<not> has_capability ''structured_outputs'' (mc_capabilities mdl)
                  then Inl (CapabilityUnavailableError ''conversation_model'')
                  else (case get_row (mc_provider_id mdl) (providers d) of
                      None \<Rightarrow> Inl (CapabilityUnavailableError ''conversation_model'')
                    | Some pv \<Rightarrow>
                        if \<not> pv_enabled pv \<or> pv_verification_state pv \<noteq> ''verified''
                        then Inl (CapabilityUnavailableError ''conversation_model'')
                        else Inr (pv, mdl)))))"

text \<open>\<^verbatim>\<open>ProviderService.runtime\<close>: whether a client for the provider can be built.\<close>

definition provider_runtime :: "orch_env \<Rightarrow> provider_row \<Rightarrow> db \<Rightarrow> unit result" where
  "provider_runtime env pv d =
     (if pv_type pv = ''deterministic''
      then (if oe_test_environment env then Inr () else Inl (CapabilityUnavailableError ''provider''))
      else case pv_secret_id pv of
        None \<Rightarrow> Inl (CapabilityUnavailableError ''provider'')
      | Some i \<Rightarrow> (case get_row i (secrets d) of
          None \<Rightarrow> Inl (CapabilityUnavailableError ''provider'')
        | Some sec \<Rightarrow>
            if es_revoked_at sec \<noteq> None then Inl (CapabilityUnavailableError ''provider'')
            else if \<not> oe_decrypts env sec then Inl RuntimeError
            else if pv_type pv \<notin> {''openai'', ''openai_compatible''}
            then Inl (CapabilityUnavailableError ''provider'')
            else Inr ()))"

section \<open>The context of a request\<close>

text \<open>\<open>_context_messages\<close>: the newest messages whose texts fit the budget, at least one.\<close>

fun take_context :: "int \<Rightarrow> bool \<Rightarrow> int \<Rightarrow> message list \<Rightarrow> message list" where
  "take_context budget started used [] = []"
| "take_context budget started used (m # ms) =
     (if started \<and> budget < used + int (length (ms_content m)) then []
      else m # take_context budget True (used + int (length (ms_content m))) ms)"

definition context_messages :: "message list \<Rightarrow> int \<Rightarrow> message list" where
  "context_messages ms budget = rev (take_context budget False 0 (rev ms))"

definition iso_or_null :: "orch_env \<Rightarrow> instant option \<Rightarrow> json" where
  "iso_or_null env t = (case t of None \<Rightarrow> JNull | Some x \<Rightarrow> JStr (oe_isoformat env x))"

text \<open>The memory items put into the prompt: the ranked ones in their order, or the six
  changed last; at most twelve.\<close>

definition context_memories :: "orch_env \<Rightarrow> uuid \<Rightarrow> pystr \<Rightarrow> db \<Rightarrow> memory_item list" where
  "context_memories env acc query d =
     (let ranked = oe_ranked env acc ''memory'' query 12 d;
          base = filter (\<lambda>i. mi_account_id i = acc \<and> mi_state i = MActive) (memories d)
      in take 12
        (if ranked \<noteq> []
         then sort_key (\<lambda>i. rank_of ranked (row_id i)) (filter (\<lambda>i. row_id i \<in> set ranked) base)
         else take 6 (sort_key (\<lambda>i. - updated_at i) base)))"

definition source_payload :: "memory_source \<Rightarrow> json" where
  "source_payload s =
     jobj [(''type'', jstr (origin_str (mo_source_type s))),
       (''conversation_id'', opt_uuid (mo_conversation_id s)), (''message_id'', opt_uuid (mo_message_id s))]"

definition memory_payload :: "orch_env \<Rightarrow> db \<Rightarrow> memory_item \<Rightarrow> json" where
  "memory_payload env d i =
     jobj [(''id'', JStr (uuid_str (row_id i))), (''category'', jstr (memory_category_str (mi_category i))),
       (''state'', jstr (memory_state_str (mi_state i))), (''content'', JStr (mi_content i)),
       (''event_at'', iso_or_null env (mi_event_at i)), (''valid_from'', iso_or_null env (mi_valid_from i)),
       (''valid_until'', iso_or_null env (mi_valid_until i)),
       (''sources'', JList (map source_payload
          (filter (\<lambda>s. mo_memory_id s = row_id i) (memory_sources d))))]"

definition message_payload :: "message \<Rightarrow> json" where
  "message_payload m =
     jobj [(''id'', JStr (uuid_str (row_id m))), (''sequence'', JInt (int (ms_sequence m))),
       (''role'', jstr (ms_role m)), (''content'', JStr (ms_content m)), (''status'', jstr (ms_status m))]"

text \<open>The identifiers of the items of a tool result.\<close>

definition item_id :: "orch_env \<Rightarrow> json \<Rightarrow> pystr list" where
  "item_id env it =
     (case it of
        JObj kvs \<Rightarrow> (case jget kvs ''id'' of Some v \<Rightarrow> if truthy v then [py_str env v] else [] | None \<Rightarrow> [])
      | _ \<Rightarrow> [])"

fun item_ids :: "orch_env \<Rightarrow> json \<Rightarrow> pystr list" where
  "item_ids env (JObj r) =
     (case jget r ''items'' of
        Some (JList items) \<Rightarrow> concat (map (item_id env) items)
      | _ \<Rightarrow> [])"
| "item_ids env _ = []"

fun tool_of :: "json \<Rightarrow> json" where
  "tool_of (JObj r) = get_or r ''tool'' JNull"
| "tool_of _ = JNull"

definition VERSION_1 :: string where
  "VERSION_1 = ''1.0.0''"

record context_bundle =
  cb_prompt :: prompt_parts
  cb_manifest :: json
  cb_allowed :: "pystr list"

definition build_context ::
  "orch_env \<Rightarrow> uuid \<Rightarrow> conversation \<Rightarrow> message list \<Rightarrow> message \<Rightarrow> pystr \<Rightarrow> json list \<Rightarrow> db
    \<Rightarrow> context_bundle" where
  "build_context env acc cv ms src query tool_results d =
     (let mems = context_memories env acc query d;
          sel = context_messages ms 45000;
          manifest = jobj
            [(''orchestration_version'', jstr VERSION_1), (''prompt_version'', jstr VERSION_1),
             (''conversation_id'', JStr (uuid_str (row_id cv))),
             (''source_message_id'', JStr (uuid_str (row_id src))),
             (''sources'', jobj
               [(''conversation_messages'', JList (map (\<lambda>m. JStr (uuid_str (row_id m))) sel)),
                (''memory_items'', JList (map (\<lambda>i. JStr (uuid_str (row_id i))) mems)),
                (''tool_results'', JList (map tool_of tool_results))]),
             (''classes'', JList (map jstr ([''system_rules'', ''active_conversation'', ''confirmed_memory'']
               @ (if tool_results = [] then [] else [''verified_tool_result'']))))]
      in \<lparr>cb_prompt = \<lparr>pp_language = cv_language cv,
             pp_verbosity = py_str env (setting_value ''conversation'' ''verbosity'' (jstr ''balanced'') d),
             pp_manifest = manifest,
             pp_summary = (case cv_context_summary cv of None \<Rightarrow> None | Some t \<Rightarrow> if t = [] then None else Some t),
             pp_conversation = JList (map message_payload sel),
             pp_memories = JList (map (memory_payload env d) mems),
             pp_tool_results = tool_results\<rparr>,
           cb_manifest = manifest,
           cb_allowed = map (\<lambda>m. uuid_str (row_id m)) sel @ map (\<lambda>i. uuid_str (row_id i)) mems
             @ concat (map (item_ids env) tool_results)\<rparr>)"

section \<open>Calling the model\<close>

definition usage :: "chat_result \<Rightarrow> int \<times> int" where
  "usage r = ((case cx_input_units r of None \<Rightarrow> 0 | Some n \<Rightarrow> n),
     (case cx_output_units r of None \<Rightarrow> 0 | Some n \<Rightarrow> n))"

definition merge_usage :: "int \<times> int \<Rightarrow> int \<times> int \<Rightarrow> int \<times> int" where
  "merge_usage l r = (fst l + fst r, snd l + snd r)"

definition usage_json :: "int \<times> int \<Rightarrow> json" where
  "usage_json u = jobj [(''input_units'', JInt (fst u)), (''output_units'', JInt (snd u))]"

definition SAFE_DETAILS :: "pystr list" where
  "SAFE_DETAILS = map asc [''status'', ''endpoint'', ''provider_request_id'', ''provider_error_type'',
     ''provider_error_code'', ''provider_param'']"

fun is_scalar :: "json \<Rightarrow> bool" where
  "is_scalar (JStr _) = True"
| "is_scalar (JInt _) = True"
| "is_scalar (JFloat _) = True"
| "is_scalar (JBool _) = True"
| "is_scalar _ = False"

fun safe_provider_error_details :: "exc \<Rightarrow> json" where
  "safe_provider_error_details (Domain e) =
     (case err_details e of
        Some (JObj kvs) \<Rightarrow>
          let kept = filter (\<lambda>(k, v). k \<in> set SAFE_DETAILS \<and> is_scalar v) kvs
          in if kept = [] then JObj [] else jobj [(''provider_error'', JObj kept)]
      | _ \<Rightarrow> JObj [])"
| "safe_provider_error_details _ = JObj []"

definition set_run :: "instant \<Rightarrow> uuid \<Rightarrow> (run_row \<Rightarrow> run_row) \<Rightarrow> db \<Rightarrow> db" where
  "set_run now rid f d =
     d\<lparr>runs := update_where (\<lambda>r. row_id r = rid) (\<lambda>r. (f r)\<lparr>updated_at := now\<rparr>) (runs d)\<rparr>"

definition set_attempt :: "uuid \<Rightarrow> (attempt_row \<Rightarrow> attempt_row) \<Rightarrow> db \<Rightarrow> db" where
  "set_attempt aid f d = d\<lparr>attempts := update_where (\<lambda>a. row_id a = aid) f (attempts d)\<rparr>"

definition next_attempt :: "uuid \<Rightarrow> db \<Rightarrow> nat" where
  "next_attempt rid d = (case get_row rid (runs d) of None \<Rightarrow> 1 | Some r \<Rightarrow> Suc (rn_attempt_count r))"

definition open_attempt :: "instant \<Rightarrow> uuid \<Rightarrow> provider_row \<Rightarrow> catalog_entry \<Rightarrow> db \<Rightarrow> db" where
  "open_attempt now rid pv mdl d =
     (let d1 = set_run now rid (\<lambda>r. r\<lparr>rn_attempt_count := Suc (rn_attempt_count r)\<rparr>) d
      in (fresh d1)\<lparr>attempts := attempts d1 @
           [\<lparr>row_id = next_id d1, at_run_id = rid, at_attempt_number = next_attempt rid d,
             at_provider_id = row_id pv, at_model_id = row_id mdl, at_state = RunRunning,
             at_provider_response_id = None, at_started_at = now, at_completed_at = None,
             at_latency_ms = None, at_usage = JObj [], at_error_code = None\<rparr>]\<rparr>)"

definition chat_request_of :: "catalog_entry \<Rightarrow> prompt_parts \<Rightarrow> message list \<Rightarrow> chat_request" where
  "chat_request_of mdl prompt ms =
     \<lparr>ch_model = mc_external_id mdl, ch_prompt = prompt,
      ch_messages = map (\<lambda>m. (ms_role m, ms_content m)) (drop (length ms - 30) ms),
      ch_capabilities = mc_capabilities mdl\<rparr>"

definition model_reply :: "orch_env \<Rightarrow> nat \<Rightarrow> chat_request \<Rightarrow> (model_decision \<times> chat_result) result" where
  "model_reply env n rq =
     (case oe_chat env n rq of
        Inl e \<Rightarrow> Inl e
      | Inr res \<Rightarrow> (case cx_structured res of
            Some dec \<Rightarrow> if decision_valid dec then Inr (dec, res)
                        else Inl (DomainErrorWith ''model_decision_invalid'' 502
                               (jobj [(''validation_errors'', oe_validation_errors env res)]))
          | None \<Rightarrow> Inl (DomainErrorWith ''model_decision_invalid'' 502
                           (jobj [(''validation_errors'', oe_validation_errors env res)]))))"

definition call_model ::
  "orch_env \<Rightarrow> instant \<Rightarrow> uuid \<Rightarrow> provider_row \<Rightarrow> catalog_entry \<Rightarrow> prompt_parts \<Rightarrow> message list \<Rightarrow> db
    \<Rightarrow> (model_decision \<times> chat_result) result \<times> db" where
  "call_model env now rid pv mdl prompt ms d =
     (case provider_runtime env pv d of
        Inl e \<Rightarrow> (Inl e, d)
      | Inr _ \<Rightarrow>
          let n = next_attempt rid d;
              d1 = open_attempt now rid pv mdl d;
              aid = next_id d
          in case model_reply env n (chat_request_of mdl prompt ms) of
               Inr (dec, res) \<Rightarrow> (Inr (dec, res), set_attempt aid (\<lambda>a. a\<lparr>at_state := RunCompleted,
                 at_provider_response_id := Some (cx_provider_response_id res), at_completed_at := Some now,
                 at_latency_ms := Some (oe_latency env n), at_usage := usage_json (usage res)\<rparr>) d1)
             | Inl e \<Rightarrow> (Inl e, set_attempt aid (\<lambda>a. a\<lparr>at_state := RunFailed, at_completed_at := Some now,
                 at_latency_ms := Some (oe_latency env n), at_error_code := Some (error_code_of e),
                 at_usage := safe_provider_error_details e\<rparr>) d1))"

section \<open>Read-only tools\<close>

definition memory_item_json :: "orch_env \<Rightarrow> memory_item \<Rightarrow> json" where
  "memory_item_json env i =
     jobj [(''id'', JStr (uuid_str (row_id i))), (''content'', JStr (mi_content i)),
       (''category'', jstr (memory_category_str (mi_category i))),
       (''state'', jstr (memory_state_str (mi_state i))), (''event_at'', iso_or_null env (mi_event_at i))]"

definition text_or_null :: "pystr option \<Rightarrow> json" where
  "text_or_null t = (case t of None \<Rightarrow> JNull | Some s \<Rightarrow> JStr s)"

definition conversation_json :: "orch_env \<Rightarrow> conversation \<Rightarrow> json" where
  "conversation_json env cv =
     jobj [(''id'', JStr (uuid_str (row_id cv))), (''title'', text_or_null (cv_title cv)),
       (''summary'', text_or_null (cv_summary cv)), (''started_at'', JStr (oe_isoformat env (cv_started_at cv))),
       (''state'', jstr (conversation_state_str (cv_state cv)))]"

definition tool_result :: "string \<Rightarrow> pystr \<Rightarrow> json list \<Rightarrow> json" where
  "tool_result name query items =
     jobj [(''tool'', jstr name), (''query'', JStr query), (''scope'', jstr ''global''), (''items'', JList items)]"

fun as_limit :: "json \<Rightarrow> nat option" where
  "as_limit (JInt i) = Some (nat (min (max i 1) 20))"
| "as_limit _ = None"

text \<open>One call: its result and the identifiers of the items in it, or nothing for another tool.\<close>

definition read_tool ::
  "orch_env \<Rightarrow> uuid \<Rightarrow> tool_call_decision \<Rightarrow> db \<Rightarrow> (json list \<times> pystr list) result" where
  "read_tool env acc call d =
     (let query = normalize_text (py_str env (get_or (tl_arguments call) ''query'' (JStr [])))
      in if query = [] then Inl (DomainError ''tool_arguments_invalid'' 502)
         else case as_limit (get_or (tl_arguments call) ''limit'' (JInt 8)) of
           None \<Rightarrow> Inl (DomainError ''tool_arguments_invalid'' 502)
         | Some limit \<Rightarrow>
             if tl_name call = ''memory_search'' then
               (if 500 < int (length query) then Inl ValueError
                else
                  let rows = memory_search (oe_lower env) acc
                        \<lparr>sq_query = query, sq_categories = [], sq_states = [MActive], sq_from_at = None,
                         sq_to_at = None, sq_limit = limit\<rparr> (oe_ranked env acc ''memory'' query limit d) d
                  in Inr ([tool_result ''memory_search'' query (map (memory_item_json env) rows)],
                          map (\<lambda>r. uuid_str (row_id r)) rows))
             else if tl_name call = ''history_search'' then
               (if 500 < int (length query) then Inl ValueError
                else
                  let rows = search_history (oe_lower env) acc
                        \<lparr>hs_query = query, hs_states = [CCompleted, CInterrupted, CRecovered],
                         hs_from_at = None, hs_to_at = None, hs_limit = limit, hs_offset = 0\<rparr>
                        (oe_ranked env acc ''conversation'' query limit d) d
                  in Inr ([tool_result ''history_search'' query (map (conversation_json env) rows)],
                          map (\<lambda>r. uuid_str (row_id r)) rows))
             else Inr ([], []))"

fun read_tools ::
  "orch_env \<Rightarrow> uuid \<Rightarrow> db \<Rightarrow> tool_call_decision list \<Rightarrow> (json list \<times> pystr list) result" where
  "read_tools env acc d [] = Inr ([], [])"
| "read_tools env acc d (call # calls) =
     (case read_tool env acc call d of
        Inl e \<Rightarrow> Inl e
      | Inr (rs, ids) \<Rightarrow> (case read_tools env acc d calls of
            Inl e \<Rightarrow> Inl e
          | Inr (rs', ids') \<Rightarrow> Inr (rs @ rs', ids @ ids')))"

definition execute_read_tools ::
  "orch_env \<Rightarrow> uuid \<Rightarrow> tool_call_decision list \<Rightarrow> db \<Rightarrow> (json list \<times> pystr list) result" where
  "execute_read_tools env acc calls d = read_tools env acc d (take 5 calls)"

definition validate_sources :: "model_decision \<Rightarrow> pystr list \<Rightarrow> unit result" where
  "validate_sources dec allowed =
     (let invalid = filter (\<lambda>s. sf_source_id s \<notin> set allowed) (md_sources dec)
      in if invalid \<noteq> []
         then Inl (DomainErrorWith ''source_provenance_invalid'' 502
                (jobj [(''invalid_source_count'', JInt (int (length invalid)))]))
         else Inr ())"

section \<open>Proposed actions\<close>

text \<open>\<open>_impact\<close>: what the preview says about the effect.\<close>

definition impact :: "string \<Rightarrow> pystr" where
  "impact name =
     (case map_of [
        (''memory_update'', asc ''Polo'' @ [382] @ asc ''ka dostane novou auditovatelnou verzi.''),
        (''memory_mark_outdated'', asc ''Polo'' @ [382] @ asc ''ka se p'' @ [345] @ asc ''estane pou''
          @ [382, 237] @ asc ''vat jako sou'' @ [269] @ asc ''asn'' @ [253] @ asc '' fakt.''),
        (''memory_delete'', asc ''Polo'' @ [382] @ asc ''ka se p'' @ [345] @ asc ''estane pou''
          @ [382, 237] @ asc ''vat a bude obnoviteln'' @ [225] @ asc '' jen po reten'' @ [269]
          @ asc ''n'' @ [237] @ asc '' dobu.''),
        (''memory_restore'', asc ''Odstran'' @ [283] @ asc ''n'' @ [225] @ asc '' polo'' @ [382]
          @ asc ''ka se znovu stane aktivn'' @ [237] @ asc ''.''),
        (''history_continue'', asc ''Vznikne nov'' @ [225] @ asc '' samostatn'' @ [225]
          @ asc '' relace propojen'' @ [225] @ asc '' s p'' @ [367] @ asc ''vodn'' @ [237] @ asc ''.''),
        (''history_delete'', asc ''Konverzace zmiz'' @ [237] @ asc '' z b'' @ [283, 382] @ asc ''n''
          @ [233] @ asc '' historie a bude obnoviteln'' @ [225] @ asc '' jen po reten'' @ [269]
          @ asc ''n'' @ [237] @ asc '' dobu.''),
        (''history_restore'', asc ''Odstran'' @ [283] @ asc ''n'' @ [225] @ asc '' konverzace se vr''
          @ [225] @ asc ''t'' @ [237] @ asc '' do historie.'')] name of
        Some t \<Rightarrow> t
      | None \<Rightarrow> asc ''Dojde ke zm'' @ [283] @ asc ''n'' @ [283] @ asc '' kanonick'' @ [253]
          @ asc ''ch dat.'')"

text \<open>\<^verbatim>\<open>MemoryProposal.model_dump(exclude_none=True)\<close>\<close>

definition dump_proposal :: "memory_proposal \<Rightarrow> jdict" where
  "dump_proposal p =
     [(asc ''content'', JStr (mp_content p)), (asc ''category'', jstr (memory_category_str (mp_category p))),
      (asc ''rationale'', JStr (mp_rationale p))]
     @ concat (map (\<lambda>(k, t). case t of None \<Rightarrow> [] | Some s \<Rightarrow> [(asc k, JStr s)])
         [(''event_at'', mp_event_at p), (''valid_from'', mp_valid_from p), (''valid_until'', mp_valid_until p),
          (''source_message_id'', mp_source_message_id p)])"

text \<open>The constructor \<open>MemoryCreate\<close> as the two actions that create an item call it.\<close>

definition action_create ::
  "orch_env \<Rightarrow> jdict \<Rightarrow> bool \<Rightarrow> conversation \<Rightarrow> message \<Rightarrow> memory_create_request result" where
  "action_create env args full cv src =
     (case (parse_category (py_str env (get_or args ''category'' (jstr ''other''))),
            parse_instant env (if full then get_or args ''event_at'' JNull else JNull),
            parse_instant env (if full then get_or args ''valid_from'' JNull else JNull),
            parse_instant env (if full then get_or args ''valid_until'' JNull else JNull)) of
        (Some cat, Inr ev, Inr vf, Inr vu) \<Rightarrow>
          validate_create \<lparr>rq_content = normalize_text (py_str env (get_or args ''content'' (JStr []))),
            rq_category = cat, rq_origin_type = ExplicitCommand,
            rq_source_conversation_id = Some (row_id cv), rq_source_message_id = Some (row_id src),
            rq_original_expression = (if full then Some (ms_content src) else None),
            rq_event_at = ev, rq_valid_from = vf, rq_valid_until = vu, rq_keywords = [], rq_confirmed = True\<rparr>
      | _ \<Rightarrow> Inl ValueError)"

definition tool_arguments_invalid :: exc where
  "tool_arguments_invalid = DomainError ''tool_arguments_invalid'' 502"

definition normalize_create ::
  "orch_env \<Rightarrow> jdict \<Rightarrow> conversation \<Rightarrow> message \<Rightarrow> (jdict \<times> jdict \<times> int option) result" where
  "normalize_create env args cv src =
     (case action_create env args True cv src of
        Inl e \<Rightarrow> Inl e
      | Inr rq \<Rightarrow> Inr (dump_create env rq,
          [(asc ''operation'', JStr (asc ''Ulo'' @ [382] @ asc ''it pam'' @ [283, 357])),
           (asc ''content'', JStr (normalize_text (py_str env (get_or args ''content'' (JStr []))))),
           (asc ''category'', JStr (py_str env (get_or args ''category'' (jstr ''other'')))),
           (asc ''impact'', JStr (asc ''Vznikne aktivn'' @ [237] @ asc '' pam'' @ [283, 357] @ asc ''ov''
          @ [225] @ asc '' polo'' @ [382] @ asc ''ka.''))],
          None))"

definition normalize_memory ::
  "orch_env \<Rightarrow> uuid \<Rightarrow> string \<Rightarrow> jdict \<Rightarrow> db \<Rightarrow> (jdict \<times> jdict \<times> int option) result" where
  "normalize_memory env acc name args d =
     (case uuid_parse (py_str env (get_or args ''memory_id'' JNull)) of
        None \<Rightarrow> Inl tool_arguments_invalid
      | Some mid \<Rightarrow> (case memory_get acc mid True d of
          Inl e \<Rightarrow> Inl e
        | Inr i \<Rightarrow> (case get_or args ''expected_version'' (JInt (version i)) of
            JInt expected \<Rightarrow>
              if expected \<noteq> version i
              then Inl (ConflictError (Some (jobj [(''actual_version'', JInt (version i))])))
              else Inr ([(asc ''memory_id'', JStr (uuid_str (row_id i))),
                         (asc ''expected_version'', JInt (version i))]
                 @ (if name = ''memory_update''
                    then concat (map (\<lambda>k. case jget args k of None \<Rightarrow> [] | Some v \<Rightarrow> [(asc k, v)])
                           [''content'', ''category'', ''event_at'', ''valid_from'', ''valid_until''])
                    else []),
                 [(asc ''operation'', jstr name), (asc ''target'', JStr (mi_content i)),
                  (asc ''state'', jstr (memory_state_str (mi_state i))), (asc ''impact'', JStr (impact name))],
                 Some (version i))
          | _ \<Rightarrow> Inl tool_arguments_invalid)))"

fun parse_uuids :: "pystr list \<Rightarrow> uuid list option" where
  "parse_uuids [] = Some []"
| "parse_uuids (s # ss) =
     (case (uuid_parse s, parse_uuids ss) of (Some u, Some us) \<Rightarrow> Some (u # us) | _ \<Rightarrow> None)"

definition normalize_merge ::
  "orch_env \<Rightarrow> uuid \<Rightarrow> jdict \<Rightarrow> conversation \<Rightarrow> message \<Rightarrow> db \<Rightarrow> (jdict \<times> jdict \<times> int option) result" where
  "normalize_merge env acc args cv src d =
     (case get_or args ''source_ids'' (JList []) of
        JList raw \<Rightarrow> (case parse_uuids (map (py_str env) raw) of
            None \<Rightarrow> Inl tool_arguments_invalid
          | Some ids \<Rightarrow>
              if card (set ids) < 2 then Inl tool_arguments_invalid
              else
                let sources = filter (\<lambda>i. mi_account_id i = acc \<and> row_id i \<in> set ids) (memories d)
                in if length sources \<noteq> card (set ids) then Inl NotFoundError
                   else (case action_create env args False cv src of
                       Inl e \<Rightarrow> Inl e
                     | Inr rq \<Rightarrow> Inr (
                         [(asc ''source_ids'', JList (map (\<lambda>u. JStr (uuid_str u)) ids)),
                          (asc ''target'', JObj (dump_create env rq)),
                          (asc ''source_versions'', JObj (map (\<lambda>i. (uuid_str (row_id i), JInt (version i))) sources))],
                         [(asc ''operation'', JStr (asc ''Slou'' @ [269] @ asc ''it pam'' @ [283]
          @ asc ''ti'')),
                          (asc ''sources'', JList (map (\<lambda>i. JStr (mi_content i)) sources)),
                          (asc ''result'', JStr (rq_content rq)),
                          (asc ''impact'', JStr (asc ''Zdrojov'' @ [233] @ asc '' polo'' @ [382]
          @ asc ''ky budou ozna'' @ [269] @ asc ''eny jako slou'' @ [269] @ asc ''en'' @ [233] @ asc ''.''))],
                         None)))
      | _ \<Rightarrow> Inl tool_arguments_invalid)"

definition normalize_history ::
  "orch_env \<Rightarrow> uuid \<Rightarrow> string \<Rightarrow> jdict \<Rightarrow> db \<Rightarrow> (jdict \<times> jdict \<times> int option) result" where
  "normalize_history env acc name args d =
     (case uuid_parse (py_str env (get_or args ''conversation_id'' JNull)) of
        None \<Rightarrow> Inl tool_arguments_invalid
      | Some cid \<Rightarrow> (case detail acc cid True d of
          Inl e \<Rightarrow> Inl e
        | Inr (cv, _) \<Rightarrow>
            (case (case get_or args ''expected_version'' JNull of JNull \<Rightarrow> JInt (version cv) | v \<Rightarrow> v) of
               JInt expected \<Rightarrow>
                 if expected \<noteq> version cv
                 then Inl (ConflictError (Some (jobj [(''actual_version'', JInt (version cv))])))
                 else Inr ([(asc ''conversation_id'', JStr (uuid_str (row_id cv))),
                            (asc ''expected_version'', JInt (version cv))],
                    [(asc ''operation'', jstr name),
                     (asc ''target'', JStr (or_default (cv_title cv) (uuid_str (row_id cv)))),
                     (asc ''state'', jstr (conversation_state_str (cv_state cv))),
                     (asc ''impact'', JStr (impact name))],
                    Some (version cv))
             | _ \<Rightarrow> Inl tool_arguments_invalid)))"

definition normalize_action ::
  "orch_env \<Rightarrow> uuid \<Rightarrow> tool_call_decision \<Rightarrow> conversation \<Rightarrow> message \<Rightarrow> db
    \<Rightarrow> (jdict \<times> jdict \<times> int option) result" where
  "normalize_action env acc call cv src d =
     (let name = tl_name call; args = tl_arguments call
      in if name = ''memory_create'' then normalize_create env args cv src
         else if name \<in> {''memory_update'', ''memory_mark_outdated'', ''memory_delete'', ''memory_restore''}
         then normalize_memory env acc name args d
         else if name = ''memory_merge'' then normalize_merge env acc args cv src d
         else if name \<in> {''history_continue'', ''history_delete'', ''history_restore''}
         then normalize_history env acc name args d
         else Inl (DomainError ''tool_not_allowed'' 502))"

definition action_key :: "crypto \<Rightarrow> uuid \<Rightarrow> nat \<Rightarrow> string \<Rightarrow> pystr \<Rightarrow> pystr" where
  "action_key c rid index name digest =
     sha256 c (uuid_str rid @ [58] @ nat_str index @ [58] @ asc name @ [58] @ digest)"

definition new_action ::
  "crypto \<Rightarrow> instant \<Rightarrow> uuid \<Rightarrow> nat \<Rightarrow> string \<Rightarrow> jdict \<times> jdict \<times> int option \<Rightarrow> db \<Rightarrow> tool_action" where
  "new_action c now rid index name norm d =
     (let digest = canonical_digest c (JObj (fst norm))
      in \<lparr>row_id = next_id d, created_at = now, updated_at = now, version = 1,
          ta_run_id = rid, ta_name = name, ta_contract_version = ''1.0'',
          ta_arguments = JObj (fst norm), ta_arguments_hash = digest, ta_side_effect = ''state_change'',
          ta_confirmation_required = True, ta_state = APending, ta_preview = JObj (fst (snd norm)),
          ta_expected_target_version = snd (snd norm), ta_expires_at = Some (now + minutes 10),
          ta_idempotency_key = action_key c rid index name digest,
          ta_confirmed_at = None, ta_completed_at = None, ta_result = None, ta_error_code = None\<rparr>)"

text \<open>The loop: an action that was added stays in the session when a later call fails.\<close>

fun add_actions ::
  "orch_env \<Rightarrow> crypto \<Rightarrow> instant \<Rightarrow> uuid \<Rightarrow> uuid \<Rightarrow> conversation \<Rightarrow> message \<Rightarrow> nat
    \<Rightarrow> tool_call_decision list \<Rightarrow> db \<Rightarrow> tool_action list result \<times> db" where
  "add_actions env c now rid acc cv src index [] d = (Inr [], d)"
| "add_actions env c now rid acc cv src index (call # calls) d =
     (case normalize_action env acc call cv src d of
        Inl e \<Rightarrow> (Inl e, d)
      | Inr norm \<Rightarrow>
          let a = new_action c now rid index (tl_name call) norm d
          in case add_actions env c now rid acc cv src (Suc index) calls
                    ((fresh d)\<lparr>actions := actions d @ [a]\<rparr>) of
               (Inl e, d') \<Rightarrow> (Inl e, d')
             | (Inr as, d') \<Rightarrow> (Inr (a # as), d'))"

definition state_calls :: "model_decision \<Rightarrow> tool_call_decision list" where
  "state_calls dec =
     (let calls = filter (\<lambda>t. tl_name t \<in> set STATE_TOOLS) (md_tool_calls dec)
      in case md_memory_proposal dec of
           None \<Rightarrow> calls
         | Some p \<Rightarrow> if \<exists>t \<in> set calls. tl_name t = ''memory_create'' then calls
                     else calls @ [\<lparr>tl_name = ''memory_create'', tl_arguments = dump_proposal p\<rparr>])"

definition create_actions ::
  "orch_env \<Rightarrow> crypto \<Rightarrow> instant \<Rightarrow> uuid \<Rightarrow> uuid \<Rightarrow> conversation \<Rightarrow> message \<Rightarrow> model_decision \<Rightarrow> db
    \<Rightarrow> tool_action list result \<times> db" where
  "create_actions env c now rid acc cv src dec d =
     (if state_calls dec \<noteq> [] \<and> \<not> md_requires_confirmation dec
      then (Inl (DomainError ''confirmation_missing'' 502), d)
      else add_actions env c now rid acc cv src 0 (state_calls dec) d)"

section \<open>Answering a turn\<close>

record orchestration_result =
  or_run_id :: uuid
  or_message :: message
  or_decision :: model_decision
  or_actions :: "tool_action list"

definition new_run ::
  "instant \<Rightarrow> uuid \<Rightarrow> uuid \<Rightarrow> uuid \<Rightarrow> provider_row \<Rightarrow> catalog_entry \<Rightarrow> json \<Rightarrow> db \<Rightarrow> run_row" where
  "new_run now acc cid mid pv mdl manifest d =
     \<lparr>row_id = next_id d, created_at = now, updated_at = now, version = 1,
      rn_account_id = acc, rn_conversation_id = cid, rn_source_message_id = mid,
      rn_response_message_id = None, rn_state = RunRunning, rn_intent = None,
      rn_orchestration_version = VERSION_1, rn_prompt_version = VERSION_1,
      rn_provider_id = Some (row_id pv), rn_model_id = Some (row_id mdl), rn_context_manifest = manifest,
      rn_decision = None, rn_attempt_count = 0, rn_started_at = now, rn_completed_at = None,
      rn_cancelled_at = None, rn_usage = JObj [], rn_error_code = None\<rparr>"

text \<open>The model's decision: one call, or a second one after the read-only tools it asked for.
  The last two components are the identifiers a source may name and the usage.\<close>

definition decide ::
  "orch_env \<Rightarrow> instant \<Rightarrow> uuid \<Rightarrow> uuid \<Rightarrow> provider_row \<Rightarrow> catalog_entry \<Rightarrow> conversation \<Rightarrow> message list
    \<Rightarrow> message \<Rightarrow> context_bundle \<Rightarrow> db \<Rightarrow> (model_decision \<times> pystr list \<times> int \<times> int) result \<times> db" where
  "decide env now rid acc pv mdl cv ms src bundle d =
     (case call_model env now rid pv mdl (cb_prompt bundle) ms d of
        (Inl e, d1) \<Rightarrow> (Inl e, d1)
      | (Inr (first, res1), d1) \<Rightarrow>
          let reads = filter (\<lambda>t. tl_name t \<in> set READ_ONLY_TOOLS) (md_tool_calls first)
          in if reads = [] then (Inr (first, cb_allowed bundle, usage res1), d1)
             else (case execute_read_tools env acc reads d1 of
                 Inl e \<Rightarrow> (Inl e, d1)
               | Inr (results, ids) \<Rightarrow>
                   let bundle2 = build_context env acc cv ms src (normalize_text (ms_content src)) results d1;
                       d2 = set_run now rid (\<lambda>r. r\<lparr>rn_context_manifest := cb_manifest bundle2\<rparr>) d1
                   in (case call_model env now rid pv mdl (cb_prompt bundle2) ms d2 of
                         (Inl e, d3) \<Rightarrow> (Inl e, d3)
                       | (Inr (dec, res2), d3) \<Rightarrow>
                           if \<exists>t \<in> set (md_tool_calls dec). tl_name t \<in> set READ_ONLY_TOOLS
                           then (Inl (DomainError ''tool_loop_exceeded'' 502), d3)
                           else (Inr (dec, cb_allowed bundle @ ids @ cb_allowed bundle2,
                                   merge_usage (usage res1) (usage res2)), d3))))"

definition answer_key :: "crypto \<Rightarrow> uuid \<Rightarrow> uuid \<Rightarrow> uuid \<Rightarrow> pystr" where
  "answer_key c cid mid rid =
     sha256 c (asc ''assistant:'' @ uuid_str cid @ [58] @ uuid_str mid @ [58] @ uuid_str rid)"

text \<open>The body of the \<^verbatim>\<open>try\<close> of \<open>answer\<close>.\<close>

definition answer_run ::
  "orch_env \<Rightarrow> crypto \<Rightarrow> instant \<Rightarrow> uuid \<Rightarrow> uuid \<Rightarrow> provider_row \<Rightarrow> catalog_entry \<Rightarrow> conversation
    \<Rightarrow> message list \<Rightarrow> message \<Rightarrow> context_bundle \<Rightarrow> audit_context \<Rightarrow> db
    \<Rightarrow> orchestration_result result \<times> db" where
  "answer_run env c now rid acc pv mdl cv ms src bundle ctx d =
     (case decide env now rid acc pv mdl cv ms src bundle d of
        (Inl e, d1) \<Rightarrow> (Inl e, d1)
      | (Inr (dec, allowed, use), d1) \<Rightarrow>
          (case validate_sources dec allowed of
             Inl e \<Rightarrow> (Inl e, d1)
           | Inr _ \<Rightarrow>
               (case create_actions env c now rid acc cv src dec d1 of
                  (Inl e, d2) \<Rightarrow> (Inl e, d2)
                | (Inr acts, d2) \<Rightarrow>
                    let d3 = set_run now rid (\<lambda>r. r\<lparr>rn_intent := Some (md_intent dec), rn_decision := Some dec,
                               rn_usage := usage_json use,
                               rn_state := (if acts = [] then RunCompleted else RunAwaiting)\<rparr>) d2
                    in (case add_assistant_turn now (row_id cv) (md_answer dec)
                              (answer_key c (row_id cv) (row_id src) rid) rid False d3 of
                          (Inl e, d4) \<Rightarrow> (Inl e, d4)
                        | (Inr msg, d4) \<Rightarrow>
                            let d5 = set_run now rid (\<lambda>r. r\<lparr>rn_response_message_id := Some (row_id msg),
                                       rn_completed_at := (if acts = [] then Some now else rn_completed_at r),
                                       version := version r + 1\<rparr>) d4
                            in (Inr \<lparr>or_run_id = rid, or_message = msg, or_decision = dec, or_actions = acts\<rparr>,
                                audit_append c now ctx ''orchestration.completed'' ''success''
                                  (Some ''orchestration_run'') (Some rid)
                                  [(asc ''intent'', jstr (md_intent dec)),
                                   (asc ''attempts'', JInt (int (next_attempt rid d5) - 1)),
                                   (asc ''actions'', JInt (int (length acts))),
                                   (asc ''prompt_version'', jstr VERSION_1)] d5)))))"

text \<open>The \<^verbatim>\<open>except\<close> of \<open>answer\<close>: the run is marked as failed, and a domain error commits that.\<close>

definition fail_run :: "crypto \<Rightarrow> instant \<Rightarrow> uuid \<Rightarrow> audit_context \<Rightarrow> exc \<Rightarrow> db \<Rightarrow> db" where
  "fail_run c now rid ctx e d =
     (let d1 = set_run now rid (\<lambda>r. r\<lparr>rn_state := RunFailed, rn_error_code := Some (error_code_of e),
                 rn_completed_at := Some now, version := version r + 1\<rparr>) d
      in audit_append c now ctx ''orchestration.failed'' ''failed'' (Some ''orchestration_run'') (Some rid)
           [(asc ''error_code'', jstr (error_code_of e)),
            (asc ''attempts'', JInt (int (next_attempt rid d1) - 1))] d1)"

definition open_run ::
  "instant \<Rightarrow> uuid \<Rightarrow> uuid \<Rightarrow> uuid \<Rightarrow> provider_row \<Rightarrow> catalog_entry \<Rightarrow> json \<Rightarrow> run_row option \<Rightarrow> db
    \<Rightarrow> uuid \<times> db" where
  "open_run now acc cid mid pv mdl manifest existing d =
     (case existing of
        Some r \<Rightarrow> (row_id r, d)
      | None \<Rightarrow> (next_id d, (fresh d)\<lparr>runs := runs d @ [new_run now acc cid mid pv mdl manifest d]\<rparr>))"

text \<open>\<open>answer\<close> from the point where the run of the message, if there is one, may be used again.\<close>

definition answer_start ::
  "orch_env \<Rightarrow> crypto \<Rightarrow> instant \<Rightarrow> uuid \<Rightarrow> uuid \<Rightarrow> uuid \<Rightarrow> audit_context \<Rightarrow> run_row option \<Rightarrow> db
    \<Rightarrow> orchestration_result result \<times> db" where
  "answer_start env c now acc cid mid ctx existing d =
     (case query_one (\<lambda>x. row_id x = cid \<and> cv_account_id x = acc) (conversations d) of
        None \<Rightarrow> (Inl NotFoundError, d)
      | Some cv \<Rightarrow>
          let ms = sort_key ms_sequence (filter (\<lambda>m. ms_conversation_id m = cid) (messages d))
          in (case List.find (\<lambda>m. row_id m = mid) ms of
                None \<Rightarrow> (Inl NotFoundError, d)
              | Some src \<Rightarrow>
                  if ms_role src \<noteq> ''user'' then (Inl NotFoundError, d)
                  else (case primary_model env d of
                      Inl e \<Rightarrow> (Inl e, d)
                    | Inr (pv, mdl) \<Rightarrow>
                        let bundle = build_context env acc cv ms src (normalize_text (ms_content src)) [] d;
                            (rid, d1) = open_run now acc cid mid pv mdl (cb_manifest bundle) existing d
                        in (case answer_run env c now rid acc pv mdl cv ms src bundle ctx d1 of
                              (Inr res, d2) \<Rightarrow> (Inr res, d2)
                            | (Inl e, d2) \<Rightarrow> (Inl (make_durable e), fail_run c now rid ctx e d2)))))"

definition answer ::
  "orch_env \<Rightarrow> crypto \<Rightarrow> instant \<Rightarrow> uuid \<Rightarrow> uuid \<Rightarrow> uuid \<Rightarrow> audit_context option \<Rightarrow> db
    \<Rightarrow> orchestration_result result \<times> db" where
  "answer env c now acc cid mid context d =
     (let ctx = (case context of None \<Rightarrow> system_context ''system'' (Some acc) | Some x \<Rightarrow> x);
          existing = query_one (\<lambda>r. rn_source_message_id r = mid \<and> rn_account_id r = acc) (runs d)
      in case existing of
           None \<Rightarrow> answer_start env c now acc cid mid ctx None d
         | Some r \<Rightarrow>
             (case (rn_state r, rn_response_message_id r, rn_decision r) of
                (RunCompleted, Some mid', Some dec) \<Rightarrow>
                  (case get_row mid' (messages d) of
                     None \<Rightarrow> (Inl (DomainError ''orchestration_integrity'' 500), d)
                   | Some msg \<Rightarrow> (Inr \<lparr>or_run_id = row_id r, or_message = msg, or_decision = dec,
                       or_actions = sort_key created_at (filter (\<lambda>a. ta_run_id a = row_id r) (actions d))\<rparr>, d))
              | (RunRunning, _, _) \<Rightarrow> (Inl (ConflictError (Some (jobj [(''run_id'', JStr (uuid_str (row_id r)))]))), d)
              | (RunAwaiting, _, _) \<Rightarrow> (Inl (ConflictError (Some (jobj [(''run_id'', JStr (uuid_str (row_id r)))]))), d)
              | _ \<Rightarrow> answer_start env c now acc cid mid ctx (Some r) d))"

section \<open>Executing a confirmed action\<close>

text \<open>\<^verbatim>\<open>args[key]\<close> and \<^verbatim>\<open>UUID(value)\<close>, which wants a text.\<close>

definition arg :: "jdict \<Rightarrow> string \<Rightarrow> json result" where
  "arg args k = (case jget args k of None \<Rightarrow> Inl KeyError | Some v \<Rightarrow> Inr v)"

fun to_uuid :: "json \<Rightarrow> uuid result" where
  "to_uuid (JStr s) = (case uuid_parse s of None \<Rightarrow> Inl ValueError | Some u \<Rightarrow> Inr u)"
| "to_uuid _ = Inl AttributeError"

definition arg_uuid :: "jdict \<Rightarrow> string \<Rightarrow> uuid result" where
  "arg_uuid args k = (case arg args k of Inl e \<Rightarrow> Inl e | Inr v \<Rightarrow> to_uuid v)"

definition arg_int :: "orch_env \<Rightarrow> jdict \<Rightarrow> string \<Rightarrow> int result" where
  "arg_int env args k = (case arg args k of Inl e \<Rightarrow> Inl e | Inr v \<Rightarrow> py_int env v)"

text \<open>Two arguments, the first one evaluated first.\<close>

definition both :: "'a result \<Rightarrow> 'b result \<Rightarrow> ('a \<times> 'b) result" where
  "both x y = (case x of Inl e \<Rightarrow> Inl e | Inr a \<Rightarrow> (case y of Inl e \<Rightarrow> Inl e | Inr b \<Rightarrow> Inr (a, b)))"

definition parse_opt_category :: "json \<Rightarrow> memory_category option result" where
  "parse_opt_category j =
     (case j of JNull \<Rightarrow> Inr None
      | JStr s \<Rightarrow> (case parse_category s of None \<Rightarrow> Inl ValueError | Some x \<Rightarrow> Inr (Some x))
      | _ \<Rightarrow> Inl ValueError)"

text \<open>The constructor \<open>MemoryUpdate\<close> as the action calls it.\<close>

definition action_update :: "orch_env \<Rightarrow> int \<Rightarrow> jdict \<Rightarrow> bool \<Rightarrow> memory_update_request result" where
  "action_update env expected args outdated =
     (case (parse_opt_text (get_or args ''content'' JNull), parse_opt_category (get_or args ''category'' JNull),
            parse_instant env (get_or args ''event_at'' JNull), parse_instant env (get_or args ''valid_from'' JNull),
            parse_instant env (get_or args ''valid_until'' JNull)) of
        (Inr content, Inr cat, Inr ev, Inr vf, Inr vu) \<Rightarrow>
          validate_update \<lparr>up_expected_version = expected, up_content = content, up_category = cat,
            up_event_at = ev, up_valid_from = vf, up_valid_until = vu, up_mark_outdated = outdated\<rparr>
      | _ \<Rightarrow> Inl ValueError)"

definition memory_outcome :: "memory_item result \<times> db \<Rightarrow> json result \<times> db" where
  "memory_outcome r =
     (case r of
        (Inl e, d) \<Rightarrow> (Inl e, d)
      | (Inr i, d) \<Rightarrow> (Inr (jobj [(''memory_id'', JStr (uuid_str (row_id i))),
          (''state'', jstr (memory_state_str (mi_state i))), (''version'', JInt (version i))]), d))"

definition memory_deletion_outcome :: "orch_env \<Rightarrow> memory_item result \<times> db \<Rightarrow> json result \<times> db" where
  "memory_deletion_outcome env r =
     (case r of
        (Inl e, d) \<Rightarrow> (Inl e, d)
      | (Inr i, d) \<Rightarrow> (Inr (jobj [(''memory_id'', JStr (uuid_str (row_id i))),
          (''state'', jstr (memory_state_str (mi_state i))), (''version'', JInt (version i)),
          (''recoverable_until'', iso_or_null env (mi_purge_after i))]), d))"

definition conversation_outcome :: "conversation result \<times> db \<Rightarrow> json result \<times> db" where
  "conversation_outcome r =
     (case r of
        (Inl e, d) \<Rightarrow> (Inl e, d)
      | (Inr cv, d) \<Rightarrow> (Inr (jobj [(''conversation_id'', JStr (uuid_str (row_id cv))),
          (''state'', jstr (conversation_state_str (cv_state cv))), (''version'', JInt (version cv))]), d))"

definition conversation_deletion_outcome :: "orch_env \<Rightarrow> conversation result \<times> db \<Rightarrow> json result \<times> db" where
  "conversation_deletion_outcome env r =
     (case r of
        (Inl e, d) \<Rightarrow> (Inl e, d)
      | (Inr cv, d) \<Rightarrow> (Inr (jobj [(''conversation_id'', JStr (uuid_str (row_id cv))),
          (''state'', jstr (conversation_state_str (cv_state cv))), (''version'', JInt (version cv)),
          (''recoverable_until'', iso_or_null env (cv_purge_after cv))]), d))"

definition run_update ::
  "orch_env \<Rightarrow> crypto \<Rightarrow> instant \<Rightarrow> uuid \<Rightarrow> string \<Rightarrow> jdict \<Rightarrow> audit_context \<Rightarrow> db \<Rightarrow> json result \<times> db" where
  "run_update env c now acc name args ctx d =
     (case both (arg_uuid args ''memory_id'') (arg_int env args ''expected_version'') of
        Inl e \<Rightarrow> (Inl e, d)
      | Inr (mid, expected) \<Rightarrow> (case action_update env expected args (name = ''memory_mark_outdated'') of
            Inl e \<Rightarrow> (Inl e, d)
          | Inr rq \<Rightarrow> memory_outcome (memory_update c now acc mid rq ctx d)))"

definition run_delete ::
  "orch_env \<Rightarrow> crypto \<Rightarrow> instant \<Rightarrow> uuid \<Rightarrow> jdict \<Rightarrow> audit_context \<Rightarrow> db \<Rightarrow> json result \<times> db" where
  "run_delete env c now acc args ctx d =
     (case both (py_int env (setting_value ''memory'' ''soft_delete_days'' (JInt 30) d))
             (both (arg_uuid args ''memory_id'') (arg_int env args ''expected_version'')) of
        Inl e \<Rightarrow> (Inl e, d)
      | Inr (retention, mid, expected) \<Rightarrow>
          memory_deletion_outcome env (memory_soft_delete c now acc mid expected retention ctx d))"

definition run_restore ::
  "orch_env \<Rightarrow> crypto \<Rightarrow> instant \<Rightarrow> uuid \<Rightarrow> jdict \<Rightarrow> audit_context \<Rightarrow> db \<Rightarrow> json result \<times> db" where
  "run_restore env c now acc args ctx d =
     (case both (arg_uuid args ''memory_id'') (arg_int env args ''expected_version'') of
        Inl e \<Rightarrow> (Inl e, d)
      | Inr (mid, expected) \<Rightarrow> memory_outcome (memory_restore c now acc mid expected ctx d))"

text \<open>The versions of the sources are compared with those of the preview.\<close>

fun check_sources :: "uuid \<Rightarrow> jdict \<Rightarrow> db \<Rightarrow> unit result" where
  "check_sources acc [] d = Inr ()"
| "check_sources acc ((sid, expected) # rest) d =
     (case uuid_parse sid of
        None \<Rightarrow> Inl ValueError
      | Some mid \<Rightarrow> (case memory_get acc mid True d of
            Inl e \<Rightarrow> Inl e
          | Inr i \<Rightarrow> if expected \<noteq> JInt (version i)
                      then Inl (ConflictError (Some (jobj [(''memory_id'', JStr sid)])))
                      else check_sources acc rest d))"

fun to_uuids :: "json list \<Rightarrow> uuid list result" where
  "to_uuids [] = Inr []"
| "to_uuids (j # js) = (case both (to_uuid j) (to_uuids js) of Inl e \<Rightarrow> Inl e | Inr (u, us) \<Rightarrow> Inr (u # us))"

text \<open>What iterating over a JSON value gives.\<close>

fun py_iter :: "json \<Rightarrow> json list result" where
  "py_iter (JList js) = Inr js"
| "py_iter (JStr s) = Inr (map (\<lambda>x. JStr [x]) s)"
| "py_iter (JObj d) = Inr (map (\<lambda>(k, v). JStr k) d)"
| "py_iter _ = Inl TypeError"

definition arg_uuids :: "jdict \<Rightarrow> string \<Rightarrow> uuid list result" where
  "arg_uuids args k = (case arg args k of Inl e \<Rightarrow> Inl e
     | Inr v \<Rightarrow> (case py_iter v of Inl e \<Rightarrow> Inl e | Inr js \<Rightarrow> to_uuids js))"

definition arg_create :: "orch_env \<Rightarrow> jdict \<Rightarrow> string \<Rightarrow> memory_create_request result" where
  "arg_create env args k = (case arg args k of Inl e \<Rightarrow> Inl e
     | Inr (JObj t) \<Rightarrow> parse_create env t | Inr _ \<Rightarrow> Inl ValueError)"

definition run_merge ::
  "orch_env \<Rightarrow> crypto \<Rightarrow> instant \<Rightarrow> uuid \<Rightarrow> jdict \<Rightarrow> audit_context \<Rightarrow> db \<Rightarrow> json result \<times> db" where
  "run_merge env c now acc args ctx d =
     (case arg args ''source_versions'' of
        Inl e \<Rightarrow> (Inl e, d)
      | Inr (JObj versions) \<Rightarrow> (case check_sources acc versions d of
            Inl e \<Rightarrow> (Inl e, d)
          | Inr _ \<Rightarrow> (case both (arg_uuids args ''source_ids'') (arg_create env args ''target'') of
                Inl e \<Rightarrow> (Inl e, d)
              | Inr (ids, target) \<Rightarrow> memory_outcome (memory_merge c now acc ids target ctx d)))
      | Inr _ \<Rightarrow> (Inl AttributeError, d))"

definition run_continue ::
  "crypto \<Rightarrow> instant \<Rightarrow> uuid \<Rightarrow> jdict \<Rightarrow> audit_context \<Rightarrow> db \<Rightarrow> json result \<times> db" where
  "run_continue c now acc args ctx d =
     (case arg_uuid args ''conversation_id'' of
        Inl e \<Rightarrow> (Inl e, d)
      | Inr cid \<Rightarrow> conversation_outcome (continue_from c now acc cid ctx d))"

definition run_history_delete ::
  "orch_env \<Rightarrow> crypto \<Rightarrow> instant \<Rightarrow> uuid \<Rightarrow> jdict \<Rightarrow> audit_context \<Rightarrow> db \<Rightarrow> json result \<times> db" where
  "run_history_delete env c now acc args ctx d =
     (case both (py_int env (setting_value ''history'' ''soft_delete_days'' (JInt 30) d))
             (both (arg_uuid args ''conversation_id'') (arg_int env args ''expected_version'')) of
        Inl e \<Rightarrow> (Inl e, d)
      | Inr (retention, cid, expected) \<Rightarrow>
          conversation_deletion_outcome env (history_soft_delete c now acc cid expected retention ctx d))"

definition run_history_restore ::
  "orch_env \<Rightarrow> crypto \<Rightarrow> instant \<Rightarrow> uuid \<Rightarrow> jdict \<Rightarrow> audit_context \<Rightarrow> db \<Rightarrow> json result \<times> db" where
  "run_history_restore env c now acc args ctx d =
     (case both (arg_uuid args ''conversation_id'') (arg_int env args ''expected_version'') of
        Inl e \<Rightarrow> (Inl e, d)
      | Inr (cid, expected) \<Rightarrow> conversation_outcome (history_restore c now acc cid expected ctx d))"

text \<open>The arguments column always holds an object.\<close>

fun args_of :: "json \<Rightarrow> jdict" where
  "args_of (JObj kvs) = kvs"
| "args_of _ = []"

definition execute_state_action ::
  "orch_env \<Rightarrow> crypto \<Rightarrow> instant \<Rightarrow> uuid \<Rightarrow> tool_action \<Rightarrow> audit_context \<Rightarrow> db \<Rightarrow> json result \<times> db" where
  "execute_state_action env c now acc a ctx d =
     (let args = args_of (ta_arguments a)
      in if canonical_digest c (ta_arguments a) \<noteq> ta_arguments_hash a
         then (Inl (DomainError ''action_integrity_failed'' 409), d)
         else if ta_name a = ''memory_create'' then
           (case parse_create env args of
              Inl e \<Rightarrow> (Inl e, d)
            | Inr rq \<Rightarrow> memory_outcome (memory_create c now acc rq ctx d))
         else if ta_name a \<in> {''memory_update'', ''memory_mark_outdated''}
         then run_update env c now acc (ta_name a) args ctx d
         else if ta_name a = ''memory_delete'' then run_delete env c now acc args ctx d
         else if ta_name a = ''memory_restore'' then run_restore env c now acc args ctx d
         else if ta_name a = ''memory_merge'' then run_merge env c now acc args ctx d
         else if ta_name a = ''history_continue'' then run_continue c now acc args ctx d
         else if ta_name a = ''history_delete'' then run_history_delete env c now acc args ctx d
         else if ta_name a = ''history_restore'' then run_history_restore env c now acc args ctx d
         else (Inl (DomainError ''tool_not_allowed'' 409), d))"

section \<open>Confirmation and cancellation\<close>

definition set_action :: "instant \<Rightarrow> uuid \<Rightarrow> (tool_action \<Rightarrow> tool_action) \<Rightarrow> db \<Rightarrow> db" where
  "set_action now aid f d =
     d\<lparr>actions := update_where (\<lambda>a. row_id a = aid) (\<lambda>a. (f a)\<lparr>updated_at := now\<rparr>) (actions d)\<rparr>"

definition owned_action :: "uuid \<Rightarrow> uuid \<Rightarrow> db \<Rightarrow> tool_action option" where
  "owned_action acc aid d =
     query_one (\<lambda>a. row_id a = aid
       \<and> (\<exists>r \<in> set (runs d). row_id r = ta_run_id a \<and> rn_account_id r = acc)) (actions d)"

definition finished :: "tool_action \<Rightarrow> bool" where
  "finished a \<longleftrightarrow> ta_state a \<in> {ACompleted, AFailed, AExpired, ACancelled}"

text \<open>The last open action of a run completes the run.\<close>

definition settle_run :: "instant \<Rightarrow> uuid \<Rightarrow> uuid \<Rightarrow> db \<Rightarrow> db" where
  "settle_run now rid aid d =
     (case get_row rid (runs d) of
        None \<Rightarrow> d
      | Some r \<Rightarrow>
          if \<exists>a \<in> set (actions d). ta_run_id a = rid \<and> row_id a \<noteq> aid \<and> \<not> finished a then d
          else set_run now rid (\<lambda>r. r\<lparr>rn_state := RunCompleted, version := version r + 1\<rparr>) d)"

definition confirm_action ::
  "orch_env \<Rightarrow> crypto \<Rightarrow> instant \<Rightarrow> uuid \<Rightarrow> uuid \<Rightarrow> int \<Rightarrow> audit_context \<Rightarrow> db
    \<Rightarrow> tool_action result \<times> db" where
  "confirm_action env c now acc aid expected ctx d =
     (case owned_action acc aid d of
        None \<Rightarrow> (Inl NotFoundError, d)
      | Some a \<Rightarrow>
          if ta_state a = ACompleted then (Inr a, d)
          else if version a \<noteq> expected
          then (Inl (ConflictError (Some (jobj [(''expected_version'', JInt expected),
                  (''actual_version'', JInt (version a))]))), d)
          else if ta_state a \<noteq> APending then (Inl (ConflictError None), d)
          else if (case ta_expires_at a of None \<Rightarrow> False | Some t \<Rightarrow> t \<le> now)
          then (Inl (make_durable (ConflictError None)),
                set_action now aid (\<lambda>a. a\<lparr>ta_state := AExpired, version := version a + 1\<rparr>) d)
          else
            let d1 = set_action now aid (\<lambda>a. a\<lparr>ta_state := ARunning, ta_confirmed_at := Some now,
                       version := version a + 1\<rparr>) d
            in (case execute_state_action env c now acc a ctx d1 of
                  (Inr res, d2) \<Rightarrow>
                    let d3 = set_action now aid (\<lambda>a. a\<lparr>ta_result := Some res, ta_state := ACompleted,
                               ta_completed_at := Some now, version := version a + 1\<rparr>) d2;
                        d4 = settle_run now (ta_run_id a) aid d3
                    in (Inr (a\<lparr>ta_confirmed_at := Some now, ta_result := Some res, ta_state := ACompleted,
                               ta_completed_at := Some now, version := version a + 2, updated_at := now\<rparr>),
                        audit_append c now ctx ''orchestration.action_completed'' ''success''
                          (Some ''tool_action'') (Some aid)
                          [(asc ''name'', jstr (ta_name a)), (asc ''run_id'', JStr (uuid_str (ta_run_id a)))] d4)
                | (Inl e, d2) \<Rightarrow>
                    (Inl (make_durable e),
                     audit_append c now ctx ''orchestration.action_failed'' ''failed''
                       (Some ''tool_action'') (Some aid)
                       [(asc ''name'', jstr (ta_name a)), (asc ''error_code'', jstr (error_code_of e))]
                       (set_action now aid (\<lambda>a. a\<lparr>ta_state := AFailed, ta_error_code := Some (error_code_of e),
                          version := version a + 1\<rparr>) d2))))"

definition cancel_run ::
  "crypto \<Rightarrow> instant \<Rightarrow> uuid \<Rightarrow> uuid \<Rightarrow> audit_context \<Rightarrow> db \<Rightarrow> run_row result \<times> db" where
  "cancel_run c now acc rid ctx d =
     (case query_one (\<lambda>r. row_id r = rid \<and> rn_account_id r = acc) (runs d) of
        None \<Rightarrow> (Inl NotFoundError, d)
      | Some r \<Rightarrow>
          if rn_state r \<in> {RunCompleted, RunFailed, RunCancelled} then (Inr r, d)
          else
            let d1 = set_run now rid (\<lambda>r. r\<lparr>rn_state := RunCancelled, rn_cancelled_at := Some now,
                       version := version r + 1\<rparr>) d;
                d2 = d1\<lparr>actions := update_where (\<lambda>a. ta_run_id a = rid \<and> ta_state a = APending)
                       (\<lambda>a. a\<lparr>ta_state := ACancelled, version := version a + 1, updated_at := now\<rparr>) (actions d1)\<rparr>
            in (Inr (r\<lparr>rn_state := RunCancelled, rn_cancelled_at := Some now, version := version r + 1,
                       updated_at := now\<rparr>),
                audit_append c now ctx ''orchestration.cancelled'' ''success'' (Some ''orchestration_run'')
                  (Some rid) [] d2))"

section \<open>A concrete environment for evaluation\<close>

text \<open>The test environment with a model that cannot be reached.\<close>

definition plain_env :: orch_env where
  "plain_env = \<lparr>oe_test_environment = True, oe_decrypts = (\<lambda>_. True), oe_ranked = (\<lambda>_ _ _ _ _. []),
     oe_chat = (\<lambda>_ _. Inl (ProviderFailure ''unreachable'')), oe_latency = (\<lambda>_. 3), oe_lower = casefold,
     oe_iso = int_str, oe_isoformat = int_str, oe_validation_errors = (\<lambda>_. JList []),
     oe_parse_iso = (\<lambda>_. None), oe_datetime = (\<lambda>_. None), oe_repr = (\<lambda>_. []), oe_int = (\<lambda>_. None)\<rparr>"

end
