(* ===== verification/Jobs.thy ===== *)
theory Jobs
  imports AuditLog
begin

text \<open>
  \<^verbatim>\<open>jobs/service.py\<close>: the database job queue. \<open>enqueue\<close> adds a queued job,
  \<open>claim\<close> takes the due jobs of the allowed kinds in priority order and marks
  them running, \<open>complete\<close> and \<open>fail\<close> settle a claimed job; \<open>fail\<close> retries with
  an exponential delay until the attempts are used up.
\<close>

section \<open>Definitions\<close>

definition enqueue ::
  "instant \<Rightarrow> string \<Rightarrow> jdict \<Rightarrow> int \<Rightarrow> int \<Rightarrow> string option \<Rightarrow> uuid option \<Rightarrow> db \<Rightarrow> job_row \<times> db" where
  "enqueue now kind payload priority delay corr job_id d =
     (let (i, d1) = (case job_id of Some j \<Rightarrow> (j, d) | None \<Rightarrow> (next_id d, fresh d));
          job = \<lparr>row_id = i, created_at = now, updated_at = now, version = 1,
                 jb_kind = kind, jb_state = JobQueued, jb_payload = payload,
                 jb_priority = priority, jb_available_at = now + seconds delay,
                 jb_locked_at = None, jb_locked_by = None, jb_attempts = 0,
                 jb_max_attempts = 5, jb_last_error_code = None, jb_completed_at = None,
                 jb_correlation_id = corr\<rparr>
      in (job, d1\<lparr>jobs := jobs d1 @ [job]\<rparr>))"

definition claimable :: "instant \<Rightarrow> string list \<Rightarrow> job_row \<Rightarrow> bool" where
  "claimable now kinds j \<longleftrightarrow>
     jb_state j = JobQueued \<and> jb_available_at j \<le> now \<and> jb_kind j \<in> set kinds"

definition mark_running :: "instant \<Rightarrow> string \<Rightarrow> job_row \<Rightarrow> job_row" where
  "mark_running now worker j =
     j\<lparr>jb_state := JobRunning, jb_locked_at := Some now, jb_locked_by := Some worker,
       jb_attempts := Suc (jb_attempts j), updated_at := now\<rparr>"

text \<open>\<open>order_by(priority, available_at)\<close>, then \<open>limit\<close>; the empty set of kinds
  claims nothing.\<close>

definition claim_rows :: "instant \<Rightarrow> nat \<Rightarrow> string list \<Rightarrow> job_row list \<Rightarrow> job_row list" where
  "claim_rows now limit kinds t =
     take limit (sort_key (\<lambda>j. (jb_priority j, jb_available_at j)) (filter (claimable now kinds) t))"

definition claim ::
  "instant \<Rightarrow> string \<Rightarrow> nat \<Rightarrow> string list \<Rightarrow> db \<Rightarrow> job_row list \<times> db" where
  "claim now worker limit kinds d =
     (if kinds = [] then ([], d)
      else let rows = map (mark_running now worker) (claim_rows now limit kinds (jobs d))
           in (rows, d\<lparr>jobs := foldl (\<lambda>t r. put_row r t) (jobs d) rows\<rparr>))"

definition complete :: "instant \<Rightarrow> job_row \<Rightarrow> job_row" where
  "complete now j =
     j\<lparr>jb_state := JobCompleted, jb_completed_at := Some now, jb_locked_at := None,
       jb_locked_by := None\<rparr>"

definition retry_delay :: "nat \<Rightarrow> int" where
  "retry_delay n = min 3600 (2 ^ n * 10)"

definition fail :: "instant \<Rightarrow> string \<Rightarrow> job_row \<Rightarrow> job_row" where
  "fail now code j =
     (let j1 = j\<lparr>jb_last_error_code := Some code, jb_locked_at := None, jb_locked_by := None\<rparr>
      in if jb_attempts j \<ge> jb_max_attempts j then j1\<lparr>jb_state := JobFailed\<rparr>
         else j1\<lparr>jb_state := JobQueued,
                 jb_available_at := now + seconds (retry_delay (jb_attempts j))\<rparr>)"

section \<open>Lemmas\<close>

definition job_wf :: "job_row \<Rightarrow> bool" where
  "job_wf j \<longleftrightarrow>
     (jb_state j = JobRunning \<longleftrightarrow> jb_locked_by j \<noteq> None)
   \<and> (jb_locked_by j = None \<longleftrightarrow> jb_locked_at j = None)
   \<and> (jb_state j = JobQueued \<longrightarrow> jb_attempts j < jb_max_attempts j)
   \<and> jb_attempts j \<le> jb_max_attempts j"

lemma set_claim_rows: "j \<in> set (claim_rows now limit kinds t) \<Longrightarrow> j \<in> set t \<and> claimable now kinds j"
  unfolding claim_rows_def by (auto dest: in_set_takeD)

lemma distinct_claim_rows:
  assumes "distinct (map row_id t)"
  shows "distinct (map row_id (claim_rows now limit kinds t))"
proof -
  have "distinct (map row_id (filter (claimable now kinds) t))"
    using assms by (rule distinct_map_filter)
  then have "distinct (map row_id (sort_key (\<lambda>j. (jb_priority j, jb_available_at j))
      (filter (claimable now kinds) t)))"
    by (simp add: distinct_map)
  then show ?thesis
    unfolding claim_rows_def by (simp add: take_map [symmetric] distinct_take)
qed

lemma get_row_put_rows:
  assumes "distinct (map row_id rs)"
  shows "get_row i (foldl (\<lambda>t r. put_row r t) t rs) =
    (case get_row i t of None \<Rightarrow> None
     | Some x \<Rightarrow> (case get_row i rs of Some r \<Rightarrow> Some r | None \<Rightarrow> Some x))"
  using assms
proof (induction rs arbitrary: t)
  case Nil
  then show ?case by (simp split: option.split)
next
  case (Cons r rs)
  have "i = row_id r \<Longrightarrow> get_row i rs = None"
    using Cons.prems by (auto simp: get_row_def find_None_iff image_iff)
  with Cons show ?case
    by (auto simp: get_row_put_row split: option.splits)
qed

lemma keyed_put_rows: "keyed n (foldl (\<lambda>t r. put_row r t) t rs) \<longleftrightarrow> keyed n t"
  by (induction rs arbitrary: t) simp_all

lemma map_mark_running_ids: "map row_id (map (mark_running now w) rs) = map row_id rs"
  by (simp add: mark_running_def)

text \<open>After a claim, a job of the table is a claimed one marked running, or unchanged.\<close>

lemma claim_get_row:
  assumes "keyed n (jobs d)" "claim now w limit kinds d = (rows, d')" "kinds \<noteq> []"
  shows "get_row i (jobs d') =
    (case get_row i (jobs d) of None \<Rightarrow> None
     | Some x \<Rightarrow> Some (if x \<in> set (claim_rows now limit kinds (jobs d))
                       then mark_running now w x else x))"
proof -
  let ?cs = "claim_rows now limit kinds (jobs d)" and ?m = "mark_running now w"
  have rows: "rows = map ?m ?cs" and d': "jobs d' = foldl (\<lambda>t r. put_row r t) (jobs d) rows"
    using assms(2,3) by (auto simp: claim_def Let_def)
  have dist: "distinct (map row_id ?cs)"
    using assms(1) by (simp add: keyed_def distinct_claim_rows)
  have kc: "keyed n ?cs"
    using dist assms(1) set_claim_rows by (auto simp: keyed_def)
  have g: "get_row i rows = map_option ?m (get_row i ?cs)" for i
    unfolding rows by (rule get_row_map) (simp add: mark_running_def)
  have dr: "distinct (map row_id rows)" unfolding rows map_mark_running_ids by (rule dist)
  show ?thesis
  proof (cases "get_row i (jobs d)")
    case None
    then show ?thesis by (simp add: d' get_row_put_rows [OF dr])
  next
    case (Some x)
    have mem: "x \<in> set ?cs \<longleftrightarrow> get_row i ?cs = Some x"
      using Some kc get_row_iff by blast
    show ?thesis
    proof (cases "get_row i ?cs")
      case None
      with mem Some show ?thesis by (simp add: d' get_row_put_rows [OF dr] g)
    next
      case y: (Some y)
      then have "y \<in> set (jobs d)" "row_id y = i"
        using get_row_Some [OF y] set_claim_rows by blast+
      with Some get_row_iff [OF assms(1), of i y] have "y = x" by simp
      with mem Some y show ?thesis by (simp add: d' get_row_put_rows [OF dr] g)
    qed
  qed
qed

lemma mark_running_wf: "job_wf j \<Longrightarrow> claimable now kinds j \<Longrightarrow> job_wf (mark_running now w j)"
  by (auto simp: job_wf_def claimable_def mark_running_def)

lemma fail_wf: "job_wf j \<Longrightarrow> job_wf (fail now code j)"
  by (auto simp: job_wf_def fail_def Let_def)

lemma complete_wf: "job_wf j \<Longrightarrow> job_wf (complete now j)"
  by (auto simp: job_wf_def complete_def)

lemma claim_keyed: "keyed n (jobs d) \<Longrightarrow> claim now w l ks d = (rows, d') \<Longrightarrow> keyed n (jobs d')"
  by (auto simp: claim_def Let_def keyed_put_rows split: if_splits)

section \<open>The queue as an interface\<close>

text \<open>
  What the worker relies on: a claim hands out jobs that nobody holds, and holds
  them; a job that is held is not handed out again until it is settled.
\<close>

locale job_queue =
  fixes wf :: "'s \<Rightarrow> bool"
    and held :: "'k \<Rightarrow> 's \<Rightarrow> bool"
    and take_jobs :: "'w \<Rightarrow> 's \<Rightarrow> 'k set \<times> 's"
  assumes take_wf: "wf s \<Longrightarrow> take_jobs w s = (ks, s') \<Longrightarrow> wf s'"
    and take_free: "wf s \<Longrightarrow> take_jobs w s = (ks, s') \<Longrightarrow> k \<in> ks \<Longrightarrow> \<not> held k s"
    and take_holds: "wf s \<Longrightarrow> take_jobs w s = (ks, s') \<Longrightarrow> k \<in> ks \<Longrightarrow> held k s'"
    and take_keeps: "wf s \<Longrightarrow> take_jobs w s = (ks, s') \<Longrightarrow> held k s \<Longrightarrow> held k s'"
begin

fun takes :: "'w list \<Rightarrow> 's \<Rightarrow> 's" where
  "takes [] s = s"
| "takes (w # ws) s = takes ws (snd (take_jobs w s))"

lemma takes_held: "wf s \<Longrightarrow> held k s \<Longrightarrow> wf (takes ws s) \<and> held k (takes ws s)"
proof (induction ws s rule: takes.induct)
  case (2 w ws s)
  then show ?case by (cases "take_jobs w s") (auto dest: take_wf take_keeps)
qed simp

lemma disjoint_claims:
  assumes "wf s" "take_jobs w s = (ks, s1)" "take_jobs w' (takes ws s1) = (ks', s2)"
  shows "ks \<inter> ks' = {}"
proof -
  have "k \<notin> ks'" if "k \<in> ks" for k
    using takes_held [of s1 k ws] take_wf [OF assms(1,2)] take_holds [OF assms(1,2) that]
      take_free [of "takes ws s1" w' ks' s2 k] assms(3) by blast
  then show ?thesis by blast
qed

end

definition jobs_ok :: "db \<Rightarrow> bool" where
  "jobs_ok d \<longleftrightarrow> keyed (next_id d) (jobs d) \<and> (\<forall>j \<in> set (jobs d). job_wf j)"

definition job_held :: "uuid \<Rightarrow> db \<Rightarrow> bool" where
  "job_held i d \<longleftrightarrow> (\<exists>j. get_row i (jobs d) = Some j \<and> jb_state j = JobRunning)"

definition claim_ids :: "instant \<times> string \<times> nat \<times> string list \<Rightarrow> db \<Rightarrow> uuid set \<times> db" where
  "claim_ids w d = (case w of (now, worker, limit, kinds) \<Rightarrow>
     (case claim now worker limit kinds d of (rows, d') \<Rightarrow> (row_id ` set rows, d')))"

lemma claim_ok:
  assumes "jobs_ok d" "claim now w limit kinds d = (rows, d')"
  shows "jobs_ok d'"
proof (cases "kinds = []")
  case True
  with assms show ?thesis by (simp add: claim_def)
next
  case False
  have k: "keyed (next_id d) (jobs d)" using assms(1) by (simp add: jobs_ok_def)
  have k': "keyed (next_id d) (jobs d')" using claim_keyed [OF k assms(2)] .
  have n: "next_id d' = next_id d" using assms(2) by (auto simp: claim_def Let_def split: if_splits)
  have "job_wf j" if "j \<in> set (jobs d')" for j
  proof -
    have "get_row (row_id j) (jobs d') = Some j" using get_row_mem [OF k' that] .
    then obtain x where x: "get_row (row_id j) (jobs d) = Some x"
        "j = (if x \<in> set (claim_rows now limit kinds (jobs d)) then mark_running now w x else x)"
      unfolding claim_get_row [OF k assms(2) False] by (auto split: option.splits)
    have "job_wf x" using assms(1) get_row_Some [OF x(1)] by (simp add: jobs_ok_def)
    with x(2) show ?thesis by (metis mark_running_wf set_claim_rows)
  qed
  with k' n show ?thesis by (simp add: jobs_ok_def)
qed

lemma claim_held:
  assumes "jobs_ok d" "claim now w limit kinds d = (rows, d')"
  shows "i \<in> row_id ` set rows \<Longrightarrow> \<not> job_held i d \<and> job_held i d'"
    and "job_held i d \<Longrightarrow> job_held i d'"
proof -
  have k: "keyed (next_id d) (jobs d)" using assms(1) by (simp add: jobs_ok_def)
  show "\<not> job_held i d \<and> job_held i d'" if i: "i \<in> row_id ` set rows"
  proof -
    have ks: "kinds \<noteq> []" using i assms(2) by (auto simp: claim_def)
    obtain x where x: "x \<in> set (claim_rows now limit kinds (jobs d))" "row_id x = i"
      using i assms(2) ks by (force simp: claim_def Let_def mark_running_def)
    have "x \<in> set (jobs d)" "claimable now kinds x" using set_claim_rows [OF x(1)] by auto
    then have "get_row i (jobs d) = Some x" "jb_state x = JobQueued"
      using get_row_mem [OF k] x(2) by (auto simp: claimable_def)
    then show ?thesis
      using x claim_get_row [OF k assms(2) ks, of i] by (simp add: job_held_def mark_running_def)
  qed
  show "job_held i d'" if "job_held i d"
  proof (cases "kinds = []")
    case True
    with that assms(2) show ?thesis by (simp add: claim_def)
  next
    case False
    then show ?thesis
      using that claim_get_row [OF k assms(2) False, of i] by (auto simp: job_held_def mark_running_def)
  qed
qed

interpretation jobq: job_queue jobs_ok job_held claim_ids
  by unfold_locales
    (auto simp: claim_ids_def dest: claim_ok claim_held split: prod.splits)

section \<open>Properties\<close>

text \<open>
  C13. Two claims never hand out the same job: while a job is running no worker
  claims it again, whatever claims happen in between.
\<close>

theorem claims_disjoint:
  assumes "jobs_ok d" "claim now w limit kinds d = (rows, d1)"
    and "claim now' w' limit' kinds' (jobq.takes ws d1) = (rows', d2)"
  shows "row_id ` set rows \<inter> row_id ` set rows' = {}"
  using jobq.disjoint_claims [OF assms(1), of "(now, w, limit, kinds)" _ d1 "(now', w', limit', kinds')" ws]
    assms(2,3) by (simp add: claim_ids_def)

definition demo_jobs :: db where
  "demo_jobs = snd (enqueue 0 ''a'' [] 100 0 None None (snd (enqueue 0 ''b'' [] 50 0 None None empty_db)))"

lemma demo_jobs_ok: "jobs_ok demo_jobs"
  by (simp add: demo_jobs_def jobs_ok_def enqueue_def Let_def empty_db_def keyed_def job_wf_def fresh_def)

theorem claims_disjoint_witness:
  "\<exists>rows d1 rows' d2. claim 9 ''w'' 1 [''a'', ''b''] demo_jobs = (rows, d1)
     \<and> claim 9 ''v'' 1 [''a'', ''b''] d1 = (rows', d2)
     \<and> map row_id rows = [1] \<and> map row_id rows' = [2] \<and> row_id ` set rows \<inter> row_id ` set rows' = {}"
proof -
  obtain rows d1 where a: "claim 9 ''w'' 1 [''a'', ''b''] demo_jobs = (rows, d1)" by fastforce
  obtain rows' d2 where b: "claim 9 ''v'' 1 [''a'', ''b''] d1 = (rows', d2)" by fastforce
  have "map row_id (fst (claim 9 ''w'' 1 [''a'', ''b''] demo_jobs)) = [1]"
    "map row_id (fst (claim 9 ''v'' 1 [''a'', ''b''] (snd (claim 9 ''w'' 1 [''a'', ''b''] demo_jobs)))) = [2]"
    by code_simp+
  with claims_disjoint [OF demo_jobs_ok a, of 9 "''v''" 1 "[''a'', ''b'']" "[]" rows' d2] a b
  show ?thesis by simp
qed

text \<open>
  A claim serves the most urgent due jobs of the allowed kinds first and at
  most \<open>limit\<close> of them: a due job that is left queued sorts, by priority and then
  by due instant, after every claimed one.
\<close>

theorem claim_order:
  assumes "kinds \<noteq> []" "claim now w limit kinds d = (rows, d')"
    and "j \<in> set (jobs d)" "claimable now kinds j" "j \<notin> set (claim_rows now limit kinds (jobs d))"
  shows "length rows \<le> limit
    \<and> (\<forall>r \<in> set rows. (jb_priority r, jb_available_at r) \<le> (jb_priority j, jb_available_at j)
         \<and> jb_state r = JobRunning \<and> jb_locked_by r = Some w)"
proof -
  let ?f = "\<lambda>j. (jb_priority j, jb_available_at j)"
  have rows: "rows = map (mark_running now w) (claim_rows now limit kinds (jobs d))"
    using assms(1,2) by (simp add: claim_def Let_def)
  have "?f x \<le> ?f j" if "x \<in> set (claim_rows now limit kinds (jobs d))" for x
    by (rule sorted_take_le [of ?f "sort_key ?f (filter (claimable now kinds) (jobs d))" x limit j])
      (use that assms(3-5) in \<open>auto simp: claim_rows_def\<close>)
  then show ?thesis
    by (auto simp: rows mark_running_def claim_rows_def)
qed

theorem claim_order_witness:
  "\<exists>rows d'. claim 9 ''w'' 1 [''a'', ''b''] demo_jobs = (rows, d')
     \<and> (\<forall>r \<in> set rows. jb_priority r \<le> 100 \<and> jb_state r = JobRunning)"
proof -
  obtain rows d' where c: "claim 9 ''w'' 1 [''a'', ''b''] demo_jobs = (rows, d')" by fastforce
  let ?j = "last (jobs demo_jobs)"
  have "?j \<in> set (jobs demo_jobs)" "claimable 9 [''a'', ''b''] ?j" "jb_priority ?j = 100"
      "?j \<notin> set (claim_rows 9 1 [''a'', ''b''] (jobs demo_jobs))"
    by code_simp+
  with claim_order [of "[''a'', ''b'']", OF _ c] c show ?thesis by fastforce
qed

text \<open>One life of a job: claimed, then failed. Between two lives it waits.\<close>

inductive job_step :: "job_row \<Rightarrow> job_row \<Rightarrow> bool" where
  claimed: "claimable now kinds j \<Longrightarrow> job_step j (mark_running now w j)"
| completed: "jb_state j = JobRunning \<Longrightarrow> job_step j (complete now j)"
| failed: "jb_state j = JobRunning \<Longrightarrow> job_step j (fail now code j)"

inductive_cases job_stepE: "job_step j j'"

text \<open>What is left to do: two steps for every attempt left, one for a running job.\<close>

definition job_left :: "job_row \<Rightarrow> nat" where
  "job_left j = 2 * (jb_max_attempts j - jb_attempts j) + (if jb_state j = JobRunning then 1 else 0)"

lemma job_step_decreases: "job_wf j \<Longrightarrow> job_step j j' \<Longrightarrow> job_wf j' \<and> job_left j' < job_left j"
  by (erule job_stepE)
    (auto simp: job_left_def fail_def Let_def complete_def mark_running_def claimable_def job_wf_def)

text \<open>
  C14. Retries end: from a well-formed job there are at most twice as many steps as
  attempts are left, and one for the running attempt; the number of attempts never passes the maximum.
\<close>

theorem job_retries_bounded:
  assumes "(job_step ^^ n) j j'" "job_wf j"
  shows "n \<le> 2 * (jb_max_attempts j - jb_attempts j) + 1 \<and> jb_attempts j' \<le> jb_max_attempts j'"
proof -
  have "job_wf j' \<and> n + job_left j' \<le> job_left j"
    using assms
  proof (induction n arbitrary: j')
    case (Suc n)
    then obtain k where "(job_step ^^ n) j k" "job_step k j'" by auto
    with Suc job_step_decreases [of k j'] show ?case by force
  qed simp
  then show ?thesis by (auto simp: job_left_def job_wf_def split: if_splits)
qed

theorem job_retries_bounded_witness:
  "\<exists>j j'. job_wf j \<and> (job_step ^^ 2) j j' \<and> (2::nat) \<le> 2 * (jb_max_attempts j - jb_attempts j) + 1
     \<and> jb_attempts j' \<le> jb_max_attempts j'"
proof -
  let ?j = "hd (jobs demo_jobs)"
  let ?k = "mark_running 9 ''w'' ?j"
  have w: "job_wf ?j" using demo_jobs_ok by (simp add: jobs_ok_def demo_jobs_def enqueue_def Let_def empty_db_def fresh_def)
  have "claimable 9 [''b''] ?j" by code_simp
  then have "job_step ?j ?k" by (rule job_step.claimed)
  moreover have "job_step ?k (fail 10 ''timeout'' ?k)"
    by (rule job_step.failed) (simp add: mark_running_def)
  ultimately have "(job_step ^^ 2) ?j (fail 10 ''timeout'' ?k)" by (auto simp: numeral_2_eq_2)
  with job_retries_bounded [OF this w] w show ?thesis by blast
qed

text \<open>
  The delay before the retry after attempt \<open>n\<close> is 10 seconds doubled \<open>n\<close> times, capped at
  one hour; it is never shorter than the one before, and a failed job is due again no later than in an hour.
\<close>

theorem retry_delay_bounds:
  "retry_delay n \<le> retry_delay (Suc n) \<and> 10 \<le> retry_delay n \<and> retry_delay n \<le> 3600
   \<and> (9 \<le> n \<longrightarrow> retry_delay n = 3600)
   \<and> (jb_attempts j < jb_max_attempts j \<longrightarrow>
        jb_state (fail now code j) = JobQueued
        \<and> now + seconds 10 \<le> jb_available_at (fail now code j)
        \<and> jb_available_at (fail now code j) \<le> now + hours 1)"
proof -
  have p: "(1::int) \<le> 2 ^ m" for m by simp
  have mono: "retry_delay n \<le> retry_delay (Suc n)" and low: "10 \<le> retry_delay m"
    and up: "retry_delay m \<le> 3600" for n m
    using p [of m] p [of n] by (simp_all add: retry_delay_def min_def)
  have "retry_delay n = 3600" if "9 \<le> n"
  proof -
    have "(2::int) ^ 9 \<le> 2 ^ n" using that by (intro power_increasing) auto
    then show ?thesis by (simp add: retry_delay_def)
  qed
  then show ?thesis
    using mono low [of n] up [of n] low [of "jb_attempts j"] up [of "jb_attempts j"]
    by (auto simp: fail_def Let_def seconds_def hours_def minutes_def)
qed

theorem retry_delay_bounds_witness:
  "retry_delay 9 = 3600 \<and> retry_delay 3 \<le> retry_delay 4"
  using retry_delay_bounds [of 9] retry_delay_bounds [of 3] by (simp add: eval_nat_numeral)

end
