(* ===== verification/Operations.thy ===== *)
theory Operations
  imports Orchestration Jobs
begin

text \<open>
  \<^verbatim>\<open>api/operations.py\<close>: readiness and status, reading and checking the audit log, and the requests
  for backups, which the backup agent carries out. \<^verbatim>\<open>uuid5\<close> of the namespace of URLs is an argument.
\<close>

section \<open>Readiness and status\<close>

text \<open>What \<^verbatim>\<open>/health/ready\<close> reports: the status, the state of the instance, whether the selected
  model can converse, and its identifier as stored.\<close>

record readiness =
  rd_ready :: bool
  rd_instance_state :: string
  rd_conversation_model :: bool
  rd_selected_model_id :: "pystr option"

definition capable :: "catalog_entry \<Rightarrow> bool" where
  "capable mdl \<longleftrightarrow> jget (mc_capabilities mdl) ''responses'' = Some (JBool True)
     \<and> jget (mc_capabilities mdl) ''structured_outputs'' = Some (JBool True)"

definition selected_model :: "uuid option \<Rightarrow> db \<Rightarrow> catalog_entry option" where
  "selected_model sel d =
     query_one (\<lambda>mdl. Some (row_id mdl) = sel \<and> mc_available mdl
       \<and> (\<exists>pv \<in> set (providers d). row_id pv = mc_provider_id mdl \<and> pv_enabled pv
            \<and> pv_verification_state pv = ''verified'')) (catalog d)"

definition health_ready :: "orch_env \<Rightarrow> db \<Rightarrow> readiness" where
  "health_ready e d =
     (let inst = query_one (\<lambda>i. si_singleton_key i = ''primary'') (instances d);
          sel = (case query_one (\<lambda>s. st_area s = ''models'' \<and> st_key s = ''conversation_model'') (settings d) of
                   None \<Rightarrow> None
                 | Some s \<Rightarrow> let v = get_or (st_value s) ''value'' JNull
                             in if truthy v then Some (py_str e v) else None);
          sel_uuid = (case sel of None \<Rightarrow> None | Some t \<Rightarrow> if t = [] then None else uuid_parse t);
          mdl = (case sel of None \<Rightarrow> None | Some t \<Rightarrow> if t = [] then None else selected_model sel_uuid d);
          capabilities = (case mdl of None \<Rightarrow> False | Some m \<Rightarrow> capable m)
      in \<lparr>rd_ready = (case inst of None \<Rightarrow> False
            | Some i \<Rightarrow> si_state i \<in> {''active'', ''ready''} \<and> (sel = None \<or> capabilities)),
          rd_instance_state = (case inst of None \<Rightarrow> ''bootstrap_required'' | Some i \<Rightarrow> si_state i),
          rd_conversation_model = capabilities, rd_selected_model_id = sel\<rparr>)"

record operations_status =
  os_worker :: string
  os_providers :: string
  os_backups :: string
  os_providers_ready :: nat
  os_jobs_pending :: nat
  os_worker_last_seen_at :: "instant option"
  os_last_backup :: "(instant option \<times> instant option) option"

text \<open>\<open>ORDER BY completed_at DESC LIMIT 1\<close>; a missing time comes first.\<close>

definition last_backup :: "db \<Rightarrow> backup_record option" where
  "last_backup d =
     (case sort_key (\<lambda>r. case bk_completed_at r of None \<Rightarrow> (0::int, 0::int) | Some t \<Rightarrow> (1, - t))
             (filter (\<lambda>r. bk_state r = ''completed'') (backups d)) of
        [] \<Rightarrow> None | r # _ \<Rightarrow> Some r)"

definition last_seen :: "db \<Rightarrow> instant option" where
  "last_seen d = (if heartbeats d = [] then None else Some (Max (set (map wh_last_seen_at (heartbeats d)))))"

definition status_of :: "instant \<Rightarrow> db \<Rightarrow> operations_status" where
  "status_of now d =
     (let n = length (filter (\<lambda>p. pv_enabled p \<and> pv_verification_state p = ''verified'') (providers d));
          queued = length (filter (\<lambda>j. jb_state j \<in> {JobQueued, JobRunning}) (jobs d));
          alive = (case last_seen d of None \<Rightarrow> False | Some t \<Rightarrow> now - t \<le> seconds 90);
          b = last_backup d
      in \<lparr>os_worker = (if \<not> alive then ''error'' else if 100 < queued then ''limited'' else ''ready''),
          os_providers = (if 0 < n then ''ready'' else ''limited''),
          os_backups = (case b of None \<Rightarrow> ''unknown''
            | Some r \<Rightarrow> if bk_verified_at r = None then ''unknown'' else ''ready''),
          os_providers_ready = n, os_jobs_pending = queued, os_worker_last_seen_at = last_seen d,
          os_last_backup = map_option (\<lambda>r. (bk_completed_at r, bk_verified_at r)) b\<rparr>)"

section \<open>The audit log\<close>

record audit_query =
  aq_before_id :: "nat option"
  aq_from_time :: "instant option"
  aq_to_time :: "instant option"
  aq_area :: "pystr option"
  aq_result :: "string option"
  aq_actor_type :: "string option"
  aq_target_type :: "string option"
  aq_correlation_id :: "string option"
  aq_event_name :: "string option"

definition given :: "'a list option \<Rightarrow> ('a list \<Rightarrow> bool) \<Rightarrow> bool" where
  "given x P \<longleftrightarrow> (case x of None \<Rightarrow> True | Some v \<Rightarrow> v = [] \<or> P v)"

text \<open>The conditions but for \<open>before_id\<close>. \<^verbatim>\<open>startswith\<close> is a \<open>LIKE\<close> without escaping.\<close>

definition audit_matches :: "audit_query \<Rightarrow> audit_event \<Rightarrow> bool" where
  "audit_matches q e \<longleftrightarrow>
     (case aq_from_time q of None \<Rightarrow> True | Some t \<Rightarrow> t \<le> ae_occurred_at e)
   \<and> (case aq_to_time q of None \<Rightarrow> True | Some t \<Rightarrow> ae_occurred_at e \<le> t)
   \<and> given (aq_area q) (\<lambda>a. sql_like (a @ [46, 37]) (asc (ae_event_type e)))
   \<and> given (aq_result q) (\<lambda>r. ae_result e = r)
   \<and> given (aq_actor_type q) (\<lambda>t. ae_actor_type e = t)
   \<and> given (aq_target_type q) (\<lambda>t. ae_target_type e = Some t)
   \<and> given (aq_correlation_id q) (\<lambda>t. ae_correlation_id e = Some t)
   \<and> given (aq_event_name q) (\<lambda>t. ae_event_type e = t)"

text \<open>A page and \<open>next_before_id\<close>.\<close>

definition audit_list :: "audit_query \<Rightarrow> nat \<Rightarrow> db \<Rightarrow> audit_event list \<times> nat option" where
  "audit_list q limit d =
     (let rows = take (limit + 1) (rev (sort_key ae_id (filter
            (\<lambda>e. (case aq_before_id q of None \<Rightarrow> True | Some b \<Rightarrow> ae_id e < b) \<and> audit_matches q e) (audit_events d))));
          items = take limit rows
      in (items, if limit < length rows \<and> items \<noteq> [] then Some (ae_id (last items)) else None))"

record integrity =
  ai_state :: string
  ai_events_checked :: nat
  ai_broken_at :: "nat option"

definition audit_integrity :: "crypto \<Rightarrow> db \<Rightarrow> integrity" where
  "audit_integrity c d =
     (let rows = sort_key ae_id (audit_events d)
      in case verify_chain c rows of
           (valid, broken) \<Rightarrow> \<lparr>ai_state = (if valid then ''valid'' else ''broken''),
             ai_events_checked = length rows, ai_broken_at = broken\<rparr>)"

text \<open>\<open>audit_view\<close>: the part of the type before its first dot is the area.\<close>

definition audit_view :: "orch_env \<Rightarrow> audit_event \<Rightarrow> json" where
  "audit_view e r =
     jobj [(''id'', JInt (int (ae_id r))), (''occurred_at'', JStr (oe_isoformat e (ae_occurred_at r))),
       (''area'', jstr (takeWhile (\<lambda>x. x \<noteq> CHR ''.'') (ae_event_type r))), (''event_name'', jstr (ae_event_type r)),
       (''actor_type'', jstr (ae_actor_type r)), (''actor_id'', opt_uuid (ae_actor_id r)),
       (''target_type'', opt_str (ae_target_type r)), (''target_id'', opt_uuid (ae_target_id r)),
       (''result'', jstr (ae_result r)), (''correlation_id'', opt_str (ae_correlation_id r)),
       (''details'', JObj (ae_details r)), (''event_hash'', JStr (ae_event_hash r))]"

definition audit_detail :: "orch_env \<Rightarrow> nat \<Rightarrow> db \<Rightarrow> json result" where
  "audit_detail e i d =
     (case query_one (\<lambda>r. ae_id r = i) (audit_events d) of
        None \<Rightarrow> Inl NotFoundError | Some r \<Rightarrow> Inr (audit_view e r))"

section \<open>Requests for backups\<close>

record backup_request =
  br_purpose :: pystr
  br_idempotency_key :: pystr

record backup_action =
  ba_expected_version :: int
  ba_idempotency_key :: pystr

definition valid_backup_request :: "backup_request \<Rightarrow> bool" where
  "valid_backup_request q \<longleftrightarrow> 3 \<le> length (br_purpose q) \<and> length (br_purpose q) \<le> 160
     \<and> 16 \<le> length (br_idempotency_key q) \<and> length (br_idempotency_key q) \<le> 128"

definition valid_backup_action :: "backup_action \<Rightarrow> bool" where
  "valid_backup_action q \<longleftrightarrow> 1 \<le> ba_expected_version q
     \<and> 16 \<le> length (ba_idempotency_key q) \<and> length (ba_idempotency_key q) \<le> 128"

definition backup_view :: "orch_env \<Rightarrow> backup_record \<Rightarrow> json" where
  "backup_view e r =
     jobj [(''id'', JStr (uuid_str (row_id r))), (''backup_type'', jstr (bk_backup_type r)),
       (''state'', jstr (bk_state r)), (''started_at'', JStr (oe_isoformat e (bk_started_at r))),
       (''completed_at'', iso_or_null e (bk_completed_at r)), (''repository_name'', jstr (bk_repository_name r)),
       (''stanza'', jstr (bk_stanza r)), (''backup_label'', text_or_null (bk_label r)),
       (''manifest_digest'', text_or_null (bk_manifest_digest r)), (''verified_at'', iso_or_null e (bk_verified_at r)),
       (''restore_tested_at'', iso_or_null e (bk_restore_tested_at r)),
       (''size_bytes'', case bk_size_bytes r of None \<Rightarrow> JNull | Some n \<Rightarrow> JInt n),
       (''error_code'', opt_str (bk_error_code r)), (''version'', JInt (version r))]"

definition backup_list :: "db \<Rightarrow> backup_record list" where
  "backup_list d = take 100 (sort_key (\<lambda>r. - bk_started_at r) (backups d))"

definition backup_job_id :: "(pystr \<Rightarrow> uuid) \<Rightarrow> string \<Rightarrow> pystr \<Rightarrow> uuid" where
  "backup_job_id uuid5 kind key = uuid5 (asc ''kajovodagmar:'' @ asc kind @ asc '':'' @ key)"

definition existing_backup_job :: "(pystr \<Rightarrow> uuid) \<Rightarrow> string \<Rightarrow> pystr \<Rightarrow> db \<Rightarrow> job_row option" where
  "existing_backup_job uuid5 kind key d = get_row (backup_job_id uuid5 kind key) (jobs d)"

text \<open>\<open>jobs.enqueue\<close> with a given id: its insert fails where the id is taken.\<close>

definition enqueue_with_id ::
  "instant \<Rightarrow> string \<Rightarrow> jdict \<Rightarrow> string option \<Rightarrow> uuid \<Rightarrow> db \<Rightarrow> unit result \<times> db" where
  "enqueue_with_id now kind payload corr i d =
     (if get_row i (jobs d) \<noteq> None then (Inl IntegrityError, d)
      else (Inr (), snd (enqueue now kind payload 10 0 corr (Some i) d)))"

text \<open>The backup an earlier request of the key was for: \<^verbatim>\<open>UUID(str(payload["backup_record_id"]))\<close>.\<close>

definition requested_backup :: "orch_env \<Rightarrow> job_row \<Rightarrow> uuid result" where
  "requested_backup e j =
     (case jget (jb_payload j) ''backup_record_id'' of
        None \<Rightarrow> Inl KeyError
      | Some v \<Rightarrow> (case uuid_parse (py_str e v) of None \<Rightarrow> Inl ValueError | Some i \<Rightarrow> Inr i))"

definition new_backup :: "instant \<Rightarrow> pystr \<Rightarrow> uuid \<Rightarrow> backup_record" where
  "new_backup now purpose i =
     \<lparr>row_id = i, created_at = now, updated_at = now, version = 1, bk_backup_type = ''full'',
      bk_state = ''queued'', bk_started_at = now, bk_completed_at = None, bk_repository_name = ''repo1'',
      bk_stanza = ''kajovodagmar'', bk_label = Some (asc ''pending:'' @ purpose), bk_manifest_digest = None,
      bk_verified_at = None, bk_restore_tested_at = None, bk_size_bytes = None, bk_error_code = None\<rparr>"

definition add_backup ::
  "crypto \<Rightarrow> (pystr \<Rightarrow> uuid) \<Rightarrow> instant \<Rightarrow> backup_request \<Rightarrow> audit_context \<Rightarrow> db \<Rightarrow> backup_record result \<times> db" where
  "add_backup c uuid5 now q ctx d =
     (let r = new_backup now (br_purpose q) (next_id d);
          d1 = (fresh d)\<lparr>backups := backups d @ [r]\<rparr>
      in case enqueue_with_id now ''backup_create''
                [(asc ''backup_record_id'', JStr (uuid_str (row_id r))), (asc ''purpose'', JStr (br_purpose q))]
                (ac_correlation_id ctx) (backup_job_id uuid5 ''backup_create'' (br_idempotency_key q)) d1 of
           (Inl x, d2) \<Rightarrow> (Inl x, d2)
         | (Inr _, d2) \<Rightarrow> (Inr r, audit_append c now ctx ''backup.requested'' ''success'' (Some ''backup_record'')
                (Some (row_id r)) [(asc ''purpose'', JStr (br_purpose q))] d2))"

definition request_backup ::
  "orch_env \<Rightarrow> crypto \<Rightarrow> (pystr \<Rightarrow> uuid) \<Rightarrow> instant \<Rightarrow> backup_request \<Rightarrow> audit_context \<Rightarrow> db
    \<Rightarrow> backup_record result \<times> db" where
  "request_backup e c uuid5 now q ctx d =
     (case existing_backup_job uuid5 ''backup_create'' (br_idempotency_key q) d of
        None \<Rightarrow> add_backup c uuid5 now q ctx d
      | Some j \<Rightarrow> (case requested_backup e j of
          Inl x \<Rightarrow> (Inl x, d)
        | Inr i \<Rightarrow> (case get_row i (backups d) of
            Some r \<Rightarrow> (Inr r, d)
          | None \<Rightarrow> add_backup c uuid5 now q ctx d)))"

text \<open>\<open>enqueue_backup_action\<close>; an earlier job of the key answers the request, whichever backup it is for.\<close>

definition add_backup_action ::
  "crypto \<Rightarrow> (pystr \<Rightarrow> uuid) \<Rightarrow> instant \<Rightarrow> string \<Rightarrow> string \<Rightarrow> uuid \<Rightarrow> backup_action \<Rightarrow> audit_context \<Rightarrow> db
    \<Rightarrow> backup_record result \<times> db" where
  "add_backup_action c uuid5 now kind operation i q ctx d =
     (case get_row i (backups d) of
        None \<Rightarrow> (Inl NotFoundError, d)
      | Some r \<Rightarrow>
          if version r \<noteq> ba_expected_version q then (Inl (ConflictError None), d)
          else if bk_state r \<noteq> ''completed'' then (Inl (ConflictError None), d)
          else (case enqueue_with_id now kind [(asc ''backup_record_id'', JStr (uuid_str (row_id r)))]
                  (ac_correlation_id ctx) (backup_job_id uuid5 kind (ba_idempotency_key q)) d of
              (Inl x, d1) \<Rightarrow> (Inl x, d1)
            | (Inr _, d1) \<Rightarrow> (Inr r, audit_append c now ctx (''backup.'' @ operation @ ''_requested'') ''success''
                (Some ''backup_record'') (Some (row_id r)) [] d1)))"

definition enqueue_backup_action ::
  "crypto \<Rightarrow> (pystr \<Rightarrow> uuid) \<Rightarrow> instant \<Rightarrow> string \<Rightarrow> string \<Rightarrow> uuid \<Rightarrow> backup_action \<Rightarrow> audit_context \<Rightarrow> db
    \<Rightarrow> backup_record result \<times> db" where
  "enqueue_backup_action c uuid5 now kind operation i q ctx d =
     (case existing_backup_job uuid5 kind (ba_idempotency_key q) d of
        None \<Rightarrow> add_backup_action c uuid5 now kind operation i q ctx d
      | Some _ \<Rightarrow> (case get_row i (backups d) of
          Some r \<Rightarrow> (Inr r, d)
        | None \<Rightarrow> add_backup_action c uuid5 now kind operation i q ctx d))"

definition request_verify ::
  "crypto \<Rightarrow> (pystr \<Rightarrow> uuid) \<Rightarrow> instant \<Rightarrow> uuid \<Rightarrow> backup_action \<Rightarrow> audit_context \<Rightarrow> db
    \<Rightarrow> backup_record result \<times> db" where
  "request_verify c uuid5 now = enqueue_backup_action c uuid5 now ''backup_verify'' ''verify''"

definition request_restore_test ::
  "crypto \<Rightarrow> (pystr \<Rightarrow> uuid) \<Rightarrow> instant \<Rightarrow> uuid \<Rightarrow> backup_action \<Rightarrow> audit_context \<Rightarrow> db
    \<Rightarrow> backup_record result \<times> db" where
  "request_restore_test c uuid5 now = enqueue_backup_action c uuid5 now ''backup_restore_test'' ''restore_test''"

end
