(* ===== verification/Settings.thy ===== *)
theory Settings
  imports Jobs AuditLog
begin

text \<open>
  \<^verbatim>\<open>settings/catalog.py\<close> and \<^verbatim>\<open>settings/service.py\<close>: the catalog of the settings with
  their types, ranges and choices, the settings in effect, changing the settings of
  an area, the history of a setting and restoring an earlier value of it. The labels
  and descriptions shown to people are left out.
\<close>

section \<open>The catalog\<close>

datatype value_type = VString | VInteger | VBoolean | VChoice | VDuration

record setting_definition =
  sd_area :: string
  sd_key :: string
  sd_type :: value_type
  sd_default :: json
  sd_boundary :: string
  sd_choices :: "pystr list"
  sd_minimum :: "int option"
  sd_maximum :: "int option"

text \<open>The constructor with its defaults; \<open>ranged\<close> and \<open>choosing\<close> add the optional fields.\<close>

definition SettingDefinition ::
  "string \<Rightarrow> string \<Rightarrow> value_type \<Rightarrow> json \<Rightarrow> string \<Rightarrow> setting_definition" where
  "SettingDefinition area key ty dflt boundary =
     \<lparr>sd_area = area, sd_key = key, sd_type = ty, sd_default = dflt, sd_boundary = boundary,
      sd_choices = [], sd_minimum = None, sd_maximum = None\<rparr>"

definition ranged :: "int \<Rightarrow> int \<Rightarrow> setting_definition \<Rightarrow> setting_definition" where
  "ranged lo hi s = s\<lparr>sd_minimum := Some lo, sd_maximum := Some hi\<rparr>"

definition choosing :: "string list \<Rightarrow> setting_definition \<Rightarrow> setting_definition" where
  "choosing cs s = s\<lparr>sd_choices := map asc cs\<rparr>"

definition DEFINITIONS :: "setting_definition list" where
  "DEFINITIONS =
    [choosing [''cs'', ''en'', ''de'']
       (SettingDefinition ''conversation'' ''language'' VChoice (jstr ''cs'') ''next_turn''),
     choosing [''short'', ''balanced'', ''detailed'']
       (SettingDefinition ''conversation'' ''verbosity'' VChoice (jstr ''balanced'') ''next_turn''),
     ranged 60 1800
       (SettingDefinition ''conversation'' ''idle_warning_seconds'' VInteger (JInt 240) ''new_voice_session''),
     ranged 120 3600
       (SettingDefinition ''conversation'' ''idle_end_seconds'' VInteger (JInt 300) ''new_voice_session''),
     SettingDefinition ''models'' ''conversation_model'' VString (jstr '''') ''next_turn'',
     SettingDefinition ''models'' ''transcription_model'' VString (jstr '''') ''new_voice_session'',
     SettingDefinition ''models'' ''speech_model'' VString (jstr '''') ''new_voice_session'',
     SettingDefinition ''models'' ''embedding_model'' VString (jstr '''') ''immediate'',
     SettingDefinition ''models'' ''summary_model'' VString (jstr '''') ''next_turn'',
     SettingDefinition ''voice'' ''voice_id'' VString (jstr '''') ''next_turn'',
     ranged 10 120
       (SettingDefinition ''security'' ''session_idle_minutes'' VInteger (JInt 30) ''next_login''),
     ranged 0 100
       (SettingDefinition ''voice'' ''output_volume'' VInteger (JInt 80) ''immediate''),
     SettingDefinition ''voice'' ''barge_in'' VBoolean (JBool True) ''new_voice_session'',
     ranged 500 2500
       (SettingDefinition ''voice'' ''endpoint_silence_ms'' VInteger (JInt 900) ''new_voice_session''),
     SettingDefinition ''memory'' ''suggestions_enabled'' VBoolean (JBool True) ''next_turn'',
     ranged 1 365
       (SettingDefinition ''memory'' ''soft_delete_days'' VInteger (JInt 30) ''immediate''),
     ranged 1 365
       (SettingDefinition ''history'' ''soft_delete_days'' VInteger (JInt 30) ''immediate''),
     SettingDefinition ''history'' ''automatic_summary'' VBoolean (JBool True) ''next_turn'',
     ranged 7 90
       (SettingDefinition ''diagnostics'' ''retention_days'' VInteger (JInt 30) ''immediate''),
     choosing [''minimal'', ''standard'', ''enhanced'']
       (SettingDefinition ''diagnostics'' ''level'' VChoice (jstr ''standard'') ''immediate''),
     SettingDefinition ''backups'' ''schedule'' VString (jstr ''0 2 * * *'') ''service_restart'']"

text \<open>\<open>BY_KEY.get\<close>; no two definitions have the same area and key.\<close>

definition by_key :: "pystr \<Rightarrow> pystr \<Rightarrow> setting_definition option" where
  "by_key area key = List.find (\<lambda>s. asc (sd_area s) = area \<and> asc (sd_key s) = key) DEFINITIONS"

text \<open>A boolean is not taken for a number, though \<^verbatim>\<open>bool\<close> is a subclass of \<^verbatim>\<open>int\<close>.\<close>

definition validate_value :: "setting_definition \<Rightarrow> json \<Rightarrow> json result" where
  "validate_value s v =
     (if sd_type s \<in> {VInteger, VDuration} \<and>
         (case v of
            JInt n \<Rightarrow> (case sd_minimum s of None \<Rightarrow> False | Some lo \<Rightarrow> n < lo)
                    \<or> (case sd_maximum s of None \<Rightarrow> False | Some hi \<Rightarrow> hi < n)
          | _ \<Rightarrow> True)
      then Inl ValueError
      else if sd_type s = VBoolean \<and> (case v of JBool b \<Rightarrow> False | _ \<Rightarrow> True) then Inl ValueError
      else if sd_type s \<in> {VString, VChoice} \<and> (case v of JStr t \<Rightarrow> False | _ \<Rightarrow> True) then Inl ValueError
      else if sd_choices s \<noteq> [] \<and> v \<notin> JStr ` set (sd_choices s) then Inl ValueError
      else Inr v)"

section \<open>The integer of a JSON value\<close>

text \<open>
  \<^verbatim>\<open>int(value)\<close>. A float is cut off towards zero; a text is an optional sign and decimal
  digits, which single underscores may separate, between white space. The decimal digits of
  other scripts are not read.
\<close>

definition float_int :: "64 word \<Rightarrow> int result" where
  "float_int w =
     (let bits = uint w;
          e = (bits div 2 ^ 52) mod 2 ^ 11;
          m = bits mod 2 ^ 52;
          mant = (if e = 0 then m else m + 2 ^ 52);
          n = (if e < 1075 then mant div 2 ^ nat (1075 - max 1 e) else mant * 2 ^ nat (e - 1075))
      in if e = 2047 then Inl (if m = 0 then OverflowError else ValueError)
         else Inr (if bits < 2 ^ 63 then n else - n))"

fun digits_int :: "int \<Rightarrow> pystr \<Rightarrow> int option" where
  "digits_int acc [] = Some acc"
| "digits_int acc [c] = (if 48 \<le> c \<and> c \<le> 57 then Some (10 * acc + int c - 48) else None)"
| "digits_int acc (c # x # cs) =
     (if 48 \<le> c \<and> c \<le> 57
      then (if x = 95 \<and> cs \<noteq> [] then digits_int (10 * acc + int c - 48) cs
            else digits_int (10 * acc + int c - 48) (x # cs))
      else None)"

definition text_int :: "pystr \<Rightarrow> int result" where
  "text_int s =
     (let t = strip s;
          sgn = (if starts_with [45] t then - 1 else 1);
          ds = (if starts_with [45] t \<or> starts_with [43] t then drop 1 t else t)
      in if ds = [] then Inl ValueError
         else case digits_int 0 ds of None \<Rightarrow> Inl ValueError | Some n \<Rightarrow> Inr (sgn * n))"

fun json_int :: "json \<Rightarrow> int result" where
  "json_int (JInt n) = Inr n"
| "json_int (JBool b) = Inr (if b then 1 else 0)"
| "json_int (JFloat w) = float_int w"
| "json_int (JStr s) = text_int s"
| "json_int _ = Inl TypeError"

section \<open>The settings in effect\<close>

record setting_view =
  sv_value :: json
  sv_version :: int
  sv_boundary :: string
  sv_type :: value_type
  sv_choices :: "pystr list"
  sv_minimum :: "int option"
  sv_maximum :: "int option"

definition view_of :: "setting_definition \<Rightarrow> json \<Rightarrow> int \<Rightarrow> setting_view" where
  "view_of s v n = \<lparr>sv_value = v, sv_version = n, sv_boundary = sd_boundary s, sv_type = sd_type s,
     sv_choices = sd_choices s, sv_minimum = sd_minimum s, sv_maximum = sd_maximum s\<rparr>"

definition stored_setting :: "db \<Rightarrow> (string \<times> string) \<Rightarrow> setting_row option" where
  "stored_setting d = map_of (rev (map (\<lambda>r. ((st_area r, st_key r), r)) (settings d)))"

fun effective_views :: "db \<Rightarrow> setting_definition list \<Rightarrow> ((string \<times> string) \<times> setting_view) list result" where
  "effective_views d [] = Inr []"
| "effective_views d (s # ss) =
     (case (case stored_setting d (sd_area s, sd_key s) of
              None \<Rightarrow> Inr (view_of s (sd_default s) 0)
            | Some r \<Rightarrow> (case jget (st_value r) ''value'' of
                  None \<Rightarrow> Inl KeyError
                | Some v \<Rightarrow> Inr (view_of s v (version r)))) of
        Inl e \<Rightarrow> Inl e
      | Inr v \<Rightarrow> (case effective_views d ss of
            Inl e \<Rightarrow> Inl e
          | Inr vs \<Rightarrow> Inr (((sd_area s, sd_key s), v) # vs)))"

text \<open>The result groups the keys by area; here it is the list of its entries.\<close>

definition effective :: "db \<Rightarrow> ((string \<times> string) \<times> setting_view) list result" where
  "effective d = effective_views d DEFINITIONS"

section \<open>Changing settings\<close>

text \<open>The model a setting names must be available, of that role and of a verified provider.\<close>

definition validate_model_selection :: "string \<Rightarrow> pystr \<Rightarrow> db \<Rightarrow> unit result" where
  "validate_model_selection role txt d =
     (case uuid_parse txt of
        None \<Rightarrow> Inl (DomainError ''model_selection_invalid'' 422)
      | Some u \<Rightarrow>
          (let incompatible = DomainErrorWith ''model_selection_incompatible'' 422 (jobj [(''role'', jstr role)])
           in case get_row u (catalog d) of
                None \<Rightarrow> Inl incompatible
              | Some m \<Rightarrow>
                  if \<not> mc_available m \<or> mc_role m \<noteq> role then Inl incompatible
                  else (case get_row (mc_provider_id m) (providers d) of
                      None \<Rightarrow> Inl (DomainError ''model_provider_unverified'' 422)
                    | Some p \<Rightarrow>
                        if pv_verification_state p \<noteq> ''verified'' \<or> \<not> pv_enabled p
                        then Inl (DomainError ''model_provider_unverified'' 422)
                        else Inr ())))"

text \<open>\<^verbatim>\<open>str(value)\<close> of a model setting, whose type is text.\<close>

definition setting_text :: "json \<Rightarrow> pystr" where
  "setting_text v = (case v of JStr s \<Rightarrow> s | _ \<Rightarrow> [])"

definition find_setting :: "setting_definition \<Rightarrow> db \<Rightarrow> setting_row option" where
  "find_setting s d = query_one (\<lambda>r. st_area r = sd_area s \<and> st_key r = sd_key s) (settings d)"

definition setting_version :: "setting_definition \<Rightarrow> db \<Rightarrow> int" where
  "setting_version s d = (case find_setting s d of None \<Rightarrow> 0 | Some r \<Rightarrow> version r)"

definition add_setting_revision ::
  "instant \<Rightarrow> setting_row \<Rightarrow> json \<Rightarrow> string \<Rightarrow> uuid \<Rightarrow> string \<Rightarrow> db \<Rightarrow> db" where
  "add_setting_revision now r v boundary acc kind d =
     (fresh d)\<lparr>setting_revisions := setting_revisions d @
        [\<lparr>row_id = next_id d, sr_setting_id = row_id r, sr_revision_number = version r,
          sr_value = [(asc ''value'', v)], sr_effect_boundary = boundary, sr_changed_by = Some acc,
          sr_created_at = now, sr_change_kind = kind\<rparr>]\<rparr>"

text \<open>The row with its new value: a new row, or the next version of the old one.\<close>

definition put_setting ::
  "instant \<Rightarrow> setting_definition \<Rightarrow> json \<Rightarrow> uuid \<Rightarrow> db \<Rightarrow> setting_row \<times> db" where
  "put_setting now s v acc d =
     (case find_setting s d of
        None \<Rightarrow>
          let r = \<lparr>row_id = next_id d, created_at = now, updated_at = now, version = 1,
                   st_area = sd_area s, st_key = sd_key s, st_value = [(asc ''value'', v)],
                   st_schema_version = ''1.0.0'', st_effect_boundary = sd_boundary s,
                   st_changed_by = Some acc\<rparr>
          in (r, (fresh d)\<lparr>settings := settings d @ [r]\<rparr>)
      | Some old \<Rightarrow>
          let r = old\<lparr>st_value := [(asc ''value'', v)], version := version old + 1, st_changed_by := Some acc\<rparr>
          in (r, d\<lparr>settings := save_row now r (settings d)\<rparr>))"

definition mark_all_stale :: "instant \<Rightarrow> db \<Rightarrow> db" where
  "mark_all_stale now d =
     d\<lparr>search_documents := update_where (\<lambda>_. True) (\<lambda>s. s\<lparr>sd_stale := True, updated_at := now\<rparr>) (search_documents d)\<rparr>"

definition reindex_all :: "instant \<Rightarrow> string \<Rightarrow> db \<Rightarrow> db" where
  "reindex_all now reason d =
     snd (enqueue now ''search_reindex_all'' [(asc ''reason'', jstr reason)] 50 0 None None (mark_all_stale now d))"

record setting_outcome =
  so_key :: string
  so_value :: json
  so_version :: int
  so_boundary :: string

text \<open>One turn of the loop of \<open>update_area\<close>.\<close>

definition change_setting ::
  "crypto \<Rightarrow> instant \<Rightarrow> pystr \<Rightarrow> pystr \<Rightarrow> jdict \<Rightarrow> uuid \<Rightarrow> audit_context \<Rightarrow> db
    \<Rightarrow> setting_outcome result \<times> db" where
  "change_setting c now area key rq acc ctx d =
     (case by_key area key of
        None \<Rightarrow> (Inl (DomainError ''setting_unknown'' 422), d)
      | Some s \<Rightarrow>
          (case validate_value s (get_or rq ''value'' JNull) of
             Inl e \<Rightarrow> (Inl e, d)
           | Inr v \<Rightarrow>
               (case (if sd_area s = ''models'' \<and> truthy v
                      then validate_model_selection (sd_key s) (setting_text v) d else Inr ()) of
                  Inl e \<Rightarrow> (Inl e, d)
                | Inr _ \<Rightarrow>
                    (case json_int (get_or rq ''version'' (JInt 0)) of
                       Inl e \<Rightarrow> (Inl e, d)
                     | Inr expected \<Rightarrow>
                         if setting_version s d \<noteq> expected
                         then (Inl (ConflictError (Some (jobj [(''key'', jstr (sd_key s)),
                                 (''expected_version'', JInt expected),
                                 (''actual_version'', JInt (setting_version s d))]))), d)
                         else
                           let previous = (case find_setting s d of None \<Rightarrow> JNull
                                            | Some r \<Rightarrow> get_or (st_value r) ''value'' JNull);
                               (r, d1) = put_setting now s v acc d;
                               d2 = add_setting_revision now r v (sd_boundary s) acc ''changed'' d1;
                               d3 = audit_append c now ctx ''settings.changed'' ''success''
                                      (Some ''application_setting'') (Some (row_id r))
                                      [(asc ''area'', jstr (sd_area s)), (asc ''key'', jstr (sd_key s)),
                                       (asc ''version'', JInt (version r))] d2;
                               d4 = (if sd_area s = ''models'' \<and> sd_key s = ''embedding_model'' \<and> previous \<noteq> v
                                     then audit_append c now ctx ''memory.reindex_requested'' ''success'' None None
                                            [(asc ''reason'', jstr ''embedding_model_changed''),
                                             (asc ''stale_documents'', JInt (int (length (search_documents d3))))]
                                            (reindex_all now ''embedding_model_changed'' d3)
                                     else d3)
                           in (Inr \<lparr>so_key = sd_key s, so_value = v, so_version = version r,
                                    so_boundary = sd_boundary s\<rparr>, d4)))))"

fun update_area ::
  "crypto \<Rightarrow> instant \<Rightarrow> pystr \<Rightarrow> (pystr \<times> jdict) list \<Rightarrow> uuid \<Rightarrow> audit_context \<Rightarrow> db
    \<Rightarrow> setting_outcome list result \<times> db" where
  "update_area c now area [] acc ctx d = (Inr [], d)"
| "update_area c now area ((key, rq) # changes) acc ctx d =
     (case change_setting c now area key rq acc ctx d of
        (Inl e, d1) \<Rightarrow> (Inl e, d1)
      | (Inr out, d1) \<Rightarrow>
          (case update_area c now area changes acc ctx d1 of
             (Inl e, d2) \<Rightarrow> (Inl e, d2)
           | (Inr outs, d2) \<Rightarrow> (Inr (out # outs), d2)))"

section \<open>History\<close>

definition setting_history :: "pystr \<Rightarrow> pystr \<Rightarrow> db \<Rightarrow> setting_revision list" where
  "setting_history area key d =
     (case query_one (\<lambda>r. asc (st_area r) = area \<and> asc (st_key r) = key) (settings d) of
        None \<Rightarrow> []
      | Some r \<Rightarrow> take 100 (rev (sort_key sr_revision_number
                     (filter (\<lambda>s. sr_setting_id s = row_id r) (setting_revisions d)))))"

definition restore_revision ::
  "crypto \<Rightarrow> instant \<Rightarrow> pystr \<Rightarrow> pystr \<Rightarrow> int \<Rightarrow> int \<Rightarrow> uuid \<Rightarrow> audit_context \<Rightarrow> db
    \<Rightarrow> setting_row result \<times> db" where
  "restore_revision c now area key number expected acc ctx d =
     (case by_key area key of
        None \<Rightarrow> (Inl (DomainError ''setting_unknown'' 422), d)
      | Some s \<Rightarrow>
          (case find_setting s d of
             None \<Rightarrow> (Inl NotFoundError, d)
           | Some old \<Rightarrow>
               if version old \<noteq> expected
               then (Inl (ConflictError (Some (jobj [(''expected_version'', JInt expected),
                       (''actual_version'', JInt (version old))]))), d)
               else
                 (case query_one (\<lambda>x. sr_setting_id x = row_id old \<and> sr_revision_number x = number)
                         (setting_revisions d) of
                    None \<Rightarrow> (Inl NotFoundError, d)
                  | Some x \<Rightarrow>
                      (case validate_value s (get_or (sr_value x) ''value'' JNull) of
                         Inl e \<Rightarrow> (Inl e, d)
                       | Inr v \<Rightarrow>
                           (case (if sd_area s = ''models''
                                  then validate_model_selection (sd_key s) (setting_text v) d else Inr ()) of
                              Inl e \<Rightarrow> (Inl e, d)
                            | Inr _ \<Rightarrow>
                                let r = old\<lparr>st_value := [(asc ''value'', v)], st_effect_boundary := sd_boundary s,
                                          st_changed_by := Some acc, version := version old + 1\<rparr>;
                                    d1 = d\<lparr>settings := save_row now r (settings d)\<rparr>;
                                    d2 = add_setting_revision now r v (sd_boundary s) acc ''restored'' d1;
                                    d3 = (if sd_area s = ''models'' \<and> sd_key s = ''embedding_model''
                                          then reindex_all now ''embedding_model_restored'' d2 else d2)
                                in (Inr (r\<lparr>updated_at := now\<rparr>),
                                    audit_append c now ctx ''settings.restored'' ''success''
                                      (Some ''application_setting'') (Some (row_id r))
                                      [(asc ''area'', jstr (sd_area s)), (asc ''key'', jstr (sd_key s)),
                                       (asc ''from_revision'', JInt number), (asc ''version'', JInt (version r))] d3))))))"

end
