(* ===== verification/Envelope.thy ===== *)
theory Envelope
  imports Models
begin

text \<open>
  The envelope encryption of provider keys in \<^verbatim>\<open>security/crypto.py\<close>: UTF-8, the URL-safe
  Base64 of the standard library and \<open>SecretCipher\<close>. AES-GCM itself is a pair of functions of
  the cipher.
\<close>

section \<open>UTF-8\<close>

type_synonym bytes = "nat list"

definition utf8_char :: "nat \<Rightarrow> bytes" where
  "utf8_char c =
     (if c < 128 then [c]
      else if c < 2048 then [192 + c div 64, 128 + c mod 64]
      else if c < 65536 then [224 + c div 4096, 128 + c div 64 mod 64, 128 + c mod 64]
      else [240 + c div 262144, 128 + c div 4096 mod 64, 128 + c div 64 mod 64, 128 + c mod 64])"

definition surrogate :: "nat \<Rightarrow> bool" where
  "surrogate c \<longleftrightarrow> 55296 \<le> c \<and> c \<le> 57343"

text \<open>A text that \<^verbatim>\<open>str.encode()\<close> accepts.\<close>

definition encodable :: "pystr \<Rightarrow> bool" where
  "encodable s \<longleftrightarrow> list_all (\<lambda>c. c < 1114112 \<and> \<not> surrogate c) s"

definition utf8_encode :: "pystr \<Rightarrow> bytes result" where
  "utf8_encode s = (if encodable s then Inr (concat (map utf8_char s)) else Inl ValueError)"

definition cont :: "nat \<Rightarrow> bool" where
  "cont b \<longleftrightarrow> 128 \<le> b \<and> b < 192"

text \<open>The strict decoder: no overlong form, no surrogate, nothing above U+10FFFF.\<close>

fun utf8_decode :: "bytes \<Rightarrow> pystr option" where
  "utf8_decode [] = Some []"
| "utf8_decode (b # bs) =
     (if b < 128 then map_option (Cons b) (utf8_decode bs)
      else if 194 \<le> b \<and> b < 224 then
        (case bs of
           x # r \<Rightarrow> if cont x then map_option (Cons ((b - 192) * 64 + (x - 128))) (utf8_decode r) else None
         | _ \<Rightarrow> None)
      else if 224 \<le> b \<and> b < 240 then
        (case bs of
           x # y # r \<Rightarrow>
             let c = (b - 224) * 4096 + (x - 128) * 64 + (y - 128)
             in if cont x \<and> cont y \<and> 2048 \<le> c \<and> \<not> surrogate c then map_option (Cons c) (utf8_decode r) else None
         | _ \<Rightarrow> None)
      else if 240 \<le> b \<and> b < 245 then
        (case bs of
           x # y # z # r \<Rightarrow>
             let c = (b - 240) * 262144 + (x - 128) * 4096 + (y - 128) * 64 + (z - 128)
             in if cont x \<and> cont y \<and> cont z \<and> 65536 \<le> c \<and> c < 1114112
                then map_option (Cons c) (utf8_decode r) else None
         | _ \<Rightarrow> None)
      else None)"

section \<open>URL-safe Base64\<close>

definition b64_digit :: "nat \<Rightarrow> nat" where
  "b64_digit n = (if n < 26 then 65 + n else if n < 52 then 71 + n else if n < 62 then n - 4
     else if n = 62 then 45 else 95)"

fun b64_encode :: "bytes \<Rightarrow> pystr" where
  "b64_encode [] = []"
| "b64_encode [a] = [b64_digit (a div 4), b64_digit (a mod 4 * 16), 61, 61]"
| "b64_encode [a, b] = [b64_digit (a div 4), b64_digit (a mod 4 * 16 + b div 16), b64_digit (b mod 16 * 4), 61]"
| "b64_encode (a # b # c # bs) =
     b64_digit (a div 4) # b64_digit (a mod 4 * 16 + b div 16) # b64_digit (b mod 16 * 4 + c div 64)
       # b64_digit (c mod 64) # b64_encode bs"

text \<open>The URL-safe alphabet and, since only its two characters are translated, the usual one.\<close>

definition b64_value :: "nat \<Rightarrow> nat option" where
  "b64_value c =
     (if 65 \<le> c \<and> c \<le> 90 then Some (c - 65)
      else if 97 \<le> c \<and> c \<le> 122 then Some (c - 71)
      else if 48 \<le> c \<and> c \<le> 57 then Some (c + 4)
      else if c = 45 \<or> c = 43 then Some 62
      else if c = 95 \<or> c = 47 then Some 63
      else None)"

text \<open>
  The loop of \<^verbatim>\<open>binascii.a2b_base64\<close> that is not strict: the position in the group of
  four, the bits left over, the padding seen since the last digit. Other characters are
  skipped; enough padding ends the text; a text that ends inside a group is an error.
\<close>

fun b64_loop :: "nat \<Rightarrow> nat \<Rightarrow> nat \<Rightarrow> pystr \<Rightarrow> bytes option" where
  "b64_loop q left pads [] = (if q = 0 then Some [] else None)"
| "b64_loop q left pads (c # cs) =
     (if c = 61
      then (if 2 \<le> q \<and> 4 \<le> q + pads + 1 then Some []
            else b64_loop q left (if 2 \<le> q then pads + 1 else pads) cs)
      else case b64_value c of
        None \<Rightarrow> b64_loop q left pads cs
      | Some v \<Rightarrow>
          (if q = 0 then b64_loop 1 v 0 cs
           else if q = 1 then map_option (Cons (left * 4 + v div 16)) (b64_loop 2 (v mod 16) 0 cs)
           else if q = 2 then map_option (Cons (left * 16 + v div 4)) (b64_loop 3 (v mod 4) 0 cs)
           else map_option (Cons (left * 64 + v)) (b64_loop 0 0 0 cs)))"

definition b64_decode :: "pystr \<Rightarrow> bytes result" where
  "b64_decode s =
     (if list_all (\<lambda>c. c < 128) s
      then (case b64_loop 0 0 0 s of None \<Rightarrow> Inl ValueError | Some bs \<Rightarrow> Inr bs)
      else Inl ValueError)"

section \<open>SecretCipher\<close>

text \<open>\<open>sc_seal\<close> and \<open>sc_open\<close> are \<^verbatim>\<open>AESGCM.encrypt\<close> and \<^verbatim>\<open>AESGCM.decrypt\<close> with the nonce,
  the data and the associated data; \<open>None\<close> is \<^verbatim>\<open>InvalidTag\<close>.\<close>

record aead =
  sc_seal :: "bytes \<Rightarrow> bytes \<Rightarrow> bytes \<Rightarrow> bytes \<Rightarrow> bytes"
  sc_open :: "bytes \<Rightarrow> bytes \<Rightarrow> bytes \<Rightarrow> bytes \<Rightarrow> bytes option"

record secret_cipher =
  sc_key :: bytes
  sc_key_version :: nat

text \<open>\<open>__init__\<close>: the padding that the text of the root key lacks is added.\<close>

definition make_cipher :: "pystr \<Rightarrow> nat \<Rightarrow> secret_cipher result" where
  "make_cipher root_key key_version =
     (case b64_decode (root_key @ replicate ((4 - length root_key mod 4) mod 4) 61) of
        Inl e \<Rightarrow> Inl e
      | Inr key \<Rightarrow> if length key \<noteq> 32 then Inl ValueError
                   else Inr \<lparr>sc_key = key, sc_key_version = key_version\<rparr>)"

definition associated :: "nat \<Rightarrow> pystr \<Rightarrow> pystr \<Rightarrow> pystr" where
  "associated v purpose record_id =
     asc ''kajovodagmar:'' @ purpose @ asc '':'' @ record_id @ asc '':v'' @ nat_str v"

definition cipher_encrypt ::
  "aead \<Rightarrow> secret_cipher \<Rightarrow> bytes \<Rightarrow> pystr \<Rightarrow> pystr \<Rightarrow> pystr \<Rightarrow> encrypted_value result" where
  "cipher_encrypt g k nonce plaintext purpose record_id =
     (case utf8_encode (associated (sc_key_version k) purpose record_id) of
        Inl e \<Rightarrow> Inl e
      | Inr aad \<Rightarrow> (case utf8_encode plaintext of
            Inl e \<Rightarrow> Inl e
          | Inr p \<Rightarrow> Inr \<lparr>ev_key_version = sc_key_version k, ev_nonce = b64_encode nonce,
                ev_ciphertext = b64_encode (sc_seal g (sc_key k) nonce p aad),
                ev_associated_data = b64_encode aad\<rparr>))"

text \<open>\<^verbatim>\<open>InvalidTag\<close> is not a domain error; it stands as \<open>RuntimeError\<close>.\<close>

definition cipher_decrypt :: "aead \<Rightarrow> secret_cipher \<Rightarrow> encrypted_value \<Rightarrow> pystr result" where
  "cipher_decrypt g k v =
     (case (b64_decode (ev_nonce v), b64_decode (ev_ciphertext v), b64_decode (ev_associated_data v)) of
        (Inr nonce, Inr ct, Inr aad) \<Rightarrow>
          (case sc_open g (sc_key k) nonce ct aad of
             None \<Rightarrow> Inl RuntimeError
           | Some p \<Rightarrow> (case utf8_decode p of None \<Rightarrow> Inl ValueError | Some t \<Rightarrow> Inr t))
      | _ \<Rightarrow> Inl ValueError)"

section \<open>Round trips\<close>

lemma split3: "c div 4096 * 4096 + c div 64 mod 64 * 64 + c mod 64 = (c :: nat)"
proof -
  have "c div 4096 = c div 64 div 64" by (simp add: div_mult2_eq [symmetric])
  moreover have "c div 64 div 64 * 64 + c div 64 mod 64 = c div 64" "c div 64 * 64 + c mod 64 = c"
    by (rule div_mult_mod_eq)+
  ultimately show ?thesis by linarith
qed

lemma split4: "c div 262144 * 262144 + c div 4096 mod 64 * 4096 + c div 64 mod 64 * 64 + c mod 64 = (c :: nat)"
proof -
  have "c div 262144 = c div 4096 div 64" by (simp add: div_mult2_eq [symmetric])
  moreover have "c div 4096 div 64 * 64 + c div 4096 mod 64 = c div 4096" by (rule div_mult_mod_eq)
  ultimately show ?thesis using split3 [of c] by linarith
qed

lemma utf8_decode_char:
  assumes "c < 1114112" "\<not> surrogate c"
  shows "utf8_decode (utf8_char c @ bs) = map_option (Cons c) (utf8_decode bs)"
proof -
  consider "c < 128" | "128 \<le> c" "c < 2048" | "2048 \<le> c" "c < 65536" | "65536 \<le> c" by linarith
  then show ?thesis
  proof cases
    case 1
    then show ?thesis by (simp add: utf8_char_def)
  next
    case 2
    have "2 \<le> c div 64" using div_le_mono [OF 2(1), of 64] by simp
    moreover have "c div 64 < 32" using 2 by (simp add: div_less_iff_less_mult)
    ultimately have "194 \<le> 192 + c div 64" "192 + c div 64 < 224" by simp_all
    with 2 show ?thesis by (simp add: utf8_char_def cont_def)
  next
    case 3
    have "c div 4096 < 16" using 3 by (simp add: div_less_iff_less_mult)
    then show ?thesis using 3 assms(2) by (simp add: utf8_char_def cont_def Let_def split3)
  next
    case 4
    have "c div 262144 < 5" using assms(1) by (simp add: div_less_iff_less_mult)
    then show ?thesis using 4 assms(1) by (simp add: utf8_char_def cont_def Let_def split4)
  qed
qed

lemma utf8_roundtrip: "utf8_encode s = Inr bs \<Longrightarrow> utf8_decode bs = Some s"
proof (induction s arbitrary: bs)
  case (Cons c s)
  then show ?case
    by (auto simp: utf8_encode_def encodable_def utf8_decode_char split: if_splits)
qed (simp add: utf8_encode_def encodable_def)

lemma b64_value_digit [simp]: "n < 64 \<Longrightarrow> b64_value (b64_digit n) = Some n"
  by (auto simp: b64_value_def b64_digit_def)

lemma b64_digit_range: "n < 64 \<Longrightarrow> b64_digit n \<noteq> 61 \<and> b64_digit n < 128"
  by (auto simp: b64_digit_def)

lemma b64_loop_digit [simp]:
  assumes "n < 64"
  shows "b64_loop 0 l p (b64_digit n # cs) = b64_loop 1 n 0 cs"
    and "b64_loop (Suc 0) l p (b64_digit n # cs) = map_option (Cons (l * 4 + n div 16)) (b64_loop 2 (n mod 16) 0 cs)"
    and "b64_loop 2 l p (b64_digit n # cs) = map_option (Cons (l * 16 + n div 4)) (b64_loop 3 (n mod 4) 0 cs)"
    and "b64_loop 3 l p (b64_digit n # cs) = map_option (Cons (l * 64 + n)) (b64_loop 0 0 0 cs)"
  using assms b64_digit_range [OF assms] by simp_all

lemma b64_roundtrip:
  assumes "list_all (\<lambda>b. b < 256) bs"
  shows "b64_decode (b64_encode bs) = Inr bs"
proof -
  have "b64_loop 0 0 0 (b64_encode bs) = Some bs \<and> list_all (\<lambda>c. c < 128) (b64_encode bs)"
    using assms
  proof (induction bs rule: b64_encode.induct)
    case (2 a)
    then have "a div 4 < 64" "a mod 4 * 16 < 64" by auto
    then show ?case by (simp add: b64_digit_range del: b64_loop.simps(2)) (simp add: b64_loop.simps)
  next
    case (3 a b)
    then have "a div 4 < 64" "a mod 4 * 16 + b div 16 < 64" "b mod 16 * 4 < 64" by auto
    moreover have "a div 4 * 4 + (a mod 4 * 16 + b div 16) div 16 = a" using 3 by auto
    ultimately show ?case using 3 by (simp add: b64_digit_range)
  next
    case (4 a b c bs)
    then have "a div 4 < 64" "a mod 4 * 16 + b div 16 < 64" "b mod 16 * 4 + c div 64 < 64" "c mod 64 < 64" by auto
    moreover have "b div 16 < 16" "c div 64 < 4" using 4(2) by (simp_all add: div_less_iff_less_mult)
    then have "b div 16 div 16 = 0" "b div 16 mod 16 * 16 + (b mod 16 + c div 64 div 4) = b"
        "c div 64 mod 4 * 64 + c mod 64 = c" by simp_all
    ultimately show ?case using 4 by (simp add: b64_digit_range)
  qed simp
  then show ?thesis by (simp add: b64_decode_def)
qed

lemma mod_64_less: "n mod 64 < (128 :: nat)"
  by (rule less_trans [of _ 64]) simp_all

lemma utf8_bytes: "utf8_encode s = Inr bs \<Longrightarrow> list_all (\<lambda>b. b < 256) bs"
proof (induction s arbitrary: bs)
  case (Cons c s)
  have "list_all (\<lambda>b. b < 256) (utf8_char c)" if "c < 1114112"
    using that by (simp add: utf8_char_def div_less_iff_less_mult mod_64_less)
  with Cons show ?case by (auto simp: utf8_encode_def encodable_def split: if_splits)
qed (simp add: utf8_encode_def encodable_def)

lemma cipher_decrypt_encrypted:
  assumes "\<And>key nonce p aad. sc_open g key nonce (sc_seal g key nonce p aad) aad = Some p"
    and "\<And>key nonce p aad. list_all (\<lambda>b. b < 256) p \<Longrightarrow> list_all (\<lambda>b. b < 256) (sc_seal g key nonce p aad)"
    and "list_all (\<lambda>b. b < 256) nonce"
    and "cipher_encrypt g k nonce t purpose rid = Inr v"
  shows "cipher_decrypt g k v = Inr t"
proof -
  from assms(4) obtain aad p where e: "utf8_encode (associated (sc_key_version k) purpose rid) = Inr aad"
      "utf8_encode t = Inr p"
      "v = \<lparr>ev_key_version = sc_key_version k, ev_nonce = b64_encode nonce,
         ev_ciphertext = b64_encode (sc_seal g (sc_key k) nonce p aad), ev_associated_data = b64_encode aad\<rparr>"
    by (auto simp: cipher_encrypt_def split: sum.splits)
  have "b64_decode (ev_nonce v) = Inr nonce" using b64_roundtrip [OF assms(3)] by (simp add: e(3))
  moreover have "b64_decode (ev_ciphertext v) = Inr (sc_seal g (sc_key k) nonce p aad)"
    using b64_roundtrip [OF assms(2) [OF utf8_bytes [OF e(2)]]] by (simp add: e(3))
  moreover have "b64_decode (ev_associated_data v) = Inr aad"
    using b64_roundtrip [OF utf8_bytes [OF e(1)]] by (simp add: e(3))
  ultimately show ?thesis
    by (simp add: cipher_decrypt_def assms(1) utf8_roundtrip [OF e(2)])
qed

text \<open>
  A provider key that was encrypted is decrypted to the same text, through UTF-8, the Base64 of
  its three parts and the authenticated encryption, when the latter opens what it sealed.
\<close>

theorem cipher_roundtrip:
  assumes "\<And>key nonce p aad. sc_open g key nonce (sc_seal g key nonce p aad) aad = Some p"
    and "\<And>key nonce p aad. list_all (\<lambda>b. b < 256) p \<Longrightarrow> list_all (\<lambda>b. b < 256) (sc_seal g key nonce p aad)"
    and "list_all (\<lambda>b. b < 256) nonce"
    and "cipher_encrypt g k nonce t purpose rid = Inr v"
  shows "cipher_decrypt g k v = Inr t"
  using assms by (rule cipher_decrypt_encrypted)

text \<open>A cipher that seals with the length of the associated data.\<close>

definition demo_aead :: aead where
  "demo_aead = \<lparr>sc_seal = (\<lambda>k n p a. p @ [length a mod 256]),
     sc_open = (\<lambda>k n ct a. if ct = [] \<or> last ct \<noteq> length a mod 256 then None else Some (butlast ct))\<rparr>"

definition demo_cipher :: secret_cipher where
  "demo_cipher = \<lparr>sc_key = replicate 32 7, sc_key_version = 1\<rparr>"

theorem cipher_roundtrip_witness:
  "\<exists>v. cipher_encrypt demo_aead demo_cipher [1, 2, 3] (asc ''sk-1'') (asc ''provider_api_key'') (asc ''5'') = Inr v
     \<and> cipher_decrypt demo_aead demo_cipher v = Inr (asc ''sk-1'')"
proof -
  have "\<not> isl (cipher_encrypt demo_aead demo_cipher [1, 2, 3] (asc ''sk-1'') (asc ''provider_api_key'') (asc ''5''))"
    by (simp add: cipher_encrypt_def associated_def utf8_encode_def encodable_def surrogate_def demo_cipher_def
        nat_str.simps)
  then obtain v where v: "cipher_encrypt demo_aead demo_cipher [1, 2, 3] (asc ''sk-1'') (asc ''provider_api_key'')
      (asc ''5'') = Inr v"
    by (cases "cipher_encrypt demo_aead demo_cipher [1, 2, 3] (asc ''sk-1'') (asc ''provider_api_key'') (asc ''5'')") auto
  have "cipher_decrypt demo_aead demo_cipher v = Inr (asc ''sk-1'')"
    by (rule cipher_roundtrip [OF _ _ _ v]) (simp_all add: demo_aead_def)
  with v show ?thesis by blast
qed

end
