(* ===== verification/ModelRoles.thy ===== *)
theory ModelRoles
  imports Models
begin

text \<open>
  \<^verbatim>\<open>providers/model_roles.py\<close>: which roles a model of a provider's catalog can take, and the
  order in which models are recommended for a role. \<^verbatim>\<open>str.casefold\<close> is the one of the prelude.
\<close>

definition ROLE_ORDER :: "string list" where
  "ROLE_ORDER = [''conversation_model'', ''transcription_model'', ''speech_model'', ''embedding_model'',
     ''summary_model'']"

fun PREFERENCES :: "string \<Rightarrow> pystr list" where
  "PREFERENCES role =
     (if role = ''transcription_model'' then map asc [''gpt-4o-transcribe'', ''gpt-4o-mini-transcribe'', ''whisper-1'']
      else if role = ''speech_model'' then map asc [''gpt-4o-mini-tts'', ''tts-1-hd'', ''tts-1'']
      else if role = ''embedding_model''
      then map asc [''text-embedding-3-large'', ''text-embedding-3-small'', ''text-embedding-ada-002'']
      else map asc [''gpt-5-mini'', ''gpt-5-nano'', ''gpt-4.1-mini'', ''gpt-4o-mini''])"

definition DENY_MARKERS :: "pystr list" where
  "DENY_MARKERS = map asc [''embedding'', ''transcrib'', ''whisper'', ''tts'', ''audio'', ''realtime'', ''image'',
     ''video'', ''sora'', ''moderation'', ''codex'', ''deep-research'', ''computer-use'', ''fine-tune'', ''ft:'',
     ''chatgpt'']"

text \<open>The advertised capabilities: a set of names, or an object of names and switches.\<close>

datatype capability_input = CapSet "pystr list" | CapMap "(pystr \<times> bool) list"

fun advertised_lower :: "capability_input \<Rightarrow> pystr list" where
  "advertised_lower (CapSet xs) = map casefold xs"
| "advertised_lower (CapMap kvs) = map (casefold \<circ> fst) (filter snd kvs)"

definition denied :: "pystr \<Rightarrow> bool" where
  "denied model_id \<longleftrightarrow> list_ex (\<lambda>m. contains m model_id) DENY_MARKERS"

text \<open>\<^verbatim>\<open>re.match(r"^(gpt-[345]|o[1345](?:-|$))", model_id)\<close>; \<^verbatim>\<open>$\<close> also stands before a
  final line feed.\<close>

definition text_family :: "pystr \<Rightarrow> bool" where
  "text_family s \<longleftrightarrow>
     (starts_with (asc ''gpt-'') s \<and> (case drop 4 s of c # _ \<Rightarrow> c \<in> {51, 52, 53} | [] \<Rightarrow> False))
   \<or> (case s of
        a # b # r \<Rightarrow> a = 111 \<and> b \<in> {49, 51, 52, 53} \<and> (r = [] \<or> r = [10] \<or> hd r = 45)
      | _ \<Rightarrow> False)"

record classified_model =
  cl_roles :: "string list"
  cl_capabilities :: jdict

text \<open>The roles, as the list of those that the set holds in sorted order.\<close>

definition ALL_ROLES :: "string list" where
  "ALL_ROLES = [''conversation_model'', ''embedding_model'', ''speech_model'', ''summary_model'',
     ''transcription_model'']"

definition transcribes :: "pystr \<Rightarrow> bool" where
  "transcribes model_id \<longleftrightarrow> model_id = asc ''whisper-1'' \<or> contains (asc ''transcrib'') model_id"

definition speaks :: "pystr \<Rightarrow> bool" where
  "speaks model_id \<longleftrightarrow> contains (asc ''tts'') model_id \<or> model_id \<in> {asc ''tts-1'', asc ''tts-1-hd''}"

definition embeds :: "pystr \<Rightarrow> pystr list \<Rightarrow> bool" where
  "embeds model_id adv \<longleftrightarrow> starts_with (asc ''text-embedding-'') model_id \<or> asc ''embedding'' \<in> set adv"

definition explicit_chat :: "pystr list \<Rightarrow> bool" where
  "explicit_chat adv \<longleftrightarrow> (\<exists>c \<in> set adv. c \<in> {asc ''chat'', asc ''responses'', asc ''structured_outputs''})"

text \<open>The set of roles, built and cut down in the steps of the code.\<close>

definition role_set :: "pystr \<Rightarrow> pystr list \<Rightarrow> string set" where
  "role_set model_id adv =
     (let roles0 = (if transcribes model_id then {''transcription_model''} else {});
          roles1 = (if speaks model_id then insert ''speech_model'' roles0 else roles0);
          roles2 = (if embeds model_id adv then insert ''embedding_model'' roles1 else roles1);
          roles3 = (if \<not> denied model_id \<and> (text_family model_id \<or> explicit_chat adv)
                    then roles2 \<union> {''conversation_model'', ''summary_model''} else roles2);
          roles4 = (if ''transcription_model'' \<in> roles3
                    then roles3 - {''conversation_model'', ''summary_model''} else roles3)
      in if ''speech_model'' \<in> roles4 then roles4 - {''conversation_model'', ''summary_model''} else roles4)"

definition classify_model :: "pystr \<Rightarrow> capability_input \<Rightarrow> classified_model" where
  "classify_model external_id advertised =
     (let model_id = casefold external_id;
          adv = advertised_lower advertised;
          roles = role_set model_id adv
      in \<lparr>cl_roles = filter (\<lambda>r. r \<in> roles) ALL_ROLES,
          cl_capabilities =
            [(asc ''responses'', JBool (asc ''responses'' \<in> set adv)),
             (asc ''structured_outputs'', JBool (asc ''structured_outputs'' \<in> set adv)),
             (asc ''transcriptions'', JBool (''transcription_model'' \<in> roles)),
             (asc ''speech'', JBool (''speech_model'' \<in> roles)),
             (asc ''embeddings'', JBool (''embedding_model'' \<in> roles))]\<rparr>)"

section \<open>Recommendation\<close>

text \<open>\<^verbatim>\<open>alias.rsplit("-", 1)[0]\<close>\<close>

definition family :: "pystr \<Rightarrow> pystr" where
  "family alias =
     (let r = dropWhile (\<lambda>c. c \<noteq> 45) (rev alias) in if r = [] then alias else rev (tl r))"

fun first_index :: "('a \<Rightarrow> bool) \<Rightarrow> 'a list \<Rightarrow> nat option" where
  "first_index P [] = None"
| "first_index P (x # xs) = (if P x then Some 0 else map_option Suc (first_index P xs))"

definition recommendation_rank :: "string \<Rightarrow> pystr \<Rightarrow> nat \<times> pystr" where
  "recommendation_rank role external_id =
     (let preferred = PREFERENCES role; value = casefold external_id
      in case first_index (\<lambda>a. value = a) preferred of
           Some i \<Rightarrow> (i, value)
         | None \<Rightarrow> (case first_index (\<lambda>a. starts_with (family a @ [45]) value) preferred of
               Some i \<Rightarrow> (i + 10, value)
             | None \<Rightarrow> (1000, value)))"

end
