(* ===== verification/Providers.thy ===== *)
theory Providers
  imports Settings Envelope ModelRoles Orchestration
begin

text \<open>
  \<^verbatim>\<open>providers/service.py\<close>, \<^verbatim>\<open>providers/recommendations.py\<close> and the catalog of
  \<^verbatim>\<open>providers/deterministic.py\<close>: saving a provider and its key, verifying it and reading its
  catalog, revealing and revoking the key, the recommended models and their selection. The
  answer of the provider's catalog request is an argument.
\<close>

record provider_model =
  pm_external_id :: pystr
  pm_display_name :: pystr
  pm_capabilities :: capability_input

section \<open>Saving a provider and its key\<close>

text \<open>\<open>_mask\<close>: four bullets, then the last four characters.\<close>

definition mask_key :: "pystr \<Rightarrow> pystr" where
  "mask_key v = (if 4 \<le> length v then replicate 4 8226 @ drop (length v - 4) v else replicate 4 8226)"

definition new_provider :: "instant \<Rightarrow> string \<Rightarrow> pystr \<Rightarrow> pystr \<Rightarrow> db \<Rightarrow> provider_row" where
  "new_provider now ty name url d =
     \<lparr>row_id = next_id d, created_at = now, updated_at = now, version = 1, pv_type = ty,
      pv_display_name = name, pv_base_url = url, pv_enabled = False,
      pv_verification_state = ''not_verified'', pv_verified_at = None, pv_catalog_refreshed_at = None,
      pv_catalog_state = ''not_loaded'', pv_last_error_code = None, pv_capabilities = [], pv_secret_id = None\<rparr>"

text \<open>The row as it is saved, before the key is looked at.\<close>

definition open_provider ::
  "instant \<Rightarrow> provider_row option \<Rightarrow> string \<Rightarrow> pystr \<Rightarrow> pystr \<Rightarrow> db \<Rightarrow> provider_row \<times> db" where
  "open_provider now old ty name url d =
     (case old of
        None \<Rightarrow> let r = new_provider now ty name url d in (r, (fresh d)\<lparr>providers := providers d @ [r]\<rparr>)
      | Some r0 \<Rightarrow>
          let r = r0\<lparr>pv_type := ty, pv_display_name := name, pv_base_url := url, version := version r0 + 1,
                    pv_verification_state := ''not_verified''\<rparr>
          in (r, d\<lparr>providers := save_row now r (providers d)\<rparr>))"

text \<open>Storing a new key: its secret is added, the provider points to it, the old one is revoked.\<close>

definition replace_key ::
  "instant \<Rightarrow> pystr \<Rightarrow> encrypted_value \<Rightarrow> uuid option \<Rightarrow> provider_row \<Rightarrow> db \<Rightarrow> provider_row \<times> db" where
  "replace_key now key enc old_secret r d =
     (let sec = \<lparr>row_id = next_id d, created_at = now, updated_at = now, version = 1,
                 es_purpose = asc ''provider:'' @ uuid_str (row_id r), es_ciphertext = enc,
                 es_key_version = ev_key_version enc, es_masked_hint = mask_key key,
                 es_verified_at = None, es_revoked_at = None\<rparr>;
          d1 = (fresh d)\<lparr>secrets := secrets d @ [sec]\<rparr>;
          r1 = r\<lparr>pv_secret_id := Some (row_id sec)\<rparr>;
          d2 = d1\<lparr>providers := save_row now r1 (providers d1)\<rparr>;
          d3 = (case old_secret of None \<Rightarrow> d2
                | Some i \<Rightarrow> d2\<lparr>secrets := update_where (\<lambda>s. row_id s = i)
                                (\<lambda>s. s\<lparr>es_revoked_at := Some now, updated_at := now\<rparr>) (secrets d2)\<rparr>)
      in (r1, d3))"

record provider_request =
  pq_id :: "uuid option"
  pq_type :: string
  pq_display_name :: pystr
  pq_base_url :: pystr
  pq_api_key :: "pystr option"
  pq_expected_version :: int

definition provider_save ::
  "aead \<Rightarrow> secret_cipher \<Rightarrow> bytes \<Rightarrow> crypto \<Rightarrow> instant \<Rightarrow> provider_request \<Rightarrow> audit_context \<Rightarrow> db
    \<Rightarrow> provider_row result \<times> db" where
  "provider_save g k nonce c now rq ctx d =
     (let old = (case pq_id rq of None \<Rightarrow> None | Some i \<Rightarrow> get_row i (providers d))
      in if (case old of None \<Rightarrow> False | Some r \<Rightarrow> version r \<noteq> pq_expected_version rq)
         then (Inl (ConflictError None), d)
         else
           let (r, d1) = open_provider now old (pq_type rq) (pq_display_name rq) (pq_base_url rq) d;
               replaced = (case pq_api_key rq of None \<Rightarrow> False | Some key \<Rightarrow> key \<noteq> []);
               audited = (\<lambda>d. audit_append c now ctx ''provider.configuration_saved'' ''success'' None
                            (Some (row_id r)) [(asc ''provider_type'', jstr (pq_type rq)),
                                               (asc ''secret_replaced'', JBool replaced)] d)
           in (case pq_api_key rq of
                 Some key \<Rightarrow>
                   if key = [] then (Inr (r\<lparr>updated_at := now\<rparr>), audited d1)
                   else (case cipher_encrypt g k nonce key (asc ''provider_api_key'') (uuid_str (row_id r)) of
                       Inl e \<Rightarrow> (Inl e, d1)
                     | Inr enc \<Rightarrow>
                         let (r1, d2) = replace_key now key enc
                               (case old of None \<Rightarrow> None | Some r0 \<Rightarrow> pv_secret_id r0) r d1
                         in (Inr (r1\<lparr>updated_at := now\<rparr>), audited d2))
               | None \<Rightarrow> (Inr (r\<lparr>updated_at := now\<rparr>), audited d1)))"

section \<open>Verifying a provider\<close>

definition catalog_key :: "uuid \<Rightarrow> pystr \<Rightarrow> string \<Rightarrow> catalog_entry \<Rightarrow> bool" where
  "catalog_key pid eid role e \<longleftrightarrow> mc_provider_id e = pid \<and> mc_external_id e = eid \<and> mc_role e = role"

text \<open>One model in one role: a new entry, or the old one made available again.\<close>

definition put_catalog ::
  "instant \<Rightarrow> uuid \<Rightarrow> provider_model \<Rightarrow> jdict \<Rightarrow> string \<Rightarrow> db \<Rightarrow> catalog_entry \<times> db" where
  "put_catalog now pid m caps role d =
     (case query_one (catalog_key pid (pm_external_id m) role) (catalog d) of
        None \<Rightarrow>
          let e = \<lparr>row_id = next_id d, created_at = now, updated_at = now, version = 1, mc_provider_id = pid,
                   mc_external_id = pm_external_id m, mc_display_name = pm_display_name m, mc_role = role,
                   mc_capabilities = caps, mc_available = True, mc_last_seen_at = now\<rparr>
          in (e, (fresh d)\<lparr>catalog := catalog d @ [e]\<rparr>)
      | Some old \<Rightarrow>
          let e = old\<lparr>mc_display_name := pm_display_name m, mc_capabilities := caps, mc_available := True,
                     mc_last_seen_at := now\<rparr>
          in (e\<lparr>updated_at := now\<rparr>, d\<lparr>catalog := save_row now e (catalog d)\<rparr>))"

fun put_roles ::
  "instant \<Rightarrow> uuid \<Rightarrow> provider_model \<Rightarrow> jdict \<Rightarrow> string list \<Rightarrow> db \<Rightarrow> catalog_entry list \<times> db" where
  "put_roles now pid m caps [] d = ([], d)"
| "put_roles now pid m caps (role # rs) d =
     (let (e, d1) = put_catalog now pid m caps role d; (es, d2) = put_roles now pid m caps rs d1
      in (e # es, d2))"

fun put_models ::
  "instant \<Rightarrow> uuid \<Rightarrow> provider_model list \<Rightarrow> db \<Rightarrow> catalog_entry list \<times> db" where
  "put_models now pid [] d = ([], d)"
| "put_models now pid (m # ms) d =
     (let cl = classify_model (pm_external_id m) (pm_capabilities m);
          (es, d1) = put_roles now pid m (cl_capabilities cl) (cl_roles cl) d;
          (fs, d2) = put_models now pid ms d1
      in (es @ fs, d2))"

definition withdraw_catalog :: "instant \<Rightarrow> uuid \<Rightarrow> db \<Rightarrow> db" where
  "withdraw_catalog now pid d =
     d\<lparr>catalog := update_where (\<lambda>e. mc_provider_id e = pid \<and> mc_available e)
        (\<lambda>e. e\<lparr>mc_available := False, updated_at := now\<rparr>) (catalog d)\<rparr>"

text \<open>\<open>listed\<close> is the outcome of \<^verbatim>\<open>provider.list_models()\<close>.\<close>

definition provider_verify ::
  "orch_env \<Rightarrow> crypto \<Rightarrow> instant \<Rightarrow> uuid \<Rightarrow> provider_model list result \<Rightarrow> audit_context \<Rightarrow> db
    \<Rightarrow> catalog_entry list result \<times> db" where
  "provider_verify env c now pid listed ctx d =
     (case get_row pid (providers d) of
        None \<Rightarrow> (Inl NotFoundError, d)
      | Some r \<Rightarrow>
          (case provider_runtime env r d of
             Inl e \<Rightarrow> (Inl e, d)
           | Inr _ \<Rightarrow>
               (let failed = (\<lambda>st reason. audit_append c now ctx ''provider.verification_failed'' ''failure'' None
                        (Some (row_id r)) [(asc ''reason'', jstr reason)]
                        (d\<lparr>providers := save_row now (r\<lparr>pv_catalog_state := st\<rparr>) (providers d)\<rparr>))
                in case listed of
                     Inl e \<Rightarrow> (Inl e, failed ''stale_error'' ''catalog_refresh_failed'')
                   | Inr [] \<Rightarrow> (Inl (DomainError ''empty_model_catalog'' 503), failed ''empty'' ''empty_catalog'')
                   | Inr models \<Rightarrow>
                       let r1 = r\<lparr>pv_verification_state := ''verified'', pv_verified_at := Some now,
                                  pv_enabled := True, pv_catalog_refreshed_at := Some now,
                                  pv_catalog_state := ''ready''\<rparr>;
                           d1 = d\<lparr>providers := save_row now r1 (providers d)\<rparr>;
                           (es, d2) = put_models now pid models (withdraw_catalog now pid d1)
                       in (Inr es, audit_append c now ctx ''provider.verified'' ''success'' None (Some (row_id r))
                             [(asc ''model_count'', JInt (int (length models))),
                              (asc ''role_option_count'', JInt (int (length es)))] d2))))"

section \<open>Revealing and revoking the key\<close>

definition reveal_key ::
  "aead \<Rightarrow> secret_cipher \<Rightarrow> crypto \<Rightarrow> instant \<Rightarrow> uuid \<Rightarrow> audit_context \<Rightarrow> db \<Rightarrow> pystr result \<times> db" where
  "reveal_key g k c now pid ctx d =
     (case get_row pid (providers d) of
        None \<Rightarrow> (Inl NotFoundError, d)
      | Some r \<Rightarrow>
          if pv_type r \<notin> {''openai'', ''openai_compatible''} then (Inl NotFoundError, d)
          else (case pv_secret_id r of
              None \<Rightarrow> (Inl (CapabilityUnavailableError ''provider''), d)
            | Some i \<Rightarrow> (case get_row i (secrets d) of
                None \<Rightarrow> (Inl (CapabilityUnavailableError ''provider''), d)
              | Some s \<Rightarrow>
                  if es_revoked_at s \<noteq> None then (Inl (CapabilityUnavailableError ''provider''), d)
                  else (case cipher_decrypt g k (es_ciphertext s) of
                      Inl e \<Rightarrow> (Inl e, d)
                    | Inr key \<Rightarrow> (Inr key,
                        audit_append c now ctx ''provider.secret_revealed'' ''success'' None (Some (row_id r))
                          [(asc ''provider_type'', jstr (pv_type r))] d)))))"

definition revoke_key ::
  "crypto \<Rightarrow> instant \<Rightarrow> uuid \<Rightarrow> audit_context \<Rightarrow> db \<Rightarrow> unit result \<times> db" where
  "revoke_key c now pid ctx d =
     (case get_row pid (providers d) of
        None \<Rightarrow> (Inl NotFoundError, d)
      | Some r \<Rightarrow>
          let d1 = (case pv_secret_id r of None \<Rightarrow> d
                    | Some i \<Rightarrow> d\<lparr>secrets := update_where (\<lambda>s. row_id s = i)
                        (\<lambda>s. s\<lparr>es_revoked_at := Some now, updated_at := now\<rparr>) (secrets d)\<rparr>);
              r1 = r\<lparr>pv_secret_id := None, pv_enabled := False, pv_verification_state := ''not_verified'',
                     version := version r + 1\<rparr>
          in (Inr (), audit_append c now ctx ''provider.secret_revoked'' ''success'' None (Some (row_id r))
                [(asc ''provider_type'', jstr (pv_type r))]
                (d1\<lparr>providers := save_row now r1 (providers d1)\<rparr>)))"

section \<open>Recommendations\<close>

record model_option =
  mo_entry_id :: uuid
  mo_display_name :: pystr
  mo_external_id :: pystr
  mo_recommended :: bool
  mo_first_choice :: bool

record role_options =
  ro_recommended :: "uuid option"
  ro_selected :: json
  ro_ready :: bool
  ro_options :: "model_option list"

definition relevant_models :: "uuid \<Rightarrow> string \<Rightarrow> db \<Rightarrow> catalog_entry list" where
  "relevant_models pid role d =
     sort_key (\<lambda>e. (recommendation_rank role (mc_external_id e), mc_external_id e))
       (filter (\<lambda>e. mc_role e = role) (filter (\<lambda>e. mc_provider_id e = pid \<and> mc_available e) (catalog d)))"

text \<open>\<open>reason\<close> has one text for the first choice of a role and one for any other model.\<close>

definition first_choice :: "string \<Rightarrow> pystr \<Rightarrow> bool" where
  "first_choice role model_id \<longleftrightarrow> model_id = hd (PREFERENCES role)"

definition options_of :: "uuid \<Rightarrow> string \<Rightarrow> db \<Rightarrow> role_options" where
  "options_of pid role d =
     (let relevant = relevant_models pid role d;
          best = (case relevant of [] \<Rightarrow> None | e # _ \<Rightarrow> Some (row_id e))
      in \<lparr>ro_recommended = best,
          ro_selected = (case query_one (\<lambda>r. st_area r = ''models'' \<and> st_key r = role) (settings d) of
                           None \<Rightarrow> JNull | Some r \<Rightarrow> get_or (st_value r) ''value'' JNull),
          ro_ready = (relevant \<noteq> []),
          ro_options = map (\<lambda>e. \<lparr>mo_entry_id = row_id e, mo_display_name = mc_display_name e,
                                 mo_external_id = mc_external_id e, mo_recommended = (Some (row_id e) = best),
                                 mo_first_choice = first_choice role (mc_external_id e)\<rparr>) relevant\<rparr>)"

definition model_options :: "uuid \<Rightarrow> db \<Rightarrow> (provider_row \<times> (string \<times> role_options) list) result" where
  "model_options pid d =
     (case get_row pid (providers d) of
        None \<Rightarrow> Inl (DomainError ''not_found'' 404)
      | Some p \<Rightarrow> Inr (p, map (\<lambda>role. (role, options_of pid role d)) ROLE_ORDER))"

text \<open>\<open>_set_setting\<close>; the definition of each role is in the catalog of the settings.\<close>

definition set_setting :: "instant \<Rightarrow> string \<Rightarrow> json \<Rightarrow> uuid \<Rightarrow> db \<Rightarrow> unit result \<times> db" where
  "set_setting now key v acc d =
     (case by_key (asc ''models'') (asc key) of
        None \<Rightarrow> (Inl KeyError, d)
      | Some s \<Rightarrow>
          let (r, d1) = put_setting now s v acc d
          in (Inr (), add_setting_revision now r v (sd_boundary s) acc ''automatic_recommendation'' d1))"

fun apply_roles ::
  "instant \<Rightarrow> (string \<times> role_options) list \<Rightarrow> uuid \<Rightarrow> db \<Rightarrow> (string \<times> pystr) list result \<times> db" where
  "apply_roles now [] acc d = (Inr [], d)"
| "apply_roles now ((role, opts) # rs) acc d =
     (case ro_recommended opts of
        None \<Rightarrow> apply_roles now rs acc d
      | Some i \<Rightarrow>
          (case set_setting now role (JStr (uuid_str i)) acc d of
             (Inl e, d1) \<Rightarrow> (Inl e, d1)
           | (Inr _, d1) \<Rightarrow>
               (case apply_roles now rs acc d1 of
                  (Inl e, d2) \<Rightarrow> (Inl e, d2)
                | (Inr cs, d2) \<Rightarrow> (Inr ((role, uuid_str i) # cs), d2))))"

definition apply_recommended ::
  "crypto \<Rightarrow> instant \<Rightarrow> uuid \<Rightarrow> uuid \<Rightarrow> audit_context \<Rightarrow> db \<Rightarrow> (string \<times> pystr) list result \<times> db" where
  "apply_recommended c now pid acc ctx d =
     (case model_options pid d of
        Inl e \<Rightarrow> (Inl e, d)
      | Inr (p, roles) \<Rightarrow>
          (case apply_roles now roles acc d of
             (Inl e, d1) \<Rightarrow> (Inl e, d1)
           | (Inr changes, d1) \<Rightarrow>
               (Inr changes, audit_append c now ctx ''models.recommendations_applied'' ''success''
                  (Some ''provider_configuration'') (Some pid)
                  [(asc ''policy_version'', jstr ''2026-07-31.v1''),
                   (asc ''roles_changed'', JList (map JStr (sort (map (asc \<circ> fst) changes))))] d1)))"

section \<open>The requests (api/providers.py)\<close>

text \<open>Saving also verifies the provider and selects the recommended models, in one transaction.\<close>

definition save_and_verify ::
  "orch_env \<Rightarrow> aead \<Rightarrow> secret_cipher \<Rightarrow> bytes \<Rightarrow> crypto \<Rightarrow> instant \<Rightarrow> provider_request
    \<Rightarrow> (provider_row \<Rightarrow> provider_model list result) \<Rightarrow> uuid \<Rightarrow> audit_context \<Rightarrow> db
    \<Rightarrow> (uuid \<times> (string \<times> pystr) list) result \<times> db" where
  "save_and_verify env g k nonce c now rq list_models acc ctx d =
     (case provider_save g k nonce c now rq ctx d of
        (Inl e, d1) \<Rightarrow> (Inl e, d1)
      | (Inr r, d1) \<Rightarrow>
          (case provider_verify env c now (row_id r) (list_models r) ctx d1 of
             (Inl e, d2) \<Rightarrow> (Inl e, d2)
           | (Inr es, d2) \<Rightarrow>
               (case apply_recommended c now (row_id r) acc ctx d2 of
                  (Inl e, d3) \<Rightarrow> (Inl e, d3)
                | (Inr changes, d3) \<Rightarrow> (Inr (row_id r, changes), d3))))"

definition verify_and_apply ::
  "orch_env \<Rightarrow> crypto \<Rightarrow> instant \<Rightarrow> uuid \<Rightarrow> provider_model list result \<Rightarrow> uuid \<Rightarrow> audit_context \<Rightarrow> db
    \<Rightarrow> (string \<times> pystr) list result \<times> db" where
  "verify_and_apply env c now pid listed acc ctx d =
     (case provider_verify env c now pid listed ctx d of
        (Inl e, d1) \<Rightarrow> (Inl e, d1)
      | (Inr es, d1) \<Rightarrow> apply_recommended c now pid acc ctx d1)"

text \<open>\<^verbatim>\<open>DeterministicProvider.list_models\<close>, the provider of the test environment.\<close>

definition deterministic_models :: "provider_model list" where
  "deterministic_models =
     (let model = (\<lambda>eid name caps. \<lparr>pm_external_id = asc ''synthetic-acceptance-'' @ asc eid,
            pm_display_name = asc name, pm_capabilities = CapMap (map (\<lambda>c. (asc c, True)) caps)\<rparr>)
      in [model ''conversation'' ''Synthetic conversation'' [''responses'', ''structured_outputs'', ''chat''],
          model ''transcription'' ''Synthetic transcription'' [''transcriptions''],
          model ''speech'' ''Synthetic speech'' [''speech''],
          model ''embedding'' ''Synthetic embeddings'' [''embeddings'']])"

end
