(* ===== verification/Security.thy ===== *)
theory Security
  imports AuditLog Interfaces
begin

text \<open>
  \<^verbatim>\<open>security/crypto.py\<close> (the password policy and the digests), \<^verbatim>\<open>security/rate_limit.py\<close>,
  \<^verbatim>\<open>realtime/tickets.py\<close> and \<^verbatim>\<open>security/voice_service.py\<close>. Random tokens are
  arguments; the encryption of provider keys is in the theory of envelopes.
\<close>

section \<open>Passwords and digests (security/crypto.py)\<close>

definition COMMON_COMPROMISED :: "pystr list" where
  "COMMON_COMPROMISED = map asc [''password'', ''password123'', ''12345678901234'', ''qwertyuiopasdf'',
     ''letmeinletmein'', ''karmar78karmar78'']"

datatype policy_error = TooShort | TooLong | EqualsUsername | Compromised

definition default_username :: pystr where
  "default_username = asc ''Karmar78''"

definition password_policy_errors :: "pystr \<Rightarrow> pystr \<Rightarrow> policy_error list" where
  "password_policy_errors password username =
     (let normalized = strip (casefold password)
      in (if length password < 8 then [TooShort] else [])
       @ (if 128 < length password then [TooLong] else [])
       @ (if normalized = casefold username then [EqualsUsername] else [])
       @ (if normalized \<in> set COMMON_COMPROMISED then [Compromised] else []))"

definition hash_password :: "crypto \<Rightarrow> pystr \<Rightarrow> pystr result" where
  "hash_password c password =
     (if password_policy_errors password default_username \<noteq> [] then Inl ValueError
      else Inr (pw_hash c password))"

definition verify_password :: "crypto \<Rightarrow> pystr \<Rightarrow> pystr \<Rightarrow> bool \<times> pystr option" where
  "verify_password c stored password =
     (case pw_verify c stored password of
        None \<Rightarrow> (False, None)
      | Some valid \<Rightarrow> (valid, if pw_needs_rehash c stored then Some (pw_hash c password) else None))"

definition token_digest :: "crypto \<Rightarrow> pystr \<Rightarrow> string \<Rightarrow> pystr" where
  "token_digest c token purpose = sha256 c (asc ''kajovodagmar:'' @ asc purpose @ asc '':'' @ token)"

section \<open>Rate limiting (security/rate_limit.py)\<close>

record restriction_decision =
  rd_allowed :: bool
  rd_retry_after_seconds :: int
  rd_next_failed_count :: nat

definition login_delay :: "nat \<Rightarrow> int" where
  "login_delay n = min 3600 (30 * 2 ^ min (n - 5) 7)"

definition evaluate_login_attempt :: "instant \<Rightarrow> nat \<Rightarrow> instant option \<Rightarrow> restriction_decision" where
  "evaluate_login_attempt now failed restricted_until =
     (case restricted_until of
        Some until \<Rightarrow>
          if now < until then \<lparr>rd_allowed = False, rd_retry_after_seconds = max 1 ((until - now) div 1000000),
                              rd_next_failed_count = failed\<rparr>
          else if Suc failed < 5 then \<lparr>rd_allowed = True, rd_retry_after_seconds = 0, rd_next_failed_count = Suc failed\<rparr>
          else \<lparr>rd_allowed = False, rd_retry_after_seconds = login_delay (Suc failed), rd_next_failed_count = Suc failed\<rparr>
      | None \<Rightarrow>
          if Suc failed < 5 then \<lparr>rd_allowed = True, rd_retry_after_seconds = 0, rd_next_failed_count = Suc failed\<rparr>
          else \<lparr>rd_allowed = False, rd_retry_after_seconds = login_delay (Suc failed), rd_next_failed_count = Suc failed\<rparr>)"

definition restriction_until :: "instant \<Rightarrow> nat \<Rightarrow> instant option" where
  "restriction_until now failed = (if failed < 5 then None else Some (now + seconds (login_delay failed)))"

section \<open>Security tokens and realtime tickets (realtime/tickets.py)\<close>

text \<open>The bulk \<^verbatim>\<open>UPDATE\<close> that withdraws the open tokens of an account and a purpose.\<close>

definition invalidate_tokens :: "instant \<Rightarrow> uuid \<Rightarrow> string \<Rightarrow> db \<Rightarrow> db" where
  "invalidate_tokens now acc purpose d =
     d\<lparr>security_tokens := update_where
        (\<lambda>t. tk_account_id t = acc \<and> tk_purpose t = purpose \<and> tk_used_at t = None \<and> tk_invalidated_at t = None)
        (\<lambda>t. t\<lparr>tk_invalidated_at := Some now\<rparr>) (security_tokens d)\<rparr>"

definition add_token ::
  "instant \<Rightarrow> uuid \<Rightarrow> string \<Rightarrow> pystr \<Rightarrow> pystr option \<Rightarrow> instant \<Rightarrow> db \<Rightarrow> db" where
  "add_token now acc purpose digest target expires d =
     (fresh d)\<lparr>security_tokens := security_tokens d @
        [\<lparr>row_id = next_id d, tk_account_id = acc, tk_purpose = purpose, tk_digest = digest,
          tk_target_digest = target, tk_created_at = now, tk_expires_at = expires, tk_used_at = None,
          tk_invalidated_at = None, tk_attempt_count = 0\<rparr>]\<rparr>"

definition issue_ticket :: "crypto \<Rightarrow> instant \<Rightarrow> uuid \<Rightarrow> pystr \<Rightarrow> db \<Rightarrow> (pystr \<times> instant) result \<times> db" where
  "issue_ticket c now acc token d =
     (let expires = now + seconds 60
      in (Inr (token, expires),
          add_token now acc ''realtime_ticket'' (token_digest c token ''realtime_ticket'') None expires
            (invalidate_tokens now acc ''realtime_ticket'' d)))"

definition find_token :: "crypto \<Rightarrow> pystr \<Rightarrow> string \<Rightarrow> db \<Rightarrow> security_token option" where
  "find_token c token purpose d =
     query_one (\<lambda>t. tk_digest t = token_digest c token purpose \<and> tk_purpose t = purpose) (security_tokens d)"

definition token_live :: "instant \<Rightarrow> security_token \<Rightarrow> bool" where
  "token_live now t \<longleftrightarrow> tk_used_at t = None \<and> tk_invalidated_at t = None \<and> now < tk_expires_at t"

definition use_token :: "instant \<Rightarrow> security_token \<Rightarrow> db \<Rightarrow> db" where
  "use_token now t d = d\<lparr>security_tokens := put_row (t\<lparr>tk_used_at := Some now\<rparr>) (security_tokens d)\<rparr>"

definition consume_ticket :: "crypto \<Rightarrow> instant \<Rightarrow> pystr \<Rightarrow> db \<Rightarrow> uuid result \<times> db" where
  "consume_ticket c now token d =
     (case find_token c token ''realtime_ticket'' d of
        None \<Rightarrow> (Inl (DomainError ''realtime_ticket_invalid'' 401), d)
      | Some t \<Rightarrow>
          if \<not> token_live now t then (Inl (DomainError ''realtime_ticket_invalid'' 401), d)
          else (Inr (tk_account_id t), use_token now t d))"

section \<open>The voice service key (security/voice_service.py)\<close>

definition SCOPE :: string where
  "SCOPE = ''voice.realtime.test''"

text \<open>The contents of the key file are an argument: \<open>None\<close> when it cannot be read.\<close>

definition read_key :: "pystr option \<Rightarrow> pystr option" where
  "read_key file = (case file of None \<Rightarrow> None | Some t \<Rightarrow> if strip t = [] then None else Some (strip t))"

definition sync_key_metadata :: "crypto \<Rightarrow> instant \<Rightarrow> pystr option \<Rightarrow> db \<Rightarrow> db" where
  "sync_key_metadata c now file d =
     (case read_key file of
        None \<Rightarrow> d\<lparr>voice_keys := update_where (\<lambda>k. vk_scope k = SCOPE \<and> vk_revoked_at k = None)
                  (\<lambda>k. k\<lparr>vk_revoked_at := Some now, vk_revoke_reason := Some ''secret_file_missing'',
                         updated_at := now\<rparr>) (voice_keys d)\<rparr>
      | Some value \<Rightarrow>
          let digest = token_digest c value ''voice_service_api'';
              d1 = d\<lparr>voice_keys := update_where
                      (\<lambda>k. vk_scope k = SCOPE \<and> vk_secret_digest k \<noteq> digest \<and> vk_revoked_at k = None)
                      (\<lambda>k. k\<lparr>vk_revoked_at := Some now, vk_revoke_reason := Some ''rotated'',
                             updated_at := now\<rparr>) (voice_keys d)\<rparr>
          in case query_one (\<lambda>k. vk_secret_digest k = digest) (voice_keys d1) of
               Some _ \<Rightarrow> d1
             | None \<Rightarrow> (fresh d1)\<lparr>voice_keys := voice_keys d1 @
                 [\<lparr>row_id = next_id d1, created_at = now, updated_at = now, version = 1,
                   vk_key_prefix = take 12 value, vk_secret_digest = digest, vk_scope = SCOPE,
                   vk_last_used_at = None, vk_revoked_at = None, vk_revoke_reason = None,
                   vk_created_by_account_id = None\<rparr>]\<rparr>)"

definition voice_context :: "uuid option \<Rightarrow> string \<Rightarrow> string option \<Rightarrow> audit_context" where
  "voice_context i net corr = \<lparr>ac_actor_type = ''voice_service'', ac_actor_id = i, ac_session_id = None,
     ac_network_context = Some net, ac_correlation_id = corr\<rparr>"

definition voice_authenticate ::
  "crypto \<Rightarrow> instant \<Rightarrow> pystr option \<Rightarrow> pystr option \<Rightarrow> string \<Rightarrow> string option \<Rightarrow> db
    \<Rightarrow> (voice_key \<times> audit_context) result \<times> db" where
  "voice_authenticate c now presented file net corr d =
     (case presented of
        None \<Rightarrow> (Inl UnauthorizedError, d)
      | Some p \<Rightarrow>
          if p = [] \<or> read_key file \<noteq> Some p then (Inl UnauthorizedError, d)
          else
            let digest = token_digest c p ''voice_service_api''
            in case query_one (\<lambda>k. vk_secret_digest k = digest \<and> vk_scope k = SCOPE \<and> vk_revoked_at k = None)
                      (voice_keys d) of
                 None \<Rightarrow> (Inl UnauthorizedError,
                   audit_append c now (voice_context None net corr) ''voice_service.access_denied'' ''denied''
                     None None [(asc ''scope'', jstr SCOPE)] d)
               | Some k \<Rightarrow>
                   let k1 = k\<lparr>vk_last_used_at := Some now\<rparr>;
                       d1 = d\<lparr>voice_keys := save_row now k1 (voice_keys d)\<rparr>;
                       d2 = (case query_one (\<lambda>a. acc_username a = default_username) (accounts d1) of
                               None \<Rightarrow> d1
                             | Some a \<Rightarrow> (fresh d1)\<lparr>access_notices := access_notices d1 @
                                 [\<lparr>row_id = next_id d1, sn_account_id = row_id a, sn_api_key_id = Some (row_id k),
                                   sn_occurred_at = now, sn_result = ''accepted'', sn_endpoint = ''realtime.ticket'',
                                   sn_network_context = Some net, sn_correlation_id = corr,
                                   sn_acknowledged_at = None\<rparr>]\<rparr>)
                   in (Inr (k1\<lparr>updated_at := now\<rparr>, voice_context (Some (row_id k)) net corr),
                       audit_append c now (voice_context (Some (row_id k)) net corr) ''voice_service.access''
                         ''success'' (Some ''voice_service_api_key'') (Some (row_id k))
                         [(asc ''scope'', jstr SCOPE), (asc ''key_prefix'', JStr (vk_key_prefix k)),
                          (asc ''endpoint'', jstr ''realtime.ticket'')] d2))"

definition acknowledge_notice :: "instant \<Rightarrow> uuid \<Rightarrow> uuid \<Rightarrow> db \<Rightarrow> db" where
  "acknowledge_notice now acc nid d =
     (case query_one (\<lambda>n. row_id n = nid \<and> sn_account_id n = acc \<and> sn_acknowledged_at n = None)
             (access_notices d) of
        None \<Rightarrow> d
      | Some n \<Rightarrow> d\<lparr>access_notices := put_row (n\<lparr>sn_acknowledged_at := Some now\<rparr>) (access_notices d)\<rparr>)"

end
