(* ===== verification/Identity.thy ===== *)
theory Identity
  imports Security
begin

text \<open>
  \<^verbatim>\<open>identity/service.py\<close>, \<^verbatim>\<open>identity/schemas.py\<close> and the request guards of
  \<^verbatim>\<open>api/dependencies.py\<close>: the one-time initialisation of the instance,
  logging in, sessions, passwords, and the change of the e-mail address.
  An \<open>UnauthorizedError\<close> is durable: what the operation recorded before it
  is committed (\<open>run_tx\<close>).
\<close>

section \<open>Requests (identity/schemas.py)\<close>

record initialize_request =
  iq_username :: pystr
  iq_initialization_secret :: pystr
  iq_password :: pystr
  iq_password_confirmation :: pystr
  iq_display_name :: pystr
  iq_email :: "pystr option"

text \<open>\<^verbatim>\<open>str.isalnum\<close> on the modelled range of characters.\<close>

definition is_alnum :: "nat \<Rightarrow> bool" where
  "is_alnum ch \<longleftrightarrow> (48 \<le> ch \<and> ch \<le> 57) \<or> (65 \<le> ch \<and> ch \<le> 90) \<or> (97 \<le> ch \<and> ch \<le> 122)
     \<or> ch \<in> {170, 178, 179, 181, 185, 186, 188, 189, 190}
     \<or> (192 \<le> ch \<and> ch \<noteq> 215 \<and> ch \<noteq> 247)"

definition valid_username :: "pystr \<Rightarrow> pystr result" where
  "valid_username value =
     (let normalized = strip value;
          bare = filter (\<lambda>ch. ch \<noteq> 45 \<and> ch \<noteq> 95) normalized
      in if length normalized < 3 \<or> 64 < length normalized
            \<or> bare = [] \<or> \<not> list_all is_alnum bare
            \<or> (normalized \<noteq> default_username \<and> \<not> starts_with (asc ''acceptance-'') normalized)
         then Inl ValueError else Inr normalized)"

definition validate_passwords :: "initialize_request \<Rightarrow> bool" where
  "validate_passwords rq \<longleftrightarrow>
     iq_password rq = iq_password_confirmation rq
   \<and> password_policy_errors (iq_password rq) (iq_username rq) = []"

section \<open>Initialisation\<close>

definition primary_instance :: "db \<Rightarrow> system_instance option" where
  "primary_instance d = query_one (\<lambda>i. si_singleton_key i = ''primary'') (instances d)"

definition initialization_state :: "db \<Rightarrow> string" where
  "initialization_state d =
     (case primary_instance d of None \<Rightarrow> ''uninitialized'' | Some i \<Rightarrow> si_state i)"

definition new_account :: "instant \<Rightarrow> pystr \<Rightarrow> db \<Rightarrow> account" where
  "new_account now name d =
     \<lparr>row_id = next_id d, created_at = now, updated_at = now, version = 1, acc_username = name,
      acc_state = AccActive, acc_failed_login_count = 0, acc_restricted_until = None,
      acc_last_login_at = None\<rparr>"

definition initialize ::
  "crypto \<Rightarrow> instant \<Rightarrow> initialize_request \<Rightarrow> audit_context \<Rightarrow> db \<Rightarrow> account result \<times> db" where
  "initialize c now rq ctx d =
     (if \<not> validate_passwords rq then (Inl ValueError, d)
      else case primary_instance d of
        None \<Rightarrow> (Inl (DomainError ''instance_not_bootstrapped'' 503), d)
      | Some inst \<Rightarrow>
          if si_state inst \<noteq> ''uninitialized'' \<or> si_secret_consumed_at inst \<noteq> None
          then (Inl (ConflictError None), d)
          else if token_digest c (iq_initialization_secret rq) ''initialization'' \<noteq> si_secret_digest inst
          then (Inl UnauthorizedError,
                audit_append c now ctx ''identity.initialization_failed'' ''denied'' None None [] d)
          else if accounts d \<noteq> [] then (Inl (ConflictError None), d)
          else
            let a = new_account now (iq_username rq) d;
                d1 = (fresh d)\<lparr>accounts := accounts d @ [a]\<rparr>
            in case hash_password c (iq_password rq) of
                 Inl e \<Rightarrow> (Inl e, d1)
               | Inr h \<Rightarrow>
                   let d2 = (fresh d1)\<lparr>credentials := credentials d1 @
                              [\<lparr>row_id = next_id d1, created_at = now, updated_at = now, version = 1,
                                cr_account_id = row_id a, cr_password_hash = h, cr_algorithm = ''argon2id'',
                                cr_changed_at = now\<rparr>]\<rparr>;
                       d3 = (fresh d2)\<lparr>profiles := profiles d2 @
                              [\<lparr>row_id = next_id d2, created_at = now, updated_at = now, version = 1,
                                pr_account_id = row_id a, pr_display_name = iq_display_name rq,
                                pr_email = iq_email rq, pr_pending_email = None,
                                pr_email_state = (if iq_email rq = None then EmailNotSet else EmailPending),
                                pr_email_verified_at = None, pr_locale = ''cs-CZ'',
                                pr_timezone = ''Europe/Prague''\<rparr>]\<rparr>;
                       d4 = d3\<lparr>instances := save_row now (inst\<lparr>si_state := ''active'',
                              si_initialized_at := Some now, si_secret_consumed_at := Some now\<rparr>) (instances d3)\<rparr>
                   in (Inr a, audit_append c now
                         ((system_context ''administrator'' (Some (row_id a)))
                            \<lparr>ac_correlation_id := ac_correlation_id ctx\<rparr>)
                         ''identity.initialized'' ''success'' (Some ''administrator_account'') (Some (row_id a)) [] d4))"

section \<open>Logging in\<close>

definition save_account :: "instant \<Rightarrow> account \<Rightarrow> db \<Rightarrow> db" where
  "save_account now a d = d\<lparr>accounts := save_row now a (accounts d)\<rparr>"

definition save_credential :: "instant \<Rightarrow> credential \<Rightarrow> db \<Rightarrow> db" where
  "save_credential now cr d = d\<lparr>credentials := save_row now cr (credentials d)\<rparr>"

definition credential_of :: "uuid \<Rightarrow> db \<Rightarrow> credential option" where
  "credential_of acc d = query_one (\<lambda>cr. cr_account_id cr = acc) (credentials d)"

definition authenticate ::
  "crypto \<Rightarrow> instant \<Rightarrow> pystr \<Rightarrow> pystr \<Rightarrow> audit_context \<Rightarrow> db \<Rightarrow> account result \<times> db" where
  "authenticate c now username password ctx d =
     (case query_one (\<lambda>a. acc_username a = username) (accounts d) of
        None \<Rightarrow> (Inl UnauthorizedError,
          audit_append c now ctx ''identity.login_failed'' ''denied'' None None
            [(asc ''reason'', jstr ''credentials'')] d)
      | Some a \<Rightarrow>
          if (case acc_restricted_until a of None \<Rightarrow> False | Some t \<Rightarrow> now < t)
          then (Inl UnauthorizedError,
            audit_append c now ctx ''identity.login_restricted'' ''denied'' None (Some (row_id a)) [] d)
          else case credential_of (row_id a) d of
            None \<Rightarrow> (Inl (DomainError ''credential_missing'' 503), d)
          | Some cr \<Rightarrow>
              (case verify_password c (cr_password_hash cr) password of
                 (valid, upgraded) \<Rightarrow>
                   if \<not> valid then
                     let n = Suc (acc_failed_login_count a);
                         a1 = a\<lparr>acc_failed_login_count := n, acc_restricted_until := restriction_until now n\<rparr>
                     in (Inl UnauthorizedError,
                         audit_append c now ctx ''identity.login_failed'' ''denied'' None (Some (row_id a))
                           [(asc ''reason'', jstr ''credentials''),
                            (asc ''restricted'', JBool (acc_restricted_until a1 \<noteq> None))]
                           (save_account now a1 d))
                   else
                     let a1 = a\<lparr>acc_failed_login_count := 0, acc_restricted_until := None,
                                acc_last_login_at := Some now\<rparr>;
                         d1 = save_account now a1 d;
                         d2 = (case upgraded of None \<Rightarrow> d1
                               | Some h \<Rightarrow> save_credential now (cr\<lparr>cr_password_hash := h, cr_changed_at := now\<rparr>) d1)
                     in (Inr (a1\<lparr>updated_at := now\<rparr>),
                         audit_append c now ctx ''identity.login_succeeded'' ''success'' None
                           (Some (row_id a)) [] d2)))"

section \<open>Sessions\<close>

record new_session =
  ns_record :: auth_session
  ns_cookie_value :: pystr
  ns_csrf_value :: pystr

definition create_session ::
  "crypto \<Rightarrow> instant \<Rightarrow> uuid \<Rightarrow> audit_context \<Rightarrow> int \<Rightarrow> pystr \<Rightarrow> pystr \<Rightarrow> db \<Rightarrow> new_session result \<times> db" where
  "create_session c now acc ctx idle cookie csrf d =
     (if \<not> (10 \<le> idle \<and> idle \<le> 120) then (Inl ValueError, d)
      else
        let s = \<lparr>row_id = next_id d, as_account_id = acc, as_secret_digest = token_digest c cookie ''session'',
                 as_csrf_digest = token_digest c csrf ''csrf'', as_created_at = now, as_last_activity_at = now,
                 as_expires_at = now + minutes idle, as_absolute_expires_at = now + hours 12,
                 as_revoked_at = None, as_revoke_reason = None, as_network_prefix = ac_network_context ctx,
                 as_user_agent_summary = None, as_device_label = Some (asc ''Webov'' @ [253] @ asc '' prohl'' @ [237, 382] @ asc ''e'' @ [269]),
                 as_active_voice_session_id = None\<rparr>
        in (Inr \<lparr>ns_record = s, ns_cookie_value = cookie, ns_csrf_value = csrf\<rparr>,
            (fresh d)\<lparr>auth_sessions := auth_sessions d @ [s]\<rparr>))"

definition session_live :: "instant \<Rightarrow> auth_session \<Rightarrow> bool" where
  "session_live now s \<longleftrightarrow> as_revoked_at s = None \<and> now < as_expires_at s \<and> now < as_absolute_expires_at s"

definition resolve_session ::
  "crypto \<Rightarrow> instant \<Rightarrow> pystr \<Rightarrow> bool \<Rightarrow> int \<Rightarrow> db \<Rightarrow> (auth_session \<times> account) result \<times> db" where
  "resolve_session c now cookie touch idle d =
     (case query_one (\<lambda>s. as_secret_digest s = token_digest c cookie ''session'') (auth_sessions d) of
        None \<Rightarrow> (Inl UnauthorizedError, d)
      | Some s \<Rightarrow>
          if \<not> session_live now s then (Inl UnauthorizedError, d)
          else case get_row (as_account_id s) (accounts d) of
            None \<Rightarrow> (Inl UnauthorizedError, d)
          | Some a \<Rightarrow>
              if acc_state a \<noteq> AccActive then (Inl UnauthorizedError, d)
              else if \<not> touch then (Inr (s, a), d)
              else
                let s1 = s\<lparr>as_last_activity_at := now,
                           as_expires_at := min (now + minutes idle) (as_absolute_expires_at s)\<rparr>
                in (Inr (s1, a), d\<lparr>auth_sessions := put_row s1 (auth_sessions d)\<rparr>))"

text \<open>\<open>verify_csrf\<close>, and the \<open>csrf_guard\<close> of the API with the same test.\<close>

definition verify_csrf :: "crypto \<Rightarrow> auth_session \<Rightarrow> pystr option \<Rightarrow> unit result" where
  "verify_csrf c s csrf =
     (case csrf of
        None \<Rightarrow> Inl (DomainError ''csrf_failed'' 403)
      | Some t \<Rightarrow> if t = [] \<or> as_csrf_digest s \<noteq> token_digest c t ''csrf''
                  then Inl (DomainError ''csrf_failed'' 403) else Inr ())"

definition revoke_session ::
  "crypto \<Rightarrow> instant \<Rightarrow> auth_session \<Rightarrow> string \<Rightarrow> audit_context \<Rightarrow> db \<Rightarrow> unit result \<times> db" where
  "revoke_session c now s reason ctx d =
     (Inr (), audit_append c now ctx ''identity.session_revoked'' ''success'' (Some ''auth_session'')
        (Some (row_id s)) [(asc ''reason'', jstr reason)]
        (d\<lparr>auth_sessions := put_row (s\<lparr>as_revoked_at := Some now, as_revoke_reason := Some reason\<rparr>)
             (auth_sessions d)\<rparr>))"

definition revoke_where :: "instant \<Rightarrow> string \<Rightarrow> (auth_session \<Rightarrow> bool) \<Rightarrow> db \<Rightarrow> db" where
  "revoke_where now reason P d =
     d\<lparr>auth_sessions := update_where (\<lambda>s. P s \<and> as_revoked_at s = None)
        (\<lambda>s. s\<lparr>as_revoked_at := Some now, as_revoke_reason := Some reason\<rparr>) (auth_sessions d)\<rparr>"

section \<open>Passwords\<close>

text \<open>The audit context names the current session; without one every session of the account is revoked.\<close>

definition change_password ::
  "crypto \<Rightarrow> instant \<Rightarrow> uuid \<Rightarrow> pystr \<Rightarrow> pystr \<Rightarrow> audit_context \<Rightarrow> db \<Rightarrow> string result \<times> db" where
  "change_password c now acc cur new ctx d =
     (if password_policy_errors new default_username \<noteq> [] then (Inl (DomainError ''password_policy'' 422), d)
      else case credential_of acc d of
        None \<Rightarrow> (Inl (DomainError ''credential_missing'' 503), d)
      | Some cr \<Rightarrow>
          if \<not> fst (verify_password c (cr_password_hash cr) cur) then (Inl UnauthorizedError, d)
          else if fst (verify_password c (cr_password_hash cr) new)
          then (Inl (DomainError ''password_reuse'' 422), d)
          else case hash_password c new of
            Inl e \<Rightarrow> (Inl e, d)
          | Inr h \<Rightarrow>
              let d1 = save_credential now (cr\<lparr>cr_password_hash := h, cr_changed_at := now\<rparr>) d;
                  d2 = revoke_where now ''password_changed''
                         (\<lambda>s. as_account_id s = acc \<and> Some (row_id s) \<noteq> ac_session_id ctx) d1
              in (Inr ''changed'', audit_append c now ctx ''identity.password_changed'' ''success'' None
                    (Some acc) [] d2))"

definition synchronize_deployment_password ::
  "crypto \<Rightarrow> instant \<Rightarrow> pystr \<Rightarrow> audit_context \<Rightarrow> db \<Rightarrow> bool result \<times> db" where
  "synchronize_deployment_password c now password ctx d =
     (if password_policy_errors password default_username \<noteq> [] then (Inl (DomainError ''password_policy'' 422), d)
      else case query_one (\<lambda>a. acc_username a = default_username) (accounts d) of
        None \<Rightarrow> (Inr False, d)
      | Some a \<Rightarrow> (case credential_of (row_id a) d of
          None \<Rightarrow> (Inl (DomainError ''credential_missing'' 503), d)
        | Some cr \<Rightarrow> (case hash_password c password of
            Inl e \<Rightarrow> (Inl e, d)
          | Inr h \<Rightarrow>
              let d1 = save_credential now (cr\<lparr>cr_password_hash := h, cr_changed_at := now\<rparr>) d;
                  d2 = save_account now (a\<lparr>acc_failed_login_count := 0, acc_restricted_until := None\<rparr>) d1;
                  d3 = revoke_where now ''deployment_password_sync'' (\<lambda>s. as_account_id s = row_id a) d2
              in (Inr True, audit_append c now ctx ''identity.password_synchronized'' ''success''
                    (Some ''administrator_account'') (Some (row_id a))
                    [(asc ''source'', jstr ''github_actions_production'')] d3))))"

definition issue_reset_token :: "crypto \<Rightarrow> instant \<Rightarrow> uuid \<Rightarrow> pystr \<Rightarrow> db \<Rightarrow> pystr result \<times> db" where
  "issue_reset_token c now acc token d =
     (Inr token, add_token now acc ''password_reset'' (token_digest c token ''password_reset'') None
        (now + minutes 30) (invalidate_tokens now acc ''password_reset'' d))"

definition complete_reset ::
  "crypto \<Rightarrow> instant \<Rightarrow> pystr \<Rightarrow> pystr \<Rightarrow> audit_context \<Rightarrow> db \<Rightarrow> unit result \<times> db" where
  "complete_reset c now token new_password ctx d =
     (if password_policy_errors new_password default_username \<noteq> []
      then (Inl (DomainError ''password_policy'' 422), d)
      else case find_token c token ''password_reset'' d of
        None \<Rightarrow> (Inl (DomainError ''reset_token_invalid'' 400), d)
      | Some t \<Rightarrow>
          if \<not> token_live now t then (Inl (DomainError ''reset_token_invalid'' 400), d)
          else case credential_of (tk_account_id t) d of
            None \<Rightarrow> (Inl (DomainError ''credential_missing'' 503), d)
          | Some cr \<Rightarrow> (case hash_password c new_password of
              Inl e \<Rightarrow> (Inl e, d)
            | Inr h \<Rightarrow>
                let d1 = save_credential now (cr\<lparr>cr_password_hash := h, cr_changed_at := now\<rparr>) d;
                    d2 = use_token now t d1;
                    d3 = revoke_where now ''password_reset'' (\<lambda>s. as_account_id s = tk_account_id t) d2
                in (Inr (), audit_append c now ctx ''identity.password_reset'' ''success'' None
                      (Some (tk_account_id t)) [] d3)))"

definition verify_current_password :: "crypto \<Rightarrow> uuid \<Rightarrow> pystr \<Rightarrow> db \<Rightarrow> unit result" where
  "verify_current_password c acc password d =
     (case credential_of acc d of
        None \<Rightarrow> Inl (DomainError ''credential_missing'' 503)
      | Some cr \<Rightarrow> if fst (verify_password c (cr_password_hash cr) password) then Inr ()
                   else Inl UnauthorizedError)"

section \<open>The e-mail address\<close>

definition profile_of :: "uuid \<Rightarrow> db \<Rightarrow> profile option" where
  "profile_of acc d = query_one (\<lambda>p. pr_account_id p = acc) (profiles d)"

definition begin_email_change ::
  "crypto \<Rightarrow> instant \<Rightarrow> uuid \<Rightarrow> pystr \<Rightarrow> pystr \<Rightarrow> audit_context \<Rightarrow> pystr \<Rightarrow> db \<Rightarrow> pystr result \<times> db" where
  "begin_email_change c now acc email current_password ctx token d =
     (case verify_current_password c acc current_password d of
        Inl e \<Rightarrow> (Inl e, d)
      | Inr _ \<Rightarrow> (case profile_of acc d of
          None \<Rightarrow> (Inl (DomainError ''profile_missing'' 503), d)
        | Some p \<Rightarrow>
            let normalized = casefold (strip email)
            in if (case pr_email p of None \<Rightarrow> False
                   | Some e \<Rightarrow> e \<noteq> [] \<and> normalized = casefold e \<and> pr_email_state p = EmailVerified)
               then (Inl (ConflictError None), d)
               else
                 let d1 = invalidate_tokens now acc ''email_verify'' d;
                     p1 = p\<lparr>pr_pending_email := Some normalized, pr_email_state := EmailPending,
                            version := version p + 1\<rparr>;
                     d2 = d1\<lparr>profiles := save_row now p1 (profiles d1)\<rparr>;
                     d3 = add_token now acc ''email_verify'' (token_digest c token ''email_verify'')
                            (Some (sha256 c normalized)) (now + minutes 30) d2
                 in (Inr token, audit_append c now ctx ''identity.email_change_started'' ''success'' None
                       (Some acc) [(asc ''profile_version'', JInt (version p1))] d3)))"

definition complete_email_verification ::
  "crypto \<Rightarrow> instant \<Rightarrow> pystr \<Rightarrow> audit_context \<Rightarrow> db \<Rightarrow> profile result \<times> db" where
  "complete_email_verification c now token ctx d =
     (case find_token c token ''email_verify'' d of
        None \<Rightarrow> (Inl (DomainError ''email_token_invalid'' 400), d)
      | Some t \<Rightarrow>
          if \<not> token_live now t then (Inl (DomainError ''email_token_invalid'' 400), d)
          else case profile_of (tk_account_id t) d of
            None \<Rightarrow> (Inl (DomainError ''email_change_missing'' 400), d)
          | Some p \<Rightarrow> (case pr_pending_email p of
              None \<Rightarrow> (Inl (DomainError ''email_change_missing'' 400), d)
            | Some pending \<Rightarrow>
                if pending = [] then (Inl (DomainError ''email_change_missing'' 400), d)
                else if (case tk_target_digest t of None \<Rightarrow> True
                         | Some h \<Rightarrow> h = [] \<or> h \<noteq> sha256 c (casefold pending))
                then (Inl (DomainError ''email_target_mismatch'' 400), d)
                else
                  let p1 = p\<lparr>pr_email := Some pending, pr_pending_email := None, pr_email_state := EmailVerified,
                             pr_email_verified_at := Some now, version := version p + 1\<rparr>;
                      d1 = d\<lparr>profiles := save_row now p1 (profiles d)\<rparr>;
                      d2 = use_token now t d1
                  in (Inr (p1\<lparr>updated_at := now\<rparr>),
                      audit_append c now ctx ''identity.email_verified'' ''success'' None
                        (Some (tk_account_id t)) [] d2)))"

section \<open>Request guards (api/dependencies.py)\<close>

record request_identity =
  ri_account :: account
  ri_auth_session :: auth_session
  ri_audit_context :: audit_context

definition current_identity ::
  "crypto \<Rightarrow> instant \<Rightarrow> pystr option \<Rightarrow> int \<Rightarrow> string \<Rightarrow> string option \<Rightarrow> db
    \<Rightarrow> request_identity result \<times> db" where
  "current_identity c now cookie idle net corr d =
     (case cookie of
        None \<Rightarrow> (Inl UnauthorizedError, d)
      | Some v \<Rightarrow>
          if v = [] then (Inl UnauthorizedError, d)
          else case resolve_session c now v True idle d of
            (Inl e, d1) \<Rightarrow> (Inl e, d1)
          | (Inr (s, a), d1) \<Rightarrow>
              (Inr \<lparr>ri_account = a, ri_auth_session = s,
                    ri_audit_context = \<lparr>ac_actor_type = ''administrator'', ac_actor_id = Some (row_id a),
                      ac_session_id = Some (row_id s), ac_network_context = Some net,
                      ac_correlation_id = corr\<rparr>\<rparr>, d1))"

definition csrf_guard ::
  "crypto \<Rightarrow> instant \<Rightarrow> pystr option \<Rightarrow> pystr option \<Rightarrow> int \<Rightarrow> string \<Rightarrow> string option \<Rightarrow> db
    \<Rightarrow> request_identity result \<times> db" where
  "csrf_guard c now cookie csrf idle net corr d =
     (case current_identity c now cookie idle net corr d of
        (Inl e, d1) \<Rightarrow> (Inl e, d1)
      | (Inr i, d1) \<Rightarrow> (case verify_csrf c (ri_auth_session i) csrf of
          Inl e \<Rightarrow> (Inl e, d1)
        | Inr _ \<Rightarrow> (Inr i, d1)))"

end
