(* ===== verification/Notifications.thy ===== *)
theory Notifications
  imports Providers Identity
begin

text \<open>
  \<^verbatim>\<open>notifications/service.py\<close> and \<^verbatim>\<open>notifications/smtp.py\<close>: the configuration of outgoing mail,
  its test and removal, the mail of a password reset and of an e-mail verification. A mail is the
  list of the calls made on the SMTP client; what the server makes of them is a field of
  \<open>mail_env\<close>. The subjects and the wording of the mails are left out; the link is kept.
\<close>

section \<open>Reading the address of the server (urllib.parse)\<close>

text \<open>\<^verbatim>\<open>str.lower\<close> on the modelled range: case folding but for four letters.\<close>

definition lower_char :: "nat \<Rightarrow> pystr" where
  "lower_char c = (if c \<in> {181, 223, 329, 383} then [c] else fold_char c)"

definition py_lower :: "pystr \<Rightarrow> pystr" where
  "py_lower s = concat (map lower_char s)"

fun split_at :: "nat \<Rightarrow> pystr \<Rightarrow> pystr \<times> pystr option" where
  "split_at x [] = ([], None)"
| "split_at x (c # cs) =
     (if c = x then ([], Some cs) else let (a, b) = split_at x cs in (c # a, b))"

text \<open>The text after the last \<open>x\<close>, or the whole text (\<^verbatim>\<open>rpartition\<close>).\<close>

definition after_last :: "nat \<Rightarrow> pystr \<Rightarrow> pystr" where
  "after_last x s = rev (fst (split_at x (rev s)))"

definition scheme_char :: "nat \<Rightarrow> bool" where
  "scheme_char c \<longleftrightarrow> (65 \<le> c \<and> c \<le> 90) \<or> (97 \<le> c \<and> c \<le> 122) \<or> (48 \<le> c \<and> c \<le> 57) \<or> c \<in> {43, 45, 46}"

definition ascii_letter :: "nat \<Rightarrow> bool" where
  "ascii_letter c \<longleftrightarrow> (65 \<le> c \<and> c \<le> 90) \<or> (97 \<le> c \<and> c \<le> 122)"

text \<open>\<open>urlsplit\<close>: control characters dropped, then the scheme, then the part after two slashes.\<close>

definition url_rest :: "pystr \<Rightarrow> pystr" where
  "url_rest url =
     (let u = filter (\<lambda>c. c \<notin> {9, 10, 13}) (dropWhile (\<lambda>c. c \<le> 32) url)
      in case split_at 58 u of
           (s, Some r) \<Rightarrow> if s \<noteq> [] \<and> ascii_letter (hd s) \<and> list_all scheme_char s then r else u
         | _ \<Rightarrow> u)"

definition url_netloc :: "pystr \<Rightarrow> pystr" where
  "url_netloc url =
     (case url_rest url of
        a # b # r \<Rightarrow> if a = 47 \<and> b = 47 then takeWhile (\<lambda>c. c \<notin> {47, 63, 35}) r else []
      | _ \<Rightarrow> [])"

record mail_env =
  me_origin :: pystr
  me_bracketed_host :: "pystr \<Rightarrow> bool"

text \<open>\<open>urlparse\<close> itself: unbalanced brackets, or brackets around no address, are an error.\<close>

definition url_check :: "mail_env \<Rightarrow> pystr \<Rightarrow> unit result" where
  "url_check me url =
     (let n = url_netloc url; l = 91 \<in> set n; r = 93 \<in> set n
      in if l \<noteq> r then Inl ValueError
         else if l \<and> \<not> me_bracketed_host me n then Inl ValueError else Inr ())"

text \<open>\<open>_hostinfo\<close>, \<open>hostname\<close> and \<open>port\<close>.\<close>

definition url_hostinfo :: "pystr \<Rightarrow> pystr \<times> pystr option" where
  "url_hostinfo url =
     (let h = after_last 64 (url_netloc url)
      in case split_at 91 h of
           (_, Some b) \<Rightarrow> (let (host, r) = split_at 93 b in (host, snd (split_at 58 (case r of None \<Rightarrow> [] | Some p \<Rightarrow> p))))
         | (_, None) \<Rightarrow> split_at 58 h)"

definition url_hostname :: "pystr \<Rightarrow> pystr" where
  "url_hostname url =
     (case split_at 37 (fst (url_hostinfo url)) of
        (host, None) \<Rightarrow> py_lower host
      | (host, Some zone) \<Rightarrow> py_lower host @ [37] @ zone)"

fun digits_value :: "int \<Rightarrow> pystr \<Rightarrow> int option" where
  "digits_value acc [] = Some acc"
| "digits_value acc (c # cs) = (if 48 \<le> c \<and> c \<le> 57 then digits_value (acc * 10 + int c - 48) cs else None)"

definition url_port :: "pystr \<Rightarrow> int option result" where
  "url_port url =
     (case snd (url_hostinfo url) of
        None \<Rightarrow> Inr None
      | Some p \<Rightarrow>
          (case (p, digits_value 0 p) of
             ([], _) \<Rightarrow> Inr None
           | (_, None) \<Rightarrow> Inl ValueError
           | (_, Some n) \<Rightarrow> if n \<le> 65535 then Inr (Some n) else Inl ValueError))"

section \<open>The SMTP client (notifications/smtp.py)\<close>

record smtp_config =
  sm_host :: pystr
  sm_port :: int
  sm_username :: "pystr option"
  sm_password :: "pystr option"
  sm_sender :: pystr
  sm_use_starttls :: bool

definition use_implicit_tls :: "smtp_config \<Rightarrow> bool" where
  "use_implicit_tls cfg \<longleftrightarrow> sm_port cfg = 465 \<and> \<not> sm_use_starttls cfg"

datatype smtp_op =
    Connect bool pystr int
  | StartTls
  | Login pystr pystr
  | SendMessage pystr pystr pystr

text \<open>\<open>_send_sync\<close>; the body is the text of the link.\<close>

definition smtp_calls :: "smtp_config \<Rightarrow> pystr \<Rightarrow> pystr \<Rightarrow> smtp_op list" where
  "smtp_calls cfg recipient body =
     [Connect (use_implicit_tls cfg) (sm_host cfg) (sm_port cfg)]
   @ (if sm_use_starttls cfg then [StartTls] else [])
   @ (case (sm_username cfg, sm_password cfg) of
        (Some u, Some p) \<Rightarrow> if u \<noteq> [] \<and> p \<noteq> [] then [Login u p] else []
      | _ \<Rightarrow> [])
   @ [SendMessage (sm_sender cfg) recipient body]"

text \<open>A header value with a line break is refused before anything is sent. \<open>deliver\<close> is the outcome
  of the calls: an exception, or whether a recipient was refused. No \<^verbatim>\<open>Message-ID\<close> is set.\<close>

definition smtp_send ::
  "(smtp_op list \<Rightarrow> bool result) \<Rightarrow> smtp_config \<Rightarrow> pystr \<Rightarrow> pystr \<Rightarrow> pystr result" where
  "smtp_send deliver cfg recipient body =
     (if 10 \<in> set (sm_sender cfg) \<or> 13 \<in> set (sm_sender cfg) \<or> 10 \<in> set recipient \<or> 13 \<in> set recipient
      then Inl ValueError
      else case deliver (smtp_calls cfg recipient body) of
          Inl e \<Rightarrow> Inl e
        | Inr refused \<Rightarrow> if refused then Inl RuntimeError else Inr (asc ''accepted''))"

section \<open>The configuration (notifications/service.py)\<close>

record smtp_request =
  rq_display_name :: pystr
  rq_host :: pystr
  rq_port :: int
  rq_username :: "pystr option"
  rq_password :: "pystr option"
  rq_sender :: pystr
  rq_use_starttls :: bool

definition smtp_row :: "db \<Rightarrow> provider_row option" where
  "smtp_row d = query_one (\<lambda>p. pv_type p = ''smtp'') (providers d)"

definition smtp_url :: "pystr \<Rightarrow> int \<Rightarrow> pystr" where
  "smtp_url host port = asc ''smtp://'' @ host @ [58] @ int_str port"

definition text_or_null :: "pystr option \<Rightarrow> json" where
  "text_or_null t = (case t of None \<Rightarrow> JNull | Some s \<Rightarrow> JStr s)"

definition smtp_capabilities :: "smtp_request \<Rightarrow> jdict" where
  "smtp_capabilities rq =
     [(asc ''username'', text_or_null (rq_username rq)), (asc ''sender'', JStr (rq_sender rq)),
      (asc ''use_starttls'', JBool (rq_use_starttls rq))]"

text \<open>The row as it is written before the password is looked at.\<close>

definition open_smtp :: "instant \<Rightarrow> smtp_request \<Rightarrow> db \<Rightarrow> provider_row \<times> db" where
  "open_smtp now rq d =
     (case smtp_row d of
        None \<Rightarrow>
          let r = (new_provider now ''smtp'' (rq_display_name rq) (smtp_url (rq_host rq) (rq_port rq)) d)
                    \<lparr>pv_capabilities := smtp_capabilities rq\<rparr>
          in (r, (fresh d)\<lparr>providers := providers d @ [r]\<rparr>)
      | Some r0 \<Rightarrow>
          let r = r0\<lparr>pv_display_name := rq_display_name rq, pv_base_url := smtp_url (rq_host rq) (rq_port rq),
                     version := version r0 + 1, pv_enabled := False, pv_verification_state := ''not_verified'',
                     pv_capabilities := smtp_capabilities rq\<rparr>
          in (r, d\<lparr>providers := save_row now r (providers d)\<rparr>))"

definition store_password :: "instant \<Rightarrow> pystr \<Rightarrow> encrypted_value \<Rightarrow> provider_row \<Rightarrow> db \<Rightarrow> provider_row \<times> db" where
  "store_password now password enc r d =
     (let sec = \<lparr>row_id = next_id d, created_at = now, updated_at = now, version = 1,
                 es_purpose = asc ''smtp:'' @ uuid_str (row_id r), es_ciphertext = enc,
                 es_key_version = ev_key_version enc, es_masked_hint = mask_key password,
                 es_verified_at = None, es_revoked_at = None\<rparr>;
          d1 = (fresh d)\<lparr>secrets := secrets d @ [sec]\<rparr>;
          r1 = r\<lparr>pv_secret_id := Some (row_id sec)\<rparr>
      in (r1, d1\<lparr>providers := save_row now r1 (providers d1)\<rparr>))"

definition save_smtp ::
  "aead \<Rightarrow> secret_cipher \<Rightarrow> bytes \<Rightarrow> crypto \<Rightarrow> instant \<Rightarrow> smtp_request \<Rightarrow> audit_context \<Rightarrow> db
    \<Rightarrow> provider_row result \<times> db" where
  "save_smtp g k nonce c now rq ctx d =
     (if \<not> (1 \<le> rq_port rq \<and> rq_port rq \<le> 65535) then (Inl (DomainError ''smtp_port_invalid'' 422), d)
      else
        let (r, d1) = open_smtp now rq d;
            password = (case rq_password rq of None \<Rightarrow> [] | Some p \<Rightarrow> p);
            audited = (\<lambda>d. audit_append c now ctx ''notifications.smtp_saved'' ''success'' None (Some (row_id r))
                [(asc ''host'', JStr (rq_host rq)), (asc ''port'', JInt (rq_port rq)),
                 (asc ''password_replaced'', JBool (password \<noteq> []))] d)
        in if password = [] then (Inr (r\<lparr>updated_at := now\<rparr>), audited d1)
           else (case cipher_encrypt g k nonce password (asc ''smtp_password'') (uuid_str (row_id r)) of
               Inl e \<Rightarrow> (Inl e, d1)
             | Inr enc \<Rightarrow>
                 let (r1, d2) = store_password now password enc r d1
                 in (Inr (r1\<lparr>updated_at := now\<rparr>), audited d2)))"

text \<open>\<open>_mailer\<close>: the row and the configuration read back from it.\<close>

definition stored_password :: "aead \<Rightarrow> secret_cipher \<Rightarrow> provider_row \<Rightarrow> db \<Rightarrow> pystr option result" where
  "stored_password g k r d =
     (case pv_secret_id r of
        None \<Rightarrow> Inr None
      | Some i \<Rightarrow> (case get_row i (secrets d) of
          None \<Rightarrow> Inr None
        | Some s \<Rightarrow>
            if es_revoked_at s \<noteq> None then Inr None
            else (case cipher_decrypt g k (es_ciphertext s) of Inl e \<Rightarrow> Inl e | Inr p \<Rightarrow> Inr (Some p))))"

definition json_text :: "json \<Rightarrow> pystr option" where
  "json_text j = (case j of JStr s \<Rightarrow> Some s | _ \<Rightarrow> None)"

definition mailer ::
  "mail_env \<Rightarrow> aead \<Rightarrow> secret_cipher \<Rightarrow> db \<Rightarrow> (provider_row \<times> smtp_config) result" where
  "mailer me g k d =
     (case smtp_row d of
        None \<Rightarrow> Inl (CapabilityUnavailableError ''email'')
      | Some r \<Rightarrow>
          (case url_check me (pv_base_url r) of
             Inl e \<Rightarrow> Inl e
           | Inr _ \<Rightarrow> (case stored_password g k r d of
               Inl e \<Rightarrow> Inl e
             | Inr password \<Rightarrow> (case url_port (pv_base_url r) of
                 Inl e \<Rightarrow> Inl e
               | Inr port \<Rightarrow>
                   let caps = pv_capabilities r;
                       starttls = truthy (get_or caps ''use_starttls'' (JBool True)) \<and> port \<noteq> Some 465;
                       cfg = \<lparr>sm_host = url_hostname (pv_base_url r),
                              sm_port = (case port of None \<Rightarrow> 587 | Some p \<Rightarrow> if p = 0 then 587 else p),
                              sm_username = json_text (get_or caps ''username'' JNull),
                              sm_password = password,
                              sm_sender = (case json_text (get_or caps ''sender'' (JStr [])) of None \<Rightarrow> [] | Some s \<Rightarrow> s),
                              sm_use_starttls = starttls\<rparr>
                   in if sm_host cfg = [] \<or> sm_sender cfg = []
                      then Inl (CapabilityUnavailableError ''email'') else Inr (r, cfg)))))"

definition test_smtp ::
  "mail_env \<Rightarrow> aead \<Rightarrow> secret_cipher \<Rightarrow> (smtp_op list \<Rightarrow> bool result) \<Rightarrow> crypto \<Rightarrow> instant \<Rightarrow> pystr
    \<Rightarrow> audit_context \<Rightarrow> db \<Rightarrow> unit result \<times> db" where
  "test_smtp me g k deliver c now recipient ctx d =
     (case mailer me g k d of
        Inl e \<Rightarrow> (Inl e, d)
      | Inr (r, cfg) \<Rightarrow> (case smtp_send deliver cfg recipient [] of
          Inl e \<Rightarrow> (Inl e, d)
        | Inr _ \<Rightarrow>
            let r1 = r\<lparr>pv_enabled := True, pv_verification_state := ''verified'', pv_verified_at := Some now\<rparr>
            in (Inr (), audit_append c now ctx ''notifications.smtp_verified'' ''success'' None (Some (row_id r)) []
                  (d\<lparr>providers := save_row now r1 (providers d)\<rparr>))))"

text \<open>Deleting the row: its catalog entries go with it, and runs and attempts refer to no entry of it.\<close>

definition delete_smtp :: "crypto \<Rightarrow> instant \<Rightarrow> audit_context \<Rightarrow> db \<Rightarrow> unit result \<times> db" where
  "delete_smtp c now ctx d =
     (case smtp_row d of
        None \<Rightarrow> (Inr (), d)
      | Some r \<Rightarrow>
          let d1 = d\<lparr>providers := filter (\<lambda>p. row_id p \<noteq> row_id r) (providers d),
                     catalog := filter (\<lambda>e. mc_provider_id e \<noteq> row_id r) (catalog d)\<rparr>;
              d2 = (case pv_secret_id r of None \<Rightarrow> d1
                    | Some i \<Rightarrow> d1\<lparr>secrets := update_where (\<lambda>s. row_id s = i)
                        (\<lambda>s. s\<lparr>es_revoked_at := Some now, updated_at := now\<rparr>) (secrets d1)\<rparr>)
          in (Inr (), audit_append c now ctx ''notifications.smtp_deleted'' ''success''
                (Some ''provider_configuration'') (Some (row_id r))
                [(asc ''secret_removed'', JBool (pv_secret_id r \<noteq> None))] d2))"

section \<open>Mails with a link\<close>

definition new_delivery :: "crypto \<Rightarrow> instant \<Rightarrow> string \<Rightarrow> pystr \<Rightarrow> string \<Rightarrow> jdict \<Rightarrow> db \<Rightarrow> delivery_row" where
  "new_delivery c now kind recipient template params d =
     \<lparr>row_id = next_id d, created_at = now, updated_at = now, version = 1, nd_kind = kind,
      nd_recipient_digest = sha256 c (casefold recipient), nd_state = ''sending'', nd_provider_message_id = None,
      nd_template_id = template, nd_safe_parameters = params, nd_sent_at = None, nd_failed_at = None,
      nd_error_code = None\<rparr>"

text \<open>Adding the delivery, sending, and recording the outcome; a failure is recorded and raised again.\<close>

definition deliver_mail ::
  "(smtp_op list \<Rightarrow> bool result) \<Rightarrow> smtp_config \<Rightarrow> instant \<Rightarrow> pystr \<Rightarrow> pystr \<Rightarrow> delivery_row \<Rightarrow> db
    \<Rightarrow> unit result \<times> db" where
  "deliver_mail deliver cfg now recipient body nd d =
     (let d1 = (fresh d)\<lparr>deliveries := deliveries d @ [nd]\<rparr>
      in case smtp_send deliver cfg recipient body of
           Inl e \<Rightarrow> (Inl e, d1\<lparr>deliveries := save_row now (nd\<lparr>nd_state := ''failed'', nd_failed_at := Some now,
                        nd_error_code := Some ''smtp_delivery_failed''\<rparr>) (deliveries d1)\<rparr>)
         | Inr i \<Rightarrow> (Inr (), d1\<lparr>deliveries := save_row now (nd\<lparr>nd_state := ''sent'', nd_sent_at := Some now,
                        nd_provider_message_id := Some i\<rparr>) (deliveries d1)\<rparr>))"

definition reset_link :: "mail_env \<Rightarrow> pystr \<Rightarrow> pystr" where
  "reset_link me token = me_origin me @ asc ''/reset-password?token='' @ token"

definition verification_link :: "mail_env \<Rightarrow> pystr \<Rightarrow> pystr" where
  "verification_link me token = me_origin me @ asc ''/verify-email?token='' @ token"

definition process_password_reset ::
  "mail_env \<Rightarrow> aead \<Rightarrow> secret_cipher \<Rightarrow> (smtp_op list \<Rightarrow> bool result) \<Rightarrow> crypto \<Rightarrow> instant \<Rightarrow> pystr \<Rightarrow> jdict
    \<Rightarrow> db \<Rightarrow> unit result \<times> db" where
  "process_password_reset me g k deliver c now token payload d =
     (case jget payload ''account_id'' of
        None \<Rightarrow> (Inl KeyError, d)
      | Some j \<Rightarrow> (case (case j of JStr s \<Rightarrow> uuid_parse s | _ \<Rightarrow> None) of
          None \<Rightarrow> (Inl ValueError, d)
        | Some i \<Rightarrow> (case get_row i (accounts d) of
            None \<Rightarrow> (Inr (), d)
          | Some a \<Rightarrow>
              (case query_one (\<lambda>p. pr_account_id p = row_id a) (profiles d) of
                 None \<Rightarrow> (Inl (CapabilityUnavailableError ''password_recovery''), d)
               | Some p \<Rightarrow>
                   (case pr_email p of
                      None \<Rightarrow> (Inl (CapabilityUnavailableError ''password_recovery''), d)
                    | Some email \<Rightarrow>
                        if pr_email_state p \<noteq> EmailVerified \<or> email = []
                        then (Inl (CapabilityUnavailableError ''password_recovery''), d)
                        else (case mailer me g k d of
                            Inl e \<Rightarrow> (Inl e, d)
                          | Inr (_, cfg) \<Rightarrow>
                              let d1 = snd (issue_reset_token c now (row_id a) token d)
                              in deliver_mail deliver cfg now email (reset_link me token)
                                   (new_delivery c now ''password_reset'' email ''password_reset_v1''
                                      [(asc ''account_id'', JStr (uuid_str (row_id a)))] d1) d1))))))"

definition send_email_verification ::
  "mail_env \<Rightarrow> aead \<Rightarrow> secret_cipher \<Rightarrow> (smtp_op list \<Rightarrow> bool result) \<Rightarrow> crypto \<Rightarrow> instant \<Rightarrow> pystr \<Rightarrow> pystr
    \<Rightarrow> db \<Rightarrow> unit result \<times> db" where
  "send_email_verification me g k deliver c now recipient token d =
     (case mailer me g k d of
        Inl e \<Rightarrow> (Inl e, d)
      | Inr (_, cfg) \<Rightarrow>
          deliver_mail deliver cfg now recipient (verification_link me token)
            (new_delivery c now ''email_verification'' recipient ''email_verification_v1'' [] d) d)"

text \<open>\<^verbatim>\<open>POST /profile/email/change\<close>: the change and its mail in one transaction.\<close>

definition change_email ::
  "mail_env \<Rightarrow> aead \<Rightarrow> secret_cipher \<Rightarrow> (smtp_op list \<Rightarrow> bool result) \<Rightarrow> crypto \<Rightarrow> instant \<Rightarrow> uuid \<Rightarrow> pystr
    \<Rightarrow> pystr \<Rightarrow> audit_context \<Rightarrow> pystr \<Rightarrow> db \<Rightarrow> unit result \<times> db" where
  "change_email me g k deliver c now acc email current_password ctx token d =
     (case begin_email_change c now acc email current_password ctx token d of
        (Inl e, d1) \<Rightarrow> (Inl e, d1)
      | (Inr t, d1) \<Rightarrow> send_email_verification me g k deliver c now email t d1)"

end
