(* ===== verification/Exports.thy ===== *)
theory Exports
  imports Orchestration Jobs Envelope
begin

text \<open>
  \<^verbatim>\<open>files/service.py\<close>, \<^verbatim>\<open>files/schemas.py\<close> and the download of \<^verbatim>\<open>api/exports.py\<close>: asking for
  an export, generating its file, listing, downloading and purging. The file system is a list of
  paths with their contents; resolving symbolic links and the outcome of the system calls are
  fields of \<open>export_env\<close>.
\<close>

section \<open>Paths and files\<close>

text \<open>An absolute path is the list of its components.\<close>

type_synonym path = "pystr list"
type_synonym files = "(path \<times> bytes) list"

definition fs_read :: "path \<Rightarrow> files \<Rightarrow> bytes option" where
  "fs_read p fs = map_of fs p"

definition fs_write :: "path \<Rightarrow> bytes \<Rightarrow> files \<Rightarrow> files" where
  "fs_write p b fs = (p, b) # filter (\<lambda>(q, _). q \<noteq> p) fs"

definition fs_remove :: "path \<Rightarrow> files \<Rightarrow> files" where
  "fs_remove p fs = filter (\<lambda>(q, _). q \<noteq> p) fs"

text \<open>\<open>root in path.parents\<close>\<close>

definition below :: "path \<Rightarrow> path \<Rightarrow> bool" where
  "below root p \<longleftrightarrow> length root < length p \<and> take (length root) p = root"

text \<open>\<open>target.with_suffix(target.suffix + ".tmp")\<close>: the suffix is replaced by itself and \<open>.tmp\<close>.\<close>

definition temporary_path :: "path \<Rightarrow> path" where
  "temporary_path p = butlast p @ [last p @ asc ''.tmp'']"

text \<open>\<open>str(path)\<close> and \<open>Path(text)\<close>; the empty component and \<open>.\<close> are dropped.\<close>

definition path_str :: "path \<Rightarrow> pystr" where
  "path_str p = concat (map (\<lambda>c. 47 # c) p)"

fun split_slash :: "pystr \<Rightarrow> pystr \<Rightarrow> pystr list" where
  "split_slash acc [] = [acc]"
| "split_slash acc (c # cs) = (if c = 47 then acc # split_slash [] cs else split_slash (acc @ [c]) cs)"

definition path_of :: "pystr \<Rightarrow> path" where
  "path_of s = filter (\<lambda>c. c \<noteq> [] \<and> c \<noteq> [46]) (split_slash [] s)"

datatype io_step = MakeDirectory | WriteTemporary | ChangeMode | Replace

text \<open>\<open>xe_partial\<close> is what a failing write has put into the temporary file; \<open>xe_str_instant\<close> is
  \<^verbatim>\<open>str(datetime)\<close> and \<open>xe_float\<close> the number text of \<^verbatim>\<open>json.dumps\<close>.\<close>

record export_env =
  xe_root :: path
  xe_resolve :: "path \<Rightarrow> path"
  xe_ok :: "io_step \<Rightarrow> bool"
  xe_partial :: "bytes \<Rightarrow> bytes"
  xe_str_instant :: "instant \<Rightarrow> pystr"
  xe_float :: "64 word \<Rightarrow> pystr"

section \<open>JSON text\<close>

text \<open>\<^verbatim>\<open>json.dumps(value, ensure_ascii=False, indent=2)\<close>.\<close>

definition hex_lower :: "nat \<Rightarrow> nat" where
  "hex_lower n = (if n < 10 then 48 + n else 87 + n)"

definition escape_char :: "nat \<Rightarrow> pystr" where
  "escape_char c =
     (if c = 34 then [92, 34] else if c = 92 then [92, 92] else if c = 10 then [92, 110]
      else if c = 13 then [92, 114] else if c = 9 then [92, 116] else if c = 12 then [92, 102]
      else if c = 8 then [92, 98]
      else if c < 32 then [92, 117, 48, 48, hex_lower (c div 16), hex_lower (c mod 16)] else [c])"

definition quoted :: "pystr \<Rightarrow> pystr" where
  "quoted s = [34] @ concat (map escape_char s) @ [34]"

definition newline :: "nat \<Rightarrow> pystr" where
  "newline level = 10 # replicate (2 * level) 32"

fun json_pretty :: "(64 word \<Rightarrow> pystr) \<Rightarrow> nat \<Rightarrow> json \<Rightarrow> pystr" where
  "json_pretty f n JNull = asc ''null''"
| "json_pretty f n (JBool b) = (if b then asc ''true'' else asc ''false'')"
| "json_pretty f n (JInt i) = int_str i"
| "json_pretty f n (JFloat w) = f w"
| "json_pretty f n (JStr s) = quoted s"
| "json_pretty f n (JList js) =
     (if js = [] then asc ''[]''
      else [91] @ newline (Suc n) @ py_join (44 # newline (Suc n)) (map (json_pretty f (Suc n)) js)
        @ newline n @ [93])"
| "json_pretty f n (JObj d) =
     (if d = [] then asc ''{}''
      else [123] @ newline (Suc n)
        @ py_join (44 # newline (Suc n)) (map (\<lambda>(k, v). quoted k @ asc '': '' @ json_pretty f (Suc n) v) d)
        @ newline n @ [125])"

section \<open>What an export holds\<close>

definition opt_text :: "pystr option \<Rightarrow> json" where
  "opt_text t = (case t of None \<Rightarrow> JNull | Some s \<Rightarrow> JStr s)"

definition at_time :: "export_env \<Rightarrow> instant \<Rightarrow> json" where
  "at_time xe t = JStr (xe_str_instant xe t)"

definition opt_time :: "export_env \<Rightarrow> instant option \<Rightarrow> json" where
  "opt_time xe t = (case t of None \<Rightarrow> JNull | Some x \<Rightarrow> at_time xe x)"

definition message_item :: "export_env \<Rightarrow> message \<Rightarrow> json" where
  "message_item xe m =
     jobj [(''id'', JStr (uuid_str (row_id m))), (''sequence'', JInt (int (ms_sequence m))),
       (''role'', jstr (ms_role m)), (''content'', JStr (ms_content m)), (''status'', jstr (ms_status m)),
       (''interrupted'', JBool (ms_interrupted m)), (''created_at'', at_time xe (created_at m)),
       (''version'', JInt (version m))]"

definition conversation_item :: "export_env \<Rightarrow> db \<Rightarrow> conversation \<Rightarrow> jdict" where
  "conversation_item xe d cv =
     [(asc ''id'', JStr (uuid_str (row_id cv))), (asc ''state'', jstr (conversation_state_str (cv_state cv))),
      (asc ''title'', opt_text (cv_title cv)), (asc ''summary'', opt_text (cv_summary cv)),
      (asc ''summary_source'', jstr (cv_summary_source cv)), (asc ''started_at'', at_time xe (cv_started_at cv)),
      (asc ''ended_at'', opt_time xe (cv_ended_at cv)),
      (asc ''continuation_of_id'', opt_uuid (cv_continuation_of_id cv)), (asc ''version'', JInt (version cv)),
      (asc ''messages'', JList (map (message_item xe)
         (sort_key ms_sequence (filter (\<lambda>m. ms_conversation_id m = row_id cv) (messages d)))))]"

definition version_item :: "export_env \<Rightarrow> memory_version \<Rightarrow> json" where
  "version_item xe v =
     jobj [(''number'', JInt (mv_version_number v)), (''content'', JStr (mv_content v)),
       (''category'', jstr (memory_category_str (mv_category v))),
       (''state'', jstr (memory_state_str (mv_state v))), (''changed_at'', at_time xe (mv_changed_at v))]"

definition source_item :: "memory_source \<Rightarrow> json" where
  "source_item s =
     jobj [(''type'', jstr (origin_str (mo_source_type s))),
       (''conversation_id'', opt_uuid (mo_conversation_id s)), (''message_id'', opt_uuid (mo_message_id s)),
       (''quoted_text'', opt_text (mo_source_excerpt s))]"

definition memory_item_of :: "export_env \<Rightarrow> db \<Rightarrow> memory_item \<Rightarrow> jdict" where
  "memory_item_of xe d i =
     [(asc ''id'', JStr (uuid_str (row_id i))), (asc ''content'', JStr (mi_content i)),
      (asc ''category'', jstr (memory_category_str (mi_category i))),
      (asc ''state'', jstr (memory_state_str (mi_state i))),
      (asc ''origin_type'', jstr (origin_str (mi_origin_type i))),
      (asc ''event_at'', opt_time xe (mi_event_at i)), (asc ''valid_from'', opt_time xe (mi_valid_from i)),
      (asc ''valid_until'', opt_time xe (mi_valid_until i)), (asc ''created_at'', at_time xe (created_at i)),
      (asc ''updated_at'', at_time xe (updated_at i)), (asc ''version'', JInt (version i)),
      (asc ''versions'', JList (map (version_item xe)
         (sort_key mv_version_number (filter (\<lambda>v. mv_memory_id v = row_id i) (memory_versions d))))),
      (asc ''sources'', JList (map source_item (filter (\<lambda>s. mo_memory_id s = row_id i) (memory_sources d))))]"

definition audit_item :: "export_env \<Rightarrow> audit_event \<Rightarrow> jdict" where
  "audit_item xe e =
     [(asc ''id'', JInt (int (ae_id e))), (asc ''occurred_at'', at_time xe (ae_occurred_at e)),
      (asc ''event_name'', jstr (ae_event_type e)), (asc ''actor_type'', jstr (ae_actor_type e)),
      (asc ''actor_id'', opt_uuid (ae_actor_id e)), (asc ''target_type'', opt_str (ae_target_type e)),
      (asc ''target_id'', opt_uuid (ae_target_id e)), (asc ''result'', jstr (ae_result e)),
      (asc ''correlation_id'', opt_str (ae_correlation_id e)), (asc ''details'', JObj (ae_details e)),
      (asc ''event_hash'', JStr (ae_event_hash e))]"

text \<open>A filter of the scope applies when it is a text that is not empty. \<^verbatim>\<open>startswith\<close> is a
  \<^verbatim>\<open>LIKE\<close> that does not escape its argument.\<close>

definition scope_filter :: "jdict \<Rightarrow> string \<Rightarrow> (pystr \<Rightarrow> bool) \<Rightarrow> bool" where
  "scope_filter scope k P = (case get_or scope k JNull of JStr s \<Rightarrow> s = [] \<or> P s | _ \<Rightarrow> True)"

definition audit_selected :: "jdict \<Rightarrow> audit_event \<Rightarrow> bool" where
  "audit_selected scope e \<longleftrightarrow>
     scope_filter scope ''area'' (\<lambda>s. sql_like (s @ [46, 37]) (asc (ae_event_type e)))
   \<and> scope_filter scope ''result'' (\<lambda>s. asc (ae_result e) = s)
   \<and> scope_filter scope ''correlation_id''
       (\<lambda>s. case ae_correlation_id e of None \<Rightarrow> False | Some t \<Rightarrow> asc t = s)"

definition setting_item :: "setting_row \<Rightarrow> jdict" where
  "setting_item s =
     [(asc ''area'', jstr (st_area s)), (asc ''key'', jstr (st_key s)), (asc ''value'', JObj (st_value s)),
      (asc ''schema_version'', jstr (st_schema_version s)), (asc ''version'', JInt (version s))]"

definition open_setting :: "setting_row \<Rightarrow> bool" where
  "open_setting s \<longleftrightarrow>
     \<not> contains (asc ''secret'') (casefold (asc (st_key s)))
   \<and> \<not> contains (asc ''password'') (casefold (asc (st_key s)))"

text \<open>\<open>_payload\<close>: the items and the whole object.\<close>

definition export_items :: "export_env \<Rightarrow> export_record \<Rightarrow> db \<Rightarrow> jdict list" where
  "export_items xe r d =
     (if ex_kind r = ''history''
      then map (conversation_item xe d)
        (sort_key cv_started_at (filter (\<lambda>cv. cv_account_id cv = ex_account_id r) (conversations d)))
      else if ex_kind r = ''memory''
      then map (memory_item_of xe d)
        (sort_key created_at (filter (\<lambda>i. mi_account_id i = ex_account_id r) (memories d)))
      else if ex_kind r = ''audit''
      then map (audit_item xe) (sort_key ae_id (filter (audit_selected (ex_scope r)) (audit_events d)))
      else map setting_item (filter open_setting (settings d)))"

definition export_payload :: "export_env \<Rightarrow> instant \<Rightarrow> export_record \<Rightarrow> db \<Rightarrow> jdict" where
  "export_payload xe now r d =
     [(asc ''schema_version'', JInt 1),
      (asc ''kind'', jstr (if ex_kind r \<in> {''history'', ''memory'', ''audit''} then ex_kind r else ''configuration'')),
      (asc ''generated_at'', at_time xe now)]
   @ (if ex_kind r = ''audit''
      then [(asc ''filters'', jobj (map (\<lambda>k. (k, get_or (ex_scope r) k JNull))
              [''area'', ''result'', ''correlation_id'']))]
      else [])
   @ [(asc ''items'', JList (map JObj (export_items xe r d)))]"

text \<open>\<open>_markdown\<close>: the heading of an item is its first value that is not empty.\<close>

definition heading :: "jdict \<Rightarrow> json" where
  "heading i =
     (let a = get_or i ''title'' JNull; b = get_or i ''content'' JNull; c = get_or i ''key'' JNull
      in if truthy a then a else if truthy b then b else if truthy c then c else get_or i ''id'' JNull)"

definition markdown :: "orch_env \<Rightarrow> export_env \<Rightarrow> instant \<Rightarrow> string \<Rightarrow> jdict list \<Rightarrow> pystr" where
  "markdown env xe now kind items =
     py_join [10]
       ([asc ''# Export K'' @ [225] @ asc ''jovoDagmar '' @ [8211] @ asc '' '' @ asc kind, [],
         asc ''Vytvo'' @ [345] @ asc ''eno: '' @ xe_str_instant xe now, []]
        @ concat (map (\<lambda>i. [asc ''## '' @ py_str env (heading i), [], asc ''```json'',
            json_pretty (xe_float xe) 0 (JObj i), asc ''```'', []]) items))"

definition export_text :: "orch_env \<Rightarrow> export_env \<Rightarrow> instant \<Rightarrow> export_record \<Rightarrow> db \<Rightarrow> pystr" where
  "export_text env xe now r d =
     (if ex_format r = ''json'' then json_pretty (xe_float xe) 0 (JObj (export_payload xe now r d))
      else markdown env xe now (ex_kind r) (export_items xe r d))"

section \<open>Operations\<close>

definition export_request ::
  "crypto \<Rightarrow> instant \<Rightarrow> uuid \<Rightarrow> string \<Rightarrow> string \<Rightarrow> jdict \<Rightarrow> audit_context \<Rightarrow> db \<Rightarrow> export_record result \<times> db" where
  "export_request c now acc kind fmt scope ctx d =
     (if kind \<notin> {''history'', ''memory'', ''configuration'', ''audit''} then (Inl (ConflictError None), d)
      else if fmt \<notin> {''json'', ''markdown''} then (Inl (ConflictError None), d)
      else let r = \<lparr>row_id = next_id d, created_at = now, updated_at = now, version = 1,
                    ex_account_id = acc, ex_kind = kind, ex_state = ''queued'', ex_format = fmt,
                    ex_scope = scope, ex_file_path = None, ex_file_digest = None,
                    ex_expires_at = Some (now + hours 24), ex_completed_at = None, ex_error_code = None\<rparr>;
               d1 = (fresh d)\<lparr>exports := exports d @ [r]\<rparr>;
               d2 = snd (enqueue now ''export_generate'' [(asc ''export_id'', JStr (uuid_str (row_id r)))]
                      100 0 (ac_correlation_id ctx) None d1)
           in (Inr r, audit_append c now ctx ''export.requested'' ''success'' (Some ''export_record'')
                 (Some (row_id r)) [(asc ''kind'', jstr kind), (asc ''format'', jstr fmt)] d2))"

definition export_list :: "uuid \<Rightarrow> db \<Rightarrow> export_record list" where
  "export_list acc d =
     take 100 (sort_key (\<lambda>r. - created_at r) (filter (\<lambda>r. ex_account_id r = acc) (exports d)))"

definition export_get :: "uuid \<Rightarrow> uuid \<Rightarrow> db \<Rightarrow> export_record result" where
  "export_get acc i d =
     (case query_one (\<lambda>r. row_id r = i \<and> ex_account_id r = acc) (exports d) of
        None \<Rightarrow> Inl NotFoundError | Some r \<Rightarrow> Inr r)"

text \<open>Where \<open>generate\<close> puts the file, or the refusal of a path outside the directory.\<close>

definition account_directory :: "export_env \<Rightarrow> export_record \<Rightarrow> path" where
  "account_directory xe r = xe_resolve xe (xe_root xe @ [uuid_str (ex_account_id r)])"

definition export_target :: "export_env \<Rightarrow> export_record \<Rightarrow> path" where
  "export_target xe r =
     xe_resolve xe (account_directory xe r
       @ [uuid_str (row_id r) @ [46] @ asc (if ex_format r = ''json'' then ''json'' else ''md'')])"

text \<open>The system calls in their order; each may fail and leave what the earlier ones did. The name of
  the temporary file is built after the target was resolved and is not resolved itself: when a
  symbolic link stands there, \<^verbatim>\<open>write_bytes\<close> writes the file the link leads to, and \<^verbatim>\<open>replace\<close>
  moves the link, so that the name of the target leads to that file, or, when the link led to the
  target, to itself and to no file any more. Without a link \<open>xe_resolve xe tmp = tmp\<close>.\<close>

definition write_export :: "export_env \<Rightarrow> path \<Rightarrow> bytes \<Rightarrow> files \<Rightarrow> unit result \<times> files" where
  "write_export xe target b fs =
     (let tmp = temporary_path target; written = xe_resolve xe tmp
      in if \<not> xe_ok xe WriteTemporary then (Inl OSError, fs_write written (xe_partial xe b) fs)
         else let fs1 = fs_write written b fs
         in if \<not> xe_ok xe ChangeMode then (Inl OSError, fs1)
         else if \<not> xe_ok xe Replace then (Inl OSError, fs1)
         else if written = target then (Inr (), fs_remove target fs1)
         else (Inr (), fs_write target b (fs_remove tmp fs1)))"

definition export_generate ::
  "orch_env \<Rightarrow> export_env \<Rightarrow> (bytes \<Rightarrow> pystr) \<Rightarrow> instant \<Rightarrow> uuid \<Rightarrow> db \<Rightarrow> files
    \<Rightarrow> unit result \<times> db \<times> files" where
  "export_generate env xe digest now i d fs =
     (case get_row i (exports d) of
        None \<Rightarrow> (Inr (), d, fs)
      | Some r \<Rightarrow>
          if ex_state r = ''completed'' then (Inr (), d, fs)
          else if (case ex_expires_at r of None \<Rightarrow> False | Some t \<Rightarrow> t \<le> now)
          then (Inr (), d\<lparr>exports := save_row now (r\<lparr>ex_state := ''expired''\<rparr>) (exports d)\<rparr>, fs)
          else
            let d1 = d\<lparr>exports := save_row now (r\<lparr>ex_state := ''running''\<rparr>) (exports d)\<rparr>;
                dir = account_directory xe r; target = export_target xe r
            in if \<not> below (xe_root xe) dir then (Inl RuntimeError, d1, fs)
               else if \<not> xe_ok xe MakeDirectory then (Inl OSError, d1, fs)
               else if \<not> below dir target then (Inl RuntimeError, d1, fs)
               else case utf8_encode (export_text env xe now r d) of
                   Inl e \<Rightarrow> (Inl e, d1, fs)
                 | Inr b \<Rightarrow>
                     (case write_export xe target b fs of
                        (Inl e, fs1) \<Rightarrow> (Inl e, d1, fs1)
                      | (Inr _, fs1) \<Rightarrow>
                          (Inr (), d\<lparr>exports := save_row now (r\<lparr>ex_file_path := Some (path_str target),
                             ex_file_digest := Some (digest b), ex_state := ''completed'',
                             ex_completed_at := Some now, version := version r + 1\<rparr>) (exports d)\<rparr>, fs1)))"

definition purgeable :: "instant \<Rightarrow> export_record \<Rightarrow> bool" where
  "purgeable now r \<longleftrightarrow>
     (case ex_expires_at r of None \<Rightarrow> False | Some t \<Rightarrow> t \<le> now)
   \<and> ex_state r \<in> {''queued'', ''running'', ''completed'', ''failed''}"

text \<open>Removing the file of one record: only below the root, and only when it is there.\<close>

definition unlink_export :: "export_env \<Rightarrow> export_record \<Rightarrow> files \<Rightarrow> files" where
  "unlink_export xe r fs =
     (case ex_file_path r of
        None \<Rightarrow> fs
      | Some s \<Rightarrow>
          if s = [] then fs
          else let p = xe_resolve xe (path_of s)
               in if below (xe_root xe) p then fs_remove p fs else fs)"

definition export_purge :: "export_env \<Rightarrow> instant \<Rightarrow> db \<Rightarrow> files \<Rightarrow> db \<times> files" where
  "export_purge xe now d fs =
     (d\<lparr>exports := update_where (purgeable now)
          (\<lambda>r. r\<lparr>ex_state := ''expired'', ex_file_path := None, version := version r + 1, updated_at := now\<rparr>)
          (exports d)\<rparr>,
      foldl (\<lambda>fs r. unlink_export xe r fs) fs (filter (purgeable now) (exports d)))"

text \<open>\<open>download_export\<close>: the bytes that \<^verbatim>\<open>FileResponse\<close> sends.\<close>

definition export_download ::
  "export_env \<Rightarrow> instant \<Rightarrow> uuid \<Rightarrow> uuid \<Rightarrow> db \<Rightarrow> files \<Rightarrow> bytes result" where
  "export_download xe now acc i d fs =
     (case export_get acc i d of
        Inl e \<Rightarrow> Inl e
      | Inr r \<Rightarrow>
          if (case ex_expires_at r of None \<Rightarrow> False | Some t \<Rightarrow> t \<le> now) then Inl (ConflictError None)
          else (case ex_file_path r of
              None \<Rightarrow> Inl (ConflictError None)
            | Some s \<Rightarrow>
                if ex_state r \<noteq> ''completed'' \<or> s = [] then Inl (ConflictError None)
                else let p = xe_resolve xe (path_of s)
                     in if \<not> below (xe_root xe) p then Inl (ConflictError None)
                        else (case fs_read p fs of None \<Rightarrow> Inl (ConflictError None) | Some b \<Rightarrow> Inr b)))"

end
