(* ===== verification/Search.thy ===== *)
theory Search
  imports Complex_Main Orchestration
begin

text \<open>
  \<^verbatim>\<open>search/service.py\<close> and \<^verbatim>\<open>search/constants.py\<close>: the owners of search documents in the order
  of their relevance, by text alone or by reciprocal rank fusion of text and embeddings. The
  provider's embedding call, the formatting of a float and the two measures of the database
  (text rank, vector distance) are fields of \<open>search_env\<close>. A \<^verbatim>\<open>LIMIT\<close> of a ranked list keeps
  its first rows.
\<close>

section \<open>Embeddings\<close>

type_synonym vector = "64 word list"

record search_env =
  sx_embed :: "pystr \<Rightarrow> pystr list \<Rightarrow> vector list result"
  sx_format :: "64 word \<Rightarrow> pystr"
  sx_text_rank :: "pystr \<Rightarrow> pystr \<Rightarrow> rat option"
  sx_distance :: "pystr \<Rightarrow> pystr \<Rightarrow> rat"

definition SEARCH_VECTOR_DIMENSIONS :: nat where
  "SEARCH_VECTOR_DIMENSIONS = 1536"

definition validate_vector_dimensions :: "vector \<Rightarrow> unit result" where
  "validate_vector_dimensions v =
     (if length v \<noteq> SEARCH_VECTOR_DIMENSIONS then Inl ValueError else Inr ())"

definition vector_literal :: "search_env \<Rightarrow> vector \<Rightarrow> pystr" where
  "vector_literal sv v = [91] @ py_join [44] (map (sx_format sv) v) @ [93]"

definition embedding_setting :: "db \<Rightarrow> setting_row option" where
  "embedding_setting d =
     query_one (\<lambda>s. st_area s = ''models'' \<and> st_key s = ''embedding_model'') (settings d)"

text \<open>\<open>_query_embedding\<close>. Only domain errors of the provider are caught.\<close>

definition query_embedding ::
  "orch_env \<Rightarrow> search_env \<Rightarrow> pystr \<Rightarrow> db \<Rightarrow> (vector \<times> pystr) option result" where
  "query_embedding env sv query d =
     (case embedding_setting d of
        None \<Rightarrow> Inr None
      | Some s \<Rightarrow>
          let v = get_or (st_value s) ''value'' JNull
          in if \<not> truthy v then Inr None
             else case uuid_parse (py_str env v) of
               None \<Rightarrow> Inr None
             | Some u \<Rightarrow> (case get_row u (catalog d) of
                 None \<Rightarrow> Inr None
               | Some mdl \<Rightarrow>
                   if \<not> mc_available mdl \<or> \<not> truthy (get_or (mc_capabilities mdl) ''embeddings'' (JBool False))
                   then Inr None
                   else (case get_row (mc_provider_id mdl) (providers d) of
                       None \<Rightarrow> Inr None
                     | Some pv \<Rightarrow>
                         if \<not> pv_enabled pv \<or> pv_verification_state pv \<noteq> ''verified'' then Inr None
                         else (case (case provider_runtime env pv d of
                                       Inl e \<Rightarrow> Inl e
                                     | Inr _ \<Rightarrow> sx_embed sv (mc_external_id mdl) [query]) of
                             Inl (Domain e) \<Rightarrow> Inr None
                           | Inl e \<Rightarrow> Inl e
                           | Inr vs \<Rightarrow>
                               (case vs of
                                  [w] \<Rightarrow> (case validate_vector_dimensions w of
                                      Inl _ \<Rightarrow> Inr None
                                    | Inr _ \<Rightarrow> Inr (Some (w, mc_external_id mdl)))
                                | _ \<Rightarrow> Inr None)))))"

section \<open>Ranking\<close>

definition searchable :: "uuid \<Rightarrow> string \<Rightarrow> search_document \<Rightarrow> bool" where
  "searchable acc ty sd \<longleftrightarrow> sd_account_id sd = acc \<and> sd_owner_type sd = ty \<and> \<not> sd_stale sd"

text \<open>The documents that match the text query, by falling rank, then by owner.\<close>

definition text_hits :: "search_env \<Rightarrow> uuid \<Rightarrow> string \<Rightarrow> pystr \<Rightarrow> db \<Rightarrow> uuid list" where
  "text_hits sv acc ty query d =
     map snd (sort_key id
       (map (\<lambda>sd. (- the (sx_text_rank sv (sd_searchable_text sd) query), sd_owner_id sd))
         (filter (\<lambda>sd. searchable acc ty sd \<and> sx_text_rank sv (sd_searchable_text sd) query \<noteq> None)
           (search_documents d))))"

text \<open>The documents with an embedding of the model, by rising distance, then by owner.\<close>

definition semantic_hits :: "search_env \<Rightarrow> uuid \<Rightarrow> string \<Rightarrow> pystr \<Rightarrow> pystr \<Rightarrow> db \<Rightarrow> uuid list" where
  "semantic_hits sv acc ty vec model d =
     map snd (sort_key id
       (concat (map (\<lambda>sd. map (\<lambda>se. (sx_distance sv (se_vector_data se) vec, sd_owner_id sd))
            (filter (\<lambda>se. se_document_id se = row_id sd \<and> se_model_id se = model) (search_embeddings d)))
          (filter (searchable acc ty) (search_documents d)))))"

text \<open>\<^verbatim>\<open>1.0 / (60.0 + rank_position)\<close>, summed over the positions of an owner.\<close>

fun rrf_from :: "nat \<Rightarrow> uuid list \<Rightarrow> uuid \<Rightarrow> rat" where
  "rrf_from k [] i = 0"
| "rrf_from k (x # xs) i = (if x = i then 1 / (60 + of_nat k) else 0) + rrf_from (Suc k) xs i"

definition rrf_score :: "uuid list \<Rightarrow> uuid list \<Rightarrow> uuid \<Rightarrow> rat" where
  "rrf_score ts ss i = rrf_from 1 ts i + rrf_from 1 ss i"

definition fuse :: "nat \<Rightarrow> uuid list \<Rightarrow> uuid list \<Rightarrow> uuid list" where
  "fuse limit ts ss =
     take limit (sort_key (\<lambda>i. (- rrf_score ts ss i, i)) (remdups (ts @ ss)))"

definition candidate_limit :: "nat \<Rightarrow> nat" where
  "candidate_limit limit = max (limit * 4) 40"

definition ranked_owner_ids ::
  "orch_env \<Rightarrow> search_env \<Rightarrow> uuid \<Rightarrow> string \<Rightarrow> pystr \<Rightarrow> nat \<Rightarrow> db \<Rightarrow> uuid list result" where
  "ranked_owner_ids env sv acc ty query limit d =
     (let q = strip query
      in if q = [] then Inr []
         else (case query_embedding env sv q d of
             Inl e \<Rightarrow> Inl e
           | Inr None \<Rightarrow> Inr (take limit (text_hits sv acc ty q d))
           | Inr (Some (v, model)) \<Rightarrow>
               Inr (fuse limit
                 (take (candidate_limit limit) (text_hits sv acc ty q d))
                 (take (candidate_limit limit) (semantic_hits sv acc ty (vector_literal sv v) model d)))))"

section \<open>Properties\<close>

lemma rrf_from_nonneg: "0 \<le> rrf_from k xs i"
  by (induction xs arbitrary: k) auto

lemma rrf_from_absent: "i \<notin> set xs \<Longrightarrow> rrf_from k xs i = 0"
  by (induction xs arbitrary: k) auto

lemma rrf_from_pos: "i \<in> set xs \<Longrightarrow> 0 < rrf_from k xs i"
proof (induction xs arbitrary: k)
  case (Cons x xs)
  have "0 < (1 / (60 + of_nat k) :: rat)"
    by (intro divide_pos_pos) (auto intro: add_pos_nonneg)
  with Cons rrf_from_nonneg [of "Suc k" xs i] show ?case by (auto intro: add_pos_nonneg)
qed simp

text \<open>In a list without repetitions an owner scores by its place.\<close>

lemma rrf_from_nth:
  "distinct xs \<Longrightarrow> j < length xs \<Longrightarrow> rrf_from k xs (xs ! j) = 1 / (60 + of_nat (k + j))"
proof (induction xs arbitrary: j k)
  case (Cons x xs)
  then show ?case
    by (cases j) (auto simp: rrf_from_absent)
qed simp

text \<open>\<open>ahead xs a b\<close>: the list ranks \<open>a\<close> before \<open>b\<close>, or does not hold \<open>b\<close>.\<close>

definition ahead :: "uuid list \<Rightarrow> uuid \<Rightarrow> uuid \<Rightarrow> bool" where
  "ahead xs a b \<longleftrightarrow> b \<notin> set xs \<or> (\<exists>j k. j < k \<and> k < length xs \<and> xs ! j = a \<and> xs ! k = b)"

lemma ahead_score:
  assumes "distinct xs" "ahead xs a b"
  shows "rrf_from 1 xs b \<le> rrf_from 1 xs a" and "b \<in> set xs \<or> a \<in> set xs \<Longrightarrow> rrf_from 1 xs b < rrf_from 1 xs a"
proof -
  have s: "rrf_from 1 xs b < rrf_from 1 xs a" if "b \<in> set xs"
  proof -
    from assms(2) that obtain j k where jk: "j < k" "k < length xs" "xs ! j = a" "xs ! k = b"
      by (auto simp: ahead_def)
    have "rrf_from 1 xs a = 1 / (60 + of_nat (1 + j))" "rrf_from 1 xs b = 1 / (60 + of_nat (1 + k))"
      using rrf_from_nth [OF assms(1), of j 1] rrf_from_nth [OF assms(1), of k 1] jk by auto
    moreover have "(1 / (60 + of_nat (1 + k)) :: rat) < 1 / (60 + of_nat (1 + j))"
      using jk(1) by (intro divide_strict_left_mono mult_pos_pos add_pos_nonneg) auto
    ultimately show ?thesis by simp
  qed
  show "rrf_from 1 xs b \<le> rrf_from 1 xs a"
    using s by (cases "b \<in> set xs") (auto simp: rrf_from_absent rrf_from_nonneg)
  show "rrf_from 1 xs b < rrf_from 1 xs a" if "b \<in> set xs \<or> a \<in> set xs"
    using that s by (cases "b \<in> set xs") (auto simp: rrf_from_absent rrf_from_pos)
qed

text \<open>The lists of hits, without repetitions and only of documents in view.\<close>

lemma map_snd_sort: "set (map snd (sort_key id xs)) = snd ` set xs"
  by simp

lemma distinct_snd_sort: "distinct (map snd xs) \<Longrightarrow> distinct (map snd (sort_key id xs))"
  by (metis (no_types, lifting) distinct_map distinct_sort set_sort)

lemma distinct_owners:
  assumes "constraints d"
  shows "distinct (map sd_owner_id (filter (searchable acc ty) (search_documents d)))"
proof -
  let ?t = "filter (searchable acc ty) (search_documents d)"
  have "distinct (map (\<lambda>r. (sd_owner_type r, sd_owner_id r)) ?t)"
    using assms by (intro distinct_map_filter) (simp add: constraints_def unique_by_def)
  moreover have "map (\<lambda>r. (sd_owner_type r, sd_owner_id r)) ?t = map (\<lambda>r. (ty, sd_owner_id r)) ?t"
    by (auto simp: searchable_def)
  ultimately show ?thesis by (auto simp: distinct_map inj_on_def)
qed

lemma text_hits_distinct: "constraints d \<Longrightarrow> distinct (text_hits sv acc ty q d)"
  unfolding text_hits_def
  by (intro distinct_snd_sort)
    (simp add: comp_def filter_filter [symmetric] distinct_map_filter distinct_owners
      del: filter_filter not_None_eq)

lemma text_hits_visible:
  "i \<in> set (text_hits sv acc ty q d) \<Longrightarrow>
     \<exists>sd \<in> set (search_documents d). searchable acc ty sd \<and> sd_owner_id sd = i"
  by (auto simp: text_hits_def)

lemma semantic_hits_visible:
  "i \<in> set (semantic_hits sv acc ty v m d) \<Longrightarrow>
     \<exists>sd \<in> set (search_documents d). searchable acc ty sd \<and> sd_owner_id sd = i"
  by (auto simp: semantic_hits_def)

lemma embeddings_of_document:
  assumes "constraints d"
  shows "length (filter (\<lambda>se. se_document_id se = i \<and> se_model_id se = m) (search_embeddings d)) \<le> 1"
proof -
  let ?t = "filter (\<lambda>se. se_document_id se = i \<and> se_model_id se = m) (search_embeddings d)"
  have "distinct (map (\<lambda>r. (se_document_id r, se_model_id r)) ?t)"
    using assms by (intro distinct_map_filter) (simp add: constraints_def unique_by_def)
  moreover have "map (\<lambda>r. (se_document_id r, se_model_id r)) ?t = replicate (length ?t) (i, m)"
    by (rule replicate_eqI) auto
  ultimately have "distinct (replicate (length ?t) (i, m))" by simp
  then show ?thesis by (cases "length ?t"; cases "length ?t - 1") auto
qed

lemma distinct_concat_short:
  assumes "distinct (map g xs)" "\<And>x. x \<in> set xs \<Longrightarrow> length (f x) \<le> 1"
    and "\<And>x y. x \<in> set xs \<Longrightarrow> y \<in> set (f x) \<Longrightarrow> h y = g x"
  shows "distinct (map h (concat (map f xs)))"
  using assms
proof (induction xs)
  case (Cons x xs)
  then have "distinct (map h (concat (map f xs)))" by simp
  moreover have "f x = [] \<or> (\<exists>y. f x = [y])" using Cons.prems(2) [of x] by (cases "f x") auto
  moreover have "h y \<noteq> g x" if "z \<in> set xs" "y \<in> set (f z)" for y z
  proof -
    have "h y = g z" using that by (intro Cons.prems(3)) auto
    moreover have "g z \<in> set (map g xs)" "g x \<notin> set (map g xs)" using that(1) Cons.prems(1) by auto
    ultimately show ?thesis by metis
  qed
  moreover have "h y = g x" if "y \<in> set (f x)" for y using Cons.prems(3) [of x y] that by simp
  ultimately show ?case by (elim disjE exE) (simp, fastforce)
qed simp

lemma semantic_hits_distinct: "constraints d \<Longrightarrow> distinct (semantic_hits sv acc ty v m d)"
  unfolding semantic_hits_def
  by (intro distinct_snd_sort distinct_concat_short [OF distinct_owners])
    (auto simp: embeddings_of_document simp del: One_nat_def)

lemma sort_key_before:
  assumes "a \<in> set xs" "b \<in> set (take n (sort_key f xs))" "f a < f b"
  shows "\<exists>i j. i < j \<and> j < length (take n (sort_key f xs)) \<and> take n (sort_key f xs) ! i = a
           \<and> take n (sort_key f xs) ! j = b"
proof -
  let ?s = "sort_key f xs"
  obtain j where j: "j < length (take n ?s)" "take n ?s ! j = b"
    using assms(2) by (auto simp: in_set_conv_nth)
  obtain i where i: "i < length ?s" "?s ! i = a"
    using assms(1) by (metis in_set_conv_nth set_sort)
  have "i < j"
  proof (rule ccontr)
    assume "\<not> i < j"
    then have "map f ?s ! j \<le> map f ?s ! i"
      using i(1) by (intro sorted_nth_mono) auto
    with i j \<open>\<not> i < j\<close> assms(3) show False by auto
  qed
  with i j show ?thesis by (intro exI [of _ i] exI [of _ j]) auto
qed

text \<open>C20. A search returns each owner at most once, at most \<open>limit\<close> of them, and only owners of
  documents of the account, of the kind asked for, whose index entry is not stale.\<close>

theorem search_isolated:
  assumes "constraints d" "ranked_owner_ids env sv acc ty q limit d = Inr ids"
  shows "distinct ids \<and> length ids \<le> limit
    \<and> (\<forall>i \<in> set ids. \<exists>sd \<in> set (search_documents d).
         sd_owner_id sd = i \<and> sd_account_id sd = acc \<and> sd_owner_type sd = ty \<and> \<not> sd_stale sd)"
proof -
  have "distinct ids \<and> length ids \<le> limit
    \<and> (\<forall>i \<in> set ids. \<exists>sd \<in> set (search_documents d). searchable acc ty sd \<and> sd_owner_id sd = i)"
    using assms(2) text_hits_distinct [OF assms(1)]
    by (auto simp: ranked_owner_ids_def Let_def fuse_def
        dest!: in_set_takeD text_hits_visible semantic_hits_visible split: if_splits sum.splits option.splits)
  then show ?thesis by (auto simp: searchable_def)
qed

text \<open>With an embedding of the query, an owner that neither list ranks behind another comes
  before it in the answer: reciprocal rank fusion respects what the two rankings agree on.\<close>

theorem search_respects_rankings:
  assumes "constraints d" "strip q \<noteq> []"
    and "query_embedding env sv (strip q) d = Inr (Some (v, model))"
    and "ranked_owner_ids env sv acc ty q limit d = Inr ids"
    and "ts = take (candidate_limit limit) (text_hits sv acc ty (strip q) d)"
    and "ss = take (candidate_limit limit) (semantic_hits sv acc ty (vector_literal sv v) model d)"
    and "ahead ts a b" "ahead ss a b" "b \<in> set ids"
  shows "\<exists>i j. i < j \<and> j < length ids \<and> ids ! i = a \<and> ids ! j = b"
proof -
  let ?f = "\<lambda>i. (- rrf_score ts ss i, i)"
  have ids: "ids = take limit (sort_key ?f (remdups (ts @ ss)))"
    using assms(2-6) by (simp add: ranked_owner_ids_def Let_def fuse_def)
  have dist: "distinct ts" "distinct ss"
    using assms(1,5,6) by (simp_all add: text_hits_distinct semantic_hits_distinct)
  have b: "b \<in> set ts \<or> b \<in> set ss"
    using assms(9) unfolding ids by (auto dest: in_set_takeD)
  then have a: "a \<in> set (remdups (ts @ ss))"
    using assms(7,8) by (auto simp: ahead_def)
  have "rrf_score ts ss b < rrf_score ts ss a"
    unfolding rrf_score_def
    using ahead_score [OF dist(1) assms(7)] ahead_score [OF dist(2) assms(8)] b
    by (auto intro: add_less_le_mono add_le_less_mono)
  then show ?thesis using sort_key_before [OF a, of b limit ?f] assms(9) unfolding ids by simp
qed

section \<open>A small index\<close>

text \<open>Two memory items of account 7 with embeddings of the selected model; the first is the better
  match by text and the nearer one.\<close>

definition small_document :: "uuid \<Rightarrow> uuid \<Rightarrow> pystr \<Rightarrow> search_document" where
  "small_document i owner t = \<lparr>row_id = i, created_at = 0, updated_at = 0, version = 1, sd_owner_type = ''memory'',
     sd_owner_id = owner, sd_account_id = 7, sd_searchable_text = t, sd_language = ''czech'',
     sd_source_version = 1, sd_stale = False, sd_indexed_at = 0\<rparr>"

definition small_embedding :: "uuid \<Rightarrow> uuid \<Rightarrow> pystr \<Rightarrow> search_embedding" where
  "small_embedding i doc t = \<lparr>row_id = i, created_at = 0, updated_at = 0, version = 1, se_document_id = doc,
     se_model_id = [109], se_dimensions = 1536, se_embedding_text = t, se_source_hash = [], se_vector_data = t\<rparr>"

definition small_index :: db where
  "small_index = empty_db\<lparr>next_id := 30,
     providers := [\<lparr>row_id = 3, created_at = 0, updated_at = 0, version = 1, pv_type = ''deterministic'',
       pv_display_name = [], pv_base_url = [], pv_enabled = True, pv_verification_state = ''verified'',
       pv_verified_at = None, pv_catalog_refreshed_at = None, pv_catalog_state = ''ready'',
       pv_last_error_code = None, pv_capabilities = [], pv_secret_id = None\<rparr>],
     catalog := [\<lparr>row_id = 4, created_at = 0, updated_at = 0, version = 1, mc_provider_id = 3,
       mc_external_id = [109], mc_display_name = [], mc_role = ''embedding_model'',
       mc_capabilities = [(asc ''embeddings'', JBool True)], mc_available = True, mc_last_seen_at = 0\<rparr>],
     settings := [\<lparr>row_id = 5, created_at = 0, updated_at = 0, version = 1, st_area = ''models'',
       st_key = ''embedding_model'', st_value = [(asc ''value'', JStr (uuid_str 4))],
       st_schema_version = ''1'', st_effect_boundary = ''immediate'', st_changed_by = None\<rparr>],
     search_documents := [small_document 10 20 [1], small_document 11 21 [1, 1]],
     search_embeddings := [small_embedding 12 10 [1], small_embedding 13 11 [1, 1]]\<rparr>"

definition small_search :: search_env where
  "small_search = \<lparr>sx_embed = (\<lambda>_ ts. Inr (map (\<lambda>_. replicate SEARCH_VECTOR_DIMENSIONS 0) ts)),
     sx_format = (\<lambda>_. [48]), sx_text_rank = (\<lambda>t _. Some (- of_nat (length t))),
     sx_distance = (\<lambda>t _. of_nat (length t))\<rparr>"

lemma small_constraints: "constraints small_index"
  by (simp add: small_index_def small_document_def small_embedding_def constraints_def unique_by_def empty_db_def)

lemma small_query: "query_embedding plain_env small_search q small_index
    = Inr (Some (replicate SEARCH_VECTOR_DIMENSIONS 0, [109]))"
proof -
  have "uuid_str 4 \<noteq> []" by (simp add: uuid_str_def Let_def)
  then show ?thesis
    using uuid_parse_str [of 4]
    by (simp add: query_embedding_def embedding_setting_def small_index_def query_one_def get_or_def jget_def
        Let_def provider_runtime_def plain_env_def small_search_def validate_vector_dimensions_def)
qed

lemma small_hits:
  "text_hits small_search 7 ''memory'' q small_index = [20, 21]"
  "semantic_hits small_search 7 ''memory'' v [109] small_index = [20, 21]"
  by (simp_all add: text_hits_def semantic_hits_def searchable_def small_index_def small_document_def
      small_embedding_def small_search_def)

lemma small_ranked: "ranked_owner_ids plain_env small_search 7 ''memory'' [116] 5 small_index = Inr [20, 21]"
  by (simp add: ranked_owner_ids_def small_query small_hits strip_def lstrip_def is_space_def Let_def fuse_def
      candidate_limit_def rrf_score_def)

theorem search_isolated_witness:
  "ranked_owner_ids plain_env small_search 7 ''memory'' [116] 5 small_index = Inr [20, 21]
    \<and> (\<exists>sd \<in> set (search_documents small_index). sd_owner_id sd = 21 \<and> sd_account_id sd = 7)"
proof -
  have "(21 :: uuid) \<in> set [20, 21]" by simp
  with search_isolated [OF small_constraints small_ranked] small_ranked show ?thesis by blast
qed

theorem search_respects_rankings_witness:
  "\<exists>i j. i < j \<and> j < length [20, 21 :: uuid] \<and> [20, 21] ! i = (20 :: uuid) \<and> [20, 21] ! j = (21 :: uuid)"
proof -
  have s: "strip [116] = [116]" by (simp add: strip_def lstrip_def is_space_def)
  have a: "ahead [20, 21] 20 (21 :: uuid)"
    unfolding ahead_def by (intro disjI2 exI [of _ 0] exI [of _ "Suc 0"]) simp
  have t: "[20, 21] = take (candidate_limit 5) (text_hits small_search 7 ''memory'' (strip [116]) small_index)"
    "[20, 21] = take (candidate_limit 5) (semantic_hits small_search 7 ''memory''
        (vector_literal small_search (replicate SEARCH_VECTOR_DIMENSIONS 0)) [109] small_index)"
    by (simp_all add: small_hits candidate_limit_def)
  show ?thesis
    by (rule search_respects_rankings [OF small_constraints _ small_query small_ranked t a a]) (simp_all add: s)
qed

end
