(* ===== verification/Worker.thy ===== *)
theory Worker
  imports Notifications Exports Search
begin

text \<open>
  \<^verbatim>\<open>worker.py\<close>: the background worker. One round of its loop reports that it is alive, queues
  the hourly purge, turns outbox events into jobs, claims due jobs and runs the handler of each in a
  savepoint: a handler that fails is taken back and its job is retried later or given up. The state
  is the database and the files of the exports. One round has one instant.
\<close>

section \<open>The environment\<close>

text \<open>\<open>wk_summarize\<close> is the chat call for the title and the summary, \<open>None\<close> where its structured
  answer has another shape; \<open>wk_class_name\<close> is \<^verbatim>\<open>exc.__class__.__name__\<close>.\<close>

record worker_env =
  wk_id :: string
  wk_env :: orch_env
  wk_search :: search_env
  wk_exports :: export_env
  wk_digest :: "bytes \<Rightarrow> pystr"
  wk_crypto :: crypto
  wk_mail :: mail_env
  wk_aead :: aead
  wk_cipher :: secret_cipher
  wk_deliver :: "smtp_op list \<Rightarrow> bool result"
  wk_token :: pystr
  wk_summarize :: "pystr \<Rightarrow> pystr \<Rightarrow> (pystr \<times> pystr) option result"
  wk_class_name :: "exc \<Rightarrow> string"

definition payload_uuid :: "jdict \<Rightarrow> string \<Rightarrow> uuid result" where
  "payload_uuid payload k =
     (case jget payload k of
        None \<Rightarrow> Inl KeyError
      | Some (JStr s) \<Rightarrow> (case uuid_parse s of None \<Rightarrow> Inl ValueError | Some u \<Rightarrow> Inr u)
      | Some _ \<Rightarrow> Inl AttributeError)"

definition resolve_model :: "uuid \<Rightarrow> db \<Rightarrow> (catalog_entry \<times> provider_row) result" where
  "resolve_model i d =
     (case get_row i (catalog d) of
        None \<Rightarrow> Inl (CapabilityUnavailableError ''model'')
      | Some mdl \<Rightarrow>
          if \<not> mc_available mdl then Inl (CapabilityUnavailableError ''model'')
          else (case get_row (mc_provider_id mdl) (providers d) of
              None \<Rightarrow> Inl (CapabilityUnavailableError ''provider'')
            | Some pv \<Rightarrow>
                if \<not> pv_enabled pv \<or> pv_verification_state pv \<noteq> ''verified''
                then Inl (CapabilityUnavailableError ''provider'') else Inr (mdl, pv)))"

section \<open>The outbox\<close>

text \<open>The jobs of an event; an event of another type is parked with an error code.\<close>

definition event_jobs :: "string \<Rightarrow> string list" where
  "event_jobs ty =
     (if ty = ''memory.index_requested'' then [''memory_index'']
      else if ty = ''conversation.closed'' then [''conversation_finalize'', ''conversation_index'']
      else if ty = ''conversation.corrected_turn_reprocess_requested'' then [''corrected_turn_reprocess'']
      else [])"

definition publish :: "instant \<Rightarrow> outbox_event \<Rightarrow> outbox_event" where
  "publish now e =
     e\<lparr>ob_last_error_code := (if event_jobs (ob_event_type e) = [] then Some ''unknown_outbox_event_parked''
                             else ob_last_error_code e),
       ob_published_at := Some now, ob_attempts := Suc (ob_attempts e)\<rparr>"

definition pending_events :: "db \<Rightarrow> outbox_event list" where
  "pending_events d =
     take 50 (sort_key (\<lambda>e. (ob_created_at e, row_id e)) (filter (\<lambda>e. ob_published_at e = None) (outbox d)))"

fun enqueue_kinds :: "instant \<Rightarrow> jdict \<Rightarrow> string list \<Rightarrow> db \<Rightarrow> db" where
  "enqueue_kinds now payload [] d = d"
| "enqueue_kinds now payload (k # ks) d = enqueue_kinds now payload ks (snd (enqueue now k payload 100 0 None None d))"

fun dispatch_events :: "instant \<Rightarrow> outbox_event list \<Rightarrow> db \<Rightarrow> db" where
  "dispatch_events now [] d = d"
| "dispatch_events now (e # es) d =
     dispatch_events now es
       (let d1 = enqueue_kinds now (ob_payload e) (event_jobs (ob_event_type e)) d
        in d1\<lparr>outbox := put_row (publish now e) (outbox d1)\<rparr>)"

definition dispatch_outbox :: "instant \<Rightarrow> db \<Rightarrow> nat \<times> db" where
  "dispatch_outbox now d = (let es = pending_events d in (length es, dispatch_events now es d))"

section \<open>Indexing\<close>

definition find_document :: "string \<Rightarrow> uuid \<Rightarrow> db \<Rightarrow> search_document option" where
  "find_document ty owner d = query_one (\<lambda>s. sd_owner_type s = ty \<and> sd_owner_id s = owner) (search_documents d)"

text \<open>Removing a document takes its embeddings along.\<close>

definition delete_documents :: "(search_document \<Rightarrow> bool) \<Rightarrow> db \<Rightarrow> db" where
  "delete_documents P d =
     d\<lparr>search_documents := filter (\<lambda>s. \<not> P s) (search_documents d),
       search_embeddings := filter (\<lambda>e. \<not> (\<exists>s \<in> set (search_documents d). P s \<and> row_id s = se_document_id e))
         (search_embeddings d)\<rparr>"

definition add_document ::
  "instant \<Rightarrow> string \<Rightarrow> uuid \<Rightarrow> uuid \<Rightarrow> pystr \<Rightarrow> int \<Rightarrow> db \<Rightarrow> search_document \<times> db" where
  "add_document now ty owner acc t v d =
     (let s = \<lparr>row_id = next_id d, created_at = now, updated_at = now, version = 1, sd_owner_type = ty,
               sd_owner_id = owner, sd_account_id = acc, sd_searchable_text = t, sd_language = ''czech'',
               sd_source_version = v, sd_stale = False, sd_indexed_at = now\<rparr>
      in (s, (fresh d)\<lparr>search_documents := search_documents d @ [s]\<rparr>))"

definition refresh_document ::
  "instant \<Rightarrow> pystr \<Rightarrow> int \<Rightarrow> search_document \<Rightarrow> db \<Rightarrow> search_document \<times> db" where
  "refresh_document now t v s d =
     (let s1 = s\<lparr>sd_searchable_text := t, sd_source_version := v, sd_stale := False, version := version s + 1\<rparr>
      in (s1, d\<lparr>search_documents := save_row now s1 (search_documents d)\<rparr>))"

definition store_embedding ::
  "crypto \<Rightarrow> search_env \<Rightarrow> instant \<Rightarrow> uuid \<Rightarrow> pystr \<Rightarrow> pystr \<Rightarrow> vector \<Rightarrow> db \<Rightarrow> db" where
  "store_embedding c sv now doc model t v d =
     (case query_one (\<lambda>e. se_document_id e = doc \<and> se_model_id e = model) (search_embeddings d) of
        None \<Rightarrow>
          (fresh d)\<lparr>search_embeddings := search_embeddings d @
            [\<lparr>row_id = next_id d, created_at = now, updated_at = now, version = 1, se_document_id = doc,
              se_model_id = model, se_dimensions = length v, se_embedding_text = t,
              se_source_hash = sha256 c t, se_vector_data = vector_literal sv v\<rparr>]\<rparr>
      | Some e \<Rightarrow>
          d\<lparr>search_embeddings := save_row now (e\<lparr>se_embedding_text := t, se_source_hash := sha256 c t,
              se_vector_data := vector_literal sv v, se_dimensions := length v, version := version e + 1\<rparr>)
              (search_embeddings d)\<rparr>)"

text \<open>The embedding of a document with the selected model; without a selection there is none. A
  vector of another length marks the document as stale and raises an error.\<close>

definition embed_document ::
  "worker_env \<Rightarrow> instant \<Rightarrow> search_document \<Rightarrow> pystr \<Rightarrow> db \<Rightarrow> unit result \<times> db" where
  "embed_document w now s t d =
     (case embedding_setting d of
        None \<Rightarrow> (Inr (), d)
      | Some st \<Rightarrow>
          let v = get_or (st_value st) ''value'' JNull
          in if \<not> truthy v then (Inr (), d)
             else case uuid_parse (py_str (wk_env w) v) of
               None \<Rightarrow> (Inl ValueError, d)
             | Some u \<Rightarrow> (case resolve_model u d of
                 Inl e \<Rightarrow> (Inl e, d)
               | Inr (mdl, pv) \<Rightarrow> (case provider_runtime (wk_env w) pv d of
                   Inl e \<Rightarrow> (Inl e, d)
                 | Inr _ \<Rightarrow> (case sx_embed (wk_search w) (mc_external_id mdl) [t] of
                     Inl e \<Rightarrow> (Inl e, d)
                   | Inr vs \<Rightarrow>
                       (case vs of
                          [x] \<Rightarrow>
                            (case validate_vector_dimensions x of
                               Inl _ \<Rightarrow> (Inl (CapabilityUnavailableError ''embeddings''),
                                 d\<lparr>search_documents := save_row now (s\<lparr>sd_stale := True\<rparr>) (search_documents d)\<rparr>)
                             | Inr _ \<Rightarrow> (Inr (), store_embedding (wk_crypto w) (wk_search w) now (row_id s)
                                 (mc_external_id mdl) t x d))
                        | _ \<Rightarrow> (Inl RuntimeError, d))))))"

definition memory_index :: "worker_env \<Rightarrow> instant \<Rightarrow> jdict \<Rightarrow> db \<Rightarrow> unit result \<times> db" where
  "memory_index w now payload d =
     (case payload_uuid payload ''memory_id'' of
        Inl e \<Rightarrow> (Inl e, d)
      | Inr i \<Rightarrow> (case get_row i (memories d) of
          None \<Rightarrow> (Inr (), d)
        | Some m \<Rightarrow> (case find_document ''memory'' (row_id m) d of
            None \<Rightarrow>
              let (s, d1) = add_document now ''memory'' (row_id m) (mi_account_id m) (mi_content m) (version m) d
              in embed_document w now s (mi_content m) d1
          | Some s0 \<Rightarrow>
              if mi_state m \<in> {MDeleted, MMerged}
              then (Inr (), delete_documents (\<lambda>s. row_id s = row_id s0) d)
              else let (s, d1) = refresh_document now (mi_content m) (version m) s0 d
                   in embed_document w now s (mi_content m) d1)))"

definition conversation_messages :: "uuid \<Rightarrow> db \<Rightarrow> message list" where
  "conversation_messages i d = sort_key ms_sequence (filter (\<lambda>m. ms_conversation_id m = i) (messages d))"

text \<open>Title, summary and transcript, one below the other, without the empty ones.\<close>

definition conversation_text :: "conversation \<Rightarrow> db \<Rightarrow> pystr" where
  "conversation_text cv d =
     (let transcript = py_join [10] (map (\<lambda>m. asc (ms_role m) @ asc '': '' @ ms_content m)
            (conversation_messages (row_id cv) d));
          part = (\<lambda>t. case t of None \<Rightarrow> [] | Some s \<Rightarrow> s)
      in strip (py_join [10] (filter (\<lambda>p. p \<noteq> []) [part (cv_title cv), part (cv_summary cv), transcript])))"

definition CONTEXT_LIMIT :: nat where
  "CONTEXT_LIMIT = 120000"

definition conversation_index :: "worker_env \<Rightarrow> instant \<Rightarrow> jdict \<Rightarrow> db \<Rightarrow> unit result \<times> db" where
  "conversation_index w now payload d =
     (case payload_uuid payload ''conversation_id'' of
        Inl e \<Rightarrow> (Inl e, d)
      | Inr i \<Rightarrow> (case get_row i (conversations d) of
          None \<Rightarrow> (Inr (), d)
        | Some cv \<Rightarrow>
            let t = conversation_text cv d;
                doc = find_document ''conversation'' (row_id cv) d
            in if cv_state cv = CDeleted
               then (Inr (), case doc of None \<Rightarrow> d | Some s0 \<Rightarrow> delete_documents (\<lambda>s. row_id s = row_id s0) d)
               else let (s, d1) = (case doc of
                            None \<Rightarrow> add_document now ''conversation'' (row_id cv) (cv_account_id cv) t (version cv) d
                          | Some s0 \<Rightarrow> refresh_document now t (version cv) s0 d)
                    in if t = [] then (Inr (), d1) else embed_document w now s (take CONTEXT_LIMIT t) d1))"

fun reindex_documents :: "worker_env \<Rightarrow> instant \<Rightarrow> search_document list \<Rightarrow> db \<Rightarrow> unit result \<times> db" where
  "reindex_documents w now [] d = (Inr (), d)"
| "reindex_documents w now (s # ss) d =
     (let ty = sd_owner_type s; owner = JStr (uuid_str (sd_owner_id s));
          (r, d1) = (if ty = ''memory'' then memory_index w now [(asc ''memory_id'', owner)] d
                     else if ty = ''conversation'' then conversation_index w now [(asc ''conversation_id'', owner)] d
                     else (Inr (), d\<lparr>search_documents := save_row now (s\<lparr>sd_stale := False\<rparr>) (search_documents d)\<rparr>))
      in case r of Inl e \<Rightarrow> (Inl e, d1) | Inr _ \<Rightarrow> reindex_documents w now ss d1)"

definition search_reindex_all :: "worker_env \<Rightarrow> instant \<Rightarrow> db \<Rightarrow> unit result \<times> db" where
  "search_reindex_all w now d =
     reindex_documents w now (sort_key row_id (filter sd_stale (search_documents d))) d"

section \<open>Finishing a conversation\<close>

definition models_setting :: "string \<Rightarrow> string \<Rightarrow> db \<Rightarrow> setting_row option" where
  "models_setting area key d = query_one (\<lambda>s. st_area s = area \<and> st_key s = key) (settings d)"

definition speaker :: "message \<Rightarrow> pystr" where
  "speaker m = (if ms_role m = ''user'' then asc ''Administr'' @ [225] @ asc ''tor''
     else asc ''K'' @ [225] @ asc ''jovoDagmar'')"

definition summary_transcript :: "message list \<Rightarrow> pystr" where
  "summary_transcript ms = take CONTEXT_LIMIT (py_join [10] (map (\<lambda>m. speaker m @ asc '': '' @ ms_content m) ms))"

definition with_summary :: "string \<Rightarrow> pystr \<Rightarrow> pystr \<Rightarrow> conversation \<Rightarrow> conversation" where
  "with_summary src t s cv =
     cv\<lparr>cv_title := Some t, cv_summary := Some s, cv_title_source := src, cv_summary_source := src\<rparr>"

definition empty_title :: pystr where
  "empty_title = asc ''Pr'' @ [225] @ asc ''zdn'' @ [253] @ asc '' rozhovor''"

definition empty_summary :: pystr where
  "empty_summary = asc ''Rozhovor byl ukon'' @ [269] @ asc ''en bez potvrzen'' @ [253] @ asc ''ch replik.''"

definition plain_summary :: "nat \<Rightarrow> pystr" where
  "plain_summary n = asc ''Ukon'' @ [269] @ asc ''en'' @ [253] @ asc '' rozhovor ('' @ nat_str n @ asc '' replik).''"

definition summary_valid :: "pystr \<times> pystr \<Rightarrow> bool" where
  "summary_valid x \<longleftrightarrow> fst x \<noteq> [] \<and> length (fst x) \<le> 240 \<and> snd x \<noteq> [] \<and> int (length (snd x)) \<le> 10000"

definition conversation_finalize :: "worker_env \<Rightarrow> instant \<Rightarrow> jdict \<Rightarrow> db \<Rightarrow> unit result \<times> db" where
  "conversation_finalize w now payload d =
     (case payload_uuid payload ''conversation_id'' of
        Inl e \<Rightarrow> (Inl e, d)
      | Inr i \<Rightarrow> (case get_row i (conversations d) of
          None \<Rightarrow> (Inr (), d)
        | Some cv \<Rightarrow>
            let ms = conversation_messages (row_id cv) d;
                save = (\<lambda>x. d\<lparr>conversations := save_row now x (conversations d)\<rparr>)
            in if ms = [] then (Inr (), save (with_summary ''automatic'' empty_title empty_summary cv))
               else (case models_setting ''models'' ''summary_model'' d of
                   None \<Rightarrow> (Inl (CapabilityUnavailableError ''summary_model''), d)
                 | Some st \<Rightarrow>
                     let v = get_or (st_value st) ''value'' JNull
                     in if \<not> truthy v then (Inl (CapabilityUnavailableError ''summary_model''), d)
                        else if (case models_setting ''history'' ''automatic_summary'' d of
                                   None \<Rightarrow> False | Some a \<Rightarrow> get_or (st_value a) ''value'' JNull = JBool False)
                        then (Inr (), save (with_summary ''system'' (asc ''Rozhovor'') (plain_summary (length ms)) cv))
                        else (case uuid_parse (py_str (wk_env w) v) of
                            None \<Rightarrow> (Inl ValueError, d)
                          | Some u \<Rightarrow> (case resolve_model u d of
                              Inl e \<Rightarrow> (Inl e, d)
                            | Inr (mdl, pv) \<Rightarrow> (case provider_runtime (wk_env w) pv d of
                                Inl e \<Rightarrow> (Inl e, d)
                              | Inr _ \<Rightarrow> (case wk_summarize w (mc_external_id mdl) (summary_transcript ms) of
                                  Inl e \<Rightarrow> (Inl e, d)
                                | Inr None \<Rightarrow> (Inl ValueError, d)
                                | Inr (Some x) \<Rightarrow>
                                    if \<not> summary_valid x then (Inl ValueError, d)
                                    else let cv1 = (with_summary ''automatic'' (fst x) (snd x) cv)\<lparr>version := version cv + 1\<rparr>;
                                             d1 = save cv1
                                         in (Inr (), (fresh d1)\<lparr>summaries := summaries d1 @
                                              [\<lparr>row_id = next_id d1, cs_conversation_id = row_id cv,
                                                cs_revision_number = version cv1, cs_title = fst x,
                                                cs_summary = snd x, cs_source = ''automatic'',
                                                cs_created_at = now\<rparr>]\<rparr>))))))))"

definition corrected_turn_reprocess ::
  "worker_env \<Rightarrow> instant \<Rightarrow> string option \<Rightarrow> jdict \<Rightarrow> db \<Rightarrow> unit result \<times> db" where
  "corrected_turn_reprocess w now corr payload d =
     (case payload_uuid payload ''message_id'' of
        Inl e \<Rightarrow> (Inl e, d)
      | Inr i \<Rightarrow> (case get_row i (messages d) of
          None \<Rightarrow> (Inr (), d)
        | Some m \<Rightarrow> (case get_row (ms_conversation_id m) (conversations d) of
            None \<Rightarrow> (Inr (), d)
          | Some cv \<Rightarrow>
              let ctx = (system_context ''system'' (Some (cv_account_id cv)))\<lparr>ac_correlation_id := corr\<rparr>
              in (case answer (wk_env w) (wk_crypto w) now (cv_account_id cv) (row_id cv) (row_id m) (Some ctx) d of
                    (Inl e, d1) \<Rightarrow> (Inl e, d1)
                  | (Inr _, d1) \<Rightarrow>
                      (Inr (), snd (enqueue now ''conversation_index''
                         [(asc ''conversation_id'', JStr (uuid_str (row_id cv)))] 100 0 corr None d1))))))"

section \<open>Purging\<close>

text \<open>The foreign keys of the schema: rows that belong to a deleted one go with it, references to
  it become empty.\<close>

definition forget :: "uuid list \<Rightarrow> uuid option \<Rightarrow> uuid option" where
  "forget gone x = (case x of None \<Rightarrow> None | Some i \<Rightarrow> if i \<in> set gone then None else Some i)"

definition delete_memories :: "(memory_item \<Rightarrow> bool) \<Rightarrow> db \<Rightarrow> db" where
  "delete_memories P d =
     (let gone = map row_id (filter P (memories d))
      in d\<lparr>memories := map (\<lambda>i. i\<lparr>mi_merged_into_id := forget gone (mi_merged_into_id i)\<rparr>)
             (filter (\<lambda>i. \<not> P i) (memories d)),
           memory_versions := filter (\<lambda>v. mv_memory_id v \<notin> set gone) (memory_versions d),
           memory_sources := filter (\<lambda>s. mo_memory_id s \<notin> set gone) (memory_sources d)\<rparr>)"

definition delete_conversations :: "(conversation \<Rightarrow> bool) \<Rightarrow> db \<Rightarrow> db" where
  "delete_conversations P d =
     (let gone = map row_id (filter P (conversations d));
          gone_ms = map row_id (filter (\<lambda>m. ms_conversation_id m \<in> set gone) (messages d));
          run_gone = (\<lambda>r. rn_conversation_id r \<in> set gone \<or> rn_source_message_id r \<in> set gone_ms);
          gone_runs = map row_id (filter run_gone (runs d))
      in d\<lparr>conversations := map (\<lambda>cv. cv\<lparr>cv_continuation_of_id := forget gone (cv_continuation_of_id cv)\<rparr>)
             (filter (\<lambda>cv. \<not> P cv) (conversations d)),
           messages := filter (\<lambda>m. ms_conversation_id m \<notin> set gone) (messages d),
           runs := map (\<lambda>r. r\<lparr>rn_response_message_id := forget gone_ms (rn_response_message_id r)\<rparr>)
             (filter (\<lambda>r. \<not> run_gone r) (runs d)),
           attempts := filter (\<lambda>a. at_run_id a \<notin> set gone_runs) (attempts d),
           actions := filter (\<lambda>a. ta_run_id a \<notin> set gone_runs) (actions d),
           revisions := filter (\<lambda>r. mr_message_id r \<notin> set gone_ms) (revisions d),
           links := filter (\<lambda>l. cl_source_id l \<notin> set gone \<and> cl_target_id l \<notin> set gone) (links d),
           summaries := filter (\<lambda>s. cs_conversation_id s \<notin> set gone) (summaries d),
           memory_sources := map (\<lambda>s. s\<lparr>mo_conversation_id := forget gone (mo_conversation_id s),
                                        mo_message_id := forget gone_ms (mo_message_id s)\<rparr>) (memory_sources d)\<rparr>)"

definition purge_due :: "instant \<Rightarrow> instant option \<Rightarrow> bool" where
  "purge_due now t \<longleftrightarrow> (case t of None \<Rightarrow> False | Some x \<Rightarrow> x \<le> now)"

definition memory_purgeable :: "instant \<Rightarrow> memory_item \<Rightarrow> bool" where
  "memory_purgeable now i \<longleftrightarrow> mi_state i = MDeleted \<and> purge_due now (mi_purge_after i)"

definition conversation_purgeable :: "instant \<Rightarrow> conversation \<Rightarrow> bool" where
  "conversation_purgeable now cv \<longleftrightarrow> cv_state cv = CDeleted \<and> purge_due now (cv_purge_after cv)"

definition purge_expired :: "export_env \<Rightarrow> instant \<Rightarrow> db \<Rightarrow> files \<Rightarrow> db \<times> files" where
  "purge_expired xe now d fs =
     (let ms = map row_id (filter (memory_purgeable now) (memories d));
          cs = map row_id (filter (conversation_purgeable now) (conversations d));
          d1 = (if ms = [] \<and> cs = [] then d
                else delete_documents (\<lambda>s. sd_owner_type s = ''memory'' \<and> sd_owner_id s \<in> set ms
                       \<or> sd_owner_type s = ''conversation'' \<and> sd_owner_id s \<in> set cs) d);
          d2 = delete_memories (memory_purgeable now) d1;
          d3 = delete_conversations (conversation_purgeable now) d2
      in export_purge xe now d3 fs)"

section \<open>Running jobs\<close>

definition HANDLERS :: "string list" where
  "HANDLERS = [''memory_index'', ''conversation_finalize'', ''conversation_index'', ''corrected_turn_reprocess'',
     ''password_reset_notification'', ''purge_expired'', ''export_generate'', ''search_reindex_all'']"

definition on_db :: "files \<Rightarrow> unit result \<times> db \<Rightarrow> unit result \<times> db \<times> files" where
  "on_db fs x = (fst x, snd x, fs)"

definition handle :: "worker_env \<Rightarrow> instant \<Rightarrow> job_row \<Rightarrow> db \<Rightarrow> files \<Rightarrow> unit result \<times> db \<times> files" where
  "handle w now j d fs =
     (let p = jb_payload j; k = jb_kind j
      in if k = ''memory_index'' then on_db fs (memory_index w now p d)
         else if k = ''conversation_finalize'' then on_db fs (conversation_finalize w now p d)
         else if k = ''conversation_index'' then on_db fs (conversation_index w now p d)
         else if k = ''corrected_turn_reprocess''
         then on_db fs (corrected_turn_reprocess w now (jb_correlation_id j) p d)
         else if k = ''password_reset_notification''
         then on_db fs (process_password_reset (wk_mail w) (wk_aead w) (wk_cipher w) (wk_deliver w) (wk_crypto w)
                now (wk_token w) p d)
         else if k = ''purge_expired''
         then (case purge_expired (wk_exports w) now d fs of (d1, fs1) \<Rightarrow> (Inr (), d1, fs1))
         else if k = ''export_generate''
         then (case payload_uuid p ''export_id'' of
                 Inl e \<Rightarrow> (Inl e, d, fs)
               | Inr i \<Rightarrow> export_generate (wk_env w) (wk_exports w) (wk_digest w) now i d fs)
         else on_db fs (search_reindex_all w now d))"

text \<open>The savepoint: it is released when the handler returns and the constraints hold, and rolled
  back otherwise. What was written to files stays.\<close>

definition in_savepoint ::
  "(db \<Rightarrow> files \<Rightarrow> unit result \<times> db \<times> files) \<Rightarrow> db \<Rightarrow> files \<Rightarrow> unit result \<times> db \<times> files" where
  "in_savepoint f d fs =
     (case f d fs of
        (Inl e, d1, fs1) \<Rightarrow> (Inl e, d, fs1)
      | (Inr u, d1, fs1) \<Rightarrow> if constraints d1 then (Inr u, d1, fs1) else (Inl IntegrityError, d, fs1))"

definition process_job :: "worker_env \<Rightarrow> instant \<Rightarrow> job_row \<Rightarrow> db \<Rightarrow> files \<Rightarrow> db \<times> files" where
  "process_job w now j d fs =
     (let settle = (\<lambda>x d. d\<lparr>jobs := save_row now x (jobs d)\<rparr>)
      in if jb_kind j \<notin> set HANDLERS then (settle (fail now ''unsupported_job_kind'' j) d, fs)
         else case in_savepoint (handle w now j) d fs of
             (Inr _, d1, fs1) \<Rightarrow> (settle (Jobs.complete now j) d1, fs1)
           | (Inl e, d1, fs1) \<Rightarrow> (settle (fail now (wk_class_name w e) j) d1, fs1))"

fun process_jobs :: "worker_env \<Rightarrow> instant \<Rightarrow> job_row list \<Rightarrow> db \<Rightarrow> files \<Rightarrow> db \<times> files" where
  "process_jobs w now [] d fs = (d, fs)"
| "process_jobs w now (j # js) d fs = (case process_job w now j d fs of (d1, fs1) \<Rightarrow> process_jobs w now js d1 fs1)"

definition beat :: "worker_env \<Rightarrow> instant \<Rightarrow> db \<Rightarrow> db" where
  "beat w now d =
     (case query_one (\<lambda>h. wh_worker_id h = wk_id w) (heartbeats d) of
        None \<Rightarrow>
          (fresh d)\<lparr>heartbeats := heartbeats d @ [\<lparr>row_id = next_id d, created_at = now, updated_at = now,
             version = 1, wh_worker_id = wk_id w, wh_state = ''running'', wh_last_seen_at = now, wh_details = []\<rparr>]\<rparr>
      | Some h \<Rightarrow> d\<lparr>heartbeats := save_row now (h\<lparr>wh_state := ''running'', wh_last_seen_at := now\<rparr>) (heartbeats d)\<rparr>)"

text \<open>The body of the loop in its session; \<open>since\<close> is the time of the last maintenance. The result is
  the number of events and jobs that were taken, and the new time.\<close>

definition round_body ::
  "worker_env \<Rightarrow> instant \<Rightarrow> instant \<Rightarrow> db \<Rightarrow> files \<Rightarrow> (nat \<times> instant) \<times> db \<times> files" where
  "round_body w now since d fs =
     (let d1 = beat w now d;
          (last1, d2) = (if hours 1 \<le> now - since
                         then (now, snd (enqueue now ''purge_expired'' [] 100 0 None None d1)) else (since, d1));
          (n, d3) = dispatch_outbox now d2;
          (js, d4) = claim now (wk_id w) 10 HANDLERS d3;
          (d5, fs1) = process_jobs w now js d4 fs
      in ((n + length js, last1), d5, fs1))"

definition worker_round ::
  "worker_env \<Rightarrow> instant \<Rightarrow> instant \<Rightarrow> db \<Rightarrow> files \<Rightarrow> (nat \<times> instant) result \<times> db \<times> files" where
  "worker_round w now since d fs =
     (case round_body w now since d fs of
        (r, d1, fs1) \<Rightarrow> if constraints d1 then (Inr r, d1, fs1) else (Inl IntegrityError, d, fs1))"

end
