(* ===== verification/Backups.thy ===== *)
theory Backups
  imports Operations Worker
begin

text \<open>
  \<^verbatim>\<open>src/deployment/backup_agent.py\<close>: the agent that creates, verifies and test-restores backups. It takes
  jobs from the queue of the application with SQL of its own and appends to its audit log. Everything it asks
  of the machine is a call, and what the machine answers may depend on all earlier calls; the trace of the
  calls is part of the state. The connection to the database does not fail.
\<close>

section \<open>The machine\<close>

text \<open>A program with its arguments and time limit; \<^verbatim>\<open>pg_isready\<close>, whose exit code is looked at; a pause of some
  seconds; reading the clock; and what is done to the directory of the restoration.\<close>

datatype call =
    Run "pystr list" nat
  | IsReady "pystr list"
  | Pause nat
  | Clock
  | MakeRoot
  | ListRoot
  | RemoveTree pystr
  | Unlink pystr
  | MakeSocketDir

text \<open>A backup as \<^verbatim>\<open>pgbackrest info\<close> lists it: its label, the second it was started, its size.\<close>

record pg_backup =
  pb_label :: pystr
  pb_start :: int
  pb_size :: int

text \<open>\<open>be_output\<close> is the output of a call, \<open>be_info\<close> reads the JSON text of \<^verbatim>\<open>pgbackrest info\<close> - the backups
  of each stanza, \<open>None\<close> where it is no list. \<open>be_now\<close> is \<^verbatim>\<open>now()\<close> of a transaction, \<open>be_audit_time\<close> the instant
  of its audit event, \<open>be_class_name\<close> is \<^verbatim>\<open>error.__class__.__name__\<close>.\<close>

record agent_env =
  be_crypto :: crypto
  be_stanza :: pystr
  be_output :: "call list \<Rightarrow> call \<Rightarrow> pystr result"
  be_exit_code :: "call list \<Rightarrow> int result"
  be_monotonic :: "call list \<Rightarrow> int"
  be_children :: "call list \<Rightarrow> (pystr \<times> bool \<times> bool) list result"
  be_info :: "pystr \<Rightarrow> pg_backup list list option result"
  be_now :: "nat \<Rightarrow> instant"
  be_audit_time :: "nat \<Rightarrow> instant"
  be_class_name :: "exc \<Rightarrow> string"

text \<open>The database as the running transaction sees it and as it was committed, the number of earlier
  transactions, and the calls so far.\<close>

record agent =
  ag_db :: db
  ag_saved :: db
  ag_tx :: nat
  ag_trace :: "call list"

definition agent_commit :: "agent \<Rightarrow> agent" where
  "agent_commit a = a\<lparr>ag_saved := ag_db a, ag_tx := Suc (ag_tx a)\<rparr>"

definition agent_rollback :: "agent \<Rightarrow> agent" where
  "agent_rollback a = a\<lparr>ag_db := ag_saved a, ag_tx := Suc (ag_tx a)\<rparr>"

definition tx_now :: "agent_env \<Rightarrow> agent \<Rightarrow> instant" where
  "tx_now e a = be_now e (ag_tx a)"

text \<open>The next statement, unless the last one raised.\<close>

definition andthen :: "'a result \<times> agent \<Rightarrow> ('a \<Rightarrow> agent \<Rightarrow> 'b result \<times> agent) \<Rightarrow> 'b result \<times> agent" where
  "andthen r f = (case r of (Inl x, a) \<Rightarrow> (Inl x, a) | (Inr v, a) \<Rightarrow> f v a)"

definition traced :: "call \<Rightarrow> agent \<Rightarrow> agent" where
  "traced k a = a\<lparr>ag_trace := ag_trace a @ [k]\<rparr>"

definition perform :: "agent_env \<Rightarrow> call \<Rightarrow> agent \<Rightarrow> pystr result \<times> agent" where
  "perform e k a = (be_output e (ag_trace a) k, traced k a)"

definition command :: "agent_env \<Rightarrow> pystr list \<Rightarrow> nat \<Rightarrow> agent \<Rightarrow> pystr result \<times> agent" where
  "command e arguments timeout a = perform e (Run arguments timeout) a"

section \<open>pgBackRest\<close>

definition pgbackrest :: "agent_env \<Rightarrow> pystr list \<Rightarrow> agent \<Rightarrow> pystr result \<times> agent" where
  "pgbackrest e arguments a =
     command e (asc ''pgbackrest'' # (asc ''--stanza='' @ be_stanza e) # arguments) 1800 a"

definition backrest_info :: "agent_env \<Rightarrow> agent \<Rightarrow> pg_backup list result \<times> agent" where
  "backrest_info e a =
     andthen (pgbackrest e [asc ''info'', asc ''--output=json''] a) (\<lambda>out a.
       (case be_info e out of
          Inl x \<Rightarrow> Inl x
        | Inr None \<Rightarrow> Inl RuntimeError
        | Inr (Some []) \<Rightarrow> Inl RuntimeError
        | Inr (Some (s # _)) \<Rightarrow> Inr s, a))"

definition backup_by_label :: "pg_backup list \<Rightarrow> pystr option \<Rightarrow> pg_backup result" where
  "backup_by_label info label =
     (let latest = drop (length info - 1) info;
          matching = (case label of None \<Rightarrow> latest
            | Some l \<Rightarrow> if l = [] then latest else filter (\<lambda>b. pb_label b = l) info)
      in if matching = [] then Inl RuntimeError else Inr (last matching))"

section \<open>Jobs\<close>

definition BACKUP_KINDS :: "string list" where
  "BACKUP_KINDS = [''backup_create'', ''backup_verify'', ''backup_restore_test'']"

text \<open>The SQL of \<open>claim\<close> in its own transaction.\<close>

definition agent_claim :: "instant \<Rightarrow> db \<Rightarrow> job_row option \<times> db" where
  "agent_claim now d =
     (case take 1 (sort_key (\<lambda>j. (jb_priority j, jb_available_at j))
             (filter (\<lambda>j. jb_state j = JobQueued \<and> jb_available_at j \<le> now \<and> jb_kind j \<in> set BACKUP_KINDS) (jobs d))) of
        [] \<Rightarrow> (None, d)
      | candidate # _ \<Rightarrow>
          let d1 = d\<lparr>jobs := update_where (\<lambda>j. row_id j = row_id candidate)
                (\<lambda>j. j\<lparr>jb_state := JobRunning, jb_locked_at := Some now, jb_locked_by := Some ''backup-agent'',
                       jb_attempts := jb_attempts j + 1, updated_at := now\<rparr>) (jobs d)\<rparr>
          in (get_row (row_id candidate) (jobs d1), d1))"

text \<open>\<open>append_audit\<close>: the event and its hash are made here, not by the audit service.\<close>

definition agent_audit ::
  "crypto \<Rightarrow> instant \<Rightarrow> string \<Rightarrow> string \<Rightarrow> uuid \<Rightarrow> string option \<Rightarrow> jdict \<Rightarrow> db \<Rightarrow> db" where
  "agent_audit c now ety res target corr details d =
     (let prev = last_hash (audit_events d);
          ev = \<lparr>ae_id = (if audit_events d = [] then 1 else Suc (ae_id (last (audit_events d)))),
                ae_occurred_at = now, ae_actor_type = ''system'', ae_actor_id = None, ae_session_id = None,
                ae_event_type = ety, ae_target_type = Some ''backup_record'', ae_target_id = Some target,
                ae_result = res, ae_network_context = None, ae_correlation_id = corr, ae_details = details,
                ae_previous_hash = prev, ae_event_hash = []\<rparr>;
          canon = jobj [(''occurred_at'', JInt now), (''actor_type'', jstr ''system''), (''actor_id'', JNull),
                (''session_id'', JNull), (''event_type'', jstr ety), (''target_type'', jstr ''backup_record''),
                (''target_id'', JStr (uuid_str target)), (''result'', jstr res), (''network_context'', JNull),
                (''correlation_id'', opt_str corr), (''details'', JObj details),
                (''previous_hash'', case prev of None \<Rightarrow> JNull | Some h \<Rightarrow> JStr h)]
      in d\<lparr>audit_events := audit_events d @ [ev\<lparr>ae_event_hash := canonical_digest c canon\<rparr>]\<rparr>)"

text \<open>\<open>UPDATE backup_record SET ... WHERE id\<close>\<close>

definition set_backup :: "agent_env \<Rightarrow> uuid \<Rightarrow> (backup_record \<Rightarrow> backup_record) \<Rightarrow> agent \<Rightarrow> agent" where
  "set_backup e i f a =
     a\<lparr>ag_db := (ag_db a)\<lparr>backups := update_where (\<lambda>r. row_id r = i)
         (\<lambda>r. (f r)\<lparr>updated_at := tx_now e a\<rparr>) (backups (ag_db a))\<rparr>\<rparr>"

section \<open>The three jobs\<close>

text \<open>A backup that was started after the request, or up to five seconds before, is taken over.\<close>

definition usable_backups :: "backup_record \<Rightarrow> pg_backup list \<Rightarrow> pg_backup list" where
  "usable_backups r info = filter (\<lambda>b. bk_started_at r - seconds 5 \<le> seconds (pb_start b)) info"

definition make_backup :: "agent_env \<Rightarrow> agent \<Rightarrow> pg_backup result \<times> agent" where
  "make_backup e a =
     andthen (pgbackrest e [asc ''stanza-create''] a) (\<lambda>_ a.
     andthen (pgbackrest e [asc ''--type=full'', asc ''backup''] a) (\<lambda>_ a.
     andthen (backrest_info e a) (\<lambda>info a. (backup_by_label info None, a))))"

definition backup_details :: "pg_backup \<Rightarrow> jdict" where
  "backup_details b = [(asc ''label'', JStr (pb_label b)), (asc ''size_bytes'', JInt (pb_size b))]"

definition create_backup :: "agent_env \<Rightarrow> uuid \<Rightarrow> agent \<Rightarrow> jdict result \<times> agent" where
  "create_backup e i a =
     (case get_row i (backups (ag_db a)) of
        None \<Rightarrow> (Inl RuntimeError, a)
      | Some r \<Rightarrow>
          andthen (backrest_info e (agent_commit
              (set_backup e i (\<lambda>r. r\<lparr>bk_state := ''running'', bk_error_code := None\<rparr>) a))) (\<lambda>info a.
          andthen (if usable_backups r info \<noteq> [] then (Inr (last (usable_backups r info)), a) else make_backup e a) (\<lambda>b a.
          andthen (pgbackrest e [asc ''check''] a) (\<lambda>_ a.
          andthen (pgbackrest e [asc ''--set='' @ pb_label b, asc ''info'', asc ''--output=json''] a) (\<lambda>manifest a.
            (Inr (backup_details b),
             set_backup e i (\<lambda>r. r\<lparr>bk_state := ''completed'', bk_completed_at := Some (tx_now e a),
                 bk_verified_at := Some (tx_now e a), bk_label := Some (pb_label b),
                 bk_manifest_digest := Some (sha256 (be_crypto e) manifest), bk_size_bytes := Some (pb_size b),
                 bk_error_code := None, version := version r + 1\<rparr>) a))))))"

definition recorded_label :: "uuid \<Rightarrow> agent \<Rightarrow> pystr result" where
  "recorded_label i a =
     (case get_row i (backups (ag_db a)) of
        None \<Rightarrow> Inl RuntimeError
      | Some r \<Rightarrow> (case bk_label r of None \<Rightarrow> Inl RuntimeError | Some l \<Rightarrow> if l = [] then Inl RuntimeError else Inr l))"

definition verify_backup :: "agent_env \<Rightarrow> uuid \<Rightarrow> agent \<Rightarrow> jdict result \<times> agent" where
  "verify_backup e i a =
     andthen (recorded_label i a, a) (\<lambda>label a.
     andthen (pgbackrest e [asc ''check''] a) (\<lambda>_ a.
     andthen (backrest_info e a) (\<lambda>info a.
     andthen (backup_by_label info (Some label), a) (\<lambda>_ a.
       (Inr [(asc ''label'', JStr label)],
        set_backup e i (\<lambda>r. r\<lparr>bk_state := ''completed'', bk_verified_at := Some (tx_now e a),
            bk_error_code := None, version := version r + 1\<rparr>) a)))))"

definition RESTORE_ROOT :: pystr where
  "RESTORE_ROOT = asc ''/var/lib/postgresql/restore-test''"

definition socket_dir :: pystr where
  "socket_dir = RESTORE_ROOT @ asc ''/socket''"

text \<open>The children of the directory are removed: a directory with all it holds, a symbolic link as a link.\<close>

fun remove_children :: "agent_env \<Rightarrow> (pystr \<times> bool \<times> bool) list \<Rightarrow> agent \<Rightarrow> unit result \<times> agent" where
  "remove_children e [] a = (Inr (), a)"
| "remove_children e ((name, directory, link) # cs) a =
     andthen (perform e (if directory \<and> \<not> link then RemoveTree name else Unlink name) a)
       (\<lambda>_ a. remove_children e cs a)"

definition clear_root :: "agent_env \<Rightarrow> agent \<Rightarrow> unit result \<times> agent" where
  "clear_root e a =
     andthen (perform e MakeRoot a) (\<lambda>_ a.
     andthen (be_children e (ag_trace a), traced ListRoot a) (\<lambda>cs a. remove_children e cs a))"

text \<open>The loop that waits for the restored server: \<open>None\<close> where it has not ended within the fuel.\<close>

fun await_ready :: "nat \<Rightarrow> agent_env \<Rightarrow> int \<Rightarrow> agent \<Rightarrow> (unit result \<times> agent) option" where
  "await_ready 0 e deadline a = None"
| "await_ready (Suc n) e deadline a =
     (let a1 = traced Clock a
      in if be_monotonic e (ag_trace a) < deadline
         then
           let k = IsReady [asc ''pg_isready'', asc ''-h'', socket_dir, asc ''-p'', asc ''55434'',
                 asc ''-U'', asc ''kajovodagmar'', asc ''-d'', asc ''kajovodagmar'']
           in case be_exit_code e (ag_trace a1) of
                Inl x \<Rightarrow> Some (Inl x, traced k a1)
              | Inr code \<Rightarrow>
                  if code = 0 then Some (Inr (), traced k a1)
                  else await_ready n e deadline (traced (Pause 1) (traced k a1))
         else Some (Inl (ProviderFailure ''TimeoutError''), a1))"

definition start_server :: "agent_env \<Rightarrow> agent \<Rightarrow> pystr result \<times> agent" where
  "start_server e a =
     command e [asc ''pg_ctl'', asc ''-D'', RESTORE_ROOT, asc ''-l'',
       asc ''/tmp/kajovodagmar-restore-test-postgres.log'', asc ''-o'',
       asc ''-p 55434 -k '' @ socket_dir @ asc '' -c listen_addresses='' @ [39, 39],
       asc ''-W'', asc ''start''] 30 a"

definition stop_server :: "agent_env \<Rightarrow> agent \<Rightarrow> pystr result \<times> agent" where
  "stop_server e a =
     command e [asc ''pg_ctl'', asc ''-D'', RESTORE_ROOT, asc ''-m'', asc ''fast'', asc ''-w'', asc ''stop''] 180 a"

text \<open>What the restored server is asked.\<close>

definition check_instance :: "agent_env \<Rightarrow> agent \<Rightarrow> pystr result \<times> agent" where
  "check_instance e a =
     andthen (command e [asc ''psql'', asc ''-h'', socket_dir, asc ''-p'', asc ''55434'', asc ''-U'',
         asc ''kajovodagmar'', asc ''-d'', asc ''kajovodagmar'', asc ''-At'', asc ''-c'',
         asc ''SELECT specification_revision || '' @ [39] @ asc '':'' @ [39] @ asc '' || state FROM system_instance WHERE singleton_key=''
           @ [39] @ asc ''primary'' @ [39]] 60 a) (\<lambda>out a.
       (if starts_with (asc ''v0021:'') (strip out) then Inr (strip out) else Inl RuntimeError, a))"

text \<open>The \<open>try\<close> with its \<open>finally\<close>: once the server was started it is stopped, whatever happens.\<close>

definition probe_server :: "nat \<Rightarrow> agent_env \<Rightarrow> agent \<Rightarrow> (pystr result \<times> agent) option" where
  "probe_server fuel e a =
     (case start_server e a of
        (Inl x, a1) \<Rightarrow> Some (Inl x, a1)
      | (Inr _, a1) \<Rightarrow>
          (case await_ready fuel e (be_monotonic e (ag_trace a1) + seconds 180) (traced Clock a1) of
             None \<Rightarrow> None
           | Some (r, a2) \<Rightarrow>
               let (r1, a3) = andthen (r, a2) (\<lambda>_ a. check_instance e a)
               in (case stop_server e a3 of
                     (Inl x, a4) \<Rightarrow> Some (Inl x, a4)
                   | (Inr _, a4) \<Rightarrow> Some (r1, a4))))"

definition restore_prepared :: "agent_env \<Rightarrow> uuid \<Rightarrow> agent \<Rightarrow> pystr result \<times> agent" where
  "restore_prepared e i a =
     andthen (recorded_label i a, a) (\<lambda>label a.
     andthen (backrest_info e a) (\<lambda>info a.
     andthen (backup_by_label info (Some label), a) (\<lambda>_ a.
     andthen (clear_root e a) (\<lambda>_ a.
     andthen (pgbackrest e [asc ''--set='' @ label, asc ''--pg1-path='' @ RESTORE_ROOT, asc ''restore''] a) (\<lambda>_ a.
     andthen (perform e MakeSocketDir a) (\<lambda>_ a. (Inr label, a)))))))"

definition restore_test :: "nat \<Rightarrow> agent_env \<Rightarrow> uuid \<Rightarrow> agent \<Rightarrow> (jdict result \<times> agent) option" where
  "restore_test fuel e i a =
     (case restore_prepared e i a of
        (Inl x, a1) \<Rightarrow> Some (Inl x, a1)
      | (Inr label, a1) \<Rightarrow>
          (case probe_server fuel e a1 of
             None \<Rightarrow> None
           | Some (Inl x, a2) \<Rightarrow> Some (Inl x, a2)
           | Some (Inr said, a2) \<Rightarrow>
               Some (Inr [(asc ''label'', JStr label), (asc ''instance'', JStr said)],
                 set_backup e i (\<lambda>r. r\<lparr>bk_state := ''completed'', bk_restore_tested_at := Some (tx_now e a2),
                     bk_error_code := None, version := version r + 1\<rparr>) a2)))"

section \<open>The loop\<close>

definition POLL_SECONDS :: nat where "POLL_SECONDS = 2"

definition set_job :: "agent_env \<Rightarrow> uuid \<Rightarrow> (job_row \<Rightarrow> job_row) \<Rightarrow> agent \<Rightarrow> agent" where
  "set_job e i f a =
     a\<lparr>ag_db := (ag_db a)\<lparr>jobs := update_where (\<lambda>j. row_id j = i)
         (\<lambda>j. (f j)\<lparr>updated_at := tx_now e a\<rparr>) (jobs (ag_db a))\<rparr>\<rparr>"

definition audited :: "agent_env \<Rightarrow> job_row \<Rightarrow> string \<Rightarrow> string \<Rightarrow> uuid \<Rightarrow> jdict \<Rightarrow> agent \<Rightarrow> agent" where
  "audited e j ending res i details a =
     a\<lparr>ag_db := agent_audit (be_crypto e) (be_audit_time e (ag_tx a)) (jb_kind j @ ending) res i
         (jb_correlation_id j) details (ag_db a)\<rparr>"

definition agent_complete :: "agent_env \<Rightarrow> job_row \<Rightarrow> uuid \<Rightarrow> jdict \<Rightarrow> agent \<Rightarrow> agent" where
  "agent_complete e j i details a =
     agent_commit (audited e j ''.completed'' ''success'' i details
       (set_job e (row_id j) (\<lambda>x. x\<lparr>jb_state := JobCompleted, jb_completed_at := Some (tx_now e a),
          jb_locked_at := None, jb_locked_by := None\<rparr>) a))"

definition agent_fail :: "agent_env \<Rightarrow> job_row \<Rightarrow> uuid \<Rightarrow> exc \<Rightarrow> agent \<Rightarrow> agent" where
  "agent_fail e j i x a =
     (let code = be_class_name e x;
          terminal = jb_max_attempts j \<le> jb_attempts j;
          a1 = set_job e (row_id j) (\<lambda>y. y\<lparr>jb_state := (if terminal then JobFailed else JobQueued),
                 jb_available_at := tx_now e a + seconds (min 3600 (2 ^ jb_attempts j * 10)),
                 jb_locked_at := None, jb_locked_by := None, jb_last_error_code := Some code\<rparr>) a;
          a2 = set_backup e i (\<lambda>r. r\<lparr>bk_state := (if jb_kind j = ''backup_create''
                   then (if terminal then ''failed'' else ''queued'') else bk_state r),
                 bk_error_code := Some code, version := version r + 1\<rparr>) a1
      in agent_commit (audited e j ''.failed'' ''failure'' i
           [(asc ''error_code'', jstr code), (asc ''terminal'', JBool terminal)] a2))"

definition run_kind :: "nat \<Rightarrow> agent_env \<Rightarrow> string \<Rightarrow> uuid \<Rightarrow> agent \<Rightarrow> (jdict result \<times> agent) option" where
  "run_kind fuel e kind i a =
     (if kind = ''backup_create'' then Some (create_backup e i a)
      else if kind = ''backup_verify'' then Some (verify_backup e i a)
      else restore_test fuel e i a)"

text \<open>A turn of the inner loop. \<open>Crashed\<close>: the error leaves the loop and ends the process; the claimed job was
  committed.\<close>

datatype agent_outcome = Idle | Settled | Crashed exc

definition agent_turn :: "nat \<Rightarrow> agent_env \<Rightarrow> agent \<Rightarrow> (agent_outcome \<times> agent) option" where
  "agent_turn fuel e a =
     (case agent_claim (tx_now e a) (ag_db a) of
        (None, d1) \<Rightarrow> Some (Idle, traced (Pause POLL_SECONDS) (agent_commit (a\<lparr>ag_db := d1\<rparr>)))
      | (Some j, d1) \<Rightarrow>
          let a1 = agent_commit (a\<lparr>ag_db := d1\<rparr>)
          in (case payload_uuid (jb_payload j) ''backup_record_id'' of
                Inl x \<Rightarrow> Some (Crashed x, a1)
              | Inr i \<Rightarrow>
                  (case run_kind fuel e (jb_kind j) i a1 of
                     None \<Rightarrow> None
                   | Some (Inr details, a2) \<Rightarrow> Some (Settled, agent_complete e j i details a2)
                   | Some (Inl x, a2) \<Rightarrow> Some (Settled, agent_fail e j i x (agent_rollback a2)))))"

end
