(* ===== verification/BackupTheorems.thy ===== *)
theory BackupTheorems
  imports Backups
begin

text \<open>
  What holds for backups: the agent's own SQL takes jobs and settles them as the job service does, its audit
  events continue the chain of the service, a backup counts as completed only after a check, a server that was
  started is stopped, and a turn of the agent ends.
\<close>

section \<open>What the steps leave alone\<close>

text \<open>Nothing but the table of backups has changed since the transaction with \<open>d\<close>.\<close>

definition only_backups :: "db \<Rightarrow> agent \<Rightarrow> bool" where
  "only_backups d a \<longleftrightarrow> (\<exists>bs bs'. ag_db a = d\<lparr>backups := bs\<rparr> \<and> ag_saved a = d\<lparr>backups := bs'\<rparr>)"

lemma only_backups_refl: "ag_saved a = ag_db a \<Longrightarrow> only_backups (ag_db a) a"
  unfolding only_backups_def by (intro exI [of _ "backups (ag_db a)"]) simp

lemma only_backups_traced [simp]: "only_backups d (traced k a) = only_backups d a"
  by (simp add: only_backups_def traced_def)

lemma only_backups_perform [simp]: "only_backups d (snd (perform e k a)) = only_backups d a"
  by (simp add: perform_def)

lemma only_backups_command [simp]: "only_backups d (snd (command e l t a)) = only_backups d a"
  by (simp add: command_def)

lemma only_backups_pgbackrest [simp]: "only_backups d (snd (pgbackrest e l a)) = only_backups d a"
  by (simp add: pgbackrest_def)

lemma only_backups_set [intro]: "only_backups d a \<Longrightarrow> only_backups d (set_backup e i f a)"
  by (auto simp: only_backups_def set_backup_def)

lemma only_backups_commit [intro]: "only_backups d a \<Longrightarrow> only_backups d (agent_commit a)"
  by (auto simp: only_backups_def agent_commit_def)

lemma only_backups_andthen [intro]:
  "only_backups d (snd r) \<Longrightarrow> (\<And>v a. only_backups d a \<Longrightarrow> only_backups d (snd (f v a)))
    \<Longrightarrow> only_backups d (snd (andthen r f))"
  by (auto simp: andthen_def split: prod.split sum.split)

lemma only_backups_info [intro]: "only_backups d a \<Longrightarrow> only_backups d (snd (backrest_info e a))"
  unfolding backrest_info_def by (rule only_backups_andthen) simp_all

lemma only_backups_make [intro]: "only_backups d a \<Longrightarrow> only_backups d (snd (make_backup e a))"
  unfolding make_backup_def by (intro only_backups_andthen) (auto intro: only_backups_info)

lemma only_backups_create: "only_backups d a \<Longrightarrow> only_backups d (snd (create_backup e i a))"
  unfolding create_backup_def
  by (cases "get_row i (backups (ag_db a))")
    (auto intro!: only_backups_andthen only_backups_set only_backups_info only_backups_commit only_backups_make)

lemma only_backups_verify: "only_backups d a \<Longrightarrow> only_backups d (snd (verify_backup e i a))"
  unfolding verify_backup_def
  by (intro only_backups_andthen) (auto intro!: only_backups_set only_backups_info)

lemma only_backups_remove: "only_backups d a \<Longrightarrow> only_backups d (snd (remove_children e cs a))"
  by (induction cs arbitrary: a) (auto intro!: only_backups_andthen)

lemma only_backups_prepared: "only_backups d a \<Longrightarrow> only_backups d (snd (restore_prepared e i a))"
  unfolding restore_prepared_def clear_root_def
  by (intro only_backups_andthen) (auto intro!: only_backups_info only_backups_remove)

lemma only_backups_await:
  "await_ready n e t a = Some (r, a') \<Longrightarrow> only_backups d a \<Longrightarrow> only_backups d a'"
  by (induction n e t a rule: await_ready.induct) (auto simp: Let_def split: if_splits sum.splits)

lemma only_backups_probe:
  assumes "probe_server n e a = Some (r, a')" "only_backups d a" shows "only_backups d a'"
proof (cases "start_server e a")
  case (Pair r1 a1)
  have a1: "only_backups d a1" using assms(2) Pair by (metis only_backups_command snd_conv start_server_def)
  show ?thesis
  proof (cases r1)
    case (Inr v)
    then obtain r2 a2 where w: "await_ready n e (be_monotonic e (ag_trace a1) + seconds 180) (traced Clock a1) = Some (r2, a2)"
      using assms(1) Pair by (auto simp: probe_server_def split: option.splits)
    have a2: "only_backups d a2" using only_backups_await [OF w] a1 by simp
    obtain r3 a3 where c: "andthen (r2, a2) (\<lambda>_ a. check_instance e a) = (r3, a3)" by fastforce
    have "only_backups d (snd (andthen (r2, a2) (\<lambda>_ a. check_instance e a)))"
      using a2 unfolding check_instance_def by (intro only_backups_andthen) simp_all
    then have a3: "only_backups d (snd (stop_server e a3))" unfolding c by (simp add: stop_server_def)
    have "a' = snd (stop_server e a3)"
      using assms(1) Pair Inr w c by (auto simp: probe_server_def split: prod.splits sum.splits)
    with a3 show ?thesis by simp
  qed (use assms(1) Pair a1 in \<open>auto simp: probe_server_def\<close>)
qed

lemma only_backups_run:
  assumes "run_kind n e k i a = Some (r, a')" "only_backups d a" shows "only_backups d a'"
proof -
  have "only_backups d a'" if r: "restore_test n e i a = Some (r, a')"
  proof (cases "restore_prepared e i a")
    case (Pair r1 a1)
    have a1: "only_backups d a1" using only_backups_prepared [OF assms(2), of e i] Pair by simp
    show ?thesis
    proof (cases r1)
      case (Inr l)
      then obtain r2 a2 where p: "probe_server n e a1 = Some (r2, a2)"
        using r Pair by (auto simp: restore_test_def split: option.splits)
      have "only_backups d a2" by (rule only_backups_probe [OF p a1])
      then show ?thesis using r Pair Inr p by (auto simp: restore_test_def split: sum.splits)
    qed (use r Pair a1 in \<open>auto simp: restore_test_def\<close>)
  qed
  then show ?thesis
    using assms only_backups_create [OF assms(2), of e i] only_backups_verify [OF assms(2), of e i]
    by (auto simp: run_kind_def split: if_splits)
qed
section \<open>Taking jobs\<close>

lemma update_where_id:
  assumes "keyed n t" "r \<in> set t" "row_id (f r) = row_id r"
  shows "update_where (\<lambda>x. row_id x = row_id r) f t = put_row (f r) t"
  unfolding update_where_def put_row_def
  using keyed_unique [OF assms(1) _ assms(2)] assms(3) by (intro map_cong) auto

lemma agent_claim_eq:
  assumes "keyed n (jobs d)"
  shows "agent_claim now d =
    (case claim now ''backup-agent'' 1 BACKUP_KINDS d of (rows, d') \<Rightarrow> (case rows of [] \<Rightarrow> None | j # _ \<Rightarrow> Some j, d'))"
proof -
  have ks: "BACKUP_KINDS \<noteq> []" by (simp add: BACKUP_KINDS_def)
  let ?rs = "claim_rows now 1 BACKUP_KINDS (jobs d)"
  have rs: "take 1 (sort_key (\<lambda>j. (jb_priority j, jb_available_at j)) (filter (\<lambda>j. jb_state j = JobQueued
      \<and> jb_available_at j \<le> now \<and> jb_kind j \<in> set BACKUP_KINDS) (jobs d))) = ?rs"
    by (simp add: claim_rows_def claimable_def [abs_def])
  show ?thesis
  proof (cases ?rs)
    case Nil
    then show ?thesis unfolding agent_claim_def rs claim_def by (simp add: ks)
  next
    case (Cons j js)
    have "length ?rs \<le> 1" by (simp add: claim_rows_def)
    then have one: "?rs = [j]" using Cons by (cases js) simp_all
    have j: "j \<in> set (jobs d)" using set_claim_rows [of j now 1 BACKUP_KINDS "jobs d"] one by simp
    let ?f = "\<lambda>j. j\<lparr>jb_state := JobRunning, jb_locked_at := Some now, jb_locked_by := Some ''backup-agent'',
                       jb_attempts := jb_attempts j + 1, updated_at := now\<rparr>"
    have f: "?f j = mark_running now ''backup-agent'' j" by (simp add: mark_running_def)
    have u: "update_where (\<lambda>x. row_id x = row_id j) ?f (jobs d) = put_row (mark_running now ''backup-agent'' j) (jobs d)"
      using update_where_id [OF assms j, of ?f] unfolding f by (simp add: mark_running_def)
    have g: "get_row (row_id j) (put_row (mark_running now ''backup-agent'' j) (jobs d))
        = Some (mark_running now ''backup-agent'' j)"
      using get_row_mem [OF assms j] by (simp add: get_row_put_row mark_running_def)
    show ?thesis unfolding agent_claim_def rs claim_def one list.case Let_def u using g by (simp add: ks)
  qed
qed

lemma agent_claimD:
  assumes "keyed n (jobs d)" "agent_claim now d = (r, d')"
  shows "\<exists>rows. claim now ''backup-agent'' 1 BACKUP_KINDS d = (rows, d')
    \<and> r = (case rows of [] \<Rightarrow> None | j # _ \<Rightarrow> Some j) \<and> length rows \<le> 1"
  using assms(2) unfolding agent_claim_eq [OF assms(1)]
  by (auto simp: claim_def claim_rows_def Let_def split: if_splits)

text \<open>Workers and the agent on one queue: \<open>Inl\<close> is a claim of the job service, \<open>Inr\<close> one of the agent.\<close>

fun claim_by :: "(instant \<times> string \<times> nat \<times> string list) + instant \<Rightarrow> db \<Rightarrow> uuid set \<times> db" where
  "claim_by (Inl w) d = claim_ids w d"
| "claim_by (Inr now) d = (case agent_claim now d of (r, d') \<Rightarrow> (set_option (map_option row_id r), d'))"

lemma claim_by_ids:
  assumes "jobs_ok d" "claim_by w d = (ks, d')"
  obtains w' where "claim_ids w' d = (ks, d')"
proof (cases w)
  case (Inr now)
  have k: "keyed (next_id d) (jobs d)" using assms(1) by (simp add: jobs_ok_def)
  obtain r where r: "agent_claim now d = (r, d')" "ks = set_option (map_option row_id r)"
    using assms(2) Inr by (auto split: prod.splits)
  obtain rows where rows: "claim now ''backup-agent'' 1 BACKUP_KINDS d = (rows, d')"
    "r = (case rows of [] \<Rightarrow> None | j # _ \<Rightarrow> Some j)" "length rows \<le> 1"
    using agent_claimD [OF k r(1)] by blast
  have "row_id ` set rows = ks"
  proof (cases rows)
    case (Cons j js)
    then have "rows = [j]" using rows(3) by (cases js) simp_all
    then show ?thesis unfolding r(2) rows(2) by simp
  qed (use r(2) rows(2) in simp)
  then have "claim_ids (now, ''backup-agent'', 1, BACKUP_KINDS) d = (ks, d')" 
    by (simp add: claim_ids_def rows(1) del: One_nat_def)
  then show thesis by (rule that)
qed (use assms(2) that in auto)

interpretation backupq: job_queue jobs_ok job_held claim_by
proof unfold_locales
  fix d d' :: db and w ks k
  assume d: "jobs_ok d" and w: "claim_by w d = (ks, d')"
  obtain w' where w': "claim_ids w' d = (ks, d')" by (rule claim_by_ids [OF d w])
  show "jobs_ok d'" by (rule jobq.take_wf [OF d w'])
  show "k \<in> ks \<Longrightarrow> \<not> job_held k d" by (rule jobq.take_free [OF d w'])
  show "k \<in> ks \<Longrightarrow> job_held k d'" by (rule jobq.take_holds [OF d w'])
  show "job_held k d \<Longrightarrow> job_held k d'" by (rule jobq.take_keeps [OF d w'])
qed

text \<open>
  The SQL of the agent takes a job exactly as the job service would for the backup kinds, and it marks the job
  the same way.
\<close>

theorem backup_claim_like_service:
  assumes "keyed n (jobs d)"
  shows "agent_claim now d =
    (case claim now ''backup-agent'' 1 BACKUP_KINDS d of (rows, d') \<Rightarrow> (case rows of [] \<Rightarrow> None | j # _ \<Rightarrow> Some j, d'))"
  by (rule agent_claim_eq [OF assms])

section \<open>The audit log\<close>

lemma agent_audit_event:
  "\<exists>ev. agent_audit c now ety res t corr details d = d\<lparr>audit_events := audit_events d @
      [ev\<lparr>ae_event_hash := canonical_digest c (canonical ev (last_hash (audit_events d)))\<rparr>]\<rparr>
    \<and> ae_previous_hash ev = last_hash (audit_events d)"
  by (rule exI [of _ "\<lparr>ae_id = (if audit_events d = [] then 1 else Suc (ae_id (last (audit_events d)))),
                ae_occurred_at = now, ae_actor_type = ''system'', ae_actor_id = None, ae_session_id = None,
                ae_event_type = ety, ae_target_type = Some ''backup_record'', ae_target_id = Some t,
                ae_result = res, ae_network_context = None, ae_correlation_id = corr, ae_details = details,
                ae_previous_hash = last_hash (audit_events d), ae_event_hash = []\<rparr>"])
    (simp add: agent_audit_def Let_def canonical_def canonical_items_def opt_uuid_def opt_str_def)

lemma agent_audit_chain:
  assumes "verify_from c None (audit_events d) = None"
  shows "verify_from c None (audit_events (agent_audit c now ety res t corr details d)) = None"
proof -
  obtain ev where "agent_audit c now ety res t corr details d = d\<lparr>audit_events := audit_events d @
      [ev\<lparr>ae_event_hash := canonical_digest c (canonical ev (last_hash (audit_events d)))\<rparr>]\<rparr>"
    "ae_previous_hash ev = last_hash (audit_events d)"
    using agent_audit_event by blast
  then show ?thesis using assms by (simp add: verify_from_append last_hash_def)
qed

lemma agent_audit_frame [simp]:
  "jobs (agent_audit c now ety res t corr details d) = jobs d"
  "backups (agent_audit c now ety res t corr details d) = backups d"
  by (simp_all add: agent_audit_def Let_def)

text \<open>
  The agent's own audit event is the one that the audit service would have written as the system, for details
  that the service has nothing to redact in.
\<close>

theorem backup_audit_like_service:
  assumes "sanitize details = details"
  shows "agent_audit c now ety res t corr details d =
    audit_append c now ((system_context ''system'' None)\<lparr>ac_correlation_id := corr\<rparr>) ety res
      (Some ''backup_record'') (Some t) details d"
  by (simp add: agent_audit_def audit_append_def append_event_def system_context_def assms Let_def
      canonical_def canonical_items_def opt_uuid_def opt_str_def)

theorem backup_audit_like_service_witness:
  "agent_audit plain_crypto 5 ''backup_create.completed'' ''success'' 7 None
      (backup_details \<lparr>pb_label = asc ''20260101F'', pb_start = 1, pb_size = 9\<rparr>) empty_db =
    audit_append plain_crypto 5 ((system_context ''system'' None)\<lparr>ac_correlation_id := None\<rparr>)
      ''backup_create.completed'' ''success'' (Some ''backup_record'') (Some 7)
      (backup_details \<lparr>pb_label = asc ''20260101F'', pb_start = 1, pb_size = 9\<rparr>) empty_db"
proof -
  let ?d = "backup_details \<lparr>pb_label = asc ''20260101F'', pb_start = 1, pb_size = 9\<rparr>"
  have "sanitize ?d = ?d" by code_simp
  then show ?thesis by (rule backup_audit_like_service)
qed

section \<open>Turns of the agent\<close>

lemma update_where_row:
  assumes "\<And>r. row_id (f r) = row_id r"
  shows "get_row i (update_where (\<lambda>x. row_id x = k) f t) = (if i = k then map_option f (get_row i t) else get_row i t)"
  by (induction t) (auto simp: update_where_def assms)

lemma get_set_job:
  assumes "\<And>j. row_id (f j) = row_id j"
  shows "get_row i (jobs (ag_db (set_job e k f a))) =
    (if i = k then map_option (\<lambda>j. (f j)\<lparr>updated_at := tx_now e a\<rparr>) (get_row i (jobs (ag_db a))) else get_row i (jobs (ag_db a)))"
  using update_where_row [of "\<lambda>j. (f j)\<lparr>updated_at := tx_now e a\<rparr>" i k "jobs (ag_db a)"] assms by (simp add: set_job_def)

lemma get_set_backup:
  assumes "\<And>r. row_id (f r) = row_id r"
  shows "get_row i (backups (ag_db (set_backup e k f a))) =
    (if i = k then map_option (\<lambda>r. (f r)\<lparr>updated_at := tx_now e a\<rparr>) (get_row i (backups (ag_db a)))
     else get_row i (backups (ag_db a)))"
  using update_where_row [of "\<lambda>j. (f j)\<lparr>updated_at := tx_now e a\<rparr>" i k "backups (ag_db a)"] assms by (simp add: set_backup_def)

lemma set_sel [simp]:
  "jobs (ag_db (set_backup e i f a)) = jobs (ag_db a)" "backups (ag_db (set_job e i g a)) = backups (ag_db a)"
  "audit_events (ag_db (set_backup e i f a)) = audit_events (ag_db a)"
  "audit_events (ag_db (set_job e i g a)) = audit_events (ag_db a)"
  "ag_tx (set_backup e i f a) = ag_tx a" "ag_tx (set_job e i g a) = ag_tx a"
  "ag_trace (set_backup e i f a) = ag_trace a" "ag_trace (set_job e i g a) = ag_trace a"
  by (simp_all add: set_backup_def set_job_def)

lemma commit_sel [simp]:
  "ag_db (agent_commit a) = ag_db a" "ag_saved (agent_commit a) = ag_db a" "ag_trace (agent_commit a) = ag_trace a"
  "ag_db (agent_rollback a) = ag_saved a" "ag_saved (agent_rollback a) = ag_saved a"
  "ag_trace (agent_rollback a) = ag_trace a"
  by (simp_all add: agent_commit_def agent_rollback_def)

lemma tx_now_cong [simp]: "tx_now e (set_job e i g a) = tx_now e a"
  by (simp add: tx_now_def)

text \<open>The three ways a turn goes.\<close>

lemma agent_turn_cases:
  assumes "agent_turn fuel e a = Some (out, a')"
  obtains (idle) d1 where "agent_claim (tx_now e a) (ag_db a) = (None, d1)" "out = Idle"
      "ag_saved a' = d1" "ag_db a' = d1"
    | (crashed) j d1 x where "agent_claim (tx_now e a) (ag_db a) = (Some j, d1)" "out = Crashed x"
      "ag_saved a' = d1" "ag_db a' = d1"
    | (settled) j d1 i r a2 where "agent_claim (tx_now e a) (ag_db a) = (Some j, d1)" "out = Settled"
      "payload_uuid (jb_payload j) ''backup_record_id'' = Inr i"
      "run_kind fuel e (jb_kind j) i (agent_commit (a\<lparr>ag_db := d1\<rparr>)) = Some (r, a2)"
      "a' = (case r of Inr details \<Rightarrow> agent_complete e j i details a2 | Inl x \<Rightarrow> agent_fail e j i x (agent_rollback a2))"
proof (cases "agent_claim (tx_now e a) (ag_db a)")
  case (Pair r d1)
  show thesis
  proof (cases r)
    case None
    with assms Pair show thesis by (intro idle [of d1]) (auto simp: agent_turn_def traced_def)
  next
    case (Some j)
    show thesis
    proof (cases "payload_uuid (jb_payload j) ''backup_record_id''")
      case (Inl x)
      with assms Pair Some show thesis by (intro crashed [of j d1 x]) (auto simp: agent_turn_def)
    next
      case (Inr i)
      then obtain r2 a2 where "run_kind fuel e (jb_kind j) i (agent_commit (a\<lparr>ag_db := d1\<rparr>)) = Some (r2, a2)"
        using assms Pair Some by (auto simp: agent_turn_def Let_def split: option.splits)
      then show thesis using assms Pair Some Inr
        by (intro settled [of j d1 i r2 a2]) (auto simp: agent_turn_def Let_def split: sum.splits)
    qed
  qed
qed

text \<open>What a settled turn has done to everything but the backups: the ending of the job, and one event.\<close>

definition settles :: "job_row \<Rightarrow> job_row \<Rightarrow> bool" where
  "settles j j' \<longleftrightarrow> row_id j' = row_id j \<and> jb_attempts j' = jb_attempts j \<and> jb_max_attempts j' = jb_max_attempts j
     \<and> jb_locked_by j' = None \<and> jb_locked_at j' = None
     \<and> (jb_state j' = JobCompleted \<or> jb_state j' = JobFailed \<and> jb_max_attempts j \<le> jb_attempts j
        \<or> jb_state j' = JobQueued \<and> jb_attempts j < jb_max_attempts j)"

lemma turn_settled:
  assumes "run_kind fuel e (jb_kind j) i (agent_commit (a\<lparr>ag_db := d1\<rparr>)) = Some (r, a2)"
    and "a' = (case r of Inr details \<Rightarrow> agent_complete e j i details a2 | Inl x \<Rightarrow> agent_fail e j i x (agent_rollback a2))"
    and "get_row (row_id j) (jobs d1) = Some j"
  shows "ag_db a' = ag_saved a'"
    "\<exists>j'. settles j j' \<and> (\<forall>k. get_row k (jobs (ag_saved a')) = (if k = row_id j then Some j' else get_row k (jobs d1)))"
    "\<exists>now ety res details d. audit_events d = audit_events d1 \<and>
       audit_events (ag_saved a') = audit_events (agent_audit (be_crypto e) now ety res i (jb_correlation_id j) details d)"
proof -
  let ?a1 = "agent_commit (a\<lparr>ag_db := d1\<rparr>)"
  have "only_backups d1 ?a1" using only_backups_refl [of ?a1] by simp
  from only_backups_run [OF assms(1) this] obtain bs bs' where
    a2: "ag_db a2 = d1\<lparr>backups := bs\<rparr>" "ag_saved a2 = d1\<lparr>backups := bs'\<rparr>"
    unfolding only_backups_def by blast
  show "ag_db a' = ag_saved a'" unfolding assms(2) agent_complete_def agent_fail_def by (simp add: Let_def split: sum.split)
  show "\<exists>j'. settles j j' \<and> (\<forall>k. get_row k (jobs (ag_saved a')) = (if k = row_id j then Some j' else get_row k (jobs d1)))"
  proof (cases r)
    case (Inl x)
    let ?f = "\<lambda>y. y\<lparr>jb_state := (if jb_max_attempts j \<le> jb_attempts j then JobFailed else JobQueued),
        jb_available_at := tx_now e (agent_rollback a2) + seconds (min 3600 (2 ^ jb_attempts j * 10)),
        jb_locked_at := None, jb_locked_by := None, jb_last_error_code := Some (be_class_name e x)\<rparr>"
    have "get_row k (jobs (ag_saved a')) = get_row k (jobs (ag_db (set_job e (row_id j) ?f (agent_rollback a2))))" for k
      unfolding assms(2) Inl sum.case agent_fail_def Let_def audited_def by simp
    then have g: "get_row k (jobs (ag_saved a')) = (if k = row_id j
        then Some ((?f j)\<lparr>updated_at := tx_now e (agent_rollback a2)\<rparr>) else get_row k (jobs d1))" for k
      using get_set_job [of ?f k e "row_id j" "agent_rollback a2"] assms(3) a2(2) by simp
    have "settles j ((?f j)\<lparr>updated_at := tx_now e (agent_rollback a2)\<rparr>)" by (simp add: settles_def)
    with g show ?thesis by blast
  next
    case (Inr details)
    let ?f = "\<lambda>x. x\<lparr>jb_state := JobCompleted, jb_completed_at := Some (tx_now e a2), jb_locked_at := None, jb_locked_by := None\<rparr>"
    have "get_row k (jobs (ag_saved a')) = get_row k (jobs (ag_db (set_job e (row_id j) ?f a2)))" for k
      unfolding assms(2) Inr sum.case agent_complete_def audited_def by simp
    then have g: "get_row k (jobs (ag_saved a')) = (if k = row_id j
        then Some ((?f j)\<lparr>updated_at := tx_now e a2\<rparr>) else get_row k (jobs d1))" for k
      using get_set_job [of ?f k e "row_id j" a2] assms(3) a2(1) by simp
    have "settles j ((?f j)\<lparr>updated_at := tx_now e a2\<rparr>)" by (simp add: settles_def)
    with g show ?thesis by blast
  qed
  show "\<exists>now ety res details d. audit_events d = audit_events d1 \<and>
       audit_events (ag_saved a') = audit_events (agent_audit (be_crypto e) now ety res i (jb_correlation_id j) details d)"
  proof (cases r)
    case (Inl x)
    let ?b = "set_backup e i (\<lambda>r. r\<lparr>bk_state := (if jb_kind j = ''backup_create''
           then (if jb_max_attempts j \<le> jb_attempts j then ''failed'' else ''queued'') else bk_state r),
         bk_error_code := Some (be_class_name e x), version := version r + 1\<rparr>)
      (set_job e (row_id j) (\<lambda>y. y\<lparr>jb_state := (if jb_max_attempts j \<le> jb_attempts j then JobFailed else JobQueued),
        jb_available_at := tx_now e (agent_rollback a2) + seconds (min 3600 (2 ^ jb_attempts j * 10)),
        jb_locked_at := None, jb_locked_by := None, jb_last_error_code := Some (be_class_name e x)\<rparr>) (agent_rollback a2))"
    have d: "audit_events (ag_db ?b) = audit_events d1" by (simp add: a2(2))
    show ?thesis unfolding assms(2) Inl sum.case agent_fail_def Let_def audited_def
      by (intro exI conjI, rule d, simp)
  next
    case (Inr details)
    let ?b = "set_job e (row_id j) (\<lambda>x. x\<lparr>jb_state := JobCompleted, jb_completed_at := Some (tx_now e a2),
          jb_locked_at := None, jb_locked_by := None\<rparr>) a2"
    have d: "audit_events (ag_db ?b) = audit_events d1" by (simp add: a2(1))
    show ?thesis unfolding assms(2) Inr sum.case agent_complete_def audited_def
      by (intro exI conjI, rule d, simp)
  qed
qed

lemma agent_claim_none: "agent_claim now d = (None, d1) \<Longrightarrow> keyed n (jobs d) \<Longrightarrow> d1 = d"
proof -
  assume "agent_claim now d = (None, d1)" "keyed n (jobs d)"
  then obtain rows where rows: "claim now ''backup-agent'' 1 BACKUP_KINDS d = (rows, d1)"
    "None = (case rows of [] \<Rightarrow> None | j # _ \<Rightarrow> Some j)"
    using agent_claimD [of n d now None d1] by blast
  then have "rows = []" by (cases rows) simp_all
  with rows(1) show ?thesis by (auto simp: claim_def Let_def split: if_splits)
qed

lemma agent_claim_job:
  assumes "keyed n (jobs d)" "agent_claim now d = (Some j, d1)"
  shows "\<exists>x. get_row (row_id x) (jobs d) = Some x \<and> claimable now BACKUP_KINDS x
    \<and> j = mark_running now ''backup-agent'' x \<and> row_id j = row_id x \<and> d1 = d\<lparr>jobs := put_row j (jobs d)\<rparr>"
proof -
  obtain rows where rows: "claim now ''backup-agent'' 1 BACKUP_KINDS d = (rows, d1)"
    "Some j = (case rows of [] \<Rightarrow> None | j # _ \<Rightarrow> Some j)" "length rows \<le> 1"
    using agent_claimD [OF assms] by blast
  then have r: "rows = [j]" by (cases rows) auto
  let ?rs = "claim_rows now 1 BACKUP_KINDS (jobs d)"
  have m: "map (mark_running now ''backup-agent'') ?rs = [j]" "d1 = d\<lparr>jobs := put_row j (jobs d)\<rparr>"
    using rows(1) r by (auto simp: claim_def BACKUP_KINDS_def Let_def)
  then obtain x where x: "?rs = [x]" "j = mark_running now ''backup-agent'' x" by (cases ?rs) auto
  then have "x \<in> set (jobs d)" "claimable now BACKUP_KINDS x"
    using set_claim_rows [of x now 1 BACKUP_KINDS "jobs d"] by simp_all
  then show ?thesis using get_row_mem [OF assms(1)] x(2) m(2) by (auto simp: mark_running_def)
qed

lemma settled_turn:
  assumes "keyed n (jobs (ag_saved a))" "ag_db a = ag_saved a" "agent_turn fuel e a = Some (Settled, a')"
  shows "\<exists>x j d1 i r a2. get_row (row_id x) (jobs (ag_saved a)) = Some x \<and> claimable (tx_now e a) BACKUP_KINDS x
    \<and> j = mark_running (tx_now e a) ''backup-agent'' x \<and> row_id j = row_id x
    \<and> agent_claim (tx_now e a) (ag_saved a) = (Some j, d1)
    \<and> d1 = (ag_saved a)\<lparr>jobs := put_row j (jobs (ag_saved a))\<rparr> \<and> get_row (row_id j) (jobs d1) = Some j
    \<and> payload_uuid (jb_payload j) ''backup_record_id'' = Inr i
    \<and> run_kind fuel e (jb_kind j) i (agent_commit (a\<lparr>ag_db := d1\<rparr>)) = Some (r, a2)
    \<and> a' = (case r of Inr details \<Rightarrow> agent_complete e j i details a2 | Inl x \<Rightarrow> agent_fail e j i x (agent_rollback a2))"
  using assms(3)
proof (cases rule: agent_turn_cases)
  case (settled j d1 i r a2)
  have c: "agent_claim (tx_now e a) (ag_saved a) = (Some j, d1)" using settled(1) assms(2) by simp
  obtain x where x: "get_row (row_id x) (jobs (ag_saved a)) = Some x" "claimable (tx_now e a) BACKUP_KINDS x"
    "j = mark_running (tx_now e a) ''backup-agent'' x" "row_id j = row_id x"
    "d1 = (ag_saved a)\<lparr>jobs := put_row j (jobs (ag_saved a))\<rparr>"
    using agent_claim_job [OF assms(1) c] by blast
  have "get_row (row_id j) (jobs d1) = Some j" using x(1,4) unfolding x(5) by (simp add: get_row_put_row)
  with x c settled show ?thesis by blast
qed simp_all

text \<open>
  A turn that took a job settles it: the job was waiting and due, it has ended - completed, given up after its
  last attempt, or waiting again with an attempt more - and no other job has changed.
\<close>

theorem backup_turn_settles:
  assumes "keyed n (jobs (ag_saved a))" "ag_db a = ag_saved a" "agent_turn fuel e a = Some (Settled, a')"
  shows "ag_db a' = ag_saved a' \<and> (\<exists>x j'. claimable (tx_now e a) BACKUP_KINDS x
    \<and> get_row (row_id x) (jobs (ag_saved a)) = Some x \<and> settles (mark_running (tx_now e a) ''backup-agent'' x) j'
    \<and> (\<forall>k. get_row k (jobs (ag_saved a')) = (if k = row_id x then Some j' else get_row k (jobs (ag_saved a)))))"
proof -
  obtain x j d1 i r a2 where x: "get_row (row_id x) (jobs (ag_saved a)) = Some x"
    "claimable (tx_now e a) BACKUP_KINDS x" "j = mark_running (tx_now e a) ''backup-agent'' x" "row_id j = row_id x"
    and d1: "d1 = (ag_saved a)\<lparr>jobs := put_row j (jobs (ag_saved a))\<rparr>" "get_row (row_id j) (jobs d1) = Some j"
    and run: "run_kind fuel e (jb_kind j) i (agent_commit (a\<lparr>ag_db := d1\<rparr>)) = Some (r, a2)"
    and a': "a' = (case r of Inr details \<Rightarrow> agent_complete e j i details a2 | Inl x \<Rightarrow> agent_fail e j i x (agent_rollback a2))"
    using settled_turn [OF assms] by blast
  obtain j' where j': "settles j j'" "\<And>k. get_row k (jobs (ag_saved a')) = (if k = row_id j then Some j' else get_row k (jobs d1))"
    using turn_settled(2) [OF run a' d1(2)] by blast
  have "get_row k (jobs (ag_saved a')) = (if k = row_id x then Some j' else get_row k (jobs (ag_saved a)))" for k
    unfolding j'(2) x(4) d1(1) by (simp add: get_row_put_row x(4))
  then show ?thesis using turn_settled(1) [OF run a' d1(2)] x(1,2) j'(1) unfolding x(3) by blast
qed

text \<open>
  C38. The agent never breaks the chain of the audit log: a settled turn adds one event that is linked to the last,
  and any other turn adds none.
\<close>

theorem backup_audit_chain_kept:
  assumes "keyed n (jobs (ag_saved a))" "ag_db a = ag_saved a" "agent_turn fuel e a = Some (out, a')"
    and "verify_chain (be_crypto e) (audit_events (ag_saved a)) = (True, None)"
  shows "verify_chain (be_crypto e) (audit_events (ag_saved a')) = (True, None)
    \<and> (\<exists>es. audit_events (ag_saved a') = audit_events (ag_saved a) @ es \<and> length es = (if out = Settled then 1 else 0))"
  using assms(3)
proof (cases rule: agent_turn_cases)
  case (idle d1)
  then show ?thesis using agent_claim_none [of "tx_now e a" "ag_saved a" d1 n] assms(1,2,4) by simp
next
  case (crashed j d1 x)
  have "agent_claim (tx_now e a) (ag_saved a) = (Some j, d1)" using crashed(1) assms(2) by simp
  then show ?thesis using agent_claim_job [OF assms(1)] crashed assms(4) by fastforce
next
  case (settled j d1 i r a2)
  have c: "agent_claim (tx_now e a) (ag_saved a) = (Some j, d1)" using settled(1) assms(2) by simp
  obtain x where x: "get_row (row_id x) (jobs (ag_saved a)) = Some x" "row_id j = row_id x"
    "d1 = (ag_saved a)\<lparr>jobs := put_row j (jobs (ag_saved a))\<rparr>"
    using agent_claim_job [OF assms(1) c] by blast
  have j: "get_row (row_id j) (jobs d1) = Some j" using x(1,2) unfolding x(3) by (simp add: get_row_put_row)
  have d1: "audit_events d1 = audit_events (ag_saved a)" unfolding x(3) by simp
  obtain now ety res details d where d: "audit_events d = audit_events d1"
    "audit_events (ag_saved a') = audit_events (agent_audit (be_crypto e) now ety res i (jb_correlation_id j) details d)"
    using turn_settled(3) [OF settled(4,5) j] by blast
  have "verify_from (be_crypto e) None (audit_events d) = None" using assms(4) d(1) d1 by (simp add: verify_chain_iff)
  from agent_audit_chain [OF this] have "verify_from (be_crypto e) None (audit_events (ag_saved a')) = None"
    unfolding d(2) .
  moreover have "\<exists>ev. audit_events (ag_saved a') = audit_events (ag_saved a) @ [ev]"
    unfolding d(2) using agent_audit_event [of "be_crypto e" now ety res i "jb_correlation_id j" details d] d(1) d1
    by force
  ultimately show ?thesis using settled(2) by (auto simp: verify_chain_iff)
qed

section \<open>Waiting ends\<close>

lemma await_ends:
  assumes "\<And>t k. be_monotonic e t \<le> be_monotonic e (t @ [k])"
    and "\<And>t. be_monotonic e t + seconds 1 \<le> be_monotonic e (t @ [Pause 1])"
  shows "deadline - be_monotonic e (ag_trace a) \<le> seconds (int n) \<Longrightarrow> \<exists>r. await_ready (Suc n) e deadline a = Some r"
proof (induction n arbitrary: a)
  case 0
  then show ?case by (simp add: seconds_def)
next
  case (Suc n)
  let ?k = "IsReady [asc ''pg_isready'', asc ''-h'', socket_dir, asc ''-p'', asc ''55434'',
                 asc ''-U'', asc ''kajovodagmar'', asc ''-d'', asc ''kajovodagmar'']"
  let ?a = "traced (Pause 1) (traced ?k (traced Clock a))"
  have t: "ag_trace ?a = ((ag_trace a @ [Clock]) @ [?k]) @ [Pause 1]" by (simp add: traced_def)
  have "be_monotonic e (ag_trace a) \<le> be_monotonic e ((ag_trace a @ [Clock]) @ [?k])"
    using assms(1) [of "ag_trace a" Clock] assms(1) [of "ag_trace a @ [Clock]" ?k] by linarith
  then have "be_monotonic e (ag_trace a) + seconds 1 \<le> be_monotonic e (ag_trace ?a)"
    using assms(2) [of "(ag_trace a @ [Clock]) @ [?k]"] unfolding t by linarith
  then have "deadline - be_monotonic e (ag_trace ?a) \<le> seconds (int n)" using Suc.prems by (simp add: seconds_def)
  then obtain r where r: "await_ready (Suc n) e deadline ?a = Some r" using Suc.IH by blast
  show ?case
  proof (cases "be_monotonic e (ag_trace a) < deadline")
    case True
    show ?thesis
    proof (cases "be_exit_code e (ag_trace (traced Clock a))")
      case (Inr code)
      with True r show ?thesis by (cases "code = 0") (simp_all add: Let_def del: await_ready.simps(2) add: await_ready.simps(2) [of "Suc n"])
    qed (use True in \<open>simp add: Let_def\<close>)
  qed (simp add: Let_def)
qed

lemma probe_ends:
  assumes "\<And>t k. be_monotonic e t \<le> be_monotonic e (t @ [k])"
    and "\<And>t. be_monotonic e t + seconds 1 \<le> be_monotonic e (t @ [Pause 1])" and "181 \<le> fuel"
  shows "probe_server fuel e a1 \<noteq> None"
proof -
  obtain n where n: "fuel = Suc n" "180 \<le> n" using assms(3) by (cases fuel) auto
  have "be_monotonic e (ag_trace a1) + seconds 180 - be_monotonic e (ag_trace (traced Clock a1)) \<le> seconds (int n)" for a1
    using assms(1) [of "ag_trace a1" Clock] n(2) by (simp add: traced_def seconds_def)
  from await_ends [OF assms(1,2) this]
  have "await_ready fuel e (be_monotonic e (ag_trace a1) + seconds 180) (traced Clock a1) \<noteq> None" for a1
    unfolding n(1) by blast
  then show ?thesis
    by (auto simp: probe_server_def Let_def simp del: not_None_eq split: prod.split sum.split option.split)
qed

text \<open>
  C39. A turn of the agent ends, on a clock that does not go backwards and counts a second for a pause of a second:
  181 rounds of the loop that waits for the restored server are enough.
\<close>

theorem backup_turn_ends:
  assumes "\<And>t k. be_monotonic e t \<le> be_monotonic e (t @ [k])"
    and "\<And>t. be_monotonic e t + seconds 1 \<le> be_monotonic e (t @ [Pause 1])" and "181 \<le> fuel"
  shows "\<exists>out a'. agent_turn fuel e a = Some (out, a')"
proof -
  have "restore_test fuel e i a1 \<noteq> None" for i a1
    using probe_ends [OF assms]
    by (auto simp: restore_test_def simp del: not_None_eq split: prod.split sum.split option.split)
  then have k: "run_kind fuel e k i a1 \<noteq> None" for k i a1
    by (simp add: run_kind_def del: not_None_eq)
  have "agent_turn fuel e a \<noteq> None"
    using k by (auto simp: agent_turn_def Let_def simp del: not_None_eq split: prod.split sum.split option.split)
  then show ?thesis by fast
qed

section \<open>What the machine was asked\<close>

lemma andthen_Inr:
  "andthen r f = (Inr v, a') \<longleftrightarrow> (\<exists>w a. r = (Inr w, a) \<and> f w a = (Inr v, a'))"
  by (auto simp: andthen_def split: prod.splits sum.splits)

lemma traced_sel [simp]:
  "ag_trace (traced k a) = ag_trace a @ [k]" "ag_db (traced k a) = ag_db a" "ag_saved (traced k a) = ag_saved a"
  by (simp_all add: traced_def)

lemma pgbackrest_Inr:
  "pgbackrest e l a = (Inr v, a') \<longleftrightarrow> a' = traced (Run (asc ''pgbackrest'' # (asc ''--stanza='' @ be_stanza e) # l) 1800) a
    \<and> be_output e (ag_trace a) (Run (asc ''pgbackrest'' # (asc ''--stanza='' @ be_stanza e) # l) 1800) = Inr v"
  by (auto simp: pgbackrest_def command_def perform_def)

lemma remove_keeps_trace: "\<exists>t. ag_trace (snd (remove_children e cs a)) = ag_trace a @ t"
proof (induction cs arbitrary: a)
  case (Cons c cs)
  obtain name directory link where c: "c = (name, directory, link)" by (metis prod.exhaust)
  obtain t where "ag_trace (snd (remove_children e cs (traced (if directory \<and> \<not> link then RemoveTree name else Unlink name) a)))
      = ag_trace a @ [if directory \<and> \<not> link then RemoveTree name else Unlink name] @ t"
    using Cons.IH [of "traced (if directory \<and> \<not> link then RemoveTree name else Unlink name) a"] by auto
  then show ?case unfolding c by (auto simp: andthen_def perform_def split: sum.split)
qed simp

lemma await_keeps_trace:
  "await_ready n e t a = Some (r, a') \<Longrightarrow> \<exists>u. ag_trace a' = ag_trace a @ u"
proof (induction n e t a rule: await_ready.induct)
  case (2 n e deadline a)
  let ?k = "IsReady [asc ''pg_isready'', asc ''-h'', socket_dir, asc ''-p'', asc ''55434'',
                 asc ''-U'', asc ''kajovodagmar'', asc ''-d'', asc ''kajovodagmar'']"
  show ?case
  proof (cases "be_monotonic e (ag_trace a) < deadline
      \<and> (\<exists>code. be_exit_code e (ag_trace (traced Clock a)) = Inr code \<and> code \<noteq> 0)")
    case True
    then have "await_ready n e deadline (traced (Pause 1) (traced ?k (traced Clock a))) = Some (r, a')"
      using "2.prems" by (auto simp: Let_def)
    with True "2.IH" [of "traced Clock a" ?k] show ?thesis by fastforce
  next
    case False
    with "2.prems" show ?thesis by (auto simp: Let_def split: if_splits sum.splits)
  qed
qed simp

text \<open>
  C37. A server that was started for a restoration test is stopped, whatever happens in between, and the stop is the
  last call; the test succeeds only when the stop does. A server that did not start is not stopped.
\<close>

theorem started_server_stopped:
  assumes "probe_server fuel e a = Some (r, a')"
  shows "case start_server e a of
      (Inl x, a1) \<Rightarrow> r = Inl x \<and> a' = a1
    | (Inr _, a1) \<Rightarrow> \<exists>a2 t. a' = snd (stop_server e a2) \<and> ag_trace a2 = ag_trace a1 @ t
        \<and> (isl (fst (stop_server e a2)) \<longrightarrow> isl r)"
proof (cases "start_server e a")
  case (Pair r1 a1)
  show ?thesis
  proof (cases r1)
    case (Inr v)
    then obtain r2 a2 where w: "await_ready fuel e (be_monotonic e (ag_trace a1) + seconds 180) (traced Clock a1) = Some (r2, a2)"
      using assms Pair by (auto simp: probe_server_def split: option.splits)
    obtain t where t: "ag_trace a2 = ag_trace a1 @ t" using await_keeps_trace [OF w] by auto
    obtain r3 a3 where c: "andthen (r2, a2) (\<lambda>_ a. check_instance e a) = (r3, a3)" by fastforce
    have "\<exists>u. ag_trace (snd (andthen (r2, a2) (\<lambda>_ a. check_instance e a))) = ag_trace a2 @ u"
      by (auto simp: andthen_def check_instance_def command_def perform_def split: sum.split)
    then obtain u where u: "ag_trace a3 = ag_trace a1 @ t @ u" unfolding c using t by auto
    have "a' = snd (stop_server e a3)" "isl (fst (stop_server e a3)) \<longrightarrow> isl r"
      using assms Pair Inr w c by (auto simp: probe_server_def split: prod.splits sum.splits)
    with u Pair Inr show ?thesis by auto
  qed (use assms Pair in \<open>auto simp: probe_server_def\<close>)
qed

text \<open>What a successful creation has done.\<close>

definition check_call :: "agent_env \<Rightarrow> call" where
  "check_call e = Run [asc ''pgbackrest'', asc ''--stanza='' @ be_stanza e, asc ''check''] 1800"

definition manifest_call :: "agent_env \<Rightarrow> pystr \<Rightarrow> call" where
  "manifest_call e label = Run [asc ''pgbackrest'', asc ''--stanza='' @ be_stanza e, asc ''--set='' @ label,
     asc ''info'', asc ''--output=json''] 1800"

definition listed :: "agent_env \<Rightarrow> pg_backup \<Rightarrow> bool" where
  "listed e b \<longleftrightarrow> (\<exists>t out info stanzas. be_output e t (Run [asc ''pgbackrest'', asc ''--stanza='' @ be_stanza e,
       asc ''info'', asc ''--output=json''] 1800) = Inr out
     \<and> be_info e out = Inr (Some (info # stanzas)) \<and> b \<in> set info)"

lemma backrest_info_listed:
  assumes "backrest_info e a = (Inr info, a')" "b \<in> set info" shows "listed e b"
proof -
  let ?k = "Run [asc ''pgbackrest'', asc ''--stanza='' @ be_stanza e, asc ''info'', asc ''--output=json''] 1800"
  obtain out where out: "be_output e (ag_trace a) ?k = Inr out"
    "(case be_info e out of Inl x \<Rightarrow> Inl x | Inr None \<Rightarrow> Inl RuntimeError | Inr (Some []) \<Rightarrow> Inl RuntimeError
       | Inr (Some (s # _)) \<Rightarrow> Inr s) = Inr info"
    using assms(1) unfolding backrest_info_def andthen_Inr pgbackrest_Inr by blast
  then obtain stanzas where "be_info e out = Inr (Some (info # stanzas))"
    by (auto split: sum.splits option.splits list.splits)
  with out(1) assms(2) show ?thesis unfolding listed_def by blast
qed

lemma backup_by_label_mem:
  assumes "backup_by_label info label = Inr b" shows "b \<in> set info"
proof -
  define xs where "xs = (case label of None \<Rightarrow> drop (length info - 1) info
            | Some l \<Rightarrow> if l = [] then drop (length info - 1) info else filter (\<lambda>b. pb_label b = l) info)"
  have "(if xs = [] then Inl RuntimeError else Inr (last xs)) = (Inr b :: pg_backup result)"
    using assms unfolding backup_by_label_def Let_def xs_def .
  then have "xs \<noteq> []" "b = last xs" by (auto split: if_splits)
  moreover have "set xs \<subseteq> set info" unfolding xs_def by (auto split: option.splits if_splits dest: in_set_dropD)
  ultimately show ?thesis using last_in_set by blast
qed

lemma create_backup_checks:
  assumes "create_backup e i a = (Inr details, a')"
  shows "\<exists>b t manifest. listed e b \<and> ag_trace a' = t @ [check_call e, manifest_call e (pb_label b)]
    \<and> \<not> isl (be_output e t (check_call e))
    \<and> be_output e (t @ [check_call e]) (manifest_call e (pb_label b)) = Inr manifest
    \<and> details = backup_details b
    \<and> (\<forall>r'. get_row i (backups (ag_db a')) = Some r' \<longrightarrow> bk_state r' = ''completed'' \<and> bk_label r' = Some (pb_label b)
         \<and> bk_size_bytes r' = Some (pb_size b) \<and> bk_manifest_digest r' = Some (sha256 (be_crypto e) manifest))"
proof -
  obtain r where r: "get_row i (backups (ag_db a)) = Some r"
    using assms by (cases "get_row i (backups (ag_db a))") (auto simp: create_backup_def)
  obtain info a1 b a2 v a3 manifest a4 where
    i: "backrest_info e (agent_commit (set_backup e i (\<lambda>r. r\<lparr>bk_state := ''running'', bk_error_code := None\<rparr>) a)) = (Inr info, a1)"
    and b: "(if usable_backups r info \<noteq> [] then (Inr (last (usable_backups r info)), a1) else make_backup e a1) = (Inr b, a2)"
    and c: "pgbackrest e [asc ''check''] a2 = (Inr v, a3)"
    and m: "pgbackrest e [asc ''--set='' @ pb_label b, asc ''info'', asc ''--output=json''] a3 = (Inr manifest, a4)"
    and d: "details = backup_details b"
      "a' = set_backup e i (\<lambda>r. r\<lparr>bk_state := ''completed'', bk_completed_at := Some (tx_now e a4),
                 bk_verified_at := Some (tx_now e a4), bk_label := Some (pb_label b),
                 bk_manifest_digest := Some (sha256 (be_crypto e) manifest), bk_size_bytes := Some (pb_size b),
                 bk_error_code := None, version := version r + 1\<rparr>) a4"
    using assms r by (auto simp: create_backup_def andthen_Inr)
  have "listed e b"
  proof (cases "usable_backups r info = []")
    case True
    then have "make_backup e a1 = (Inr b, a2)" using b by simp
    then obtain l a5 where "backrest_info e a5 = (Inr l, a2)" "backup_by_label l None = Inr b"
      by (auto simp: make_backup_def andthen_Inr)
    then show ?thesis using backrest_info_listed backup_by_label_mem by blast
  next
    case False
    then have "b \<in> set (usable_backups r info)" using b last_in_set [OF False] by auto
    then have "b \<in> set info" by (simp add: usable_backups_def)
    then show ?thesis by (rule backrest_info_listed [OF i])
  qed
  moreover have "ag_trace a' = ag_trace a2 @ [check_call e, manifest_call e (pb_label b)]"
    "be_output e (ag_trace a2) (check_call e) = Inr v"
    "be_output e (ag_trace a2 @ [check_call e]) (manifest_call e (pb_label b)) = Inr manifest"
    using c m unfolding d(2) by (auto simp: pgbackrest_Inr check_call_def manifest_call_def)
  moreover have "bk_state r' = ''completed'' \<and> bk_label r' = Some (pb_label b) \<and> bk_size_bytes r' = Some (pb_size b)
      \<and> bk_manifest_digest r' = Some (sha256 (be_crypto e) manifest)"
    if "get_row i (backups (ag_db a')) = Some r'" for r'
    using that unfolding d(2) by (subst (asm) get_set_backup) auto
  ultimately show ?thesis using d(1) by (metis isl_def sum.disc(2))
qed

text \<open>
  C36. A backup that a turn for its creation leaves as completed is one that pgBackRest lists, recorded with its label
  and size, after a check of the repository that succeeded, and with the digest of its manifest, read last.
\<close>

theorem completed_backup_checked:
  assumes "keyed n (jobs (ag_saved a))" "ag_db a = ag_saved a" "agent_turn fuel e a = Some (Settled, a')"
    and "agent_claim (tx_now e a) (ag_db a) = (Some j, d1)" "jb_kind j = ''backup_create''"
    and "payload_uuid (jb_payload j) ''backup_record_id'' = Inr i"
    and "get_row i (backups (ag_saved a')) = Some r'" "bk_state r' = ''completed''"
  shows "\<exists>b t manifest. listed e b \<and> ag_trace a' = t @ [check_call e, manifest_call e (pb_label b)]
    \<and> \<not> isl (be_output e t (check_call e))
    \<and> be_output e (t @ [check_call e]) (manifest_call e (pb_label b)) = Inr manifest
    \<and> bk_label r' = Some (pb_label b) \<and> bk_size_bytes r' = Some (pb_size b)
    \<and> bk_manifest_digest r' = Some (sha256 (be_crypto e) manifest)"
proof -
  obtain r a2 where run: "run_kind fuel e (jb_kind j) i (agent_commit (a\<lparr>ag_db := d1\<rparr>)) = Some (r, a2)"
    and a': "a' = (case r of Inr details \<Rightarrow> agent_complete e j i details a2 | Inl x \<Rightarrow> agent_fail e j i x (agent_rollback a2))"
    using settled_turn [OF assms(1-3)] assms(2,4,6) by auto
  have c: "create_backup e i (agent_commit (a\<lparr>ag_db := d1\<rparr>)) = (r, a2)" using run assms(5) by (simp add: run_kind_def)
  show ?thesis
  proof (cases r)
    case (Inr details)
    have "get_row i (backups (ag_db a2)) = Some r'" "ag_trace a' = ag_trace a2"
      using assms(7) unfolding a' Inr by (simp_all add: agent_complete_def audited_def)
    moreover obtain b t manifest where "listed e b" "ag_trace a2 = t @ [check_call e, manifest_call e (pb_label b)]"
      "\<not> isl (be_output e t (check_call e))"
      "be_output e (t @ [check_call e]) (manifest_call e (pb_label b)) = Inr manifest"
      "\<forall>r'. get_row i (backups (ag_db a2)) = Some r' \<longrightarrow> bk_state r' = ''completed'' \<and> bk_label r' = Some (pb_label b)
         \<and> bk_size_bytes r' = Some (pb_size b) \<and> bk_manifest_digest r' = Some (sha256 (be_crypto e) manifest)"
      using create_backup_checks [OF c [unfolded Inr]] by blast
    ultimately show ?thesis by auto
  next
    case (Inl x)
    let ?f = "\<lambda>r. r\<lparr>bk_state := (if jb_kind j = ''backup_create''
           then (if jb_max_attempts j \<le> jb_attempts j then ''failed'' else ''queued'') else bk_state r),
         bk_error_code := Some (be_class_name e x), version := version r + 1\<rparr>"
    let ?b = "set_job e (row_id j) (\<lambda>y. y\<lparr>jb_state := (if jb_max_attempts j \<le> jb_attempts j then JobFailed else JobQueued),
        jb_available_at := tx_now e (agent_rollback a2) + seconds (min 3600 (2 ^ jb_attempts j * 10)),
        jb_locked_at := None, jb_locked_by := None, jb_last_error_code := Some (be_class_name e x)\<rparr>) (agent_rollback a2)"
    have "get_row i (backups (ag_db (set_backup e i ?f ?b))) = Some r'"
      using assms(7) unfolding a' Inl sum.case agent_fail_def Let_def audited_def by simp
    then have "bk_state r' \<noteq> ''completed''"
      using assms(5) by (subst (asm) get_set_backup) (auto split: if_splits)
    with assms(8) show ?thesis by simp
  qed
qed

section \<open>From the request to the backup\<close>

lemma calls_keep_db [simp]:
  "ag_db (snd (pgbackrest e l a)) = ag_db a" "ag_db (snd (backrest_info e a)) = ag_db a"
  by (simp_all add: pgbackrest_def command_def perform_def backrest_info_def andthen_def split: sum.split)

lemma andthen_succeeds:
  assumes "\<exists>v a. r = (Inr v, a) \<and> P a" "\<And>v a. P a \<Longrightarrow> \<exists>w a'. f v a = (Inr w, a') \<and> Q a'"
  shows "\<exists>w a'. andthen r f = (Inr w, a') \<and> Q a'"
  using assms by (auto simp: andthen_def)

text \<open>A machine on which every call succeeds and pgBackRest lists a backup.\<close>

definition machine_works :: "agent_env \<Rightarrow> bool" where
  "machine_works e \<longleftrightarrow> (\<forall>t k. \<exists>out. be_output e t k = Inr out)
     \<and> (\<forall>out. \<exists>info stanzas. be_info e out = Inr (Some (info # stanzas)) \<and> info \<noteq> [])"

lemma pgbackrest_works: "machine_works e \<Longrightarrow> \<exists>v a'. pgbackrest e l a = (Inr v, a') \<and> ag_db a' = ag_db a"
  unfolding machine_works_def by (auto simp: pgbackrest_def command_def perform_def)

lemma backrest_info_works:
  assumes "machine_works e" shows "\<exists>info a'. backrest_info e a = (Inr info, a') \<and> info \<noteq> [] \<and> ag_db a' = ag_db a"
proof -
  obtain out a' where o: "pgbackrest e [asc ''info'', asc ''--output=json''] a = (Inr out, a')" "ag_db a' = ag_db a"
    using pgbackrest_works [OF assms] by blast
  obtain info stanzas where "be_info e out = Inr (Some (info # stanzas))" "info \<noteq> []"
    using assms unfolding machine_works_def by blast
  with o show ?thesis by (simp add: backrest_info_def andthen_def)
qed

lemma make_backup_works:
  assumes "machine_works e" shows "\<exists>b a'. make_backup e a = (Inr b, a') \<and> ag_db a' = ag_db a"
proof -
  obtain v a1 where 1: "pgbackrest e [asc ''stanza-create''] a = (Inr v, a1)" "ag_db a1 = ag_db a"
    using pgbackrest_works [OF assms] by blast
  obtain w a2 where 2: "pgbackrest e [asc ''--type=full'', asc ''backup''] a1 = (Inr w, a2)" "ag_db a2 = ag_db a1"
    using pgbackrest_works [OF assms] by blast
  obtain info a3 where 3: "backrest_info e a2 = (Inr info, a3)" "info \<noteq> []" "ag_db a3 = ag_db a2"
    using backrest_info_works [OF assms] by blast
  have "drop (length info - 1) info \<noteq> []" using 3(2) by (cases info) auto
  then obtain b where "backup_by_label info None = Inr b" by (simp add: backup_by_label_def Let_def)
  with 1 2 3 show ?thesis by (simp add: make_backup_def andthen_def)
qed

lemma create_backup_works:
  assumes "machine_works e" "get_row i (backups (ag_db a)) = Some r"
  shows "\<exists>details a' r'. create_backup e i a = (Inr details, a') \<and> get_row i (backups (ag_db a')) = Some r'"
proof -
  let ?a = "agent_commit (set_backup e i (\<lambda>r. r\<lparr>bk_state := ''running'', bk_error_code := None\<rparr>) a)"
  obtain info a1 where 1: "backrest_info e ?a = (Inr info, a1)" "ag_db a1 = ag_db ?a"
    using backrest_info_works [OF assms(1)] by blast
  obtain b a2 where 2: "(if usable_backups r info \<noteq> [] then (Inr (last (usable_backups r info)), a1) else make_backup e a1) = (Inr b, a2)"
      "ag_db a2 = ag_db a1"
    using make_backup_works [OF assms(1), of a1] by (cases "usable_backups r info = []") auto
  obtain v a3 where 3: "pgbackrest e [asc ''check''] a2 = (Inr v, a3)" "ag_db a3 = ag_db a2"
    using pgbackrest_works [OF assms(1)] by blast
  obtain m a4 where 4: "pgbackrest e [asc ''--set='' @ pb_label b, asc ''info'', asc ''--output=json''] a3 = (Inr m, a4)"
      "ag_db a4 = ag_db a3"
    using pgbackrest_works [OF assms(1)] by blast
  let ?f = "\<lambda>r. r\<lparr>bk_state := ''completed'', bk_completed_at := Some (tx_now e a4),
                 bk_verified_at := Some (tx_now e a4), bk_label := Some (pb_label b),
                 bk_manifest_digest := Some (sha256 (be_crypto e) m), bk_size_bytes := Some (pb_size b),
                 bk_error_code := None, version := version r + 1\<rparr>"
  have c: "create_backup e i a = (Inr (backup_details b), set_backup e i ?f a4)"
    unfolding create_backup_def assms(2) option.case 1(1) andthen_def prod.case sum.case 2(1) 3(1) 4(1) ..
  have "get_row i (backups (ag_db ?a)) \<noteq> None"
    using get_set_backup [of "\<lambda>r. r\<lparr>bk_state := ''running'', bk_error_code := None\<rparr>" i e i a] assms(2) by simp
  then have "get_row i (backups (ag_db a4)) \<noteq> None" using 1(2) 2(2) 3(2) 4(2) by simp
  then show ?thesis using c get_set_backup [of ?f i e i a4] by auto
qed

lemma requested_made:
  assumes "request_backup env c uuid5 now q ctx d = (Inr r, d1)"
    and "existing_backup_job uuid5 ''backup_create'' (br_idempotency_key q) d = None"
    and "filter (\<lambda>j. jb_state j = JobQueued \<and> jb_kind j \<in> set BACKUP_KINDS) (jobs d) = []"
    and "keyed (next_id d) (backups d)" "next_id d < 2 ^ 128" "now \<le> be_now e k" "machine_works e"
  shows "\<exists>a' r'. agent_turn fuel e \<lparr>ag_db = d1, ag_saved = d1, ag_tx = k, ag_trace = t\<rparr> = Some (Settled, a')
    \<and> get_row (row_id r) (backups (ag_saved a')) = Some r' \<and> bk_state r' = ''completed''"
proof -
  let ?a = "\<lparr>ag_db = d1, ag_saved = d1, ag_tx = k, ag_trace = t\<rparr>"
  let ?i = "backup_job_id uuid5 ''backup_create'' (br_idempotency_key q)"
  have add: "add_backup c uuid5 now q ctx d = (Inr r, d1)" using assms(1,2) by (simp add: request_backup_def)
  have free: "get_row ?i (jobs d) = None" using assms(2) by (simp add: existing_backup_job_def)
  have r: "r = new_backup now (br_purpose q) (next_id d)"
    using add free by (simp add: add_backup_def Let_def enqueue_with_id_def fresh_def)
  obtain job where job: "jobs d1 = jobs d @ [job]" "row_id job = ?i" "jb_state job = JobQueued"
      "jb_kind job = ''backup_create''" "jb_available_at job = now"
      "jb_payload job = [(asc ''backup_record_id'', JStr (uuid_str (row_id r))), (asc ''purpose'', JStr (br_purpose q))]"
    and b: "backups d1 = backups d @ [r]"
    using add free unfolding r
    by (auto simp: add_backup_def Let_def enqueue_with_id_def enqueue_def fresh_def audit_append_def new_backup_def seconds_def)
  have kinds: "filter (\<lambda>j. jb_state j = JobQueued \<and> jb_available_at j \<le> be_now e k \<and> jb_kind j \<in> set BACKUP_KINDS) (jobs d1) = [job]"
    using assms(3,6) job(3-5) unfolding job(1) by (auto simp: filter_empty_conv BACKUP_KINDS_def)
  let ?f = "\<lambda>j. j\<lparr>jb_state := JobRunning, jb_locked_at := Some (be_now e k), jb_locked_by := Some ''backup-agent'',
                       jb_attempts := jb_attempts j + 1, updated_at := be_now e k\<rparr>"
  let ?d = "d1\<lparr>jobs := update_where (\<lambda>j. row_id j = row_id job) ?f (jobs d1)\<rparr>"
  have "get_row (row_id job) (jobs ?d) = Some (?f job)"
    using update_where_row [of ?f "row_id job" "row_id job" "jobs d1"] free job(1,2) by (simp add: get_row_append)
  then have claim: "agent_claim (tx_now e ?a) d1 = (Some (?f job), ?d)"
    unfolding agent_claim_def tx_now_def agent.simps kinds by simp
  have p: "payload_uuid (jb_payload (?f job)) ''backup_record_id'' = Inr (row_id r)"
    using uuid_parse_str [OF assms(5)] by (simp add: payload_uuid_def job(6) jget_def r new_backup_def)
  have g: "get_row (row_id r) (backups (ag_db (agent_commit (?a\<lparr>ag_db := ?d\<rparr>)))) = Some r"
    using get_row_fresh [OF assms(4), of "next_id d"] by (simp add: b get_row_append r new_backup_def)
  obtain details a2 r' where c: "create_backup e (row_id r) (agent_commit (?a\<lparr>ag_db := ?d\<rparr>)) = (Inr details, a2)"
    "get_row (row_id r) (backups (ag_db a2)) = Some r'"
    using create_backup_works [OF assms(7) g] by blast
  have "bk_state r' = ''completed''" using create_backup_checks [OF c(1)] c(2) by blast
  moreover have "agent_turn fuel e ?a = Some (Settled, agent_complete e (?f job) (row_id r) details a2)"
    unfolding agent_turn_def agent.simps(1) claim prod.case option.case Let_def p sum.case
    using c(1) job(4) by (simp add: run_kind_def)
  moreover have "get_row (row_id r) (backups (ag_saved (agent_complete e (?f job) (row_id r) details a2))) = Some r'"
    using c(2) by (simp add: agent_complete_def audited_def)
  ultimately show ?thesis by blast
qed

text \<open>
  C35. A backup that was asked for is made: the agent's next turn takes the job of the request and completes the
  backup, when no other backup job is waiting and the machine works.
\<close>

theorem requested_backup_made:
  assumes "request_backup env c uuid5 now q ctx d = (Inr r, d1)"
    and "existing_backup_job uuid5 ''backup_create'' (br_idempotency_key q) d = None"
    and "filter (\<lambda>j. jb_state j = JobQueued \<and> jb_kind j \<in> set BACKUP_KINDS) (jobs d) = []"
    and "keyed (next_id d) (backups d)" "next_id d < 2 ^ 128" "now \<le> be_now e k" "machine_works e"
  shows "\<exists>a' r'. agent_turn fuel e \<lparr>ag_db = d1, ag_saved = d1, ag_tx = k, ag_trace = t\<rparr> = Some (Settled, a')
    \<and> get_row (row_id r) (backups (ag_saved a')) = Some r' \<and> bk_state r' = ''completed''"
  by (rule requested_made [OF assms])

section \<open>On a concrete machine\<close>

text \<open>Every call answers at once and takes a second; one backup is listed.\<close>

definition demo_pg :: pg_backup where
  "demo_pg = \<lparr>pb_label = asc ''20260101F'', pb_start = 100, pb_size = 9\<rparr>"

definition demo_machine :: agent_env where
  "demo_machine = \<lparr>be_crypto = plain_crypto, be_stanza = asc ''main'', be_output = (\<lambda>_ _. Inr (asc ''v0021:ready'')),
     be_exit_code = (\<lambda>_. Inr 0), be_monotonic = (\<lambda>t. 1000000 * int (length t)), be_children = (\<lambda>_. Inr []),
     be_info = (\<lambda>_. Inr (Some [[demo_pg]])), be_now = (\<lambda>_. 50), be_audit_time = (\<lambda>_. 50),
     be_class_name = (\<lambda>_. ''RuntimeError'')\<rparr>"

definition demo_request :: backup_request where
  "demo_request = \<lparr>br_purpose = asc ''weekly'', br_idempotency_key = asc ''0123456789abcdef''\<rparr>"

definition demo_requested :: "backup_record result \<times> db" where
  "demo_requested = request_backup plain_env plain_crypto (\<lambda>_. 40) 5 demo_request (system_context ''administrator'' (Some 7)) empty_db"

definition demo_agent :: agent where
  "demo_agent = \<lparr>ag_db = snd demo_requested, ag_saved = snd demo_requested, ag_tx = 0, ag_trace = []\<rparr>"

lemma demo_machine_works: "machine_works demo_machine"
  by (simp add: machine_works_def demo_machine_def)

lemma demo_requested_eq:
  "demo_requested = (Inr (new_backup 5 (asc ''weekly'') (next_id empty_db)), snd demo_requested)"
  by (simp add: demo_requested_def request_backup_def existing_backup_job_def add_backup_def demo_request_def
      enqueue_with_id_def empty_db_def fresh_def Let_def)

lemma demo_jobs_row:
  "\<exists>j. jobs (snd demo_requested) = [j] \<and> row_id j = 40 \<and> jb_kind j = ''backup_create'' \<and> jb_state j = JobQueued
     \<and> jb_available_at j = 5 \<and> jb_payload j = [(asc ''backup_record_id'', JStr (uuid_str (next_id empty_db))),
          (asc ''purpose'', JStr (asc ''weekly''))]"
  by (simp add: demo_requested_def request_backup_def existing_backup_job_def add_backup_def demo_request_def
      enqueue_with_id_def empty_db_def fresh_def Let_def enqueue_def audit_append_def backup_job_id_def
      new_backup_def seconds_def)

lemma demo_agent_keyed: "keyed 100 (jobs (ag_saved demo_agent))"
  using demo_jobs_row by (auto simp: demo_agent_def keyed_def)

theorem requested_backup_made_witness:
  "\<exists>a' r'. agent_turn 181 demo_machine demo_agent = Some (Settled, a')
     \<and> get_row (next_id empty_db) (backups (ag_saved a')) = Some r' \<and> bk_state r' = ''completed''"
proof -
  have "request_backup plain_env plain_crypto (\<lambda>_. 40) 5 demo_request (system_context ''administrator'' (Some 7)) empty_db
      = (Inr (new_backup 5 (asc ''weekly'') (next_id empty_db)), snd demo_requested)"
    using demo_requested_eq unfolding demo_requested_def .
  from requested_backup_made [OF this, where e = demo_machine and k = 0 and fuel = 181 and t = "[]"]
  show ?thesis
    unfolding demo_agent_def
    by (simp add: existing_backup_job_def empty_db_def demo_machine_works new_backup_def) (simp add: demo_machine_def)
qed

lemma demo_turn: "\<exists>a'. agent_turn 181 demo_machine demo_agent = Some (Settled, a')"
  "ag_db demo_agent = ag_saved demo_agent"
proof -
  have i: "existing_backup_job (\<lambda>_. 40) ''backup_create'' (br_idempotency_key demo_request) empty_db = None"
    by (simp add: existing_backup_job_def empty_db_def)
  obtain j where j: "jobs (snd demo_requested) = [j]" "row_id j = 40" "jb_kind j = ''backup_create''"
    "jb_state j = JobQueued" "jb_available_at j = 5" "jb_payload j = [(asc ''backup_record_id'',
       JStr (uuid_str (next_id empty_db))), (asc ''purpose'', JStr (asc ''weekly''))]"
    using demo_jobs_row by blast
  have "payload_uuid (jb_payload j) ''backup_record_id'' = Inr (next_id empty_db)"
    using uuid_parse_str [of "next_id empty_db"] by (simp add: payload_uuid_def j(6) jget_def empty_db_def)
  then show "\<exists>a'. agent_turn 181 demo_machine demo_agent = Some (Settled, a')"
    by (auto simp: agent_turn_def agent_claim_def demo_agent_def j(1-5) tx_now_def demo_machine_def BACKUP_KINDS_def
        update_where_def run_kind_def Let_def split: prod.split sum.split)
  show "ag_db demo_agent = ag_saved demo_agent" by (simp add: demo_agent_def)
qed

theorem backup_turn_settles_witness:
  "\<exists>a' x. agent_turn 181 demo_machine demo_agent = Some (Settled, a')
     \<and> get_row (row_id x) (jobs (ag_saved demo_agent)) = Some x \<and> claimable 50 BACKUP_KINDS x"
proof -
  obtain a' where a': "agent_turn 181 demo_machine demo_agent = Some (Settled, a')" using demo_turn(1) by blast
  have "tx_now demo_machine demo_agent = 50" by (simp add: tx_now_def demo_machine_def)
  with backup_turn_settles [OF demo_agent_keyed demo_turn(2) a'] a' show ?thesis by auto
qed

theorem backup_audit_chain_kept_witness:
  "\<exists>a'. agent_turn 181 demo_machine demo_agent = Some (Settled, a')
     \<and> verify_chain plain_crypto (audit_events (ag_saved a')) = (True, None)"
proof -
  obtain a' where a': "agent_turn 181 demo_machine demo_agent = Some (Settled, a')" using demo_turn(1) by blast
  have c: "be_crypto demo_machine = plain_crypto" by (simp add: demo_machine_def)
  have "verify_chain (be_crypto demo_machine) (audit_events (ag_saved demo_agent)) = (True, None)"
    unfolding c verify_chain_iff
    by (simp add: demo_agent_def demo_requested_def request_backup_def existing_backup_job_def add_backup_def
        demo_request_def enqueue_with_id_def enqueue_def empty_db_def fresh_def Let_def audit_append_def
        append_event_keeps_chain)
  from backup_audit_chain_kept [OF demo_agent_keyed demo_turn(2) a' this] a' show ?thesis unfolding c by blast
qed

lemma demo_made:
  "\<exists>a' r'. agent_turn 181 demo_machine demo_agent = Some (Settled, a')
     \<and> get_row (next_id empty_db) (backups (ag_saved a')) = Some r' \<and> bk_state r' = ''completed''"
proof -
  have "request_backup plain_env plain_crypto (\<lambda>_. 40) 5 demo_request (system_context ''administrator'' (Some 7)) empty_db
      = (Inr (new_backup 5 (asc ''weekly'') (next_id empty_db)), snd demo_requested)"
    using demo_requested_eq unfolding demo_requested_def .
  from requested_made [OF this, where e = demo_machine and k = 0 and fuel = 181 and t = "[]"]
  show ?thesis
    unfolding demo_agent_def
    by (simp add: existing_backup_job_def empty_db_def demo_machine_works new_backup_def) (simp add: demo_machine_def)
qed

theorem completed_backup_checked_witness:
  "\<exists>a' b t. agent_turn 181 demo_machine demo_agent = Some (Settled, a') \<and> listed demo_machine b
     \<and> ag_trace a' = t @ [check_call demo_machine, manifest_call demo_machine (pb_label b)]"
proof -
  obtain a' r' where a': "agent_turn 181 demo_machine demo_agent = Some (Settled, a')"
    "get_row (next_id empty_db) (backups (ag_saved a')) = Some r'" "bk_state r' = ''completed''"
    using demo_made by blast
  obtain j where j: "jobs (snd demo_requested) = [j]" "row_id j = 40" "jb_kind j = ''backup_create''"
    "jb_state j = JobQueued" "jb_available_at j = 5" "jb_payload j = [(asc ''backup_record_id'',
       JStr (uuid_str (next_id empty_db))), (asc ''purpose'', JStr (asc ''weekly''))]"
    using demo_jobs_row by blast
  have p: "payload_uuid (jb_payload j) ''backup_record_id'' = Inr (next_id empty_db)"
    using uuid_parse_str [of "next_id empty_db"] by (simp add: payload_uuid_def j(6) jget_def empty_db_def)
  obtain j' d1 where c: "agent_claim (tx_now demo_machine demo_agent) (ag_db demo_agent) = (Some j', d1)"
      "jb_kind j' = ''backup_create''" "jb_payload j' = jb_payload j"
    by (auto simp: agent_claim_def demo_agent_def j(1-5) tx_now_def demo_machine_def BACKUP_KINDS_def
        update_where_def Let_def)
  from completed_backup_checked [OF demo_agent_keyed demo_turn(2) a'(1) c(1,2) _ a'(2,3)] p c(3) a'(1)
  show ?thesis by auto
qed

theorem backup_claim_like_service_witness:
  "fst (agent_claim 50 (snd demo_requested)) = Some (hd (fst (claim 50 ''backup-agent'' 1 BACKUP_KINDS (snd demo_requested))))"
proof -
  obtain j where j: "jobs (snd demo_requested) = [j]" "row_id j = 40" "jb_kind j = ''backup_create''"
    "jb_state j = JobQueued" "jb_available_at j = 5"
    using demo_jobs_row by blast
  have k: "keyed 100 (jobs (snd demo_requested))" using demo_agent_keyed by (simp add: demo_agent_def)
  obtain d' where "claim 50 ''backup-agent'' 1 BACKUP_KINDS (snd demo_requested) = ([mark_running 50 ''backup-agent'' j], d')"
    by (simp add: claim_def claim_rows_def claimable_def BACKUP_KINDS_def j Let_def)
  with backup_claim_like_service [OF k, of 50] show ?thesis by simp
qed

theorem backup_turn_ends_witness: "\<exists>out a'. agent_turn 181 demo_machine demo_agent = Some (out, a')"
  by (rule backup_turn_ends) (simp_all add: demo_machine_def seconds_def)

theorem started_server_stopped_witness:
  "\<exists>r a' a2. probe_server 181 demo_machine demo_agent = Some (r, a') \<and> a' = snd (stop_server demo_machine a2)"
proof -
  have "probe_server 181 demo_machine demo_agent \<noteq> None"
    by (rule probe_ends) (simp_all add: demo_machine_def seconds_def)
  then obtain r a' where p: "probe_server 181 demo_machine demo_agent = Some (r, a')" by fast
  have "\<exists>v a1. start_server demo_machine demo_agent = (Inr v, a1)"
    by (simp add: start_server_def command_def perform_def demo_machine_def)
  with started_server_stopped [OF p] obtain a2 where "a' = snd (stop_server demo_machine a2)" by auto
  with p show ?thesis by blast
qed

end
