(* ===== verification/Voice.thy ===== *)
theory Voice
  imports PyPrelude
begin

text \<open>
  \<^verbatim>\<open>realtime/protocol.py\<close> and \<^verbatim>\<open>realtime/vad.py\<close>: the binary audio packet and the detector of
  speech. A packet is a header of 16 bytes - the magic, a sequence number, the capture time as a
  big-endian double - and 20 milliseconds of PCM.
\<close>

section \<open>Audio packets\<close>

type_synonym octets = "nat list"

definition PCM_SAMPLE_RATE :: nat where "PCM_SAMPLE_RATE = 24000"
definition PCM_SAMPLE_BYTES :: nat where "PCM_SAMPLE_BYTES = 2"
definition FRAME_MILLISECONDS :: nat where "FRAME_MILLISECONDS = 20"
definition FRAME_BYTES :: nat where "FRAME_BYTES = 960"
definition FRAME_MAGIC :: octets where "FRAME_MAGIC = asc ''KDV1''"
definition FRAME_HEADER_BYTES :: nat where "FRAME_HEADER_BYTES = 16"
definition FRAME_PACKET_BYTES :: nat where "FRAME_PACKET_BYTES = FRAME_HEADER_BYTES + FRAME_BYTES"
definition MAX_TURN_SECONDS :: nat where "MAX_TURN_SECONDS = 120"
definition MAX_TURN_BYTES :: nat where
  "MAX_TURN_BYTES = PCM_SAMPLE_RATE * PCM_SAMPLE_BYTES * MAX_TURN_SECONDS"

definition big_endian :: "octets \<Rightarrow> nat" where
  "big_endian bs = foldl (\<lambda>n b. 256 * n + b) 0 bs"

text \<open>A double is kept as its 64 bits; \<open>float_less\<close> and \<open>float_le\<close> are the comparisons of IEEE 754:
  a NaN compares as false with everything, and the two zeros are equal.\<close>

definition float_magnitude :: "64 word \<Rightarrow> nat" where
  "float_magnitude w = unat w mod 2 ^ 63"

definition is_nan :: "64 word \<Rightarrow> bool" where
  "is_nan w \<longleftrightarrow> 2047 * 2 ^ 52 < float_magnitude w"

definition float_order :: "64 word \<Rightarrow> int" where
  "float_order w = (if unat w < 2 ^ 63 then int (float_magnitude w) else - int (float_magnitude w))"

definition float_less :: "64 word \<Rightarrow> 64 word \<Rightarrow> bool" where
  "float_less a b \<longleftrightarrow> \<not> is_nan a \<and> \<not> is_nan b \<and> float_order a < float_order b"

definition float_le :: "64 word \<Rightarrow> 64 word \<Rightarrow> bool" where
  "float_le a b \<longleftrightarrow> \<not> is_nan a \<and> \<not> is_nan b \<and> float_order a \<le> float_order b"

definition float_zero :: "64 word" where "float_zero = 0"

text \<open>\<open>-1.0\<close>\<close>

definition float_minus_one :: "64 word" where "float_minus_one = of_nat (2 ^ 63 + 1023 * 2 ^ 52)"

definition validate_audio_frame :: "octets \<Rightarrow> bool" where
  "validate_audio_frame pcm \<longleftrightarrow> pcm \<noteq> [] \<and> length pcm mod FRAME_BYTES = 0"

text \<open>\<open>None\<close> is the \<^verbatim>\<open>ValueError\<close> of a bad packet.\<close>

definition decode_audio_packet :: "octets \<Rightarrow> (nat \<times> 64 word \<times> octets) option" where
  "decode_audio_packet data =
     (if length data \<noteq> FRAME_PACKET_BYTES then None
      else
        let header = take FRAME_HEADER_BYTES data;
            magic = take 4 header;
            sq = big_endian (take 4 (drop 4 header));
            captured = of_nat (big_endian (drop 8 header)) :: 64 word
        in if magic \<noteq> FRAME_MAGIC then None
           else if sq < 1 \<or> float_less captured float_zero then None
           else
             let pcm = drop FRAME_HEADER_BYTES data
             in if \<not> validate_audio_frame pcm then None else Some (sq, captured, pcm))"

section \<open>Voice activity\<close>

record voice_activity =
  va_started :: bool
  va_ended :: bool

record vad =
  vd_threshold :: int
  vd_start_frames :: int
  vd_endpoint_silence_ms :: int
  vd_active :: bool
  vd_voiced_frames :: int
  vd_silence_ms :: int

definition new_vad :: "int \<Rightarrow> int \<Rightarrow> int \<Rightarrow> vad option" where
  "new_vad threshold start_frames endpoint =
     (if threshold \<le> 0 \<or> start_frames \<le> 0 \<or> endpoint < int FRAME_MILLISECONDS then None
      else Some \<lparr>vd_threshold = threshold, vd_start_frames = start_frames,
                 vd_endpoint_silence_ms = endpoint, vd_active = False, vd_voiced_frames = 0,
                 vd_silence_ms = 0\<rparr>)"

text \<open>The detector of \<^verbatim>\<open>VoiceActivityDetector()\<close>.\<close>

definition default_vad :: vad where
  "default_vad = \<lparr>vd_threshold = 600, vd_start_frames = 3, vd_endpoint_silence_ms = 900,
     vd_active = False, vd_voiced_frames = 0, vd_silence_ms = 0\<rparr>"

definition vad_reset :: "vad \<Rightarrow> vad" where
  "vad_reset v = v\<lparr>vd_active := False, vd_voiced_frames := 0, vd_silence_ms := 0\<rparr>"

text \<open>The samples, two bytes each, little endian and signed.\<close>

definition sample :: "nat \<Rightarrow> nat \<Rightarrow> int" where
  "sample lo hi = (let n = int (lo + 256 * hi) in if n < 2 ^ 15 then n else n - 2 ^ 16)"

fun square_sum :: "octets \<Rightarrow> int" where
  "square_sum (lo # hi # bs) = (sample lo hi)\<^sup>2 + square_sum bs"
| "square_sum _ = 0"

text \<open>\<open>_rms(pcm) >= threshold\<close>. The root of the mean square is compared exactly: a mean of at
  least the squared threshold gives a float that is not below it, and a smaller one is smaller by a
  480th of a unit at least, which no rounding bridges for thresholds and frames of the program's size.\<close>

definition voiced :: "int \<Rightarrow> octets \<Rightarrow> bool" where
  "voiced threshold pcm \<longleftrightarrow>
     pcm \<noteq> [] \<and> length pcm mod 2 = 0 \<and> threshold\<^sup>2 * int (length pcm div 2) \<le> square_sum pcm"

definition vad_step :: "bool \<Rightarrow> vad \<Rightarrow> voice_activity \<times> vad" where
  "vad_step is_voiced v =
     (if \<not> vd_active v then
        let v1 = v\<lparr>vd_voiced_frames := (if is_voiced then vd_voiced_frames v + 1 else 0)\<rparr>
        in if vd_start_frames v \<le> vd_voiced_frames v1
           then (\<lparr>va_started = True, va_ended = False\<rparr>, v1\<lparr>vd_active := True, vd_silence_ms := 0\<rparr>)
           else (\<lparr>va_started = False, va_ended = False\<rparr>, v1)
      else if is_voiced then (\<lparr>va_started = False, va_ended = False\<rparr>, v\<lparr>vd_silence_ms := 0\<rparr>)
      else
        let v1 = v\<lparr>vd_silence_ms := vd_silence_ms v + int FRAME_MILLISECONDS\<rparr>
        in if vd_endpoint_silence_ms v \<le> vd_silence_ms v1
           then (\<lparr>va_started = False, va_ended = True\<rparr>, vad_reset v1)
           else (\<lparr>va_started = False, va_ended = False\<rparr>, v1))"

definition vad_process :: "octets \<Rightarrow> vad \<Rightarrow> voice_activity \<times> vad" where
  "vad_process pcm v = vad_step (voiced (vd_threshold v) pcm) v"

section \<open>What the detector decides\<close>

text \<open>The detector after a list of frames, each voiced or not, and what it reports for each.\<close>

fun vad_run :: "bool list \<Rightarrow> vad \<Rightarrow> voice_activity list \<times> vad" where
  "vad_run [] v = ([], v)"
| "vad_run (b # bs) v = (case vad_step b v of (a, v1) \<Rightarrow> (case vad_run bs v1 of (as, v2) \<Rightarrow> (a # as, v2)))"

text \<open>The length of the run of \<open>b\<close> at the end of the frames.\<close>

definition trailing :: "bool \<Rightarrow> bool list \<Rightarrow> nat" where
  "trailing b bs = length (takeWhile (\<lambda>x. x = b) (rev bs))"

lemma trailing_snoc: "trailing b (bs @ [x]) = (if x = b then Suc (trailing b bs) else 0)"
  by (simp add: trailing_def)

lemma trailing_last: "n \<le> trailing b bs \<Longrightarrow> \<exists>pre. bs = pre @ replicate n b"
proof (induction n arbitrary: bs)
  case (Suc n)
  then obtain ys where ys: "bs = ys @ [b]"
    by (cases bs rule: rev_cases) (auto simp: trailing_snoc trailing_def split: if_splits)
  with Suc.prems have "n \<le> trailing b ys" by (simp add: trailing_snoc)
  from Suc.IH [OF this] obtain pre where "ys = pre @ replicate n b" by blast
  with ys show ?case by (intro exI [of _ pre]) (simp add: replicate_append_same)
qed simp

text \<open>Everything the detector knows is the end of its history: while it waits, fewer voiced frames
  than it takes to start; while it is active, less silence than it takes to end.\<close>

definition vad_inv :: "vad \<Rightarrow> bool list \<Rightarrow> bool" where
  "vad_inv v h \<longleftrightarrow>
     0 < vd_start_frames v
   \<and> (if vd_active v
      then 0 \<le> vd_silence_ms v \<and> vd_silence_ms v < vd_endpoint_silence_ms v
           \<and> (\<exists>k \<le> trailing False h. vd_silence_ms v = int (FRAME_MILLISECONDS * k))
      else 0 \<le> vd_voiced_frames v \<and> vd_voiced_frames v < vd_start_frames v
           \<and> vd_voiced_frames v \<le> int (trailing True h))"

lemma vad_step_inv:
  assumes "vad_inv v h" "0 < vd_endpoint_silence_ms v" "vad_step b v = (a, v')"
  shows "vad_inv v' (h @ [b])"
    and "va_started a \<longleftrightarrow> \<not> vd_active v \<and> vd_active v'"
    and "va_ended a \<longleftrightarrow> vd_active v \<and> \<not> vd_active v'"
    and "va_started a \<Longrightarrow> vd_start_frames v \<le> int (trailing True (h @ [b]))"
    and "va_ended a \<Longrightarrow> vd_endpoint_silence_ms v \<le> int (FRAME_MILLISECONDS * trailing False (h @ [b]))"
    and "vd_start_frames v' = vd_start_frames v \<and> vd_endpoint_silence_ms v' = vd_endpoint_silence_ms v
      \<and> vd_threshold v' = vd_threshold v"
proof -
  show "va_started a \<longleftrightarrow> \<not> vd_active v \<and> vd_active v'" "va_ended a \<longleftrightarrow> vd_active v \<and> \<not> vd_active v'"
    "vd_start_frames v' = vd_start_frames v \<and> vd_endpoint_silence_ms v' = vd_endpoint_silence_ms v
      \<and> vd_threshold v' = vd_threshold v"
    using assms(3) by (auto simp: vad_step_def vad_reset_def Let_def split: if_splits)
  show "vd_start_frames v \<le> int (trailing True (h @ [b]))" if "va_started a"
    using assms(1,3) that by (auto simp: vad_step_def vad_inv_def trailing_snoc Let_def split: if_splits)
  show "vd_endpoint_silence_ms v \<le> int (FRAME_MILLISECONDS * trailing False (h @ [b]))" if "va_ended a"
    using assms(1,3) that
    by (auto simp: vad_step_def vad_inv_def trailing_snoc FRAME_MILLISECONDS_def Let_def split: if_splits)
  show "vad_inv v' (h @ [b])"
  proof (cases "vd_active v")
    case False
    with assms show ?thesis
      by (auto simp: vad_step_def vad_inv_def trailing_snoc Let_def split: if_splits intro!: exI [of _ 0])
  next
    case True
    then obtain k where k: "k \<le> trailing False h" "vd_silence_ms v = int (FRAME_MILLISECONDS * k)"
      using assms(1) by (auto simp: vad_inv_def)
    have "\<exists>j \<le> Suc (trailing False h). vd_silence_ms v + int FRAME_MILLISECONDS = int (FRAME_MILLISECONDS * j)"
      using k by (intro exI [of _ "Suc k"]) simp
    with True k(1) assms show ?thesis
      by (auto simp: vad_step_def vad_inv_def vad_reset_def trailing_snoc Let_def simp del: of_nat_mult
          split: if_splits intro: exI [of _ 0])
  qed
qed

lemma vad_run_append:
  "vad_run (xs @ ys) v = (fst (vad_run xs v) @ fst (vad_run ys (snd (vad_run xs v))), snd (vad_run ys (snd (vad_run xs v))))"
  by (induction xs arbitrary: v) (auto split: prod.split)

lemma length_vad_run: "length (fst (vad_run bs v)) = length bs"
  by (induction bs arbitrary: v) (simp_all add: case_prod_beta)

lemma vad_run_inv:
  assumes "vad_inv v h" "0 < vd_endpoint_silence_ms v"
  shows "vad_inv (snd (vad_run bs v)) (h @ bs)
    \<and> vd_start_frames (snd (vad_run bs v)) = vd_start_frames v
    \<and> vd_endpoint_silence_ms (snd (vad_run bs v)) = vd_endpoint_silence_ms v"
  using assms
proof (induction bs arbitrary: v h)
  case (Cons b bs)
  obtain a v1 where s: "vad_step b v = (a, v1)" by fastforce
  note i = vad_step_inv [OF Cons.prems s]
  have "0 < vd_endpoint_silence_ms v1" using i(6) Cons.prems(2) by simp
  from Cons.IH [OF i(1) this] i(6) s show ?case by (auto split: prod.split)
qed simp

text \<open>What is reported for the frame after a history.\<close>

lemma vad_run_reports:
  assumes "vad_inv v []" "0 < vd_endpoint_silence_ms v" "i < length bs"
  shows "va_started (fst (vad_run bs v) ! i) \<Longrightarrow> vd_start_frames v \<le> int (trailing True (take (Suc i) bs))"
    and "va_ended (fst (vad_run bs v) ! i) \<Longrightarrow>
      vd_endpoint_silence_ms v \<le> int (FRAME_MILLISECONDS * trailing False (take (Suc i) bs))"
proof -
  let ?v = "snd (vad_run (take i bs) v)"
  obtain a v' where s: "vad_step (bs ! i) ?v = (a, v')" by fastforce
  have t: "take (Suc i) bs = take i bs @ [bs ! i]" using assms(3) by (rule take_Suc_conv_app_nth)
  have split: "bs = take i bs @ bs ! i # drop (Suc i) bs" using assms(3) by (rule id_take_nth_drop)
  have a: "fst (vad_run bs v) ! i = a"
    by (subst split, subst vad_run_append)
      (use s assms(3) in \<open>simp add: nth_append length_vad_run split: prod.split\<close>)
  have i: "vad_inv ?v (take i bs)" "vd_start_frames ?v = vd_start_frames v"
    "vd_endpoint_silence_ms ?v = vd_endpoint_silence_ms v"
    using vad_run_inv [OF assms(1,2), of "take i bs"] by simp_all
  have e: "0 < vd_endpoint_silence_ms ?v" using i(3) assms(2) by simp
  note st = vad_step_inv [OF i(1) e s]
  show "vd_start_frames v \<le> int (trailing True (take (Suc i) bs))" if "va_started (fst (vad_run bs v) ! i)"
    using st(4) that unfolding a t i(2) by blast
  show "vd_endpoint_silence_ms v \<le> int (FRAME_MILLISECONDS * trailing False (take (Suc i) bs))"
    if "va_ended (fst (vad_run bs v) ! i)"
    using st(5) that unfolding a t i(3) by blast
qed

lemma vad_voiced_starts:
  assumes "vd_start_frames v \<le> vd_voiced_frames v + int n \<or> vd_active v" "0 < n"
  shows "vd_active (snd (vad_run (replicate n True) v))"
  using assms
proof (induction n arbitrary: v)
  case (Suc n)
  obtain a v1 where s: "vad_step True v = (a, v1)" by fastforce
  show ?case
  proof (cases "n = 0")
    case True
    with Suc.prems s show ?thesis by (auto simp: vad_step_def Let_def split: if_splits)
  next
    case False
    have "vd_start_frames v1 \<le> vd_voiced_frames v1 + int n \<or> vd_active v1"
      using Suc.prems(1) s by (auto simp: vad_step_def Let_def split: if_splits)
    from Suc.IH [OF this] False s show ?thesis by (auto split: prod.split)
  qed
qed simp

lemma vad_silent_ends:
  assumes "vd_endpoint_silence_ms v \<le> vd_silence_ms v + int (FRAME_MILLISECONDS * n) \<or> \<not> vd_active v" "0 < n"
    and "0 < vd_start_frames v"
  shows "\<not> vd_active (snd (vad_run (replicate n False) v))"
  using assms
proof (induction n arbitrary: v)
  case (Suc n)
  obtain a v1 where s: "vad_step False v = (a, v1)" by fastforce
  have f: "0 < vd_start_frames v1" using Suc.prems(3) s by (auto simp: vad_step_def vad_reset_def Let_def split: if_splits)
  show ?case
  proof (cases "n = 0")
    case True
    with Suc.prems s show ?thesis by (auto simp: vad_step_def vad_reset_def Let_def split: if_splits)
  next
    case False
    have "vd_endpoint_silence_ms v1 \<le> vd_silence_ms v1 + int (FRAME_MILLISECONDS * n) \<or> \<not> vd_active v1"
      using Suc.prems(1,3) s by (auto simp: vad_step_def vad_reset_def Let_def split: if_splits)
    from Suc.IH [OF this _ f] False s show ?thesis by (auto split: prod.split)
  qed
qed simp

text \<open>
  The detector has hysteresis: it reports a start only after as many voiced frames in a row as it is
  set to, an end only after its silence has lasted in a row, and it misses neither: after that many
  voiced frames it is active, after that much silence it is not.
\<close>

theorem vad_hysteresis:
  assumes "new_vad threshold n ms = Some v" "vad_run bs v = (as, v')"
  shows "(\<forall>i < length bs. (va_started (as ! i) \<longrightarrow> n \<le> int (trailing True (take (Suc i) bs)))
       \<and> (va_ended (as ! i) \<longrightarrow> ms \<le> int (FRAME_MILLISECONDS * trailing False (take (Suc i) bs))))
    \<and> (n \<le> int (trailing True bs) \<longrightarrow> vd_active v')
    \<and> (ms \<le> int (FRAME_MILLISECONDS * trailing False bs) \<longrightarrow> \<not> vd_active v')"
proof -
  have v: "vad_inv v []" "0 < vd_endpoint_silence_ms v" "vd_start_frames v = n" "vd_endpoint_silence_ms v = ms" "0 < n"
    using assms(1) by (auto simp: new_vad_def vad_inv_def FRAME_MILLISECONDS_def split: if_splits)
  have r: "as = fst (vad_run bs v)" "v' = snd (vad_run bs v)" using assms(2) by simp_all
  have tail: "\<exists>pre. bs = pre @ replicate (trailing b bs) b" for b by (rule trailing_last) simp
  have state: "vad_inv (snd (vad_run pre v)) pre" "vd_start_frames (snd (vad_run pre v)) = n"
    "vd_endpoint_silence_ms (snd (vad_run pre v)) = ms" for pre
    using vad_run_inv [OF v(1,2), of pre] v(3,4) by simp_all
  have "vd_active v'" if long: "n \<le> int (trailing True bs)"
  proof -
    obtain pre where pre: "bs = pre @ replicate (trailing True bs) True" using tail by blast
    have "vd_start_frames (snd (vad_run pre v)) \<le> vd_voiced_frames (snd (vad_run pre v)) + int (trailing True bs)
        \<or> vd_active (snd (vad_run pre v))"
      using state [of pre] long by (auto simp: vad_inv_def split: if_splits)
    from vad_voiced_starts [OF this] v(5) long show ?thesis
      unfolding r(2) by (subst pre, subst vad_run_append) simp
  qed
  moreover have "\<not> vd_active v'" if long: "ms \<le> int (FRAME_MILLISECONDS * trailing False bs)"
  proof -
    obtain pre where pre: "bs = pre @ replicate (trailing False bs) False" using tail by blast
    have "0 < ms" using v(2,4) by simp
    then have pos: "0 < trailing False bs" using long by (cases "trailing False bs") simp_all
    have "vd_endpoint_silence_ms (snd (vad_run pre v)) \<le> vd_silence_ms (snd (vad_run pre v))
          + int (FRAME_MILLISECONDS * trailing False bs) \<or> \<not> vd_active (snd (vad_run pre v))"
      using state [of pre] long by (auto simp: vad_inv_def split: if_splits)
    from vad_silent_ends [OF this pos] state(2) [of pre] v(5) show ?thesis
      unfolding r(2) by (subst pre, subst vad_run_append) simp
  qed
  ultimately show ?thesis
    using vad_run_reports [OF v(1,2)] unfolding r v(3,4) by blast
qed

theorem vad_hysteresis_witness:
  "\<exists>v as v'. new_vad 600 3 40 = Some v \<and> vad_run [True, True, True, False] v = (as, v')
     \<and> map va_started as = [False, False, True, False] \<and> (va_started (as ! 1) \<longleftrightarrow> False)"
proof -
  obtain v where v: "new_vad 600 3 40 = Some v" by (simp add: new_vad_def FRAME_MILLISECONDS_def)
  obtain as v' where r: "vad_run [True, True, True, False] v = (as, v')" by fastforce
  have "Suc 0 < length [True, True, True, False]" by simp
  with conjunct1 [OF vad_hysteresis [OF v r]] have "va_started (as ! 1) \<longrightarrow> 3 \<le> int (trailing True [True, True])"
    by (fastforce simp del: length_Cons)
  then have "\<not> va_started (as ! 1)" by (simp add: trailing_def)
  moreover have "map va_started (fst (vad_run [True, True, True, False] v)) = [False, False, True, False]"
    using v by (auto simp: new_vad_def vad_step_def Let_def FRAME_MILLISECONDS_def)
  ultimately show ?thesis using v r by auto
qed

end
