(* ===== verification/Realtime.thy ===== *)
theory Realtime
  imports Voice Settings Security Orchestration
begin

text \<open>
  \<^verbatim>\<open>realtime/websocket.py\<close>: a voice conversation over a socket. The state of a connection
  survives its socket: when the socket closes, the connection is parked under its conversation until
  it is resumed or expires. The answer to a turn is a task of its own. A task runs in steps, from one
  suspension to the next - it waits for the transcription, for the answer, for the speech - and can
  be cancelled at each of them; between its steps the handler reads on. A task keeps the socket it was
  started with. Texts for people, the loudness and the random ids of server events are left out.
\<close>

section \<open>The state of a connection\<close>

record realtime_env =
  re_env :: orch_env
  re_crypto :: crypto
  re_sends :: "int \<Rightarrow> bool"
  re_uuid :: "int \<Rightarrow> uuid"
  re_transcribe :: "pystr \<Rightarrow> octets \<Rightarrow> pystr \<Rightarrow> pystr result"
  re_speak :: "pystr \<Rightarrow> pystr \<Rightarrow> pystr \<Rightarrow> pystr \<Rightarrow> octets list \<times> exc option"
  re_parse_int :: "pystr \<Rightarrow> int option"

text \<open>The class of an error that is no \<open>DomainError\<close>.\<close>

definition TimeoutError :: exc where
  "TimeoutError = ProviderFailure ''TimeoutError''"

record server_event =
  sv_sequence :: int
  sv_type :: string
  sv_conversation_id :: "uuid option"
  sv_payload :: jdict
  sv_ack_for :: "uuid option"

datatype frame = Event server_event | Sound octets

record client_event =
  ce_event_id :: uuid
  ce_sequence :: int
  ce_type :: string
  ce_payload :: jdict
  ce_resume_cursor :: "int option"

text \<open>Where a task stands. \<open>AudioTurn\<close>, \<open>TextTurn\<close> and \<open>Retry\<close> are created and have not run; the
  last argument of \<open>Answering\<close> and \<open>Speaking\<close> says whether the turn was spoken.\<close>

datatype task =
    AudioTurn octets pystr uuid
  | Transcribing octets pystr uuid
  | TextTurn pystr pystr uuid
  | Answering pystr pystr uuid bool
  | Speaking pystr uuid bool
  | Retry pystr pystr

record connection =
  cn_account_id :: uuid
  cn_sequence :: int
  cn_last_client_sequence :: int
  cn_conversation_id :: "uuid option"
  cn_paused :: bool
  cn_audio :: octets
  cn_assistant_task :: "(nat \<times> task) option"
  cn_partial_task :: "(nat \<times> octets) option"
  cn_partial_text :: pystr
  cn_partial_at_bytes :: nat
  cn_generation :: int
  cn_last_audio_sequence :: nat
  cn_last_audio_capture :: "64 word"
  cn_turn_finalizing :: bool
  cn_vad :: vad
  cn_connected :: bool
  cn_last_assistant_text :: "pystr option"
  cn_language :: pystr

definition new_connection :: "uuid \<Rightarrow> connection" where
  "new_connection acc =
     \<lparr>cn_account_id = acc, cn_sequence = 0, cn_last_client_sequence = 0, cn_conversation_id = None,
      cn_paused = False, cn_audio = [], cn_assistant_task = None, cn_partial_task = None,
      cn_partial_text = [], cn_partial_at_bytes = 0, cn_generation = 1, cn_last_audio_sequence = 0,
      cn_last_audio_capture = float_minus_one, cn_turn_finalizing = False, cn_vad = default_vad,
      cn_connected = True, cn_last_assistant_text = None, cn_language = asc ''cs''\<rparr>"

text \<open>The application as one handler sees it: its connection, the database, what was sent over which
  socket, its open socket, the local \<open>resume_available\<close>, and the parked connections.\<close>

record realtime =
  con :: connection
  store :: db
  wire :: "(nat \<times> frame) list"
  live :: "nat option"
  resume_available :: bool
  parked :: "uuid \<rightharpoonup> connection"

definition put :: "(connection \<Rightarrow> connection) \<Rightarrow> realtime \<Rightarrow> realtime" where
  "put f r = r\<lparr>con := f (con r)\<rparr>"

definition PARTIAL_TRANSCRIPT_INTERVAL_BYTES :: nat where
  "PARTIAL_TRANSCRIPT_INTERVAL_BYTES = PCM_SAMPLE_RATE * PCM_SAMPLE_BYTES"

definition FLOW_CONTROL_ACK_FRAMES :: nat where
  "FLOW_CONTROL_ACK_FRAMES = 10"

section \<open>Sending\<close>

text \<open>A send fails on a closed socket, and where the network fails; the connection then counts as
  not connected and nothing more is sent.\<close>

definition emit :: "realtime_env \<Rightarrow> nat \<Rightarrow> string \<Rightarrow> jdict \<Rightarrow> uuid option \<Rightarrow> realtime \<Rightarrow> realtime" where
  "emit e sk ty payload ack r =
     (if \<not> cn_connected (con r) then r
      else
        let n = cn_sequence (con r) + 1;
            r1 = put (\<lambda>c. c\<lparr>cn_sequence := n\<rparr>) r
        in if live r = Some sk \<and> re_sends e n
           then r1\<lparr>wire := wire r @ [(sk, Event \<lparr>sv_sequence = n, sv_type = ty,
                  sv_conversation_id = cn_conversation_id (con r), sv_payload = payload, sv_ack_for = ack\<rparr>)]\<rparr>
           else put (\<lambda>c. c\<lparr>cn_connected := False\<rparr>) r1)"

definition send_audio :: "realtime_env \<Rightarrow> nat \<Rightarrow> octets \<Rightarrow> realtime \<Rightarrow> realtime" where
  "send_audio e sk data r =
     (if \<not> cn_connected (con r) then r
      else if live r = Some sk \<and> re_sends e (cn_sequence (con r))
      then r\<lparr>wire := wire r @ [(sk, Sound data)]\<rparr>
      else put (\<lambda>c. c\<lparr>cn_connected := False\<rparr>) r)"

definition ev :: "(string \<times> json) list \<Rightarrow> jdict" where
  "ev kvs = map (\<lambda>(k, v). (asc k, v)) kvs"

definition emit_error :: "realtime_env \<Rightarrow> nat \<Rightarrow> string \<Rightarrow> uuid option \<Rightarrow> realtime \<Rightarrow> realtime" where
  "emit_error e sk code ack r = emit e sk ''error'' (ev [(''code'', jstr code)]) ack r"

section \<open>Models of the voice\<close>

text \<open>\<open>resolve_model\<close> and \<open>setting_value\<close> of \<^verbatim>\<open>main.py\<close>.\<close>

definition voice_setting :: "string \<Rightarrow> string \<Rightarrow> db \<Rightarrow> setting_row option" where
  "voice_setting area key d = query_one (\<lambda>s. st_area s = area \<and> st_key s = key) (settings d)"

definition realtime_model :: "realtime_env \<Rightarrow> string \<Rightarrow> db \<Rightarrow> (catalog_entry \<times> provider_row) result" where
  "realtime_model e key d =
     (let unavailable = Inl (DomainError ''capability_unavailable'' 503)
      in case voice_setting ''models'' key d of
           None \<Rightarrow> unavailable
         | Some s \<Rightarrow>
             let v = get_or (st_value s) ''value'' JNull
             in if \<not> truthy v then unavailable
                else (case uuid_parse (py_str (re_env e) v) of
                    None \<Rightarrow> unavailable
                  | Some i \<Rightarrow> (case get_row i (catalog d) of
                      None \<Rightarrow> unavailable
                    | Some mdl \<Rightarrow>
                        if \<not> mc_available mdl then unavailable
                        else (case get_row (mc_provider_id mdl) (providers d) of
                            None \<Rightarrow> unavailable
                          | Some pv \<Rightarrow>
                              if \<not> pv_enabled pv \<or> pv_verification_state pv \<noteq> ''verified'' then unavailable
                              else Inr (mdl, pv)))))"

definition app_setting_value :: "string \<Rightarrow> string \<Rightarrow> json \<Rightarrow> db \<Rightarrow> json" where
  "app_setting_value area key fallback d =
     (case voice_setting area key d of
        Some s \<Rightarrow> get_or (st_value s) ''value'' fallback
      | None \<Rightarrow> (case by_key (asc area) (asc key) of None \<Rightarrow> fallback | Some df \<Rightarrow> sd_default df))"

definition transcribe :: "realtime_env \<Rightarrow> octets \<Rightarrow> pystr \<Rightarrow> db \<Rightarrow> pystr result" where
  "transcribe e audio language d =
     (case realtime_model e ''transcription_model'' d of
        Inl x \<Rightarrow> Inl x
      | Inr (mdl, pv) \<Rightarrow> (case provider_runtime (re_env e) pv d of
          Inl x \<Rightarrow> Inl x
        | Inr _ \<Rightarrow> re_transcribe e (mc_external_id mdl) audio language))"

text \<open>\<open>synthesize\<close>: the failure it lets through, if any. Empty chunks are not sent.\<close>

definition speech_voice :: "realtime_env \<Rightarrow> db \<Rightarrow> (pystr \<times> pystr) result" where
  "speech_voice e d =
     (case realtime_model e ''speech_model'' d of
        Inl x \<Rightarrow> Inl x
      | Inr (mdl, pv) \<Rightarrow> (case voice_setting ''voice'' ''voice_id'' d of
          None \<Rightarrow> Inl (DomainError ''capability_unavailable'' 503)
        | Some s \<Rightarrow>
            let v = get_or (st_value s) ''value'' JNull
            in if \<not> truthy v then Inl (DomainError ''capability_unavailable'' 503)
               else (case provider_runtime (re_env e) pv d of
                   Inl x \<Rightarrow> Inl x
                 | Inr _ \<Rightarrow> Inr (mc_external_id mdl, py_str (re_env e) v))))"

definition audio_error :: "realtime_env \<Rightarrow> nat \<Rightarrow> exc \<Rightarrow> realtime \<Rightarrow> unit result \<times> realtime" where
  "audio_error e sk x r =
     (let failed = (\<lambda>code. (Inr (), emit e sk ''assistant.audio.error''
              (ev [(''code'', jstr code), (''text_available'', JBool True)]) None r))
      in case x of
           Domain de \<Rightarrow> failed (err_code de)
         | _ \<Rightarrow> if x = TimeoutError then failed ''provider_timeout'' else (Inl x, r))"

definition synthesize ::
  "realtime_env \<Rightarrow> nat \<Rightarrow> pystr \<Rightarrow> pystr \<Rightarrow> realtime \<Rightarrow> unit result \<times> realtime" where
  "synthesize e sk text1 language r =
     (case speech_voice e (store r) of
        Inl x \<Rightarrow> audio_error e sk x r
      | Inr (mdl, voice) \<Rightarrow>
          let r1 = emit e sk ''assistant.audio.start''
                (ev [(''format'', jstr ''pcm_s16le''), (''sample_rate'', JInt 24000), (''channels'', JInt 1)]) None r;
              (chunks, failure) = re_speak e mdl voice language text1;
              r2 = foldl (\<lambda>r b. if b = [] then r else send_audio e sk b r) r1 chunks
          in case failure of
               Some x \<Rightarrow> audio_error e sk x r2
             | None \<Rightarrow> (Inr (), emit e sk ''assistant.audio.end'' (ev [(''completed'', JBool True)]) None r2))"
section \<open>Turns\<close>

definition action_state_str :: "action_state \<Rightarrow> string" where
  "action_state_str s =
     (case s of APending \<Rightarrow> ''pending'' | ARunning \<Rightarrow> ''running'' | ACompleted \<Rightarrow> ''completed''
      | AFailed \<Rightarrow> ''failed'' | AExpired \<Rightarrow> ''expired'' | ACancelled \<Rightarrow> ''cancelled'')"

definition proposal_dump :: "memory_proposal option \<Rightarrow> json" where
  "proposal_dump p =
     (case p of None \<Rightarrow> JNull
      | Some m \<Rightarrow> jobj [(''content'', JStr (mp_content m)),
          (''category'', jstr (memory_category_str (mp_category m))), (''rationale'', JStr (mp_rationale m)),
          (''event_at'', text_or_null (mp_event_at m)), (''valid_from'', text_or_null (mp_valid_from m)),
          (''valid_until'', text_or_null (mp_valid_until m)),
          (''source_message_id'', text_or_null (mp_source_message_id m))])"

definition answer_event :: "realtime_env \<Rightarrow> orchestration_result \<Rightarrow> jdict" where
  "answer_event e res =
     ev [(''message_id'', JStr (uuid_str (row_id (or_message res)))),
         (''run_id'', JStr (uuid_str (or_run_id res))), (''text'', JStr (ms_content (or_message res))),
         (''intent'', jstr (md_intent (or_decision res))),
         (''sources'', JList (map (\<lambda>s. jobj [(''source_type'', jstr (sf_source_type s)),
            (''source_id'', JStr (sf_source_id s)), (''label'', JStr (sf_label s))]) (md_sources (or_decision res)))),
         (''memory_proposal'', proposal_dump (md_memory_proposal (or_decision res))),
         (''actions'', JList (map (\<lambda>a. jobj [(''id'', JStr (uuid_str (row_id a))), (''name'', jstr (ta_name a)),
            (''state'', jstr (action_state_str (ta_state a))), (''preview'', ta_preview a),
            (''expires_at'', iso_or_null (re_env e) (ta_expires_at a)), (''version'', JInt (version a))])
            (or_actions res)))]"

definition chars :: "pystr \<Rightarrow> string" where
  "chars s = map char_of s"

definition administrator :: "uuid \<Rightarrow> pystr \<Rightarrow> audit_context" where
  "administrator acc key = (system_context ''administrator'' (Some acc))\<lparr>ac_correlation_id := Some (chars key)\<rparr>"

text \<open>The turn is added and answered in one session; adding alone is what the session has done when
  the transcript is announced.\<close>

definition turn_request :: "pystr \<Rightarrow> pystr \<Rightarrow> bool \<Rightarrow> pystr \<Rightarrow> user_turn" where
  "turn_request text1 key spoken language =
     \<lparr>ut_idempotency_key = key, ut_content = text1, ut_input_mode = (if spoken then ''voice'' else ''text''),
      ut_language = language\<rparr>"

definition realtime_turn ::
  "realtime_env \<Rightarrow> instant \<Rightarrow> connection \<Rightarrow> pystr \<Rightarrow> pystr \<Rightarrow> bool \<Rightarrow> db \<Rightarrow> message result \<times> db" where
  "realtime_turn e now c text1 key spoken d =
     (case validate_turn (turn_request text1 key spoken (cn_language c)) of
        Inl x \<Rightarrow> (Inl x, d)
      | Inr rq \<Rightarrow> (case cn_conversation_id c of
          None \<Rightarrow> (Inl NotFoundError, d)
        | Some cid \<Rightarrow> add_user_turn (re_crypto e) now (cn_account_id c) cid rq (administrator (cn_account_id c) key) d))"

definition turn_and_answer ::
  "realtime_env \<Rightarrow> instant \<Rightarrow> connection \<Rightarrow> pystr \<Rightarrow> pystr \<Rightarrow> bool \<Rightarrow> db \<Rightarrow> orchestration_result result \<times> db" where
  "turn_and_answer e now c text1 key spoken d =
     (case realtime_turn e now c text1 key spoken d of
        (Inl x, d1) \<Rightarrow> (Inl x, d1)
      | (Inr m, d1) \<Rightarrow>
          answer (re_env e) (re_crypto e) now (cn_account_id c) (ms_conversation_id m) (row_id m)
            (Some (administrator (cn_account_id c) key)) d1)"

section \<open>Tasks\<close>

text \<open>The \<open>finally\<close> blocks: a text turn ends with the state event, a spoken one also clears its marks.\<close>

definition voice_done :: "realtime \<Rightarrow> realtime" where
  "voice_done r = put (\<lambda>c. c\<lparr>cn_turn_finalizing := False, cn_partial_text := []\<rparr>) r"

definition turn_done :: "realtime_env \<Rightarrow> nat \<Rightarrow> bool \<Rightarrow> realtime \<Rightarrow> realtime" where
  "turn_done e sk spoken r =
     (let r1 = (if cn_conversation_id (con r) = None then r
                else emit e sk ''state.changed'' (ev [(''state'', jstr ''listening'')]) None r)
      in if spoken then voice_done r1 else r1)"

definition failure_code :: "exc \<Rightarrow> string" where
  "failure_code x = (case x of Domain de \<Rightarrow> err_code de | _ \<Rightarrow> ''realtime_processing_failed'')"

definition turn_failed :: "realtime_env \<Rightarrow> nat \<Rightarrow> exc \<Rightarrow> uuid \<Rightarrow> bool \<Rightarrow> realtime \<Rightarrow> realtime" where
  "turn_failed e sk x ack spoken r = turn_done e sk spoken (emit_error e sk (failure_code x) (Some ack) r)"

definition set_task :: "(nat \<times> task) option \<Rightarrow> realtime \<Rightarrow> realtime" where
  "set_task t r = put (\<lambda>c. c\<lparr>cn_assistant_task := t\<rparr>) r"

text \<open>\<open>process_text_turn\<close> up to the answer.\<close>

definition begin_turn ::
  "realtime_env \<Rightarrow> instant \<Rightarrow> nat \<Rightarrow> pystr \<Rightarrow> pystr \<Rightarrow> uuid \<Rightarrow> bool \<Rightarrow> realtime \<Rightarrow> realtime" where
  "begin_turn e now sk text1 key ack spoken r =
     (if strip text1 = []
      then let r1 = emit_error e sk ''empty_turn'' (Some ack) r
           in set_task None (if spoken then voice_done r1 else r1)
      else
        let r1 = (if spoken then r
                  else emit e sk ''state.changed'' (ev [(''state'', jstr ''processing'')]) (Some ack) r)
        in case fst (realtime_turn e now (con r1) text1 key spoken (store r1)) of
             Inl x \<Rightarrow> set_task None (turn_failed e sk x ack spoken r1)
           | Inr m \<Rightarrow>
               set_task (Some (sk, Answering text1 key ack spoken))
                 (if spoken then r1
                  else emit e sk ''transcript.final''
                    (ev [(''text'', JStr text1), (''message_id'', JStr (uuid_str (row_id m)))]) (Some ack) r1))"

text \<open>A step of the task of the connection, from one suspension to the next.\<close>

fun task_step :: "realtime_env \<Rightarrow> instant \<Rightarrow> nat \<Rightarrow> task \<Rightarrow> realtime \<Rightarrow> realtime" where
  "task_step e now sk (AudioTurn audio language ack) r =
     set_task (Some (sk, Transcribing audio language ack))
       (emit e sk ''state.changed'' (ev [(''state'', jstr ''processing'')]) (Some ack) r)"
| "task_step e now sk (Transcribing audio language ack) r =
     (case transcribe e audio language (store r) of
        Inl x \<Rightarrow> set_task None (voice_done (emit_error e sk (failure_code x) (Some ack) r))
      | Inr t \<Rightarrow>
          begin_turn e now sk t (uuid_str ack) ack True
            (emit e sk ''transcript.final'' (ev [(''text'', JStr t)]) (Some ack) r))"
| "task_step e now sk (TextTurn text1 key ack) r = begin_turn e now sk text1 key ack False r"
| "task_step e now sk (Answering text1 key ack spoken) r =
     (case run_tx (turn_and_answer e now (con r) text1 key spoken) (store r) of
        (Inl x, d1) \<Rightarrow> set_task None (turn_failed e sk x ack spoken (r\<lparr>store := d1\<rparr>))
      | (Inr res, d1) \<Rightarrow>
          let r1 = emit e sk ''assistant.text'' (answer_event e res) (Some ack) (r\<lparr>store := d1\<rparr>);
              t = ms_content (or_message res)
          in set_task (Some (sk, Speaking t ack spoken)) (put (\<lambda>c. c\<lparr>cn_last_assistant_text := Some t\<rparr>) r1))"
| "task_step e now sk (Speaking text1 ack spoken) r =
     (case synthesize e sk text1 (cn_language (con r)) r of
        (Inl x, r1) \<Rightarrow> set_task None (turn_failed e sk x ack spoken r1)
      | (Inr _, r1) \<Rightarrow> set_task None (turn_done e sk spoken r1))"
| "task_step e now sk (Retry text1 language) r = set_task None (snd (synthesize e sk text1 language r))"

definition assistant_step :: "realtime_env \<Rightarrow> instant \<Rightarrow> realtime \<Rightarrow> realtime" where
  "assistant_step e now r =
     (case cn_assistant_task (con r) of None \<Rightarrow> r | Some (sk, t) \<Rightarrow> task_step e now sk t r)"

text \<open>\<open>cancel_assistant_task\<close>: the cancellation is raised where the task waits. A task that was
  created and has not run is dropped without entering its \<open>try\<close>.\<close>

fun cancelled :: "realtime_env \<Rightarrow> nat \<Rightarrow> task \<Rightarrow> realtime \<Rightarrow> realtime" where
  "cancelled e sk (Transcribing _ _ _) r = voice_done r"
| "cancelled e sk (Answering _ _ ack spoken) r =
     turn_done e sk spoken (emit e sk ''assistant.interrupted'' (ev [(''state'', jstr ''listening'')]) (Some ack) r)"
| "cancelled e sk (Speaking _ ack spoken) r =
     turn_done e sk spoken (emit e sk ''assistant.interrupted'' (ev [(''state'', jstr ''listening'')]) (Some ack) r)"
| "cancelled e sk _ r = r"

definition cancel_assistant_task :: "realtime_env \<Rightarrow> realtime \<Rightarrow> realtime" where
  "cancel_assistant_task e r =
     set_task None (case cn_assistant_task (con r) of None \<Rightarrow> r | Some (sk, t) \<Rightarrow> cancelled e sk t r)"

definition replace_assistant_task :: "realtime_env \<Rightarrow> nat \<Rightarrow> task \<Rightarrow> realtime \<Rightarrow> realtime" where
  "replace_assistant_task e sk t r = set_task (Some (sk, t)) (cancel_assistant_task e r)"

text \<open>\<open>emit_partial_transcript\<close>; whatever it raises, the connection goes on.\<close>

definition partial_step :: "realtime_env \<Rightarrow> realtime \<Rightarrow> realtime" where
  "partial_step e r =
     (case cn_partial_task (con r) of
        None \<Rightarrow> r
      | Some (sk, audio) \<Rightarrow>
          let r1 = put (\<lambda>c. c\<lparr>cn_partial_task := None\<rparr>) r
          in case transcribe e audio (asc ''cs'') (store r) of
               Inl _ \<Rightarrow> r1
             | Inr t0 \<Rightarrow>
                 let t = strip t0
                 in if t \<noteq> [] \<and> t \<noteq> cn_partial_text (con r) \<and> \<not> cn_turn_finalizing (con r)
                    then emit e sk ''transcript.partial'' (ev [(''text'', JStr t)]) None
                           (put (\<lambda>c. c\<lparr>cn_partial_text := t\<rparr>) r1)
                    else r1)"

definition cancel_partial_task :: "realtime \<Rightarrow> realtime" where
  "cancel_partial_task r = put (\<lambda>c. c\<lparr>cn_partial_task := None\<rparr>) r"

section \<open>Audio\<close>

definition finalize_audio_turn :: "realtime_env \<Rightarrow> nat \<Rightarrow> pystr \<Rightarrow> uuid \<Rightarrow> realtime \<Rightarrow> realtime" where
  "finalize_audio_turn e sk language ack r =
     (if cn_turn_finalizing (con r) \<or> cn_audio (con r) = [] then r
      else
        let r1 = cancel_partial_task (put (\<lambda>c. c\<lparr>cn_turn_finalizing := True\<rparr>) r);
            audio = cn_audio (con r1);
            r2 = put (\<lambda>c. c\<lparr>cn_audio := [], cn_vad := vad_reset (cn_vad c), cn_partial_at_bytes := 0\<rparr>) r1
        in replace_assistant_task e sk (AudioTurn audio language ack) r2)"

definition frame_info :: "nat \<Rightarrow> (string \<times> json) list \<Rightarrow> jdict" where
  "frame_info n kvs = ev ((''frame_sequence'', JInt (int n)) # kvs)"

text \<open>A frame that is the next one: it ends a turn that is full, or is added to the audio and given to the
  detector.\<close>

definition accept_frame ::
  "realtime_env \<Rightarrow> nat \<Rightarrow> nat \<Rightarrow> 64 word \<Rightarrow> octets \<Rightarrow> realtime \<Rightarrow> realtime" where
  "accept_frame e sk n captured pcm r =
     (let r1 = put (\<lambda>c. c\<lparr>cn_last_audio_sequence := n, cn_last_audio_capture := captured\<rparr>) r
      in if MAX_TURN_BYTES < length (cn_audio (con r)) + length pcm
         then finalize_audio_turn e sk (asc ''cs'') (re_uuid e (cn_sequence (con r)))
                (emit e sk ''turn.ended'' (frame_info n [(''reason'', jstr ''maximum_duration'')]) None r1)
         else
           let (activity, v) = vad_process pcm (cn_vad (con r1));
               r2 = put (\<lambda>c. c\<lparr>cn_audio := cn_audio c @ pcm, cn_vad := v\<rparr>) r1;
               r3 = (if va_started activity then emit e sk ''turn.started'' (frame_info n []) None r2 else r2);
               r4 = (if vd_active (cn_vad (con r3))
                       \<and> PARTIAL_TRANSCRIPT_INTERVAL_BYTES + cn_partial_at_bytes (con r3) \<le> length (cn_audio (con r3))
                       \<and> cn_partial_task (con r3) = None
                     then put (\<lambda>c. c\<lparr>cn_partial_at_bytes := length (cn_audio c),
                                      cn_partial_task := Some (sk, cn_audio c)\<rparr>) r3
                     else r3);
               r5 = (if n mod FLOW_CONTROL_ACK_FRAMES = 0
                     then emit e sk ''audio.ack'' (frame_info n [(''captured_ms'', JFloat captured)]) None r4 else r4)
           in if va_ended activity
              then finalize_audio_turn e sk (asc ''cs'') (re_uuid e (cn_sequence (con r5)))
                     (emit e sk ''turn.ended'' (frame_info n [(''reason'', jstr ''server_vad'')]) None r5)
              else r5)"

definition receive_audio :: "realtime_env \<Rightarrow> nat \<Rightarrow> octets \<Rightarrow> realtime \<Rightarrow> realtime" where
  "receive_audio e sk data r =
     (if cn_paused (con r) \<or> cn_conversation_id (con r) = None then r
      else (case decode_audio_packet data of
          None \<Rightarrow> emit_error e sk ''invalid_audio_frame'' None r
        | Some (n, captured, pcm) \<Rightarrow>
            if n \<le> cn_last_audio_sequence (con r)
            then emit e sk ''audio.ack'' (frame_info n [(''duplicate'', JBool True)]) None r
            else if n \<noteq> cn_last_audio_sequence (con r) + 1 \<or> float_le captured (cn_last_audio_capture (con r))
            then emit e sk ''flow_control'' (ev [(''level'', jstr ''hard''), (''reason'', jstr ''audio_sequence_gap''),
                   (''expected_frame_sequence'', JInt (int (cn_last_audio_sequence (con r)) + 1))]) None
                   (put (\<lambda>c. c\<lparr>cn_paused := True\<rparr>) r)
            else accept_frame e sk n captured pcm r))"

section \<open>Events of the client\<close>

definition start_session :: "realtime_env \<Rightarrow> instant \<Rightarrow> nat \<Rightarrow> client_event \<Rightarrow> realtime \<Rightarrow> unit result \<times> realtime" where
  "start_session e now sk m r =
     (let language = py_str (re_env e) (get_or (ce_payload m) ''language'' (jstr ''cs''));
          continuation = get_or (ce_payload m) ''continuation_of_id'' JNull;
          r1 = put (\<lambda>c. c\<lparr>cn_language := language\<rparr>) r
      in case py_int (re_env e) (app_setting_value ''voice'' ''endpoint_silence_ms'' (JInt 900) (store r)) of
           Inl x \<Rightarrow> (Inl x, r1)
         | Inr ms \<Rightarrow> (case new_vad 600 3 ms of
             None \<Rightarrow> (Inl ValueError, r1)
           | Some v \<Rightarrow>
               let r2 = put (\<lambda>c. c\<lparr>cn_vad := v\<rparr>) r1
               in case (if truthy continuation
                        then (case uuid_parse (py_str (re_env e) continuation) of
                                None \<Rightarrow> Inl ValueError | Some i \<Rightarrow> Inr (Some i))
                        else Inr None) of
                    Inl x \<Rightarrow> (Inl x, r2)
                  | Inr cont \<Rightarrow> (case validate_start \<lparr>cq_input_mode = ''voice'', cq_language = language,
                                        cq_continuation_of_id = cont\<rparr> of
                      Inl x \<Rightarrow> (Inl x, r2)
                    | Inr rq \<Rightarrow>
                        (case run_tx (start (re_crypto e) now (cn_account_id (con r)) rq
                                (administrator (cn_account_id (con r)) (uuid_str (ce_event_id m)))) (store r) of
                           (Inl x, d1) \<Rightarrow> (Inl x, r2\<lparr>store := d1\<rparr>)
                         | (Inr cv, d1) \<Rightarrow>
                             (Inr (), emit e sk ''session.started'' (ev [(''state'', jstr ''listening'')])
                                (Some (ce_event_id m))
                                (put (\<lambda>c. c\<lparr>cn_conversation_id := Some (row_id cv)\<rparr>) (r2\<lparr>store := d1\<rparr>)))))))"

definition resume_session :: "realtime_env \<Rightarrow> nat \<Rightarrow> client_event \<Rightarrow> realtime \<Rightarrow> realtime" where
  "resume_session e sk m r =
     (let ack = Some (ce_event_id m); resync = (\<lambda>kvs. emit e sk ''resync.required'' (ev kvs) ack r)
      in if \<not> resume_available r \<or> cn_conversation_id (con r) = None
         then resync [(''reason'', jstr ''resume_unavailable'')]
         else if (case ce_resume_cursor m of None \<Rightarrow> True | Some cur \<Rightarrow> cn_sequence (con r) < cur)
         then resync [(''reason'', jstr ''invalid_resume_cursor''), (''server_sequence'', JInt (cn_sequence (con r)))]
         else
           let incomplete = cn_audio (con r) \<noteq> [];
               r1 = put (\<lambda>c. c\<lparr>cn_audio := [], cn_vad := vad_reset (cn_vad c), cn_turn_finalizing := False,
                      cn_partial_at_bytes := 0, cn_paused := False\<rparr>) r;
               r2 = emit e sk ''session.resumed''
                 (ev [(''state'', jstr ''listening''), (''generation'', JInt (cn_generation (con r1))),
                      (''partial_transcript'', JStr (cn_partial_text (con r1))),
                      (''input_incomplete'', JBool incomplete),
                      (''last_audio_sequence'', JInt (int (cn_last_audio_sequence (con r1))))]) ack r1;
               r3 = (if incomplete then emit e sk ''turn.incomplete'' [] None r2 else r2)
           in r3\<lparr>resume_available := False\<rparr>)"

text \<open>\<open>session.end\<close>: the conversation ends and the connection starts over.\<close>

definition end_session :: "realtime_env \<Rightarrow> instant \<Rightarrow> nat \<Rightarrow> client_event \<Rightarrow> realtime \<Rightarrow> unit result \<times> realtime" where
  "end_session e now sk m r =
     (let r1 = cancel_assistant_task e r; acc = cn_account_id (con r1)
      in case (case cn_conversation_id (con r1) of
                 None \<Rightarrow> (Inr (), store r1)
               | Some cid \<Rightarrow>
                   (case run_tx (end_conversation (re_crypto e) now acc cid ''user_ended''
                           (administrator acc (uuid_str (ce_event_id m)))) (store r1) of
                      (Inl x, d1) \<Rightarrow> (Inl x, d1) | (Inr _, d1) \<Rightarrow> (Inr (), d1))) of
           (Inl x, d1) \<Rightarrow> (Inl x, r1\<lparr>store := d1\<rparr>)
         | (Inr _, d1) \<Rightarrow>
             let r2 = emit e sk ''session.ended'' (ev [(''state'', jstr ''ended'')]) (Some (ce_event_id m)) (r1\<lparr>store := d1\<rparr>);
                 r3 = put (\<lambda>c. c\<lparr>cn_conversation_id := None, cn_audio := [], cn_vad := vad_reset (cn_vad c),
                        cn_last_client_sequence := 0, cn_last_audio_sequence := 0,
                        cn_last_audio_capture := float_minus_one, cn_partial_text := [],
                        cn_partial_at_bytes := 0, cn_generation := 1, cn_sequence := 0\<rparr>) r2
             in (Inr (), emit e sk ''connection.ready''
                   (ev [(''resume_supported'', JBool True), (''resume_available'', JBool False),
                        (''generation'', JInt 1), (''last_client_sequence'', JInt 0)]) None r3))"

text \<open>An event in its turn, by its type.\<close>

definition dispatch :: "realtime_env \<Rightarrow> instant \<Rightarrow> nat \<Rightarrow> client_event \<Rightarrow> realtime \<Rightarrow> unit result \<times> realtime" where
  "dispatch e now sk m r =
     (let ty = ce_type m; ack = Some (ce_event_id m); ok = (\<lambda>r. (Inr (), r))
      in if ty = ''ping'' then ok (emit e sk ''pong'' [] ack r)
         else if ty = ''session.start''
         then (if resume_available r then ok (emit_error e sk ''resume_required'' ack r)
               else start_session e now sk m r)
         else if ty = ''session.resume'' then ok (resume_session e sk m r)
         else if ty = ''microphone.pause''
         then ok (emit e sk ''state.changed'' (ev [(''state'', jstr ''paused'')]) ack
                (put (\<lambda>c. c\<lparr>cn_paused := True, cn_audio := [], cn_vad := vad_reset (cn_vad c)\<rparr>) r))
         else if ty = ''microphone.resume''
         then ok (emit e sk ''state.changed'' (ev [(''state'', jstr ''listening'')]) ack
                (put (\<lambda>c. c\<lparr>cn_paused := False\<rparr>) r))
         else if ty = ''turn.text''
         then (if cn_conversation_id (con r) = None then ok (emit_error e sk ''session_required'' ack r)
               else ok (replace_assistant_task e sk
                      (TextTurn (py_str (re_env e) (get_or (ce_payload m) ''text'' (jstr '''')))
                         (uuid_str (ce_event_id m)) (ce_event_id m)) r))
         else if ty = ''turn.audio_end''
         then (if cn_turn_finalizing (con r)
               then ok (emit e sk ''ack'' (ev [(''duplicate'', JBool True), (''turn_state'', jstr ''finalizing'')]) ack r)
               else if cn_conversation_id (con r) = None \<or> cn_audio (con r) = []
               then ok (emit_error e sk ''audio_empty'' ack r)
               else ok (finalize_audio_turn e sk (cn_language (con r)) (ce_event_id m) r))
         else if ty = ''assistant.interrupt''
         then ok (emit e sk ''assistant.interrupted'' (ev [(''state'', jstr ''listening'')]) ack (cancel_assistant_task e r))
         else if ty = ''assistant.audio.retry''
         then (case cn_last_assistant_text (con r) of
                 Some t \<Rightarrow> if t \<noteq> [] then ok (replace_assistant_task e sk (Retry t (cn_language (con r))) r)
                           else ok (emit e sk ''assistant.audio.error'' (ev [(''code'', jstr ''audio_retry_unavailable''),
                                  (''text_available'', JBool True)]) ack r)
               | None \<Rightarrow> ok (emit e sk ''assistant.audio.error'' (ev [(''code'', jstr ''audio_retry_unavailable''),
                                  (''text_available'', JBool True)]) ack r))
         else if ty = ''session.end'' then end_session e now sk m r
         else ok (emit e sk ''ack'' [] ack r))"

text \<open>A text message; \<open>None\<close> is one that does not match the contract. Events are taken in the order
  of their numbers, each once.\<close>

definition receive_event ::
  "realtime_env \<Rightarrow> instant \<Rightarrow> nat \<Rightarrow> client_event option \<Rightarrow> realtime \<Rightarrow> unit result \<times> realtime" where
  "receive_event e now sk raw r =
     (case raw of
        None \<Rightarrow> (Inr (), emit_error e sk ''invalid_event'' None r)
      | Some m \<Rightarrow>
          if ce_sequence m \<le> cn_last_client_sequence (con r)
          then (Inr (), emit e sk ''ack'' (ev [(''duplicate'', JBool True)]) (Some (ce_event_id m)) r)
          else if ce_sequence m \<noteq> cn_last_client_sequence (con r) + 1
          then (Inr (), emit e sk ''resync.required''
                 (ev [(''expected_sequence'', JInt (cn_last_client_sequence (con r) + 1)),
                      (''received_sequence'', JInt (ce_sequence m))]) (Some (ce_event_id m)) r)
          else dispatch e now sk m (put (\<lambda>c. c\<lparr>cn_last_client_sequence := ce_sequence m\<rparr>) r))"

section \<open>Sockets\<close>

text \<open>The socket is gone, or an error ended its loop: the connection is parked if it has a
  conversation. Its task goes on.\<close>

definition park :: "realtime \<Rightarrow> realtime" where
  "park r =
     (let r1 = cancel_partial_task (put (\<lambda>c. c\<lparr>cn_connected := False\<rparr>) (r\<lparr>live := None\<rparr>))
      in case cn_conversation_id (con r1) of
           None \<Rightarrow> r1
         | Some cid \<Rightarrow>
             let r2 = put (\<lambda>c. c\<lparr>cn_paused := True\<rparr>) r1
             in r2\<lparr>parked := (parked r2)(cid \<mapsto> con r2)\<rparr>)"

datatype input = Binary octets | Message "client_event option" | Assistant | Partial | Closed

text \<open>One step while socket \<open>sk\<close> is open.\<close>

definition realtime_step :: "realtime_env \<Rightarrow> instant \<Rightarrow> nat \<Rightarrow> input \<Rightarrow> realtime \<Rightarrow> realtime" where
  "realtime_step e now sk i r =
     (case i of
        Binary b \<Rightarrow> receive_audio e sk b r
      | Message m \<Rightarrow> (case receive_event e now sk m r of (Inl _, r1) \<Rightarrow> park r1 | (Inr _, r1) \<Rightarrow> r1)
      | Assistant \<Rightarrow> assistant_step e now r
      | Partial \<Rightarrow> partial_step e r
      | Closed \<Rightarrow> park r)"

text \<open>A step of the task of a parked connection, and its expiry. A connection is known by its
  conversation; the tasks of an expired one are not followed.\<close>

definition parked_step :: "realtime_env \<Rightarrow> instant \<Rightarrow> uuid \<Rightarrow> realtime \<Rightarrow> realtime" where
  "parked_step e now cid r =
     (case parked r cid of
        None \<Rightarrow> r
      | Some c \<Rightarrow>
          let r1 = assistant_step e now (r\<lparr>con := c\<rparr>)
          in r1\<lparr>con := con r, parked := (parked r1)(cid \<mapsto> con r1)\<rparr>)"

definition expire :: "realtime_env \<Rightarrow> instant \<Rightarrow> uuid \<Rightarrow> realtime \<Rightarrow> realtime" where
  "expire e now cid r =
     (case parked r cid of
        None \<Rightarrow> r
      | Some c \<Rightarrow>
          r\<lparr>parked := (parked r)(cid := None),
            store := snd (run_tx (end_conversation (re_crypto e) now (cn_account_id c) cid ''connection_lost''
              (system_context ''administrator'' (Some (cn_account_id c)))) (store r))\<rparr>)"

text \<open>A parked connection as its successor on a new socket.\<close>

definition resumed :: "int \<Rightarrow> connection \<Rightarrow> connection" where
  "resumed g c = c\<lparr>cn_generation := g, cn_paused := True, cn_connected := True\<rparr>"

text \<open>Which connection a new socket gets: \<open>requested\<close> and \<open>generation\<close> are the texts of the query. The
  parked connection is taken out before the generation is read; text that is no number ends the search.\<close>

definition find_session ::
  "realtime_env \<Rightarrow> uuid \<Rightarrow> pystr option \<Rightarrow> pystr option \<Rightarrow> (uuid \<rightharpoonup> connection)
    \<Rightarrow> connection \<times> bool \<times> (uuid \<rightharpoonup> connection)" where
  "find_session e acc requested generation ps =
     (let new = new_connection acc
      in case requested of
           None \<Rightarrow> (new, False, ps)
         | Some t \<Rightarrow>
             if t = [] then (new, False, ps)
             else (case uuid_parse t of
                 None \<Rightarrow> (new, False, ps)
               | Some sid \<Rightarrow>
                   let ps1 = ps(sid := None)
                   in case re_parse_int e (case generation of None \<Rightarrow> asc ''0'' | Some g \<Rightarrow> g) of
                        None \<Rightarrow> (new, False, ps1)
                      | Some g \<Rightarrow> (case ps sid of
                          None \<Rightarrow> (new, False, ps1)
                        | Some c \<Rightarrow>
                            if cn_account_id c = acc \<and> g = cn_generation c + 1 then (resumed g c, True, ps1)
                            else (case cn_conversation_id c of
                                None \<Rightarrow> (new, False, ps1) | Some cid \<Rightarrow> (new, False, ps1(cid \<mapsto> c))))))"

text \<open>Opening a socket: \<open>Inl\<close> is the code it is closed with.\<close>

definition open_socket ::
  "realtime_env \<Rightarrow> instant \<Rightarrow> nat \<Rightarrow> pystr option \<Rightarrow> pystr option \<Rightarrow> pystr option \<Rightarrow> realtime
    \<Rightarrow> (int + unit) \<times> realtime" where
  "open_socket e now sk ticket requested generation r =
     (case ticket of
        None \<Rightarrow> (Inl 4401, r)
      | Some t \<Rightarrow>
          if t = [] then (Inl 4401, r)
          else (case run_tx (consume_ticket (re_crypto e) now t) (store r) of
              (Inl _, d1) \<Rightarrow> (Inl 4401, r\<lparr>store := d1\<rparr>)
            | (Inr acc, d1) \<Rightarrow>
                let (c, available, ps) = find_session e acc requested generation (parked r);
                    r1 = r\<lparr>con := c, store := d1, live := Some sk, resume_available := available, parked := ps\<rparr>
                in (Inr (), emit e sk ''connection.ready''
                      (ev [(''audio'', jobj [(''format'', jstr ''pcm_s16le''), (''sample_rate'', JInt 24000),
                             (''channels'', JInt 1), (''frame_ms'', JInt 20)]),
                           (''resume_supported'', JBool True), (''resume_available'', JBool available),
                           (''generation'', JInt (cn_generation c)),
                           (''last_client_sequence'', JInt (cn_last_client_sequence c))]) None r1)))"

end
