(* ===== verification/IdentityProps.thy ===== *)
theory IdentityProps
  imports Identity
begin

text \<open>
  Identity and security tokens as a transition system. \<open>sec_inv\<close> bounds the
  life of sessions; \<open>sec_le\<close> says what no operation undoes: a used or withdrawn
  token, a revoked session. The interpretations of \<open>single_use\<close> cover realtime
  tickets, password-reset and e-mail tokens.
\<close>

section \<open>What every operation keeps\<close>

definition session_ok :: "auth_session \<Rightarrow> bool" where
  "session_ok s \<longleftrightarrow> as_absolute_expires_at s = as_created_at s + hours 12
     \<and> as_expires_at s \<le> as_absolute_expires_at s"

definition sec_base :: "db \<Rightarrow> bool" where
  "sec_base d \<longleftrightarrow> keyed (next_id d) (security_tokens d) \<and> keyed (next_id d) (auth_sessions d)
     \<and> (\<forall>s \<in> set (auth_sessions d). session_ok s)"

definition token_le :: "security_token \<Rightarrow> security_token \<Rightarrow> bool" where
  "token_le t t' \<longleftrightarrow> row_id t' = row_id t \<and> tk_digest t' = tk_digest t \<and> tk_purpose t' = tk_purpose t
     \<and> (tk_used_at t \<noteq> None \<longrightarrow> tk_used_at t' \<noteq> None)
     \<and> (tk_invalidated_at t \<noteq> None \<longrightarrow> tk_invalidated_at t' \<noteq> None)"

definition session_le :: "auth_session \<Rightarrow> auth_session \<Rightarrow> bool" where
  "session_le s s' \<longleftrightarrow> row_id s' = row_id s \<and> as_secret_digest s' = as_secret_digest s
     \<and> as_account_id s' = as_account_id s \<and> as_created_at s' = as_created_at s
     \<and> (as_revoked_at s \<noteq> None \<longrightarrow> as_revoked_at s' \<noteq> None)"

definition sec_le :: "db \<Rightarrow> db \<Rightarrow> bool" where
  "sec_le d d' \<longleftrightarrow>
     (\<forall>t \<in> set (security_tokens d). \<exists>t' \<in> set (security_tokens d'). token_le t t')
   \<and> (\<forall>s \<in> set (auth_sessions d). \<exists>s' \<in> set (auth_sessions d'). session_le s s')"

text \<open>\<open>sec_ok d d'\<close>: from a good state, the change to \<open>d'\<close> keeps the state good and undoes nothing.\<close>

definition sec_ok :: "db \<Rightarrow> db \<Rightarrow> bool" where
  "sec_ok d d' \<longleftrightarrow> (sec_base d \<longrightarrow> sec_base d' \<and> sec_le d d')"

lemma token_le_refl [simp]: "token_le t t" and session_le_refl [simp]: "session_le s s"
  by (simp_all add: token_le_def session_le_def)

lemma token_le_self [simp]: "t \<in> A \<Longrightarrow> \<exists>t' \<in> A. token_le t t'"
  using token_le_refl by blast

lemma session_le_self [simp]: "s \<in> A \<Longrightarrow> \<exists>s' \<in> A. session_le s s'"
  using session_le_refl by blast

lemma sec_le_refl [simp]: "sec_le d d"
  by (simp add: sec_le_def)

lemma token_le_trans: "token_le a b \<Longrightarrow> token_le b c \<Longrightarrow> token_le a c"
  and session_le_trans: "session_le s t \<Longrightarrow> session_le t u \<Longrightarrow> session_le s u"
  by (simp_all add: token_le_def session_le_def)

lemma sec_le_trans: "sec_le a b \<Longrightarrow> sec_le b c \<Longrightarrow> sec_le a c"
  unfolding sec_le_def by (meson token_le_trans session_le_trans)

lemma sec_ok_refl [simp]: "sec_ok d d"
  by (simp add: sec_ok_def)

lemma sec_ok_trans [trans]: "sec_ok a b \<Longrightarrow> sec_ok b c \<Longrightarrow> sec_ok a c"
  unfolding sec_ok_def using sec_le_trans by blast

text \<open>A change that leaves tokens and sessions alone.\<close>

lemma sec_ok_frame:
  "security_tokens d' = security_tokens d \<Longrightarrow> auth_sessions d' = auth_sessions d \<Longrightarrow> next_id d \<le> next_id d' \<Longrightarrow>
     sec_ok d d'"
  unfolding sec_ok_def sec_base_def sec_le_def by (auto intro: keyed_mono)

lemma sec_ok_audit [simp]: "sec_ok d (audit_append c now ctx ety res tty tid det d') = sec_ok d d'"
  by (simp add: sec_ok_def sec_base_def sec_le_def)

lemma sec_ok_save [simp]:
  "sec_ok d (save_account now a d') = sec_ok d d'" "sec_ok d (save_credential now cr d') = sec_ok d d'"
  by (simp_all add: sec_ok_def sec_base_def sec_le_def save_account_def save_credential_def)

lemma save_tokens [simp]:
  "security_tokens (save_account now a d) = security_tokens d"
  "security_tokens (save_credential now cr d) = security_tokens d"
  by (simp_all add: save_account_def save_credential_def)

lemma sec_ok_update_tokens:
  assumes "\<And>t. token_le t (f t)"
    and "security_tokens d' = update_where P f (security_tokens d)" "auth_sessions d' = auth_sessions d"
      "next_id d' = next_id d"
  shows "sec_ok d d'"
proof -
  have id: "\<And>t. row_id (f t) = row_id t" using assms(1) by (simp add: token_le_def)
  have "\<exists>t' \<in> set (security_tokens d'). token_le t t'" if "t \<in> set (security_tokens d)" for t
  proof
    show "(if P t then f t else t) \<in> set (security_tokens d')" using that assms(2) by (auto simp: update_where_def)
    show "token_le t (if P t then f t else t)" using assms(1) by simp
  qed
  then show ?thesis
    using assms keyed_update_where [OF id] by (auto simp: sec_ok_def sec_base_def sec_le_def)
qed

lemma sec_ok_invalidate: "sec_ok d (invalidate_tokens now acc p d)"
  by (rule sec_ok_update_tokens [where f = "\<lambda>t. t\<lparr>tk_invalidated_at := Some now\<rparr>"])
    (auto simp: invalidate_tokens_def token_le_def)

lemma sec_ok_add_token: "sec_ok d (add_token now acc p dg tg ex d)"
  unfolding sec_ok_def
proof
  assume b: "sec_base d"
  then have "keyed (Suc (next_id d)) (security_tokens (add_token now acc p dg tg ex d))"
    by (auto simp: sec_base_def add_token_def intro: keyed_append_new)
  with b show "sec_base (add_token now acc p dg tg ex d) \<and> sec_le d (add_token now acc p dg tg ex d)"
    by (simp add: sec_base_def sec_le_def add_token_def fresh_def bex_Un keyed_mono [of "next_id d"])
qed

lemma put_row_where: "put_row r t = update_where (\<lambda>x. row_id x = row_id r) (\<lambda>x. r) t"
  by (simp add: put_row_def update_where_def)

lemma sec_ok_use_token:
  assumes "t \<in> set (security_tokens d)"
  shows "sec_ok d (use_token now t d)"
  unfolding sec_ok_def
proof
  assume b: "sec_base d"
  then have k: "keyed (next_id d) (security_tokens d)" by (simp add: sec_base_def)
  have "\<exists>x' \<in> set (security_tokens (use_token now t d)). token_le x x'" if "x \<in> set (security_tokens d)" for x
  proof (cases "row_id x = row_id t")
    case True
    then have "x = t" by (rule keyed_unique [OF k that assms])
    then have "token_le x (t\<lparr>tk_used_at := Some now\<rparr>)" by (simp add: token_le_def)
    moreover have "t\<lparr>tk_used_at := Some now\<rparr> \<in> set (security_tokens (use_token now t d))"
      using assms by (auto simp: use_token_def put_row_def image_iff)
    ultimately show ?thesis by blast
  next
    case False
    then have "x \<in> set (security_tokens (use_token now t d))"
      using that by (auto simp: use_token_def put_row_def image_iff)
    then show ?thesis using token_le_refl by blast
  qed
  then show "sec_base (use_token now t d) \<and> sec_le d (use_token now t d)"
    using b by (auto simp: sec_base_def sec_le_def use_token_def)
qed

lemma sec_ok_update_sessions:
  assumes "\<And>s. s \<in> set (auth_sessions d) \<Longrightarrow> P s \<Longrightarrow> session_le s (f s) \<and> (session_ok s \<longrightarrow> session_ok (f s))"
    and "auth_sessions d' = map (\<lambda>s. if P s then f s else s) (auth_sessions d)"
      "security_tokens d' = security_tokens d" "next_id d' = next_id d"
  shows "sec_ok d d'"
proof -
  have ids: "map row_id (auth_sessions d') = map row_id (auth_sessions d)"
    using assms(1,2) by (auto simp: session_le_def)
  have "\<exists>s' \<in> set (auth_sessions d'). session_le s s'" if "s \<in> set (auth_sessions d)" for s
  proof
    show "(if P s then f s else s) \<in> set (auth_sessions d')" using that assms(2) by auto
    show "session_le s (if P s then f s else s)" using assms(1) that by simp
  qed
  moreover have "keyed (next_id d') (auth_sessions d')" if "keyed (next_id d) (auth_sessions d)"
  proof -
    have "set (map row_id (auth_sessions d')) = set (map row_id (auth_sessions d))" using ids by simp
    then have "(\<forall>r \<in> set (auth_sessions d'). row_id r < next_id d)"
      using that by (auto simp: keyed_def dest!: equalityD1)
    with that ids assms(4) show ?thesis by (simp add: keyed_def)
  qed
  ultimately show ?thesis
    using assms by (auto simp: sec_ok_def sec_base_def sec_le_def)
qed

lemma sec_ok_revoke_where: "sec_ok d (revoke_where now reason P d)"
  by (rule sec_ok_update_sessions [where P = "\<lambda>s. P s \<and> as_revoked_at s = None"
        and f = "\<lambda>s. s\<lparr>as_revoked_at := Some now, as_revoke_reason := Some reason\<rparr>"])
    (auto simp: revoke_where_def update_where_def session_le_def session_ok_def)

lemma sec_ok_put_session:
  assumes "s \<in> set (auth_sessions d)" "session_le s s'" "session_ok s \<Longrightarrow> session_ok s'"
  shows "sec_ok d (d\<lparr>auth_sessions := put_row s' (auth_sessions d)\<rparr>)"
proof (cases "sec_base d")
  case True
  then have k: "keyed (next_id d) (auth_sessions d)" by (simp add: sec_base_def)
  have eq: "x = s" if "x \<in> set (auth_sessions d)" "row_id x = row_id s'" for x
    by (rule keyed_unique [OF k that(1) assms(1)]) (use that assms(2) in \<open>simp add: session_le_def\<close>)
  show ?thesis
    by (rule sec_ok_update_sessions [where P = "\<lambda>x. row_id x = row_id s'" and f = "\<lambda>x. s'"])
      (use eq assms in \<open>auto simp: put_row_def\<close>)
qed (simp add: sec_ok_def)

section \<open>The operations\<close>

lemma find_token_mem: "find_token c tok p d = Some t \<Longrightarrow> t \<in> set (security_tokens d)"
  unfolding find_token_def by (drule query_one_Some) simp

lemma sec_ok_initialize: "sec_ok d (snd (initialize c now rq ctx d))"
  by (rule sec_ok_frame)
    (auto simp: initialize_def Let_def fresh_def split: option.split sum.split)

lemma sec_ok_authenticate: "sec_ok d (snd (authenticate c now u p ctx d))"
  by (rule sec_ok_frame)
    (auto simp: authenticate_def Let_def save_account_def save_credential_def split: option.split prod.split)

lemma sec_ok_create_session: "sec_ok d (snd (create_session c now acc ctx idle ck cs d))"
proof (cases "10 \<le> idle \<and> idle \<le> 120")
  case True
  let ?d = "snd (create_session c now acc ctx idle ck cs d)"
  have s: "\<exists>s. auth_sessions ?d = auth_sessions d @ [s] \<and> row_id s = next_id d \<and> session_ok s"
    using True by (simp add: create_session_def Let_def session_ok_def hours_def minutes_def seconds_def)
  have f: "security_tokens ?d = security_tokens d" "next_id ?d = Suc (next_id d)"
    using True by (simp_all add: create_session_def Let_def fresh_def)
  show ?thesis
    unfolding sec_ok_def
  proof
    assume b: "sec_base d"
    obtain s where s: "auth_sessions ?d = auth_sessions d @ [s]" "row_id s = next_id d" "session_ok s"
      using s by blast
    have "keyed (Suc (next_id d)) (auth_sessions d @ [s])"
      using b s(2) by (auto simp: sec_base_def intro: keyed_append_new)
    with b s f show "sec_base ?d \<and> sec_le d ?d"
      by (simp add: sec_base_def sec_le_def bex_Un keyed_mono [of "next_id d"])
  qed
qed (simp add: create_session_def)

lemma sec_ok_resolve_session: "sec_ok d (snd (resolve_session c now ck touch idle d))"
proof -
  have "sec_ok d (d\<lparr>auth_sessions := put_row (s\<lparr>as_last_activity_at := now,
      as_expires_at := min (now + minutes idle) (as_absolute_expires_at s)\<rparr>) (auth_sessions d)\<rparr>)"
    if "query_one (\<lambda>s. as_secret_digest s = token_digest c ck ''session'') (auth_sessions d) = Some s" for s
    by (rule sec_ok_put_session [of s])
      (use query_one_Some [OF that] in \<open>auto simp: session_le_def session_ok_def\<close>)
  then show ?thesis
    by (auto simp: resolve_session_def Let_def split: option.split)
qed

lemma sec_ok_revoke_session:
  "s \<in> set (auth_sessions d) \<Longrightarrow> sec_ok d (snd (revoke_session c now s reason ctx d))"
  unfolding revoke_session_def snd_conv sec_ok_audit
  by (rule sec_ok_put_session [of s]) (auto simp: session_le_def session_ok_def)

lemma sec_ok_change_password: "sec_ok d (snd (change_password c now acc cur new ctx d))"
  by (auto simp: change_password_def Let_def split: option.split sum.split
      intro: sec_ok_trans [OF _ sec_ok_revoke_where])

lemma sec_ok_synchronize: "sec_ok d (snd (synchronize_deployment_password c now p ctx d))"
  by (auto simp: synchronize_deployment_password_def Let_def split: option.split sum.split
      intro: sec_ok_trans [OF _ sec_ok_revoke_where])

lemma sec_ok_issue: "sec_ok d (add_token now acc p dg tg ex (invalidate_tokens now acc p d))"
  by (rule sec_ok_trans [OF sec_ok_invalidate sec_ok_add_token])

lemma sec_ok_tokens:
  "sec_ok d (snd (issue_ticket c now acc tok d))"
  "sec_ok d (snd (issue_reset_token c now acc tok d))"
  by (simp_all add: issue_ticket_def issue_reset_token_def Let_def sec_ok_issue)

lemma sec_ok_consume: "sec_ok d (snd (consume_ticket c now tok d))"
  by (auto simp: consume_ticket_def split: option.split intro: sec_ok_use_token find_token_mem)

lemma sec_ok_use_after:
  "sec_ok d d1 \<Longrightarrow> security_tokens d1 = security_tokens d \<Longrightarrow> t \<in> set (security_tokens d) \<Longrightarrow>
     sec_ok d (use_token now t d1)"
  using sec_ok_trans sec_ok_use_token by metis

lemma sec_ok_complete_reset: "sec_ok d (snd (complete_reset c now tok p ctx d))"
  by (auto simp: complete_reset_def Let_def split: option.split sum.split
      intro!: sec_ok_trans [OF _ sec_ok_revoke_where] sec_ok_use_after dest: find_token_mem)

lemma sec_ok_email:
  "sec_ok d (snd (begin_email_change c now acc e p ctx tok d))"
  "sec_ok d (snd (complete_email_verification c now tok ctx d))"
proof -
  have prof: "sec_ok d (d'\<lparr>profiles := ps\<rparr>) = sec_ok d d'" for d d' ps
    by (simp add: sec_ok_def sec_base_def sec_le_def)
  show "sec_ok d (snd (begin_email_change c now acc e p ctx tok d))"
    by (auto simp: begin_email_change_def Let_def prof split: option.split sum.split
        intro!: sec_ok_trans [OF _ sec_ok_add_token] sec_ok_invalidate)
  show "sec_ok d (snd (complete_email_verification c now tok ctx d))"
    by (auto simp: complete_email_verification_def Let_def prof split: option.split
        intro!: sec_ok_use_after dest: find_token_mem)
qed

lemma sec_ok_voice:
  "sec_ok d (sync_key_metadata c now file d)"
  "sec_ok d (snd (voice_authenticate c now pr file net corr d))"
  "sec_ok d (acknowledge_notice now acc nid d)"
  by (rule sec_ok_frame;
      auto simp: sync_key_metadata_def voice_authenticate_def acknowledge_notice_def Let_def fresh_def
        split: option.split)+

section \<open>The transition system\<close>

text \<open>The requests of clients and the operations of the deployment, each in its transaction.\<close>

inductive security_step :: "crypto \<Rightarrow> db \<Rightarrow> db \<Rightarrow> bool" for c where
  initialize: "run_tx (initialize c now rq ctx) d = (r1, d') \<Longrightarrow> security_step c d d'"
| login: "run_tx (authenticate c now u p ctx) d = (r1, d') \<Longrightarrow> security_step c d d'"
| create_session: "run_tx (create_session c now acc ctx idle ck cs) d = (r2, d') \<Longrightarrow> security_step c d d'"
| resolve_session: "run_tx (resolve_session c now ck touch idle) d = (r3, d') \<Longrightarrow> security_step c d d'"
| revoke_session: "s \<in> set (auth_sessions d) \<Longrightarrow> run_tx (revoke_session c now s reason ctx) d = (r4, d') \<Longrightarrow>
    security_step c d d'"
| change_password: "run_tx (change_password c now acc cur new ctx) d = (r5, d') \<Longrightarrow> security_step c d d'"
| synchronize: "run_tx (synchronize_deployment_password c now p ctx) d = (r6, d') \<Longrightarrow> security_step c d d'"
| issue_reset: "run_tx (issue_reset_token c now acc tok) d = (r7, d') \<Longrightarrow> security_step c d d'"
| complete_reset: "run_tx (complete_reset c now tok p ctx) d = (r4, d') \<Longrightarrow> security_step c d d'"
| begin_email: "run_tx (begin_email_change c now acc e p ctx tok) d = (r7, d') \<Longrightarrow> security_step c d d'"
| complete_email: "run_tx (complete_email_verification c now tok ctx) d = (r8, d') \<Longrightarrow> security_step c d d'"
| issue_ticket: "run_tx (issue_ticket c now acc tok) d = (r9, d') \<Longrightarrow> security_step c d d'"
| consume_ticket: "run_tx (consume_ticket c now tok) d = (r10, d') \<Longrightarrow> security_step c d d'"

definition sec_inv :: "db \<Rightarrow> bool" where
  "sec_inv d \<longleftrightarrow> sec_base d \<and> constraints d"

lemma security_step_ok:
  assumes "sec_inv d" "security_step c d d'"
  shows "sec_inv d' \<and> sec_le d d'"
proof -
  have tx: "sec_inv d' \<and> sec_le d d'" if "run_tx f d = (r, d')" "sec_ok d (snd (f d))"
    for f :: "db \<Rightarrow> 'x result \<times> db" and r
    using run_tx_state [OF that(1)] that(2) assms(1) by (auto simp: sec_inv_def sec_ok_def)
  from assms(2) show ?thesis
    by (cases rule: security_step.cases)
      (erule tx, simp only: sec_ok_initialize sec_ok_authenticate sec_ok_create_session sec_ok_resolve_session
        sec_ok_revoke_session sec_ok_change_password sec_ok_synchronize sec_ok_tokens sec_ok_consume
        sec_ok_complete_reset sec_ok_email)+
qed

interpretation sec: step_system "security_step c" sec_inv for c
  by unfold_locales (use security_step_ok in blast)

lemma security_reach_le: "(security_step c)\<^sup>*\<^sup>* d d' \<Longrightarrow> sec_inv d \<Longrightarrow> sec_inv d' \<and> sec_le d d'"
  using sec.reach_inv sec.reach_rel [of c d d' sec_le] sec_le_trans security_step_ok by (metis sec_le_refl)

section \<open>One-time secrets\<close>

text \<open>A token is spent when its row has been used or withdrawn.\<close>

definition token_spent :: "crypto \<Rightarrow> string \<Rightarrow> pystr \<Rightarrow> db \<Rightarrow> bool" where
  "token_spent c p tok d \<longleftrightarrow> (\<exists>t \<in> set (security_tokens d). tk_digest t = token_digest c tok p
     \<and> tk_purpose t = p \<and> (tk_used_at t \<noteq> None \<or> tk_invalidated_at t \<noteq> None))"

lemma token_spent_le: "sec_le d d' \<Longrightarrow> token_spent c p tok d \<Longrightarrow> token_spent c p tok d'"
  unfolding token_spent_def sec_le_def token_le_def by metis

lemma find_spent:
  assumes "sec_inv d" "token_spent c p tok d"
  shows "\<exists>t. find_token c tok p d = Some t \<and> \<not> token_live now t"
proof -
  obtain t where t: "t \<in> set (security_tokens d)" "tk_digest t = token_digest c tok p" "tk_purpose t = p"
      "tk_used_at t \<noteq> None \<or> tk_invalidated_at t \<noteq> None"
    using assms(2) by (auto simp: token_spent_def)
  have u: "distinct (map tk_digest (security_tokens d))"
    using assms(1) by (simp add: sec_inv_def constraints_def unique_by_def)
  obtain x where x: "find_token c tok p d = Some x"
    using t unfolding find_token_def by (cases "query_one (\<lambda>t. tk_digest t = token_digest c tok p \<and> tk_purpose t = p) (security_tokens d)")
      (auto simp: query_one_None)
  have "x \<in> set (security_tokens d)" "tk_digest x = token_digest c tok p"
    using x unfolding find_token_def by (auto dest: query_one_Some)
  then have "x = t" using distinct_map_fst_unique [OF u] t by metis
  with x t(4) show ?thesis by (auto simp: token_live_def)
qed

lemma use_token_spends:
  assumes "find_token c tok p d = Some t"
  shows "token_spent c p tok (use_token now t d)"
proof -
  have "t \<in> set (security_tokens d)" "tk_digest t = token_digest c tok p" "tk_purpose t = p"
    using assms unfolding find_token_def by (auto dest: query_one_Some)
  then show ?thesis
    unfolding token_spent_def use_token_def
    by (intro bexI [of _ "t\<lparr>tk_used_at := Some now\<rparr>"]) (auto simp: put_row_def image_iff)
qed

lemma use_token_sel: "security_tokens (revoke_where now r P d) = security_tokens d"
  "security_tokens (d\<lparr>profiles := ps\<rparr>) = security_tokens d"
  by (simp_all add: revoke_where_def)

lemma spent_cong: "security_tokens d' = security_tokens d \<Longrightarrow> token_spent c p tok d' = token_spent c p tok d"
  by (simp add: token_spent_def)

lemma use_token_frame: "security_tokens d' = security_tokens d \<Longrightarrow>
    security_tokens (use_token now t d') = security_tokens (use_token now t d)"
  by (simp add: use_token_def)

interpretation ticket: single_use "security_step c" sec_inv "token_spent c ''realtime_ticket''"
  "\<lambda>now tok. run_tx (consume_ticket c now tok)" for c
proof unfold_locales
  fix s s' :: db and w k r assume "run_tx (consume_ticket c w k) s = (r, s')"
  then show "security_step c s s'" by (rule security_step.consume_ticket)
next
  fix s s' :: db and w k v assume "run_tx (consume_ticket c w k) s = (Inr v, s')"
  then have "consume_ticket c w k s = (Inr v, s')" by (auto dest: run_tx_commitD)
  then show "token_spent c ''realtime_ticket'' k s'"
    by (auto simp: consume_ticket_def split: option.splits if_splits intro: use_token_spends)
next
  fix s :: db and w k assume "sec_inv s" "token_spent c ''realtime_ticket'' k s"
  from find_spent [OF this, of w] show "\<exists>e. run_tx (consume_ticket c w k) s = (Inl e, s)"
    by (auto simp: run_tx_def consume_ticket_def exc_defs)
next
  fix s s' :: db and k assume "sec_inv s" "security_step c s s'" "token_spent c ''realtime_ticket'' k s"
  then show "token_spent c ''realtime_ticket'' k s'" using security_step_ok token_spent_le by blast
qed

interpretation reset: single_use "security_step c" sec_inv "token_spent c ''password_reset''"
  "\<lambda>(now, p, ctx) tok. run_tx (complete_reset c now tok p ctx)" for c
proof unfold_locales
  fix s s' :: db and w :: "instant \<times> pystr \<times> audit_context" and k r
  assume "(case w of (now, p, ctx) \<Rightarrow> \<lambda>tok. run_tx (complete_reset c now tok p ctx)) k s = (r, s')"
  then show "security_step c s s'" by (cases w) (auto intro: security_step.complete_reset)
next
  fix s s' :: db and w :: "instant \<times> pystr \<times> audit_context" and k v
  assume a: "(case w of (now, p, ctx) \<Rightarrow> \<lambda>tok. run_tx (complete_reset c now tok p ctx)) k s = (Inr v, s')"
  obtain now p ctx where w: "w = (now, p, ctx)" by (cases w)
  have "complete_reset c now k p ctx s = (Inr v, s')" using a w by (auto dest: run_tx_commitD)
  then obtain t where t: "find_token c k ''password_reset'' s = Some t"
      "security_tokens s' = security_tokens (use_token now t s)"
    by (auto simp: complete_reset_def Let_def use_token_sel use_token_def split: option.splits sum.splits if_splits)
  then show "token_spent c ''password_reset'' k s'"
    using use_token_spends [OF t(1)] spent_cong [OF t(2)] by simp
next
  fix s :: db and w :: "instant \<times> pystr \<times> audit_context" and k
  assume "sec_inv s" "token_spent c ''password_reset'' k s"
  from find_spent [OF this, of "fst w"]
  show "\<exists>e. (case w of (now, p, ctx) \<Rightarrow> \<lambda>tok. run_tx (complete_reset c now tok p ctx)) k s = (Inl e, s)"
    by (cases w) (auto simp: run_tx_def complete_reset_def exc_defs)
next
  fix s s' :: db and k assume "sec_inv s" "security_step c s s'" "token_spent c ''password_reset'' k s"
  then show "token_spent c ''password_reset'' k s'" using security_step_ok token_spent_le by blast
qed

interpretation email: single_use "security_step c" sec_inv "token_spent c ''email_verify''"
  "\<lambda>(now, ctx) tok. run_tx (complete_email_verification c now tok ctx)" for c
proof unfold_locales
  fix s s' :: db and w :: "instant \<times> audit_context" and k r
  assume "(case w of (now, ctx) \<Rightarrow> \<lambda>tok. run_tx (complete_email_verification c now tok ctx)) k s = (r, s')"
  then show "security_step c s s'" by (cases w) (auto intro: security_step.complete_email)
next
  fix s s' :: db and w :: "instant \<times> audit_context" and k v
  assume a: "(case w of (now, ctx) \<Rightarrow> \<lambda>tok. run_tx (complete_email_verification c now tok ctx)) k s = (Inr v, s')"
  obtain now ctx where w: "w = (now, ctx)" by (cases w)
  have "complete_email_verification c now k ctx s = (Inr v, s')" using a w by (auto dest: run_tx_commitD)
  then obtain t where t: "find_token c k ''email_verify'' s = Some t"
      "security_tokens s' = security_tokens (use_token now t s)"
    by (auto simp: complete_email_verification_def Let_def use_token_def split: option.splits if_splits)
  then show "token_spent c ''email_verify'' k s'"
    using use_token_spends [OF t(1)] spent_cong [OF t(2)] by simp
next
  fix s :: db and w :: "instant \<times> audit_context" and k
  assume "sec_inv s" "token_spent c ''email_verify'' k s"
  from find_spent [OF this, of "fst w"]
  show "\<exists>e. (case w of (now, ctx) \<Rightarrow> \<lambda>tok. run_tx (complete_email_verification c now tok ctx)) k s = (Inl e, s)"
    by (cases w) (auto simp: run_tx_def complete_email_verification_def exc_defs)
next
  fix s s' :: db and k assume "sec_inv s" "security_step c s s'" "token_spent c ''email_verify'' k s"
  then show "token_spent c ''email_verify'' k s'" using security_step_ok token_spent_le by blast
qed

section \<open>Properties\<close>

text \<open>An instance with one administrator and one login session, for evaluation.\<close>

definition demo_password :: pystr where
  "demo_password = asc ''correct horse''"

definition demo_auth :: db where
  "demo_auth = empty_db\<lparr>next_id := 10,
     accounts := [\<lparr>row_id = 1, created_at = 0, updated_at = 0, version = 1, acc_username = default_username,
       acc_state = AccActive, acc_failed_login_count = 4, acc_restricted_until = None, acc_last_login_at = None\<rparr>],
     credentials := [\<lparr>row_id = 2, created_at = 0, updated_at = 0, version = 1, cr_account_id = 1,
       cr_password_hash = 36 # demo_password, cr_algorithm = ''argon2id'', cr_changed_at = 0\<rparr>]\<rparr>"

abbreviation admin_context :: audit_context where
  "admin_context \<equiv> system_context ''administrator'' (Some 1)"

lemma demo_auth_inv: "sec_inv demo_auth"
proof -
  have "constraints demo_auth" by code_simp
  then show ?thesis by (simp add: sec_inv_def sec_base_def demo_auth_def empty_db_def)
qed

text \<open>
  C18. Every one-time secret works at most once: after a realtime ticket, a
  password-reset token or an e-mail token has been redeemed, redeeming it again fails
  and changes nothing, whatever identity requests are served in between.
\<close>

theorem secrets_single_use:
  assumes "sec_inv d" "(security_step c)\<^sup>*\<^sup>* d1 d2"
  shows "(run_tx (consume_ticket c now tok) d = (Inr acc, d1) \<longrightarrow>
       (\<exists>e. run_tx (consume_ticket c now' tok) d2 = (Inl e, d2)))
    \<and> (run_tx (complete_reset c now tok p ctx) d = (Inr u, d1) \<longrightarrow>
       (\<exists>e. run_tx (complete_reset c now' tok p' ctx') d2 = (Inl e, d2)))
    \<and> (run_tx (complete_email_verification c now tok ctx) d = (Inr pr, d1) \<longrightarrow>
       (\<exists>e. run_tx (complete_email_verification c now' tok ctx') d2 = (Inl e, d2)))"
  using ticket.redeemed_once [OF assms(1) _ assms(2), of now tok acc now']
    reset.redeemed_once [OF assms(1) _ assms(2), of "(now, p, ctx)" tok u "(now', p', ctx')"]
    email.redeemed_once [OF assms(1) _ assms(2), of "(now, ctx)" tok pr "(now', ctx')"]
  by auto

theorem secrets_single_use_witness:
  "\<exists>d d1 e. run_tx (issue_ticket plain_crypto 5 1 (asc ''t'')) demo_auth = (Inr (asc ''t'', 60000005), d)
     \<and> run_tx (consume_ticket plain_crypto 6 (asc ''t'')) d = (Inr 1, d1)
     \<and> run_tx (consume_ticket plain_crypto 7 (asc ''t'')) d1 = (Inl e, d1)"
proof -
  let ?i = "run_tx (issue_ticket plain_crypto 5 1 (asc ''t'')) demo_auth"
  let ?u = "run_tx (consume_ticket plain_crypto 6 (asc ''t'')) (snd ?i)"
  have f: "fst ?i = Inr (asc ''t'', 60000005)" "fst ?u = Inr 1" by code_simp+
  have i: "sec_inv (snd ?i)"
    using security_step_ok [OF demo_auth_inv security_step.issue_ticket [OF surjective_pairing]] by blast
  have u: "run_tx (consume_ticket plain_crypto 6 (asc ''t'')) (snd ?i) = (Inr 1, snd ?u)"
    using f(2) by (metis prod.collapse)
  have "\<exists>e. run_tx (consume_ticket plain_crypto 7 (asc ''t'')) (snd ?u) = (Inl e, snd ?u)"
    using secrets_single_use [OF i rtranclp.rtrancl_refl, where c = plain_crypto and ?d1.0 = "snd ?u"
        and now = 6 and tok = "asc ''t''" and acc = 1 and now' = 7] u by blast
  with u f(1) show ?thesis by (metis prod.collapse)
qed

text \<open>
  Issuing a realtime ticket withdraws every earlier ticket of the account for good,
  so an account has at most one usable ticket, and only for a minute.
\<close>

theorem new_ticket_withdraws_old:
  assumes "sec_inv d" "t \<in> set (security_tokens d)" "tk_account_id t = acc" "tk_purpose t = ''realtime_ticket''"
    and "tk_digest t = token_digest c old ''realtime_ticket''"
    and "run_tx (issue_ticket c now acc tok) d = (Inr (tok', expires), d1)" "(security_step c)\<^sup>*\<^sup>* d1 d2"
  shows "(\<exists>e. run_tx (consume_ticket c now' old) d2 = (Inl e, d2)) \<and> expires = now + seconds 60"
proof -
  have op: "issue_ticket c now acc tok d = (Inr (tok', expires), d1)" using run_tx_commitD [OF assms(6)] by simp
  have i: "sec_inv d1" using security_step_ok [OF assms(1) security_step.issue_ticket [OF assms(6)]] by blast
  let ?f = "\<lambda>t. if tk_account_id t = acc \<and> tk_purpose t = ''realtime_ticket'' \<and> tk_used_at t = None
      \<and> tk_invalidated_at t = None then t\<lparr>tk_invalidated_at := Some now\<rparr> else t"
  have d1: "d1 = add_token now acc ''realtime_ticket'' (token_digest c tok ''realtime_ticket'') None
      (now + seconds 60) (invalidate_tokens now acc ''realtime_ticket'' d)"
    using op by (auto simp: issue_ticket_def Let_def)
  have "set (security_tokens (invalidate_tokens now acc ''realtime_ticket'' d)) \<subseteq> set (security_tokens d1)"
    by (auto simp: d1 add_token_def)
  moreover have "?f t \<in> set (security_tokens (invalidate_tokens now acc ''realtime_ticket'' d))"
    unfolding invalidate_tokens_def update_where_def using assms(2) by simp
  ultimately have "?f t \<in> set (security_tokens d1)" by blast
  moreover have "tk_used_at (?f t) \<noteq> None \<or> tk_invalidated_at (?f t) \<noteq> None" "tk_digest (?f t) = tk_digest t"
      "tk_purpose (?f t) = tk_purpose t"
    using assms(3,4) by auto
  ultimately obtain t1 where t1: "t1 \<in> set (security_tokens d1)" "tk_used_at t1 \<noteq> None \<or> tk_invalidated_at t1 \<noteq> None"
      "tk_digest t1 = tk_digest t" "tk_purpose t1 = tk_purpose t"
    by blast
  have "token_spent c ''realtime_ticket'' old d1"
    unfolding token_spent_def by (rule bexI [OF _ t1(1)]) (use t1 assms(4,5) in simp)
  then have "token_spent c ''realtime_ticket'' old d2" using ticket.reach_spent [OF assms(7) i] by blast
  moreover have "sec_inv d2" using security_reach_le [OF assms(7) i] by blast
  ultimately show ?thesis
    using ticket.redeem_spent op by (auto simp: issue_ticket_def Let_def)
qed

theorem new_ticket_withdraws_old_witness:
  "\<exists>d d1 e. snd (run_tx (issue_ticket plain_crypto 5 1 (asc ''t'')) demo_auth) = d
     \<and> snd (run_tx (issue_ticket plain_crypto 6 1 (asc ''u'')) d) = d1
     \<and> run_tx (consume_ticket plain_crypto 7 (asc ''t'')) d1 = (Inl e, d1)"
proof -
  let ?i = "run_tx (issue_ticket plain_crypto 5 1 (asc ''t'')) demo_auth"
  let ?j = "run_tx (issue_ticket plain_crypto 6 1 (asc ''u'')) (snd ?i)"
  have i: "sec_inv (snd ?i)"
    using security_step_ok [OF demo_auth_inv security_step.issue_ticket [OF surjective_pairing]] by blast
  have "map (\<lambda>t. (tk_account_id t, tk_purpose t, tk_digest t)) (security_tokens (snd ?i))
      = [(1, ''realtime_ticket'', token_digest plain_crypto (asc ''t'') ''realtime_ticket'')]" by code_simp
  then obtain t where t: "t \<in> set (security_tokens (snd ?i))" "tk_account_id t = 1" "tk_purpose t = ''realtime_ticket''"
      "tk_digest t = token_digest plain_crypto (asc ''t'') ''realtime_ticket''"
    by (cases "security_tokens (snd ?i)") auto
  have "fst ?j = Inr (asc ''u'', 60000006)" by code_simp
  then have j: "?j = (Inr (asc ''u'', 60000006), snd ?j)" by (metis prod.collapse)
  from new_ticket_withdraws_old [OF i t j rtranclp.rtrancl_refl, of 7] show ?thesis by blast
qed

text \<open>
  Sessions end: a session that the service accepts is not revoked, and was created less than
  12 hours ago, however often it was used to extend its idle limit.
\<close>

theorem session_lifetime:
  assumes "(security_step c)\<^sup>*\<^sup>* d d'" "sec_inv d" "resolve_session c now ck touch idle d' = (Inr (s, a), d2)"
  shows "as_created_at s + hours 12 > now \<and> as_revoked_at s = None
    \<and> as_secret_digest s = token_digest c ck ''session''
    \<and> get_row (as_account_id s) (accounts d') = Some a \<and> acc_state a = AccActive
    \<and> as_expires_at s \<le> as_created_at s + hours 12"
proof -
  have inv: "sec_inv d'" using security_reach_le [OF assms(1,2)] by blast
  obtain s0 where s0: "query_one (\<lambda>s. as_secret_digest s = token_digest c ck ''session'') (auth_sessions d') = Some s0"
      "session_live now s0" "get_row (as_account_id s0) (accounts d') = Some a" "acc_state a = AccActive"
      "s = (if touch then s0\<lparr>as_last_activity_at := now,
               as_expires_at := min (now + minutes idle) (as_absolute_expires_at s0)\<rparr> else s0)"
    using assms(3) by (auto simp: resolve_session_def Let_def split: option.splits if_splits)
  have "session_ok s0" "as_secret_digest s0 = token_digest c ck ''session''"
    using query_one_Some [OF s0(1)] inv by (auto simp: sec_inv_def sec_base_def)
  with s0(2-5) show ?thesis by (cases touch) (auto simp: session_live_def session_ok_def)
qed

definition demo_session :: db where
  "demo_session = snd (run_tx (create_session plain_crypto 100 1 admin_context 30 (asc ''ck'') (asc ''cs'')) demo_auth)"

lemma demo_session_step: "security_step plain_crypto demo_auth demo_session"
  unfolding demo_session_def by (rule security_step.create_session [OF surjective_pairing])

theorem session_lifetime_witness:
  "\<exists>s a d2. resolve_session plain_crypto 200 (asc ''ck'') True 30 demo_session = (Inr (s, a), d2)
     \<and> as_created_at s + hours 12 > 200 \<and> as_expires_at s \<le> as_created_at s + hours 12"
proof -
  have "\<not> isl (fst (resolve_session plain_crypto 200 (asc ''ck'') True 30 demo_session))" by code_simp
  then obtain s a d2 where r: "resolve_session plain_crypto 200 (asc ''ck'') True 30 demo_session = (Inr (s, a), d2)"
    using not_isl_result by (metis prod.collapse)
  have "(security_step plain_crypto)\<^sup>*\<^sup>* demo_auth demo_session" using demo_session_step by simp
  from session_lifetime [OF this demo_auth_inv r] r show ?thesis by blast
qed

text \<open>
  Changing the password revokes every other session of the account for good: its cookie is refused
  from then on, whatever happens later.
\<close>

theorem password_change_revokes:
  assumes "sec_inv d" "run_tx (change_password c now acc cur new ctx) d = (Inr r, d1)"
    and "s \<in> set (auth_sessions d)" "as_account_id s = acc" "Some (row_id s) \<noteq> ac_session_id ctx"
    and "token_digest c ck ''session'' = as_secret_digest s" "(security_step c)\<^sup>*\<^sup>* d1 d2"
  shows "resolve_session c now' ck touch idle d2 = (Inl UnauthorizedError, d2)"
proof -
  have i1: "sec_inv d1" using security_step_ok [OF assms(1) security_step.change_password [OF assms(2)]] by blast
  have op: "change_password c now acc cur new ctx d = (Inr r, d1)" using run_tx_commitD [OF assms(2)] by simp
  let ?P = "\<lambda>s. (as_account_id s = acc \<and> Some (row_id s) \<noteq> ac_session_id ctx) \<and> as_revoked_at s = None"
  let ?f = "\<lambda>s. if ?P s then s\<lparr>as_revoked_at := Some now, as_revoke_reason := Some ''password_changed''\<rparr> else s"
  have "\<exists>cr. auth_sessions d1 = auth_sessions (revoke_where now ''password_changed''
      (\<lambda>s. as_account_id s = acc \<and> Some (row_id s) \<noteq> ac_session_id ctx) (save_credential now cr d))"
    using op by (auto simp: change_password_def Let_def split: if_splits option.splits sum.splits)
  then have "auth_sessions d1 = map ?f (auth_sessions d)"
    by (auto simp: revoke_where_def update_where_def save_credential_def)
  then have "?f s \<in> set (auth_sessions d1)" using assms(3) by simp
  moreover have "as_revoked_at (?f s) \<noteq> None" "as_secret_digest (?f s) = as_secret_digest s" using assms(4,5) by auto
  ultimately obtain s1 where s1: "s1 \<in> set (auth_sessions d1)" "as_revoked_at s1 \<noteq> None"
      "as_secret_digest s1 = as_secret_digest s"
    by blast
  have le: "sec_le d1 d2" and i2: "sec_inv d2" using security_reach_le [OF assms(7) i1] by auto
  from le s1(1) obtain x where x: "x \<in> set (auth_sessions d2)" "session_le s1 x" by (auto simp: sec_le_def)
  then have x: "x \<in> set (auth_sessions d2)" "as_secret_digest x = as_secret_digest s" "as_revoked_at x \<noteq> None"
    using s1 by (auto simp: session_le_def)
  have "distinct (map as_secret_digest (auth_sessions d2))"
    using i2 by (simp add: sec_inv_def constraints_def unique_by_def)
  from find_unique [OF this x(1)] x(2)
  have "query_one (\<lambda>s. as_secret_digest s = token_digest c ck ''session'') (auth_sessions d2) = Some x"
    by (simp add: query_one_def assms(6))
  with x(3) show ?thesis by (simp add: resolve_session_def session_live_def)
qed

theorem password_change_revokes_witness:
  "\<exists>d1. snd (run_tx (change_password plain_crypto 300 1 demo_password (asc ''battery staple'') admin_context)
        demo_session) = d1
     \<and> resolve_session plain_crypto 400 (asc ''ck'') True 30 d1 = (Inl UnauthorizedError, d1)"
proof -
  let ?t = "run_tx (change_password plain_crypto 300 1 demo_password (asc ''battery staple'') admin_context) demo_session"
  have "fst ?t = Inr ''changed''" by code_simp
  then have t: "?t = (Inr ''changed'', snd ?t)" by (metis prod.collapse)
  have "map (\<lambda>s. (as_account_id s, as_secret_digest s)) (auth_sessions demo_session)
      = [(1, token_digest plain_crypto (asc ''ck'') ''session'')]" by code_simp
  then obtain s where s: "s \<in> set (auth_sessions demo_session)" "as_account_id s = 1"
      "token_digest plain_crypto (asc ''ck'') ''session'' = as_secret_digest s"
    by (cases "auth_sessions demo_session") auto
  have i: "sec_inv demo_session" using security_step_ok [OF demo_auth_inv demo_session_step] by blast
  have "Some (row_id s) \<noteq> ac_session_id admin_context" by (simp add: system_context_def)
  from password_change_revokes [OF i t s(1,2) this s(3) rtranclp.rtrancl_refl] show ?thesis by blast
qed

lemma login_delay_bounds: "30 \<le> login_delay n" "login_delay n \<le> 3600"
proof -
  have "(1::int) \<le> 2 ^ min (n - 5) 7" by simp
  then show "30 \<le> login_delay n" "login_delay n \<le> 3600" by (auto simp: login_delay_def)
qed

lemma login_delay_doubles: "5 \<le> n \<Longrightarrow> login_delay (Suc n) = min 3600 (2 * login_delay n)"
proof -
  assume n: "5 \<le> n"
  show ?thesis
  proof (cases "n < 12")
    case True
    with n have "n = 5 \<or> n = 6 \<or> n = 7 \<or> n = 8 \<or> n = 9 \<or> n = 10 \<or> n = 11" by arith
    then show ?thesis by (elim disjE) (simp_all add: login_delay_def)
  next
    case False
    then have "min (n - 5) 7 = 7" "min (Suc n - 5) 7 = 7" by simp_all
    then show ?thesis by (simp only: login_delay_def) simp
  qed
qed

text \<open>The row of an account with one more failure, locked for \<open>login_delay\<close>.\<close>

definition locked_account :: "instant \<Rightarrow> account \<Rightarrow> account" where
  "locked_account now a = a\<lparr>acc_failed_login_count := Suc (acc_failed_login_count a),
     acc_restricted_until := Some (now + seconds (login_delay (Suc (acc_failed_login_count a))))\<rparr>"

lemma locked_account_sel [simp]:
  "row_id (locked_account now a) = row_id a" "acc_username (locked_account now a) = acc_username a"
  "acc_failed_login_count (locked_account now a) = Suc (acc_failed_login_count a)"
  "acc_restricted_until (locked_account now a) = Some (now + seconds (login_delay (Suc (acc_failed_login_count a))))"
  by (simp_all add: locked_account_def)

text \<open>A wrong password for an account that is not locked at the time and has failed four times.\<close>

lemma failure_locks:
  assumes "query_one (\<lambda>a. acc_username a = u) (accounts d) = Some a"
    and "case acc_restricted_until a of None \<Rightarrow> True | Some t \<Rightarrow> t \<le> now"
    and "credential_of (row_id a) d = Some cr" "pw_verify c (cr_password_hash cr) p = None"
    and "4 \<le> acc_failed_login_count a" "constraints d" "keyed n (accounts d)"
  obtains d1 where "run_tx (authenticate c now u p ctx) d = (Inl UnauthorizedError, d1)"
    "accounts d1 = save_row now (locked_account now a) (accounts d)" "credentials d1 = credentials d"
    "constraints d1" "keyed n (accounts d1)"
    "query_one (\<lambda>a. acc_username a = u) (accounts d1) = Some ((locked_account now a)\<lparr>updated_at := now\<rparr>)"
proof -
  let ?n = "Suc (acc_failed_login_count a)" and ?a = "locked_account now a"
  have mem: "a \<in> set (accounts d)" "acc_username a = u" using query_one_Some [OF assms(1)] by auto
  have v: "verify_password c (cr_password_hash cr) p = (False, None)"
    using assms(4) by (simp add: verify_password_def)
  have r: "restriction_until now ?n = Some (now + seconds (login_delay ?n))"
    using assms(5) by (simp add: restriction_until_def)
  have open_now: "\<not> (case acc_restricted_until a of None \<Rightarrow> False | Some t \<Rightarrow> now < t)"
    using assms(2) by (cases "acc_restricted_until a") auto
  obtain d1 where d1: "authenticate c now u p ctx d = (Inl UnauthorizedError, d1)"
      "accounts d1 = save_row now ?a (accounts d)" "constraints d1 = constraints (save_account now ?a d)"
      "credentials d1 = credentials d"
    using assms(1,3) open_now v r by (simp add: authenticate_def Let_def save_account_def locked_account_def)
  have row: "row_id (?a\<lparr>updated_at := now\<rparr>) = row_id a" "acc_username (?a\<lparr>updated_at := now\<rparr>) = acc_username a"
    by simp_all
  have "constraints (save_account now ?a d)"
    using assms(6) map_put_row [OF assms(7) mem(1) row(1), of acc_username] row(2)
    by (simp add: constraints_def unique_by_def save_account_def save_row_def)
  then have t: "run_tx (authenticate c now u p ctx) d = (Inl UnauthorizedError, d1)" "constraints d1"
    using d1(1,3) by (simp_all add: run_tx_def commit_def UnauthorizedError_def)
  have "query_one (\<lambda>a. acc_username a = u) (accounts d1) = Some (?a\<lparr>updated_at := now\<rparr>)"
    unfolding d1(2) save_row_def
    by (rule query_one_put_row [OF assms(7) assms(1)]) (use mem(2) in simp_all)
  moreover have "keyed n (accounts d1)" unfolding d1(2) using assms(7) by simp
  ultimately show ?thesis using that t d1(2,4) by blast
qed

text \<open>
  C19. Brute force is slowed down. The fifth and every later wrong password in a row, whenever it is
  tried after the lock of the one before is over, is recorded even though the request fails and locks
  the account, for at least 30 seconds and at most an hour. While the account is locked every attempt
  is refused whatever the password, and the account is unchanged. The next wrong password after the
  lock locks it for twice as long, up to an hour.
\<close>

theorem login_lockout:
  assumes "query_one (\<lambda>a. acc_username a = u) (accounts d) = Some a"
    and "case acc_restricted_until a of None \<Rightarrow> True | Some t \<Rightarrow> t \<le> now"
    and "credential_of (row_id a) d = Some cr" "pw_verify c (cr_password_hash cr) p = None"
    and "4 \<le> acc_failed_login_count a" "constraints d" "keyed (next_id d) (accounts d)"
    and "delay = login_delay (Suc (acc_failed_login_count a))" "now' < now + seconds delay"
    and "now + seconds delay \<le> now''" "pw_verify c (cr_password_hash cr) p'' = None"
  shows "\<exists>d1. run_tx (authenticate c now u p ctx) d = (Inl UnauthorizedError, d1)
    \<and> accounts d1 = save_row now (a\<lparr>acc_failed_login_count := Suc (acc_failed_login_count a),
         acc_restricted_until := Some (now + seconds delay)\<rparr>) (accounts d)
    \<and> 30 \<le> delay \<and> delay \<le> 3600
    \<and> (\<exists>d2. authenticate c now' u p' ctx' d1 = (Inl UnauthorizedError, d2) \<and> accounts d2 = accounts d1)
    \<and> (\<exists>d3 a3. run_tx (authenticate c now'' u p'' ctx'') d1 = (Inl UnauthorizedError, d3)
         \<and> query_one (\<lambda>a. acc_username a = u) (accounts d3) = Some a3
         \<and> acc_restricted_until a3 = Some (now'' + seconds (min 3600 (2 * delay))))"
proof -
  obtain d1 where d1: "run_tx (authenticate c now u p ctx) d = (Inl UnauthorizedError, d1)"
      "accounts d1 = save_row now (locked_account now a) (accounts d)" "credentials d1 = credentials d"
      "constraints d1" "keyed (next_id d) (accounts d1)"
      "query_one (\<lambda>a. acc_username a = u) (accounts d1) = Some ((locked_account now a)\<lparr>updated_at := now\<rparr>)"
    using failure_locks [OF assms(1-7)] by blast
  let ?a1 = "(locked_account now a)\<lparr>updated_at := now\<rparr>"
  have a1: "case acc_restricted_until ?a1 of None \<Rightarrow> True | Some t \<Rightarrow> t \<le> now''"
      "4 \<le> acc_failed_login_count ?a1" "credential_of (row_id ?a1) d1 = Some cr"
    using assms(3,5,8,10) d1(3) by (simp_all add: credential_of_def)
  obtain d3 where d3: "run_tx (authenticate c now'' u p'' ctx'') d1 = (Inl UnauthorizedError, d3)"
      "query_one (\<lambda>a. acc_username a = u) (accounts d3) = Some ((locked_account now'' ?a1)\<lparr>updated_at := now''\<rparr>)"
    using failure_locks [OF d1(6) a1(1,3) assms(11) a1(2) d1(4,5)] by blast
  have "login_delay (Suc (Suc (acc_failed_login_count a))) = min 3600 (2 * delay)"
    using login_delay_doubles assms(5,8) by simp
  then have "acc_restricted_until ((locked_account now'' ?a1)\<lparr>updated_at := now''\<rparr>)
      = Some (now'' + seconds (min 3600 (2 * delay)))" by simp
  with d3 have "\<exists>d3 a3. run_tx (authenticate c now'' u p'' ctx'') d1 = (Inl UnauthorizedError, d3)
      \<and> query_one (\<lambda>a. acc_username a = u) (accounts d3) = Some a3
      \<and> acc_restricted_until a3 = Some (now'' + seconds (min 3600 (2 * delay)))" by blast
  moreover have "\<exists>d2. authenticate c now' u p' ctx' d1 = (Inl UnauthorizedError, d2) \<and> accounts d2 = accounts d1"
    using assms(8,9) d1(6) by (simp add: authenticate_def)
  moreover have "accounts d1 = save_row now (a\<lparr>acc_failed_login_count := Suc (acc_failed_login_count a),
         acc_restricted_until := Some (now + seconds delay)\<rparr>) (accounts d)"
    using d1(2) assms(8) by (simp add: locked_account_def)
  ultimately show ?thesis using d1(1) login_delay_bounds assms(8) by blast
qed

text \<open>The administrator after five failures, with a lock that has run out: the sixth failure locks for
  a minute, the seventh for two.\<close>

definition demo_failed :: account where
  "demo_failed = \<lparr>row_id = 1, created_at = 0, updated_at = 0, version = 1, acc_username = default_username,
     acc_state = AccActive, acc_failed_login_count = 5, acc_restricted_until = Some 40, acc_last_login_at = None\<rparr>"

definition demo_guessed :: db where
  "demo_guessed = demo_auth\<lparr>accounts := [demo_failed]\<rparr>"

theorem login_lockout_witness:
  "\<exists>d1. run_tx (authenticate plain_crypto 50 default_username (asc ''wrong'') admin_context) demo_guessed
        = (Inl UnauthorizedError, d1)
     \<and> (\<exists>d2. authenticate plain_crypto 60000049 default_username demo_password admin_context d1
            = (Inl UnauthorizedError, d2))
     \<and> (\<exists>d3 a3. run_tx (authenticate plain_crypto 60000050 default_username (asc ''wrong'') admin_context) d1
            = (Inl UnauthorizedError, d3)
         \<and> query_one (\<lambda>a. acc_username a = default_username) (accounts d3) = Some a3
         \<and> acc_restricted_until a3 = Some (60000050 + seconds 120))"
proof -
  let ?cr = "hd (credentials demo_auth)"
  have q: "query_one (\<lambda>a. acc_username a = default_username) (accounts demo_guessed) = Some demo_failed"
      "credential_of (row_id demo_failed) demo_guessed = Some ?cr"
    by (simp_all add: demo_guessed_def demo_failed_def demo_auth_def query_one_def credential_of_def)
  have k: "keyed (next_id demo_guessed) (accounts demo_guessed)"
    by (simp add: demo_guessed_def demo_failed_def demo_auth_def keyed_def)
  have s: "case acc_restricted_until demo_failed of None \<Rightarrow> True | Some t \<Rightarrow> t \<le> 50"
      "4 \<le> acc_failed_login_count demo_failed" "60 = login_delay (Suc (acc_failed_login_count demo_failed))"
    by (simp_all add: demo_failed_def login_delay_def)
  have t: "(60000049::int) < 50 + seconds 60" "50 + seconds 60 \<le> (60000050::int)"
    by (simp_all add: seconds_def)
  have c: "pw_verify plain_crypto (cr_password_hash ?cr) (asc ''wrong'') = None" "constraints demo_guessed"
    by code_simp+
  have m: "min 3600 (2 * 60) = (120 :: int)" by simp
  from login_lockout [OF q(1) s(1) q(2) c(1) s(2) c(2) k s(3) t c(1), of admin_context demo_password admin_context admin_context]
  show ?thesis unfolding m by blast
qed

text \<open>
  A login succeeds exactly when the account exists and is not locked, and the stored hash verifies the
  password; it clears the failure counter and the lock.
\<close>

theorem login_succeeds_iff:
  "(\<exists>r d'. authenticate c now u p ctx d = (Inr r, d') \<and> acc_username r = u
       \<and> acc_failed_login_count r = 0 \<and> acc_restricted_until r = None)
   \<longleftrightarrow> (\<exists>a cr. query_one (\<lambda>a. acc_username a = u) (accounts d) = Some a
          \<and> (case acc_restricted_until a of None \<Rightarrow> True | Some t \<Rightarrow> t \<le> now)
          \<and> credential_of (row_id a) d = Some cr \<and> pw_verify c (cr_password_hash cr) p = Some True)"
    (is "?L \<longleftrightarrow> ?R")
proof
  assume ?L
  then show ?R
    by (auto simp: authenticate_def verify_password_def Let_def split: option.splits if_splits)
next
  assume ?R
  then obtain a cr where *: "query_one (\<lambda>a. acc_username a = u) (accounts d) = Some a"
      "case acc_restricted_until a of None \<Rightarrow> True | Some t \<Rightarrow> t \<le> now"
      "credential_of (row_id a) d = Some cr" "pw_verify c (cr_password_hash cr) p = Some True"
    by blast
  from query_one_Some [OF *(1)] have "acc_username a = u" by simp
  moreover have "\<not> (case acc_restricted_until a of None \<Rightarrow> False | Some t \<Rightarrow> now < t)"
    using *(2) by (cases "acc_restricted_until a") auto
  ultimately show ?L using * by (simp add: authenticate_def verify_password_def Let_def)
qed

text \<open>Only \<open>initialize\<close> writes the instance row, and only while it is uninitialised.\<close>

definition instance_closed :: "db \<Rightarrow> bool" where
  "instance_closed d \<longleftrightarrow> (\<exists>i. primary_instance d = Some i \<and> si_state i \<noteq> ''uninitialized'')"

lemma instances_kept:
  "instances (snd (authenticate c now u p ctx d)) = instances d"
  "instances (snd (create_session c now acc ctx idle ck cs d)) = instances d"
  "instances (snd (resolve_session c now ck touch idle d)) = instances d"
  "instances (snd (revoke_session c now s reason ctx d)) = instances d"
  "instances (snd (change_password c now acc cur new ctx d)) = instances d"
  "instances (snd (synchronize_deployment_password c now p ctx d)) = instances d"
  "instances (snd (issue_reset_token c now acc tok d)) = instances d"
  "instances (snd (complete_reset c now tok p ctx d)) = instances d"
  "instances (snd (begin_email_change c now acc e p ctx tok d)) = instances d"
  "instances (snd (complete_email_verification c now tok ctx d)) = instances d"
  "instances (snd (issue_ticket c now acc tok d)) = instances d"
  "instances (snd (consume_ticket c now tok d)) = instances d"
  by (simp_all add: authenticate_def create_session_def resolve_session_def revoke_session_def
      change_password_def synchronize_deployment_password_def issue_reset_token_def complete_reset_def
      begin_email_change_def complete_email_verification_def issue_ticket_def consume_ticket_def Let_def
      save_account_def save_credential_def revoke_where_def add_token_def invalidate_tokens_def use_token_def
      fresh_def split: option.split sum.split prod.split)

lemma closed_initialize:
  assumes "instance_closed d"
  shows "\<exists>e. initialize c now rq ctx d = (Inl e, d) \<and> \<not> is_durable e"
  using assms by (auto simp: instance_closed_def initialize_def exc_defs)

lemma step_keeps_closed:
  assumes "security_step c d d'" "instance_closed d"
  shows "instance_closed d'"
proof -
  have cong: "instances d' = instances d \<Longrightarrow> ?thesis"
    using assms(2) by (simp add: instance_closed_def primary_instance_def)
  have tx: "?thesis" if "run_tx f d = (r, d')" "instances (snd (f d)) = instances d"
    for f :: "db \<Rightarrow> 'x result \<times> db" and r
    using run_tx_state [OF that(1)] that(2) cong by auto
  from assms(1) show ?thesis
  proof (cases rule: security_step.cases)
    case (initialize now rq ctx r1)
    obtain e where "initialize c now rq ctx d = (Inl e, d)" using closed_initialize [OF assms(2)] by blast
    then have "instances (snd (initialize c now rq ctx d)) = instances d" by (simp only: snd_conv)
    with initialize show ?thesis by (rule tx)
  qed (erule tx, simp only: instances_kept)+
qed

text \<open>
  The instance is initialised once: after one successful initialisation every later attempt, with the
  right secret or not, fails and changes nothing.
\<close>

theorem initialize_once:
  assumes "keyed (next_id d) (instances d)" "run_tx (initialize c now rq ctx) d = (Inr a, d1)"
    and "(security_step c)\<^sup>*\<^sup>* d1 d2"
  shows "\<exists>e. run_tx (initialize c now' rq' ctx') d2 = (Inl e, d2)"
proof -
  have op: "initialize c now rq ctx d = (Inr a, d1)" using run_tx_commitD [OF assms(2)] by simp
  obtain i where i: "primary_instance d = Some i"
      "instances d1 = save_row now (i\<lparr>si_state := ''active'', si_initialized_at := Some now,
         si_secret_consumed_at := Some now\<rparr>) (instances d)"
    using op by (auto simp: initialize_def Let_def fresh_def split: option.splits if_splits sum.splits)
  have "si_singleton_key i = ''primary''" using query_one_Some [OF i(1) [unfolded primary_instance_def]] by simp
  then have "primary_instance d1 = Some (i\<lparr>si_state := ''active'', si_initialized_at := Some now,
      si_secret_consumed_at := Some now, updated_at := now\<rparr>)"
    unfolding primary_instance_def i(2) save_row_def
    by (intro query_one_put_row [OF assms(1) i(1) [unfolded primary_instance_def]]) simp_all
  then have "instance_closed d1" by (simp add: instance_closed_def)
  with assms(3) have "instance_closed d2"
    by (induction rule: rtranclp_induct) (auto intro: step_keeps_closed)
  from closed_initialize [OF this, of c now' rq' ctx'] show ?thesis by (auto simp: run_tx_def)
qed

definition demo_boot :: db where
  "demo_boot = empty_db\<lparr>next_id := 2, instances := [\<lparr>row_id = 1, created_at = 0, updated_at = 0, version = 1,
     si_singleton_key = ''primary'', si_state = ''uninitialized'', si_specification_revision = ''1'',
     si_initialized_at = None, si_secret_digest = token_digest plain_crypto (asc ''boot'') ''initialization'',
     si_secret_consumed_at = None, si_schema_version = ''1''\<rparr>]\<rparr>"

definition demo_init :: initialize_request where
  "demo_init = \<lparr>iq_username = default_username, iq_initialization_secret = asc ''boot'',
     iq_password = demo_password, iq_password_confirmation = demo_password, iq_display_name = asc ''Karel'',
     iq_email = None\<rparr>"

theorem initialize_once_witness:
  "\<exists>a d1 e. run_tx (initialize plain_crypto 5 demo_init admin_context) demo_boot = (Inr a, d1)
     \<and> run_tx (initialize plain_crypto 6 demo_init admin_context) d1 = (Inl e, d1)"
proof -
  have "\<not> isl (fst (run_tx (initialize plain_crypto 5 demo_init admin_context) demo_boot))" by code_simp
  then obtain a d1 where t: "run_tx (initialize plain_crypto 5 demo_init admin_context) demo_boot = (Inr a, d1)"
    using not_isl_result by blast
  have "keyed (next_id demo_boot) (instances demo_boot)" by (simp add: demo_boot_def keyed_def)
  from initialize_once [OF this t rtranclp.rtrancl_refl] t show ?thesis by blast
qed

text \<open>
  Rotating the voice service key: after the key metadata is synchronised with a readable file, the only
  keys of the service that are not revoked have the digest of the file's key, and an access with
  another key is refused without a change of the keys.
\<close>

theorem voice_key_rotation:
  assumes "read_key file = Some value" "d' = sync_key_metadata c now file d"
  shows "(\<forall>k \<in> set (voice_keys d'). vk_scope k = SCOPE \<and> vk_revoked_at k = None \<longrightarrow>
        vk_secret_digest k = token_digest c value ''voice_service_api'')
    \<and> (p \<noteq> value \<longrightarrow> (\<exists>d2. voice_authenticate c now' (Some p) file net corr d' = (Inl UnauthorizedError, d2)
        \<and> voice_keys d2 = voice_keys d'))"
  using assms
  by (auto simp: sync_key_metadata_def Let_def update_where_def voice_authenticate_def split: option.splits)

theorem voice_key_rotation_witness:
  "\<exists>d2. voice_authenticate plain_crypto 6 (Some (asc ''key-two'')) (Some (asc ''key-one'')) ''net'' None
      (sync_key_metadata plain_crypto 5 (Some (asc ''key-one'')) empty_db) = (Inl UnauthorizedError, d2)
    \<and> voice_keys d2 = voice_keys (sync_key_metadata plain_crypto 5 (Some (asc ''key-one'')) empty_db)"
proof -
  have "read_key (Some (asc ''key-one'')) = Some (asc ''key-one'')" by code_simp
  moreover have "asc ''key-two'' \<noteq> asc ''key-one''" by code_simp
  ultimately show ?thesis using voice_key_rotation [OF _ refl] by blast
qed

text \<open>
  A key that was revoked because its file was missing for a moment stays revoked when the file is back:
  the row exists, so none is added, and nothing clears its revocation.
\<close>

theorem voice_key_stays_revoked:
  assumes "k \<in> set (voice_keys d)" "vk_revoked_at k \<noteq> None" "constraints d"
    and "vk_secret_digest k = token_digest c value ''voice_service_api''" "read_key file = Some value"
  shows "\<exists>d2. voice_authenticate c now' (Some value) file net corr (sync_key_metadata c now file d)
    = (Inl UnauthorizedError, d2)"
proof -
  let ?dg = "token_digest c value ''voice_service_api''"
  have "distinct (map vk_secret_digest (voice_keys d))" using assms(3) by (simp add: constraints_def unique_by_def)
  then have u: "x = k" if "x \<in> set (voice_keys d)" "vk_secret_digest x = ?dg" for x
    using that assms(1,4) distinct_map_fst_unique by metis
  let ?t = "update_where (\<lambda>k. vk_scope k = SCOPE \<and> vk_secret_digest k \<noteq> ?dg \<and> vk_revoked_at k = None)
      (\<lambda>k. k\<lparr>vk_revoked_at := Some now, vk_revoke_reason := Some ''rotated'', updated_at := now\<rparr>) (voice_keys d)"
  have t: "\<forall>x \<in> set ?t. vk_secret_digest x = ?dg \<longrightarrow> vk_revoked_at x \<noteq> None"
    using u assms(2) by (auto simp: update_where_def)
  have "k \<in> set ?t" using assms(1,4) by (auto simp: update_where_def image_iff intro!: bexI [of _ k])
  then have "query_one (\<lambda>k. vk_secret_digest k = ?dg) ?t \<noteq> None" using assms(4) by (auto simp: query_one_None)
  then have "voice_keys (sync_key_metadata c now file d) = ?t"
    using assms(5) by (auto simp: sync_key_metadata_def Let_def split: option.split)
  moreover have "query_one (\<lambda>k. vk_secret_digest k = ?dg \<and> vk_scope k = SCOPE \<and> vk_revoked_at k = None) ?t = None"
    unfolding query_one_None using t by blast
  moreover have "value \<noteq> []" using assms(5) by (auto simp: read_key_def split: option.splits if_splits)
  ultimately show ?thesis using assms(5) by (simp add: voice_authenticate_def Let_def)
qed

end
