(* ===== verification/RealtimeTheorems.thy ===== *)
theory RealtimeTheorems
  imports Realtime IdentityProps
begin

text \<open>
  What holds for a voice conversation: events are taken in order and each once, what is sent is
  numbered without a gap, the audio of a turn is bounded and made of whole frames in order, a turn
  settles in a few steps whatever fails, the database changes only by whole turns, a parked connection
  can be resumed, and a ticket opens one socket.
\<close>

section \<open>What the parts leave alone\<close>

lemma put_sel [simp]:
  "con (put f r) = f (con r)" "store (put f r) = store r" "wire (put f r) = wire r" "live (put f r) = live r"
  "resume_available (put f r) = resume_available r" "parked (put f r) = parked r"
  by (simp_all add: put_def)

lemma emit_con [simp]:
  "cn_account_id (con (emit e sk ty p a r)) = cn_account_id (con r)"
  "cn_last_client_sequence (con (emit e sk ty p a r)) = cn_last_client_sequence (con r)"
  "cn_conversation_id (con (emit e sk ty p a r)) = cn_conversation_id (con r)"
  "cn_paused (con (emit e sk ty p a r)) = cn_paused (con r)"
  "cn_audio (con (emit e sk ty p a r)) = cn_audio (con r)"
  "cn_assistant_task (con (emit e sk ty p a r)) = cn_assistant_task (con r)"
  "cn_partial_task (con (emit e sk ty p a r)) = cn_partial_task (con r)"
  "cn_partial_text (con (emit e sk ty p a r)) = cn_partial_text (con r)"
  "cn_partial_at_bytes (con (emit e sk ty p a r)) = cn_partial_at_bytes (con r)"
  "cn_generation (con (emit e sk ty p a r)) = cn_generation (con r)"
  "cn_last_audio_sequence (con (emit e sk ty p a r)) = cn_last_audio_sequence (con r)"
  "cn_last_audio_capture (con (emit e sk ty p a r)) = cn_last_audio_capture (con r)"
  "cn_turn_finalizing (con (emit e sk ty p a r)) = cn_turn_finalizing (con r)"
  "cn_vad (con (emit e sk ty p a r)) = cn_vad (con r)"
  "cn_last_assistant_text (con (emit e sk ty p a r)) = cn_last_assistant_text (con r)"
  "cn_language (con (emit e sk ty p a r)) = cn_language (con r)"
  by (simp_all add: emit_def Let_def)

lemma emit_rest [simp]:
  "store (emit e sk ty p a r) = store r" "live (emit e sk ty p a r) = live r"
  "resume_available (emit e sk ty p a r) = resume_available r" "parked (emit e sk ty p a r) = parked r"
  by (simp_all add: emit_def Let_def)

lemma send_audio_con [simp]:
  "cn_account_id (con (send_audio e sk b r)) = cn_account_id (con r)"
  "cn_last_client_sequence (con (send_audio e sk b r)) = cn_last_client_sequence (con r)"
  "cn_conversation_id (con (send_audio e sk b r)) = cn_conversation_id (con r)"
  "cn_paused (con (send_audio e sk b r)) = cn_paused (con r)"
  "cn_audio (con (send_audio e sk b r)) = cn_audio (con r)"
  "cn_assistant_task (con (send_audio e sk b r)) = cn_assistant_task (con r)"
  "cn_partial_task (con (send_audio e sk b r)) = cn_partial_task (con r)"
  "cn_partial_text (con (send_audio e sk b r)) = cn_partial_text (con r)"
  "cn_partial_at_bytes (con (send_audio e sk b r)) = cn_partial_at_bytes (con r)"
  "cn_generation (con (send_audio e sk b r)) = cn_generation (con r)"
  "cn_last_audio_sequence (con (send_audio e sk b r)) = cn_last_audio_sequence (con r)"
  "cn_last_audio_capture (con (send_audio e sk b r)) = cn_last_audio_capture (con r)"
  "cn_turn_finalizing (con (send_audio e sk b r)) = cn_turn_finalizing (con r)"
  "cn_vad (con (send_audio e sk b r)) = cn_vad (con r)"
  "cn_last_assistant_text (con (send_audio e sk b r)) = cn_last_assistant_text (con r)"
  "cn_language (con (send_audio e sk b r)) = cn_language (con r)"
  by (simp_all add: send_audio_def)

lemma send_audio_rest [simp]:
  "store (send_audio e sk b r) = store r" "live (send_audio e sk b r) = live r"
  "resume_available (send_audio e sk b r) = resume_available r" "parked (send_audio e sk b r) = parked r"
  by (simp_all add: send_audio_def)
text \<open>What a task leaves of its connection, and of the handler: everything that is not about answering.\<close>

definition listening :: "connection \<Rightarrow> connection" where
  "listening c = c\<lparr>cn_sequence := 0, cn_connected := True, cn_assistant_task := None, cn_partial_text := [],
     cn_turn_finalizing := False, cn_last_assistant_text := None\<rparr>"

lemma listening_sel [simp]:
  "cn_account_id (listening c) = cn_account_id c"
  "cn_last_client_sequence (listening c) = cn_last_client_sequence c"
  "cn_conversation_id (listening c) = cn_conversation_id c" "cn_paused (listening c) = cn_paused c"
  "cn_audio (listening c) = cn_audio c" "cn_partial_task (listening c) = cn_partial_task c"
  "cn_partial_at_bytes (listening c) = cn_partial_at_bytes c" "cn_generation (listening c) = cn_generation c"
  "cn_last_audio_sequence (listening c) = cn_last_audio_sequence c"
  "cn_last_audio_capture (listening c) = cn_last_audio_capture c" "cn_vad (listening c) = cn_vad c"
  "cn_language (listening c) = cn_language c"
  by (simp_all add: listening_def)

definition quiet :: "realtime \<Rightarrow> realtime \<Rightarrow> bool" where
  "quiet r r' \<longleftrightarrow> listening (con r') = listening (con r) \<and> live r' = live r
     \<and> resume_available r' = resume_available r \<and> parked r' = parked r"

lemma quiet_refl [simp]: "quiet r r"
  by (simp add: quiet_def)

lemma quiet_trans: "quiet a b \<Longrightarrow> quiet b d \<Longrightarrow> quiet a d"
  by (simp add: quiet_def)

lemma quiet_con:
  assumes "quiet r r'"
  shows "cn_account_id (con r') = cn_account_id (con r)"
    "cn_last_client_sequence (con r') = cn_last_client_sequence (con r)"
    "cn_conversation_id (con r') = cn_conversation_id (con r)" "cn_paused (con r') = cn_paused (con r)"
    "cn_audio (con r') = cn_audio (con r)" "cn_partial_task (con r') = cn_partial_task (con r)"
    "cn_partial_at_bytes (con r') = cn_partial_at_bytes (con r)" "cn_generation (con r') = cn_generation (con r)"
    "cn_last_audio_sequence (con r') = cn_last_audio_sequence (con r)"
    "cn_last_audio_capture (con r') = cn_last_audio_capture (con r)" "cn_vad (con r') = cn_vad (con r)"
    "cn_language (con r') = cn_language (con r)"
proof -
  have l: "listening (con r') = listening (con r)" using assms by (simp add: quiet_def)
  note c = arg_cong [OF l]
  show "cn_account_id (con r') = cn_account_id (con r)"
    "cn_last_client_sequence (con r') = cn_last_client_sequence (con r)"
    "cn_conversation_id (con r') = cn_conversation_id (con r)" "cn_paused (con r') = cn_paused (con r)"
    "cn_audio (con r') = cn_audio (con r)" "cn_partial_task (con r') = cn_partial_task (con r)"
    "cn_partial_at_bytes (con r') = cn_partial_at_bytes (con r)" "cn_generation (con r') = cn_generation (con r)"
    "cn_last_audio_sequence (con r') = cn_last_audio_sequence (con r)"
    "cn_last_audio_capture (con r') = cn_last_audio_capture (con r)" "cn_vad (con r') = cn_vad (con r)"
    "cn_language (con r') = cn_language (con r)"
    using c [of cn_account_id] c [of cn_last_client_sequence] c [of cn_conversation_id] c [of cn_paused]
      c [of cn_audio] c [of cn_partial_task] c [of cn_partial_at_bytes] c [of cn_generation]
      c [of cn_last_audio_sequence] c [of cn_last_audio_capture] c [of cn_vad] c [of cn_language]
    by simp_all
qed

text \<open>
  A relation between the state a task started from and the one it has reached. When sending keeps it,
  and the updates a task makes, all of a task keeps it, and its cancellation.
\<close>

locale task_relation =
  fixes R :: "realtime \<Rightarrow> realtime \<Rightarrow> bool"
  assumes refl: "R r r"
    and emit: "R a r \<Longrightarrow> R a (emit e sk ty p k r)"
    and send: "R a r \<Longrightarrow> R a (send_audio e sk b r)"
    and set_task: "R a r \<Longrightarrow> R a (set_task t r)"
    and voice_done: "R a r \<Longrightarrow> R a (voice_done r)"
    and last_text: "R a r \<Longrightarrow> R a (put (\<lambda>c. c\<lparr>cn_last_assistant_text := x\<rparr>) r)"
    and store: "R a r \<Longrightarrow> R a (r\<lparr>store := d\<rparr>)"
begin

lemma error: "R a r \<Longrightarrow> R a (emit_error e sk code k r)"
  unfolding emit_error_def by (rule emit)

lemma turn_done: "R a r \<Longrightarrow> R a (turn_done e sk spoken r)"
  by (simp add: turn_done_def Let_def voice_done emit)

lemma turn_failed: "R a r \<Longrightarrow> R a (turn_failed e sk x k spoken r)"
  by (simp add: turn_failed_def turn_done error)

lemma speech: "R a r \<Longrightarrow> R a (foldl (\<lambda>r b. if b = [] then r else send_audio e sk b r) r bs)"
  by (induction bs arbitrary: r) (simp_all add: send)

lemma audio_error: "R a r \<Longrightarrow> R a (snd (audio_error e sk x r))"
  by (simp add: audio_error_def Let_def emit split: exc.split)

lemma synthesize: "R a r \<Longrightarrow> R a (snd (synthesize e sk t l r))"
  by (auto simp: synthesize_def Let_def split: sum.split prod.split option.split
      intro!: audio_error emit speech)

lemmas intros = emit error send set_task voice_done last_text store turn_done turn_failed synthesize

lemma begin_turn: "R a r \<Longrightarrow> R a (begin_turn e now sk t key k spoken r)"
  by (auto simp: begin_turn_def Let_def split: sum.split intro!: intros)

lemma task_step: "R a r \<Longrightarrow> R a (task_step e now sk t r)"
proof (cases t)
  case (Speaking x1 x2 x3)
  assume "R a r"
  then have "R a (snd (synthesize e sk x1 (cn_language (con r)) r))" by (rule synthesize)
  then show ?thesis unfolding Speaking by (auto split: prod.split sum.split intro!: intros)
qed (auto simp: Let_def split: sum.split prod.split intro!: intros begin_turn)

lemma assistant_step: "R r (assistant_step e now r)"
  by (auto simp: assistant_step_def refl split: option.split intro!: task_step)

lemma cancelled: "R a r \<Longrightarrow> R a (cancelled e sk t r)"
  by (cases t) (auto intro!: intros)

lemma cancel: "R a r \<Longrightarrow> R a (cancel_assistant_task e r)"
  by (auto simp: cancel_assistant_task_def split: option.split intro!: set_task cancelled)

lemma replace: "R a r \<Longrightarrow> R a (replace_assistant_task e sk t r)"
  unfolding replace_assistant_task_def by (intro set_task cancel)

end

interpretation quiet: task_relation quiet
  by unfold_locales
    (simp_all add: quiet_def listening_def emit_def send_audio_def set_task_def voice_done_def Let_def)

lemmas assistant_con [simp] = quiet_con [OF quiet.assistant_step]
lemmas cancel_con [simp] = quiet_con [OF quiet.cancel [OF quiet_refl]]
lemmas replace_con [simp] = quiet_con [OF quiet.replace [OF quiet_refl]]

section \<open>What is sent is numbered\<close>

fun event_numbers :: "(nat \<times> frame) list \<Rightarrow> int list" where
  "event_numbers [] = []"
| "event_numbers ((_, Event v) # fs) = sv_sequence v # event_numbers fs"
| "event_numbers ((_, Sound _) # fs) = event_numbers fs"

lemma event_numbers_append [simp]: "event_numbers (xs @ ys) = event_numbers xs @ event_numbers ys"
  by (induction xs rule: event_numbers.induct) simp_all

text \<open>From one state to a later one of the same connection: the events sent in between carry the next
  numbers, none is missing while the connection is connected, and nothing is sent when it is not.\<close>

definition numbered :: "realtime \<Rightarrow> realtime \<Rightarrow> bool" where
  "numbered r r' \<longleftrightarrow>
     (\<exists>fs. wire r' = wire r @ fs
       \<and> event_numbers fs = map (\<lambda>i. cn_sequence (con r) + 1 + int i) [0..<length (event_numbers fs)]
       \<and> (cn_connected (con r') \<longrightarrow> cn_connected (con r)
            \<and> cn_sequence (con r') = cn_sequence (con r) + int (length (event_numbers fs)))
       \<and> (\<not> cn_connected (con r) \<longrightarrow> fs = []))"

lemma numbered_refl [simp]: "numbered r r"
  by (simp add: numbered_def)

lemma numbered_emit:
  assumes "numbered a r" shows "numbered a (emit e sk ty p k r)"
proof (cases "cn_connected (con r)")
  case False
  then show ?thesis using assms by (simp add: emit_def)
next
  case True
  obtain fs where fs: "wire r = wire a @ fs"
      "event_numbers fs = map (\<lambda>i. cn_sequence (con a) + 1 + int i) [0..<length (event_numbers fs)]"
      "cn_connected (con a)" "cn_sequence (con r) = cn_sequence (con a) + int (length (event_numbers fs))"
    using assms True unfolding numbered_def by blast
  show ?thesis
  proof (cases "live r = Some sk \<and> re_sends e (cn_sequence (con r) + 1)")
    case False
    with True fs show ?thesis
      unfolding numbered_def emit_def Let_def by (intro exI [of _ fs]) simp
  next
    case ok: True
    let ?v = "\<lparr>sv_sequence = cn_sequence (con r) + 1, sv_type = ty, sv_conversation_id = cn_conversation_id (con r),
        sv_payload = p, sv_ack_for = k\<rparr>"
    have "event_numbers (fs @ [(sk, Event ?v)])
        = map (\<lambda>i. cn_sequence (con a) + 1 + int i) [0..<length (event_numbers (fs @ [(sk, Event ?v)]))]"
      using fs(2,4) by simp
    with True ok fs show ?thesis
      unfolding numbered_def emit_def Let_def by (intro exI [of _ "fs @ [(sk, Event ?v)]"]) simp
  qed
qed

lemma numbered_send:
  assumes "numbered a r" shows "numbered a (send_audio e sk b r)"
proof (cases "cn_connected (con r) \<and> live r = Some sk \<and> re_sends e (cn_sequence (con r))")
  case True
  obtain fs where fs: "wire r = wire a @ fs"
      "event_numbers fs = map (\<lambda>i. cn_sequence (con a) + 1 + int i) [0..<length (event_numbers fs)]"
      "cn_connected (con a)" "cn_sequence (con r) = cn_sequence (con a) + int (length (event_numbers fs))"
    using assms True unfolding numbered_def by blast
  with True show ?thesis
    unfolding numbered_def send_audio_def by (intro exI [of _ "fs @ [(sk, Sound b)]"]) simp
next
  case False
  with assms show ?thesis by (auto simp: numbered_def send_audio_def)
qed

lemma numbered_put:
  "numbered a r \<Longrightarrow> (\<And>c. cn_sequence (f c) = cn_sequence c) \<Longrightarrow> (\<And>c. cn_connected (f c) \<Longrightarrow> cn_connected c) \<Longrightarrow>
     numbered a (put f r)"
  by (auto simp: numbered_def)

lemma numbered_updates [simp]:
  "numbered a (r\<lparr>store := d\<rparr>) = numbered a r" "numbered a (r\<lparr>parked := ps\<rparr>) = numbered a r"
  "numbered a (r\<lparr>live := l\<rparr>) = numbered a r" "numbered a (r\<lparr>resume_available := b\<rparr>) = numbered a r"
  by (simp_all add: numbered_def)

interpretation numbered: task_relation numbered
  by unfold_locales
    (auto simp: set_task_def voice_done_def intro: numbered_emit numbered_send numbered_put)
lemmas numbered_intros = numbered.emit numbered.error numbered.send numbered.replace numbered.cancel numbered_put

lemma numbered_finalize: "numbered a r \<Longrightarrow> numbered a (finalize_audio_turn e sk l k r)"
  by (auto simp: finalize_audio_turn_def cancel_partial_task_def Let_def intro!: numbered_intros)

lemma numbered_audio: "numbered a r \<Longrightarrow> numbered a (receive_audio e sk b r)"
  by (auto simp: receive_audio_def accept_frame_def Let_def split: option.split prod.split
      intro!: numbered_intros numbered_finalize)

lemma numbered_partial: "numbered a r \<Longrightarrow> numbered a (partial_step e r)"
  by (auto simp: partial_step_def Let_def split: option.split sum.split intro!: numbered_intros)

lemma numbered_start: "numbered a r \<Longrightarrow> numbered a (snd (start_session e now sk m r))"
  by (auto simp: start_session_def Let_def split: option.split sum.split prod.split intro!: numbered_intros)

lemma numbered_resume: "numbered a r \<Longrightarrow> numbered a (resume_session e sk m r)"
  by (auto simp: resume_session_def Let_def intro!: numbered_intros)

lemma numbered_dispatch:
  "numbered a r \<Longrightarrow> ce_type m \<noteq> ''session.end'' \<Longrightarrow> numbered a (snd (dispatch e now sk m r))"
  by (auto simp: dispatch_def Let_def split: option.split
      intro!: numbered_intros numbered_finalize numbered_start numbered_resume)

lemma numbered_park: "numbered a r \<Longrightarrow> numbered a (park r)"
  by (auto simp: park_def cancel_partial_task_def Let_def split: option.split intro!: numbered_put)

definition ends_session :: "input \<Rightarrow> bool" where
  "ends_session i \<longleftrightarrow> (case i of Message (Some m) \<Rightarrow> ce_type m = ''session.end'' | _ \<Rightarrow> False)"

lemma numbered_step:
  assumes "numbered a r" "\<not> ends_session i"
  shows "numbered a (realtime_step e now sk i r)"
proof (cases i)
  case (Message raw)
  have "numbered a (snd (receive_event e now sk raw r))"
    using assms Message
    by (auto simp: receive_event_def ends_session_def split: option.splits intro!: numbered_intros numbered_dispatch)
  then show ?thesis
    using Message by (auto simp: realtime_step_def split: prod.split sum.split intro: numbered_park)
next
  case Assistant
  with assms(1) show ?thesis
    by (auto simp: realtime_step_def assistant_step_def split: option.split intro: numbered.task_step)
qed (use assms in \<open>auto simp: realtime_step_def intro: numbered_audio numbered_partial numbered_park\<close>)

text \<open>A run of a connection over one socket.\<close>

fun realtime_run :: "realtime_env \<Rightarrow> nat \<Rightarrow> (instant \<times> input) list \<Rightarrow> realtime \<Rightarrow> realtime" where
  "realtime_run e sk [] r = r"
| "realtime_run e sk ((now, i) # is) r = realtime_run e sk is (realtime_step e now sk i r)"

lemma numbered_run:
  "numbered a r \<Longrightarrow> list_all (\<lambda>x. \<not> ends_session (snd x)) is \<Longrightarrow> numbered a (realtime_run e sk is r)"
  by (induction e sk "is" r rule: realtime_run.induct) (auto intro: numbered_step)

lemma server_events_numbered_run:
  assumes "list_all (\<lambda>x. \<not> ends_session (snd x)) is"
  shows "\<not> cn_connected (con r) \<Longrightarrow> wire (realtime_run e sk is r) = wire r"
  using numbered_run [OF numbered_refl assms, of r e sk] unfolding numbered_def by auto

text \<open>
  C29. Until the session is ended, the events the server sends carry consecutive numbers, from the one
  after the number of the state; while the connection is connected none has been lost, and over a
  connection that is not connected nothing is sent.
\<close>

theorem server_events_numbered:
  assumes "list_all (\<lambda>x. \<not> ends_session (snd x)) is"
  shows "\<exists>fs. wire (realtime_run e sk is r) = wire r @ fs
    \<and> event_numbers fs = map (\<lambda>i. cn_sequence (con r) + 1 + int i) [0..<length (event_numbers fs)]
    \<and> (cn_connected (con (realtime_run e sk is r)) \<longrightarrow>
         cn_sequence (con (realtime_run e sk is r)) = cn_sequence (con r) + int (length (event_numbers fs)))
    \<and> (\<not> cn_connected (con r) \<longrightarrow> fs = [])"
  using numbered_run [OF numbered_refl assms, of r e sk] unfolding numbered_def by blast
section \<open>Events are taken in order\<close>

text \<open>Nothing but sequence number and connectedness changes, and what was sent.\<close>

definition only_sends :: "realtime \<Rightarrow> realtime \<Rightarrow> bool" where
  "only_sends r r' \<longleftrightarrow> store r' = store r \<and> parked r' = parked r \<and> live r' = live r
     \<and> resume_available r' = resume_available r
     \<and> (con r')\<lparr>cn_sequence := 0, cn_connected := True\<rparr> = (con r)\<lparr>cn_sequence := 0, cn_connected := True\<rparr>"

lemma emit_only_sends: "only_sends r (emit e sk ty p k r)"
  by (simp add: only_sends_def emit_def Let_def)

lemma finalize_last: "cn_last_client_sequence (con (finalize_audio_turn e sk l k r)) = cn_last_client_sequence (con r)"
  by (simp add: finalize_audio_turn_def cancel_partial_task_def Let_def)

lemma audio_last: "cn_last_client_sequence (con (receive_audio e sk b r)) = cn_last_client_sequence (con r)"
  by (auto simp: receive_audio_def accept_frame_def emit_error_def finalize_last Let_def split: option.split prod.split)

lemma partial_last: "cn_last_client_sequence (con (partial_step e r)) = cn_last_client_sequence (con r)"
  by (auto simp: partial_step_def Let_def split: option.split sum.split)

lemma park_last: "cn_last_client_sequence (con (park r)) = cn_last_client_sequence (con r)"
  by (auto simp: park_def cancel_partial_task_def Let_def split: option.split)

lemma start_last: "cn_last_client_sequence (con (snd (start_session e now sk m r))) = cn_last_client_sequence (con r)"
  by (auto simp: start_session_def Let_def split: option.split sum.split prod.split)

lemma resume_last: "cn_last_client_sequence (con (resume_session e sk m r)) = cn_last_client_sequence (con r)"
  by (auto simp: resume_session_def Let_def)

lemma dispatch_last:
  "ce_type m \<noteq> ''session.end'' \<Longrightarrow>
     cn_last_client_sequence (con (snd (dispatch e now sk m r))) = cn_last_client_sequence (con r)"
  by (auto simp: dispatch_def Let_def emit_error_def finalize_last start_last resume_last split: option.split)

lemma receive_event_cases:
  "receive_event e now sk (Some m) r =
     (if ce_sequence m = cn_last_client_sequence (con r) + 1
      then dispatch e now sk m (put (\<lambda>c. c\<lparr>cn_last_client_sequence := ce_sequence m\<rparr>) r)
      else (Inr (), snd (receive_event e now sk (Some m) r)))"
  "ce_sequence m \<noteq> cn_last_client_sequence (con r) + 1 \<Longrightarrow> only_sends r (snd (receive_event e now sk (Some m) r))"
  by (auto simp: receive_event_def emit_only_sends)

text \<open>The events a run takes up: the ones whose number is the next.\<close>

fun taken :: "realtime_env \<Rightarrow> nat \<Rightarrow> (instant \<times> input) list \<Rightarrow> realtime \<Rightarrow> client_event list" where
  "taken e sk [] r = []"
| "taken e sk ((now, i) # is) r =
     (case i of
        Message (Some m) \<Rightarrow> if ce_sequence m = cn_last_client_sequence (con r) + 1 then [m] else []
      | _ \<Rightarrow> []) @ taken e sk is (realtime_step e now sk i r)"

lemma step_last:
  assumes "\<not> ends_session i"
  shows "cn_last_client_sequence (con (realtime_step e now sk i r)) = cn_last_client_sequence (con r)
    + (case i of Message (Some m) \<Rightarrow> if ce_sequence m = cn_last_client_sequence (con r) + 1 then 1 else 0 | _ \<Rightarrow> 0)"
proof (cases "\<exists>m. i = Message (Some m)")
  case True
  then obtain m where i: "i = Message (Some m)" by blast
  have t: "ce_type m \<noteq> ''session.end''" using assms by (simp add: i ends_session_def)
  have "cn_last_client_sequence (con (snd (receive_event e now sk (Some m) r))) = cn_last_client_sequence (con r)
      + (if ce_sequence m = cn_last_client_sequence (con r) + 1 then 1 else 0)"
    by (simp add: receive_event_def dispatch_last [OF t])
  then show ?thesis by (auto simp: i realtime_step_def park_last split: prod.splits sum.splits)
next
  case False
  then show ?thesis
    by (cases i) (auto simp: realtime_step_def audio_last partial_last park_last receive_event_def emit_error_def
        split: option.splits)
qed

text \<open>
  C28. The events of the client are taken up in the order of their numbers and each once, whatever is sent
  twice or out of order; an event that is not the next one has no effect but the answer it gets.
\<close>

theorem client_events_in_order:
  assumes "list_all (\<lambda>x. \<not> ends_session (snd x)) is"
  shows "map ce_sequence (taken e sk is r)
      = map (\<lambda>i. cn_last_client_sequence (con r) + 1 + int i) [0..<length (taken e sk is r)]
    \<and> cn_last_client_sequence (con (realtime_run e sk is r))
      = cn_last_client_sequence (con r) + int (length (taken e sk is r))
    \<and> (ce_sequence m \<noteq> cn_last_client_sequence (con r) + 1 \<longrightarrow>
         only_sends r (realtime_step e now sk (Message (Some m)) r))"
proof -
  have run: "map ce_sequence (taken e sk is r)
      = map (\<lambda>i. cn_last_client_sequence (con r) + 1 + int i) [0..<length (taken e sk is r)]
    \<and> cn_last_client_sequence (con (realtime_run e sk is r))
      = cn_last_client_sequence (con r) + int (length (taken e sk is r))"
    using assms
  proof (induction e sk "is" r rule: taken.induct)
    case (2 e sk now i "is" r)
    let ?r = "realtime_step e now sk i r"
    from 2 have IH: "map ce_sequence (taken e sk is ?r)
        = map (\<lambda>i. cn_last_client_sequence (con ?r) + 1 + int i) [0..<length (taken e sk is ?r)]"
      "cn_last_client_sequence (con (realtime_run e sk is ?r))
        = cn_last_client_sequence (con ?r) + int (length (taken e sk is ?r))" and ns: "\<not> ends_session i"
      by simp_all
    have shift: "map f [0..<Suc n] = f 0 # map (\<lambda>i. f (Suc i)) [0..<n]" for f :: "nat \<Rightarrow> int" and n
      by (simp only: upt_conv_Cons zero_less_Suc list.map map_Suc_upt [symmetric] map_map comp_def)
    show ?case
    proof (cases "\<exists>m. i = Message (Some m) \<and> ce_sequence m = cn_last_client_sequence (con r) + 1")
      case True
      then obtain m where m: "i = Message (Some m)" "ce_sequence m = cn_last_client_sequence (con r) + 1" by blast
      then have l: "cn_last_client_sequence (con ?r) = cn_last_client_sequence (con r) + 1"
        using step_last [OF ns, of e now sk r] by simp
      have t: "taken e sk ((now, i) # is) r = m # taken e sk is ?r" using m by simp
      show ?thesis unfolding t using IH m(2) l by (simp add: shift algebra_simps del: upt_Suc)
    next
      case False
      then have l: "cn_last_client_sequence (con ?r) = cn_last_client_sequence (con r)"
        using step_last [OF ns, of e now sk r] by (auto split: input.splits option.splits)
      have t: "taken e sk ((now, i) # is) r = taken e sk is ?r" using False by (auto split: input.split option.split)
      show ?thesis unfolding t using IH l by simp
    qed
  qed simp
  have "only_sends r (realtime_step e now sk (Message (Some m)) r)"
    if "ce_sequence m \<noteq> cn_last_client_sequence (con r) + 1"
    using receive_event_cases(1) [of e now sk m r] receive_event_cases(2) [OF that, of e now sk] that
    by (auto simp: realtime_step_def split: prod.splits sum.splits)
  with run show ?thesis by blast
qed
section \<open>The audio of a turn\<close>

definition fits :: "octets \<Rightarrow> bool" where
  "fits a \<longleftrightarrow> length a \<le> MAX_TURN_BYTES \<and> FRAME_BYTES dvd length a"

definition task_fits :: "task \<Rightarrow> bool" where
  "task_fits t \<longleftrightarrow> (case t of AudioTurn a _ _ \<Rightarrow> fits a \<and> a \<noteq> [] | Transcribing a _ _ \<Rightarrow> fits a \<and> a \<noteq> [] | _ \<Rightarrow> True)"

definition audio_ok :: "connection \<Rightarrow> bool" where
  "audio_ok c \<longleftrightarrow> fits (cn_audio c)
     \<and> (\<forall>sk t. cn_assistant_task c = Some (sk, t) \<longrightarrow> task_fits t)
     \<and> (\<forall>sk a. cn_partial_task c = Some (sk, a) \<longrightarrow> fits a)"

lemma fits_Nil [simp]: "fits []"
  by (simp add: fits_def)

lemma decoded:
  assumes "decode_audio_packet b = Some (n, t, pcm)"
  shows "length pcm = FRAME_BYTES" "1 \<le> n"
  using assms by (auto simp: decode_audio_packet_def FRAME_PACKET_BYTES_def Let_def split: if_splits)

lemma set_task_sel [simp]:
  "cn_assistant_task (con (set_task t r)) = t" "cn_audio (con (set_task t r)) = cn_audio (con r)"
  "cn_partial_task (con (set_task t r)) = cn_partial_task (con r)"
  by (simp_all add: set_task_def)

text \<open>Whatever a task does, its successor is no audio task, but for the first step of a spoken turn.\<close>

lemma begin_turn_task:
  "cn_assistant_task (con (begin_turn e now sk t key k spoken r)) = Some (s, t') \<Longrightarrow> t' = Answering t key k spoken"
  by (auto simp: begin_turn_def Let_def split: if_splits sum.splits)

lemma task_step_task:
  "cn_assistant_task (con (task_step e now sk t r)) = Some (s, t') \<Longrightarrow> task_fits t \<Longrightarrow> task_fits t'"
  by (cases t) (auto simp: task_fits_def Let_def split: sum.splits prod.splits dest: begin_turn_task)

lemma assistant_audio_ok: "audio_ok (con r) \<Longrightarrow> audio_ok (con (assistant_step e now r))"
proof -
  assume a: "audio_ok (con r)"
  have "task_fits t'" if "cn_assistant_task (con (assistant_step e now r)) = Some (s, t')" for s t'
    using a that by (auto simp: assistant_step_def audio_ok_def split: option.splits dest: task_step_task)
  with a show ?thesis by (simp add: audio_ok_def)
qed

lemma cancel_task [simp]: "cn_assistant_task (con (cancel_assistant_task e r)) = None"
  by (simp add: cancel_assistant_task_def)

lemma replace_task [simp]: "cn_assistant_task (con (replace_assistant_task e sk t r)) = Some (sk, t)"
  by (simp add: replace_assistant_task_def)

lemma audio_ok_updates:
  "audio_ok (c\<lparr>cn_last_client_sequence := n\<rparr>) = audio_ok c"
  "audio_ok (c\<lparr>cn_connected := b\<rparr>) = audio_ok c" "audio_ok (c\<lparr>cn_sequence := n\<rparr>) = audio_ok c"
  "audio_ok (c\<lparr>cn_paused := b\<rparr>) = audio_ok c" "audio_ok (c\<lparr>cn_partial_text := t\<rparr>) = audio_ok c"
  by (simp_all add: audio_ok_def)

lemma emit_audio_ok [simp]: "audio_ok (con (emit e sk ty p k r)) = audio_ok (con r)"
  by (simp add: audio_ok_def)

lemma finalize_audio_ok: "audio_ok (con r) \<Longrightarrow> audio_ok (con (finalize_audio_turn e sk l k r))"
  by (auto simp: finalize_audio_turn_def cancel_partial_task_def audio_ok_def task_fits_def Let_def)

text \<open>What is in the audio after the next frame, before the turn may be ended.\<close>

definition heard :: "octets \<Rightarrow> connection \<Rightarrow> octets" where
  "heard pcm c = (if MAX_TURN_BYTES < length (cn_audio c) + length pcm then cn_audio c else cn_audio c @ pcm)"

lemma accept_shape:
  "\<exists>x k. (accept_frame e sk n t pcm r = finalize_audio_turn e sk (asc ''cs'') k x \<or> accept_frame e sk n t pcm r = x)
     \<and> cn_audio (con x) = heard pcm (con r) \<and> cn_last_audio_sequence (con x) = n
     \<and> cn_assistant_task (con x) = cn_assistant_task (con r)
     \<and> cn_turn_finalizing (con x) = cn_turn_finalizing (con r)
     \<and> cn_conversation_id (con x) = cn_conversation_id (con r)
     \<and> store x = store r
     \<and> (cn_partial_task (con x) = cn_partial_task (con r) \<or> cn_partial_task (con x) = Some (sk, heard pcm (con r)))"
proof -
  let ?r1 = "put (\<lambda>c. c\<lparr>cn_last_audio_sequence := n, cn_last_audio_capture := t\<rparr>) r"
  let ?P = "\<lambda>x. cn_audio (con x) = heard pcm (con r) \<and> cn_last_audio_sequence (con x) = n
     \<and> cn_assistant_task (con x) = cn_assistant_task (con r)
     \<and> cn_turn_finalizing (con x) = cn_turn_finalizing (con r)
     \<and> cn_conversation_id (con x) = cn_conversation_id (con r) \<and> store x = store r
     \<and> (cn_partial_task (con x) = cn_partial_task (con r) \<or> cn_partial_task (con x) = Some (sk, heard pcm (con r)))"
  show ?thesis
  proof (cases "MAX_TURN_BYTES < length (cn_audio (con r)) + length pcm")
    case True
    let ?y = "emit e sk ''turn.ended'' (frame_info n [(''reason'', jstr ''maximum_duration'')]) None ?r1"
    have "accept_frame e sk n t pcm r = finalize_audio_turn e sk (asc ''cs'') (re_uuid e (cn_sequence (con r))) ?y"
      unfolding accept_frame_def Let_def if_P [OF True] ..
    moreover have "?P ?y" by (simp add: heard_def True)
    ultimately show ?thesis by blast
  next
    case False
    obtain a v where av: "vad_process pcm (cn_vad (con ?r1)) = (a, v)" by fastforce
    define r2 where "r2 = put (\<lambda>c. c\<lparr>cn_audio := cn_audio c @ pcm, cn_vad := v\<rparr>) ?r1"
    define r3 where "r3 = (if va_started a then emit e sk ''turn.started'' (frame_info n []) None r2 else r2)"
    define r4 where "r4 = (if vd_active (cn_vad (con r3))
                       \<and> PARTIAL_TRANSCRIPT_INTERVAL_BYTES + cn_partial_at_bytes (con r3) \<le> length (cn_audio (con r3))
                       \<and> cn_partial_task (con r3) = None
                     then put (\<lambda>c. c\<lparr>cn_partial_at_bytes := length (cn_audio c),
                                      cn_partial_task := Some (sk, cn_audio c)\<rparr>) r3
                     else r3)"
    define r5 where "r5 = (if n mod FLOW_CONTROL_ACK_FRAMES = 0
                     then emit e sk ''audio.ack'' (frame_info n [(''captured_ms'', JFloat t)]) None r4 else r4)"
    have "?P r2" using False by (simp add: r2_def heard_def)
    then have "?P r3" by (simp add: r3_def)
    then have "?P r4" by (simp add: r4_def)
    then have p: "?P r5" by (simp add: r5_def)
    let ?y = "emit e sk ''turn.ended'' (frame_info n [(''reason'', jstr ''server_vad'')]) None r5"
    have eq: "accept_frame e sk n t pcm r = (if va_ended a
        then finalize_audio_turn e sk (asc ''cs'') (re_uuid e (cn_sequence (con r5))) ?y else r5)"
      unfolding accept_frame_def Let_def if_not_P [OF False] av prod.case r2_def r3_def r4_def r5_def ..
    show ?thesis
    proof (cases "va_ended a")
      case True
      have "?P ?y" using p by simp
      then show ?thesis unfolding eq if_P [OF True] by blast
    next
      case False
      then show ?thesis using p unfolding eq by auto
    qed
  qed
qed

text \<open>A packet that is not the next frame leaves the audio alone.\<close>

definition next_frame :: "octets \<Rightarrow> realtime \<Rightarrow> (64 word \<times> octets) option" where
  "next_frame b r =
     (case decode_audio_packet b of
        None \<Rightarrow> None
      | Some (n, t, pcm) \<Rightarrow>
          if cn_paused (con r) \<or> cn_conversation_id (con r) = None \<or> n \<noteq> cn_last_audio_sequence (con r) + 1
             \<or> float_le t (cn_last_audio_capture (con r))
          then None else Some (t, pcm))"

lemma receive_next:
  "next_frame b r = Some (t, pcm) \<Longrightarrow> length pcm = FRAME_BYTES
     \<and> receive_audio e sk b r = accept_frame e sk (cn_last_audio_sequence (con r) + 1) t pcm r"
  by (auto simp: next_frame_def receive_audio_def dest: decoded split: option.splits if_splits)

lemma receive_other:
  "next_frame b r = None \<Longrightarrow> listening ((con (receive_audio e sk b r))\<lparr>cn_paused := False\<rparr>)
       = listening ((con r)\<lparr>cn_paused := False\<rparr>)
     \<and> cn_assistant_task (con (receive_audio e sk b r)) = cn_assistant_task (con r)
     \<and> cn_turn_finalizing (con (receive_audio e sk b r)) = cn_turn_finalizing (con r)
     \<and> store (receive_audio e sk b r) = store r"
  by (auto simp: next_frame_def receive_audio_def emit_error_def listening_def emit_def Let_def
      split: option.splits if_splits)

lemma receive_other_audio:
  assumes "next_frame b r = None"
  shows "cn_audio (con (receive_audio e sk b r)) = cn_audio (con r)"
    "cn_partial_task (con (receive_audio e sk b r)) = cn_partial_task (con r)"
    "cn_last_audio_sequence (con (receive_audio e sk b r)) = cn_last_audio_sequence (con r)"
  using arg_cong [OF conjunct1 [OF receive_other [OF assms, of e sk]], of cn_audio]
    arg_cong [OF conjunct1 [OF receive_other [OF assms, of e sk]], of cn_partial_task]
    arg_cong [OF conjunct1 [OF receive_other [OF assms, of e sk]], of cn_last_audio_sequence]
  by simp_all

lemma receive_audio_ok:
  assumes "audio_ok (con r)" shows "audio_ok (con (receive_audio e sk b r))"
proof (cases "next_frame b r")
  case None
  then show ?thesis
    using assms receive_other_audio [OF None, of e sk] receive_other [OF None, of e sk] by (simp add: audio_ok_def)
next
  case (Some f)
  then obtain t pcm where f: "next_frame b r = Some (t, pcm)" by (metis prod.exhaust)
  have len: "length pcm = FRAME_BYTES" using receive_next [OF f] by blast
  have h: "fits (heard pcm (con r))" using assms len by (auto simp: heard_def audio_ok_def fits_def)
  obtain x k where x: "accept_frame e sk (cn_last_audio_sequence (con r) + 1) t pcm r = finalize_audio_turn e sk (asc ''cs'') k x
        \<or> accept_frame e sk (cn_last_audio_sequence (con r) + 1) t pcm r = x"
      "cn_audio (con x) = heard pcm (con r)" "cn_assistant_task (con x) = cn_assistant_task (con r)"
      "cn_partial_task (con x) = cn_partial_task (con r) \<or> cn_partial_task (con x) = Some (sk, heard pcm (con r))"
    using accept_shape [of e sk _ t pcm r] by blast
  have "audio_ok (con x)" using assms h x(2-4) by (auto simp: audio_ok_def)
  with finalize_audio_ok [OF this] x(1) receive_next [OF f, of e sk] show ?thesis by auto
qed

lemma partial_audio_ok: "audio_ok (con r) \<Longrightarrow> audio_ok (con (partial_step e r))"
  by (auto simp: partial_step_def Let_def audio_ok_def split: option.split sum.split)

lemma park_audio_ok: "audio_ok (con r) \<Longrightarrow> audio_ok (con (park r))"
  by (auto simp: park_def cancel_partial_task_def Let_def audio_ok_def split: option.split)

lemma start_audio_ok: "audio_ok (con r) \<Longrightarrow> audio_ok (con (snd (start_session e now sk m r)))"
  by (auto simp: start_session_def Let_def audio_ok_def split: option.split sum.split prod.split)

lemma resume_audio_ok: "audio_ok (con r) \<Longrightarrow> audio_ok (con (resume_session e sk m r))"
  by (auto simp: resume_session_def Let_def audio_ok_def)

lemma end_audio_ok: "audio_ok (con r) \<Longrightarrow> audio_ok (con (snd (end_session e now sk m r)))"
  by (auto simp: end_session_def Let_def audio_ok_def split: option.split sum.split prod.split)

lemma replace_audio_ok: "audio_ok (con r) \<Longrightarrow> task_fits t \<Longrightarrow> audio_ok (con (replace_assistant_task e sk t r))"
  by (auto simp: audio_ok_def)

lemma cancel_audio_ok: "audio_ok (con r) \<Longrightarrow> audio_ok (con (cancel_assistant_task e r))"
  by (auto simp: audio_ok_def)

lemma dispatch_audio_ok: "audio_ok (con r) \<Longrightarrow> audio_ok (con (snd (dispatch e now sk m r)))"
proof -
  assume a: "audio_ok (con r)"
  have "audio_ok (con (emit e sk ty p k (put (\<lambda>c. c\<lparr>cn_paused := True, cn_audio := [], cn_vad := vad_reset (cn_vad c)\<rparr>) r)))"
    "audio_ok (con (emit e sk ty p k (put (\<lambda>c. c\<lparr>cn_paused := False\<rparr>) r)))" for ty p k
    using a by (auto simp: audio_ok_def)
  moreover have "task_fits (TextTurn x y z)" "task_fits (Retry x l)" for x y z l by (simp_all add: task_fits_def)
  ultimately show ?thesis
    using a by (auto simp: dispatch_def Let_def emit_error_def split: option.split
        intro: finalize_audio_ok start_audio_ok resume_audio_ok end_audio_ok replace_audio_ok cancel_audio_ok)
qed

lemma step_audio_ok:
  assumes "audio_ok (con r)" shows "audio_ok (con (realtime_step e now sk i r))"
proof (cases i)
  case (Message raw)
  have "audio_ok (con (snd (receive_event e now sk raw r)))"
    using assms by (auto simp: receive_event_def emit_error_def audio_ok_updates split: option.split intro!: dispatch_audio_ok)
  then show ?thesis using Message by (auto simp: realtime_step_def split: prod.split sum.split intro: park_audio_ok)
qed (use assms in \<open>auto simp: realtime_step_def
      intro: receive_audio_ok assistant_audio_ok partial_audio_ok park_audio_ok\<close>)

text \<open>
  C30. The audio a connection holds - of the running turn, of a turn that is processed, of a partial
  transcript - is never longer than 120 seconds and always made of whole frames.
\<close>

theorem audio_bounded:
  assumes "audio_ok (con r)"
  shows "audio_ok (con (realtime_run e sk is r))"
  using assms by (induction e sk "is" r rule: realtime_run.induct) (auto intro: step_audio_ok)

lemma finalize_shape:
  "cn_audio (con (finalize_audio_turn e sk l k x)) = cn_audio (con x)
   \<or> cn_audio (con (finalize_audio_turn e sk l k x)) = []
     \<and> cn_assistant_task (con (finalize_audio_turn e sk l k x)) = Some (sk, AudioTurn (cn_audio (con x)) l k)"
  "cn_last_audio_sequence (con (finalize_audio_turn e sk l k x)) = cn_last_audio_sequence (con x)"
  by (simp_all add: finalize_audio_turn_def cancel_partial_task_def Let_def)

text \<open>
  C31. A packet changes the audio only as the next frame: then its sound follows what was heard before, or,
  when the turn is full, ends it. What a frame ends goes as a whole to the transcription, unless an
  earlier turn is still being processed; then it stays.
\<close>

theorem audio_in_order:
  "case next_frame b r of
     None \<Rightarrow> cn_audio (con (receive_audio e sk b r)) = cn_audio (con r)
       \<and> cn_last_audio_sequence (con (receive_audio e sk b r)) = cn_last_audio_sequence (con r)
   | Some (t, pcm) \<Rightarrow>
       decode_audio_packet b = Some (cn_last_audio_sequence (con r) + 1, t, pcm)
     \<and> cn_last_audio_sequence (con (receive_audio e sk b r)) = cn_last_audio_sequence (con r) + 1
     \<and> (cn_audio (con (receive_audio e sk b r)) = heard pcm (con r)
        \<or> cn_audio (con (receive_audio e sk b r)) = []
          \<and> (\<exists>k. cn_assistant_task (con (receive_audio e sk b r)) = Some (sk, AudioTurn (heard pcm (con r)) (asc ''cs'') k)))"
proof (cases "next_frame b r")
  case None
  then show ?thesis using receive_other_audio [OF None, of e sk] by simp
next
  case (Some f)
  then obtain t pcm where f: "next_frame b r = Some (t, pcm)" by (metis prod.exhaust)
  have d: "decode_audio_packet b = Some (cn_last_audio_sequence (con r) + 1, t, pcm)"
    using f by (auto simp: next_frame_def split: option.splits if_splits)
  obtain x k where x: "accept_frame e sk (cn_last_audio_sequence (con r) + 1) t pcm r = finalize_audio_turn e sk (asc ''cs'') k x
        \<or> accept_frame e sk (cn_last_audio_sequence (con r) + 1) t pcm r = x"
      "cn_audio (con x) = heard pcm (con r)" "cn_last_audio_sequence (con x) = cn_last_audio_sequence (con r) + 1"
    using accept_shape [of e sk "cn_last_audio_sequence (con r) + 1" t pcm r] by blast
  from receive_next [OF f, of e sk] x(1)
  have "receive_audio e sk b r = finalize_audio_turn e sk (asc ''cs'') k x \<or> receive_audio e sk b r = x" by auto
  then show ?thesis
    using finalize_shape [of e sk "asc ''cs''" k x] x(2,3) d unfolding f by fastforce
qed

text \<open>A capture time that is not a number passes the check of its sign, and no later time is refused
  for not being after it: the check of the order is then off.\<close>

lemma nan_time_accepted:
  "map_option fst (decode_audio_packet (FRAME_MAGIC @ [0, 0, 0, 1] @ [127, 248, 0, 0, 0, 0, 0, 0] @ replicate 960 0)) = Some 1"
  "is_nan (of_nat (big_endian [127, 248, 0, 0, 0, 0, 0, 0]))"
  "is_nan t \<Longrightarrow> \<not> float_le t' t"
proof -
  show nan: "is_nan (of_nat (big_endian [127, 248, 0, 0, 0, 0, 0, 0]))"
    by (simp add: is_nan_def float_magnitude_def big_endian_def)
  show "map_option fst (decode_audio_packet (FRAME_MAGIC @ [0, 0, 0, 1] @ [127, 248, 0, 0, 0, 0, 0, 0] @ replicate 960 0)) = Some 1"
    using nan by (simp add: decode_audio_packet_def FRAME_PACKET_BYTES_def FRAME_HEADER_BYTES_def FRAME_BYTES_def
        FRAME_MAGIC_def validate_audio_frame_def float_less_def big_endian_def)
qed (simp add: float_le_def)
section \<open>Turns settle\<close>

definition voice_task :: "task \<Rightarrow> bool" where
  "voice_task t \<longleftrightarrow> (case t of AudioTurn _ _ _ \<Rightarrow> True | Transcribing _ _ _ \<Rightarrow> True
     | Answering _ _ _ spoken \<Rightarrow> spoken | Speaking _ _ spoken \<Rightarrow> spoken | _ \<Rightarrow> False)"

text \<open>How many steps a task has left at most.\<close>

definition steps_left :: "task \<Rightarrow> nat" where
  "steps_left t = (case t of AudioTurn _ _ _ \<Rightarrow> 4 | Transcribing _ _ _ \<Rightarrow> 3 | TextTurn _ _ _ \<Rightarrow> 3
     | Answering _ _ _ _ \<Rightarrow> 2 | Speaking _ _ _ \<Rightarrow> 1 | Retry _ _ \<Rightarrow> 1)"

lemma finalizing_sel [simp]:
  "cn_turn_finalizing (con (voice_done r)) = False"
  "cn_turn_finalizing (con (set_task t r)) = cn_turn_finalizing (con r)"
  "cn_turn_finalizing (con (turn_done e sk spoken r)) = (if spoken then False else cn_turn_finalizing (con r))"
  "cn_turn_finalizing (con (turn_failed e sk x k spoken r)) = (if spoken then False else cn_turn_finalizing (con r))"
  by (simp_all add: voice_done_def set_task_def turn_done_def turn_failed_def emit_error_def Let_def)

lemma speech_finalizing:
  "cn_turn_finalizing (con (foldl (\<lambda>r b. if b = [] then r else send_audio e sk b r) r bs)) = cn_turn_finalizing (con r)"
  by (induction bs arbitrary: r) simp_all

lemma audio_error_finalizing: "cn_turn_finalizing (con (snd (audio_error e sk x r))) = cn_turn_finalizing (con r)"
  by (simp add: audio_error_def Let_def split: exc.split)

lemma synthesize_finalizing: "cn_turn_finalizing (con (snd (synthesize e sk t l r))) = cn_turn_finalizing (con r)"
  by (auto simp: synthesize_def Let_def audio_error_finalizing speech_finalizing
      split: sum.split prod.split option.split)

text \<open>A step ends the task, or brings it nearer to its end; a spoken turn that ends clears its mark, and
  another one leaves the mark alone.\<close>

lemma begin_turn_left:
  "case cn_assistant_task (con (begin_turn e now sk t key k spoken r)) of
     None \<Rightarrow> cn_turn_finalizing (con (begin_turn e now sk t key k spoken r)) = (\<not> spoken \<and> cn_turn_finalizing (con r))
   | Some (_, t') \<Rightarrow> steps_left t' = 2 \<and> voice_task t' = spoken
       \<and> cn_turn_finalizing (con (begin_turn e now sk t key k spoken r)) = cn_turn_finalizing (con r)"
  by (auto simp: begin_turn_def Let_def steps_left_def voice_task_def emit_error_def split: sum.split)

lemma task_step_left:
  "case cn_assistant_task (con (task_step e now sk t r)) of
     None \<Rightarrow> cn_turn_finalizing (con (task_step e now sk t r)) = (\<not> voice_task t \<and> cn_turn_finalizing (con r))
   | Some (_, t') \<Rightarrow> steps_left t' < steps_left t \<and> voice_task t' = voice_task t
       \<and> cn_turn_finalizing (con (task_step e now sk t r)) = cn_turn_finalizing (con r)"
proof (cases t)
  case (AudioTurn x1 x2 x3)
  then show ?thesis by (simp add: steps_left_def voice_task_def)
next
  case (Transcribing a l k)
  show ?thesis
  proof (cases "transcribe e a l (store r)")
    case (Inl x)
    then show ?thesis using Transcribing by (simp add: voice_task_def)
  next
    case (Inr s)
    then show ?thesis
      using begin_turn_left [of e now sk s "uuid_str k" k True "emit e sk ''transcript.final'' (ev [(''text'', JStr s)]) (Some k) r"]
        Transcribing
      by (auto simp: steps_left_def voice_task_def split: option.splits prod.splits)
  qed
next
  case (TextTurn x1 x2 x3)
  then show ?thesis
    using begin_turn_left [of e now sk x1 x2 x3 False r]
    by (auto simp: steps_left_def voice_task_def split: option.splits prod.splits)
next
  case (Answering x1 x2 x3 x4)
  then show ?thesis
    by (auto simp: steps_left_def voice_task_def Let_def split: prod.split sum.split)
next
  case (Speaking x1 x2 x3)
  have "cn_turn_finalizing (con (snd (synthesize e sk x1 (cn_language (con r)) r))) = cn_turn_finalizing (con r)"
    by (rule synthesize_finalizing)
  then show ?thesis using Speaking by (auto simp: voice_task_def split: prod.split sum.split)
next
  case (Retry x1 x2)
  then show ?thesis by (simp add: voice_task_def synthesize_finalizing)
qed

abbreviation assistant_steps :: "realtime_env \<Rightarrow> instant list \<Rightarrow> realtime \<Rightarrow> realtime" where
  "assistant_steps e ts r \<equiv> foldl (\<lambda>r now. assistant_step e now r) r ts"

lemma assistant_idle: "cn_assistant_task (con r) = None \<Longrightarrow> assistant_steps e ts r = r"
  by (induction ts arbitrary: r) (simp_all add: assistant_step_def)

lemma assistant_settles:
  assumes "cn_assistant_task (con r) = Some (sk, t)" "steps_left t \<le> length ts"
  shows "cn_assistant_task (con (assistant_steps e ts r)) = None
    \<and> cn_turn_finalizing (con (assistant_steps e ts r)) = (\<not> voice_task t \<and> cn_turn_finalizing (con r))"
  using assms
proof (induction ts arbitrary: r sk t)
  case Nil
  then show ?case by (cases t) (simp_all add: steps_left_def)
next
  case (Cons now ts)
  have s: "assistant_step e now r = task_step e now sk t r" using Cons.prems(1) by (simp add: assistant_step_def)
  show ?case
  proof (cases "cn_assistant_task (con (task_step e now sk t r))")
    case None
    then show ?thesis using task_step_left [of e now sk t r] assistant_idle [OF None, of e ts] by (simp add: s)
  next
    case (Some p)
    then obtain s' t' where p: "cn_assistant_task (con (task_step e now sk t r)) = Some (s', t')" by (metis prod.exhaust)
    have "steps_left t' \<le> length ts" using task_step_left [of e now sk t r] p Cons.prems(2) by simp
    from Cons.IH [OF p this] show ?thesis using task_step_left [of e now sk t r] p by (simp add: s)
  qed
qed

text \<open>
  C27. A turn settles: within four steps its task has ended - answered, or with an error event - whatever the
  transcription, the model, the speech or the socket does; and after a spoken turn the connection is ready
  for the next one.
\<close>

theorem turn_settles:
  assumes "cn_assistant_task (con r) = Some (sk, t)" "4 \<le> length ts"
  shows "cn_assistant_task (con (assistant_steps e ts r)) = None
    \<and> (voice_task t \<longrightarrow> \<not> cn_turn_finalizing (con (assistant_steps e ts r)))
    \<and> cn_audio (con (assistant_steps e ts r)) = cn_audio (con r)"
proof -
  have "steps_left t \<le> length ts" using assms(2) by (cases t) (simp_all add: steps_left_def)
  moreover have "cn_audio (con (assistant_steps e ts r)) = cn_audio (con r)" for r
    by (induction ts arbitrary: r) simp_all
  ultimately show ?thesis using assistant_settles [OF assms(1), of ts e] by simp
qed

section \<open>A spoken turn that is interrupted too early\<close>

text \<open>The mark of a spoken turn without the turn.\<close>

definition wedged :: "connection \<Rightarrow> bool" where
  "wedged c \<longleftrightarrow> cn_turn_finalizing c \<and> (\<forall>sk t. cn_assistant_task c = Some (sk, t) \<longrightarrow> \<not> voice_task t)"

lemma cancelled_finalizing:
  "cn_turn_finalizing (con (cancelled e sk t r)) \<longleftrightarrow>
     cn_turn_finalizing (con r) \<and> (voice_task t \<longrightarrow> (\<exists>a l k. t = AudioTurn a l k))"
  by (cases t) (auto simp: voice_task_def)

lemma cancel_wedged: "wedged (con r) \<Longrightarrow> wedged (con (cancel_assistant_task e r))"
  by (auto simp: wedged_def cancel_assistant_task_def cancelled_finalizing split: option.split)

lemma replace_wedged: "wedged (con r) \<Longrightarrow> \<not> voice_task t \<Longrightarrow> wedged (con (replace_assistant_task e sk t r))"
  using cancel_wedged [of r e] by (simp add: wedged_def replace_assistant_task_def)

lemma wedged_finalize: "wedged (con r) \<Longrightarrow> finalize_audio_turn e sk l k r = r"
  by (simp add: wedged_def finalize_audio_turn_def)

lemma emit_wedged [simp]: "wedged (con (emit e sk ty p k r)) = wedged (con r)"
  by (simp add: wedged_def)

lemma wedged_updates:
  "wedged (c\<lparr>cn_last_client_sequence := n\<rparr>) = wedged c" "wedged (c\<lparr>cn_connected := b\<rparr>) = wedged c"
  "wedged (c\<lparr>cn_paused := b\<rparr>) = wedged c" "wedged (c\<lparr>cn_partial_task := p\<rparr>) = wedged c"
  "wedged (c\<lparr>cn_partial_text := x\<rparr>) = wedged c" "wedged (c\<lparr>cn_language := x\<rparr>) = wedged c"
  "wedged (c\<lparr>cn_vad := v\<rparr>) = wedged c" "wedged (c\<lparr>cn_conversation_id := cid\<rparr>) = wedged c"
  by (simp_all add: wedged_def)

lemma assistant_wedged:
  assumes "wedged (con r)" shows "wedged (con (assistant_step e now r))"
proof (cases "cn_assistant_task (con r)")
  case (Some p)
  then obtain sk t where p: "cn_assistant_task (con r) = Some (sk, t)" by (metis prod.exhaust)
  then show ?thesis
    using assms task_step_left [of e now sk t r]
    by (auto simp: wedged_def assistant_step_def split: option.splits)
qed (use assms in \<open>simp add: assistant_step_def\<close>)

lemma receive_audio_wedged:
  assumes "wedged (con r)" shows "wedged (con (receive_audio e sk b r))"
proof (cases "next_frame b r")
  case None
  then show ?thesis using assms receive_other [OF None, of e sk] by (simp add: wedged_def)
next
  case (Some f)
  then obtain t pcm where f: "next_frame b r = Some (t, pcm)" by (metis prod.exhaust)
  obtain x k where x: "accept_frame e sk (cn_last_audio_sequence (con r) + 1) t pcm r = finalize_audio_turn e sk (asc ''cs'') k x
        \<or> accept_frame e sk (cn_last_audio_sequence (con r) + 1) t pcm r = x"
      "cn_assistant_task (con x) = cn_assistant_task (con r)" "cn_turn_finalizing (con x) = cn_turn_finalizing (con r)"
    using accept_shape [of e sk "cn_last_audio_sequence (con r) + 1" t pcm r] by blast
  have "wedged (con x)" using assms x(2,3) by (simp add: wedged_def)
  then show ?thesis using x(1) wedged_finalize [of x e sk] receive_next [OF f, of e sk] by auto
qed

lemma partial_wedged: "wedged (con r) \<Longrightarrow> wedged (con (partial_step e r))"
  by (auto simp: partial_step_def Let_def wedged_updates split: option.split sum.split)

lemma park_wedged: "wedged (con r) \<Longrightarrow> wedged (con (park r))"
  by (auto simp: park_def cancel_partial_task_def Let_def wedged_updates split: option.split)

lemma start_wedged: "wedged (con r) \<Longrightarrow> wedged (con (snd (start_session e now sk m r)))"
  by (auto simp: start_session_def Let_def wedged_updates split: option.split sum.split prod.split)

lemma end_wedged: "wedged (con r) \<Longrightarrow> wedged (con (snd (end_session e now sk m r)))"
proof -
  assume "wedged (con r)"
  then have "wedged (con (cancel_assistant_task e r))" by (rule cancel_wedged)
  then show ?thesis
    by (auto simp: end_session_def Let_def wedged_def split: option.split sum.split prod.split)
qed

lemma dispatch_wedged:
  assumes "wedged (con r)" "ce_type m \<noteq> ''session.resume''"
  shows "wedged (con (snd (dispatch e now sk m r)))"
proof -
  have "wedged (con (emit e sk ty p k (put (\<lambda>c. c\<lparr>cn_paused := True, cn_audio := [], cn_vad := vad_reset (cn_vad c)\<rparr>) r)))"
    for ty p k using assms(1) by (simp add: wedged_def)
  moreover have "\<not> voice_task (TextTurn x y z)" "\<not> voice_task (Retry x l)" for x y z l by (simp_all add: voice_task_def)
  ultimately show ?thesis
    using assms by (auto simp: dispatch_def Let_def emit_error_def wedged_finalize wedged_updates split: option.split
        intro: start_wedged end_wedged replace_wedged cancel_wedged)
qed

definition resumes :: "input \<Rightarrow> bool" where
  "resumes i \<longleftrightarrow> (case i of Message (Some m) \<Rightarrow> ce_type m = ''session.resume'' | _ \<Rightarrow> False)"

lemma step_wedged:
  assumes "wedged (con r)" "\<not> resumes i" shows "wedged (con (realtime_step e now sk i r))"
proof (cases i)
  case (Message raw)
  have "wedged (con (snd (receive_event e now sk raw r)))"
    using assms Message
    by (auto simp: receive_event_def emit_error_def resumes_def wedged_updates split: option.splits intro!: dispatch_wedged)
  then show ?thesis using Message by (auto simp: realtime_step_def split: prod.split sum.split intro: park_wedged)
qed (use assms in \<open>auto simp: realtime_step_def
      intro: receive_audio_wedged assistant_wedged partial_wedged park_wedged\<close>)

lemma run_wedged:
  "wedged (con r) \<Longrightarrow> list_all (\<lambda>x. \<not> resumes (snd x)) is \<Longrightarrow> wedged (con (realtime_run e sk is r))"
  by (induction e sk "is" r rule: realtime_run.induct) (auto intro: step_wedged)

text \<open>
  C34. An interruption that arrives before the task of a spoken turn has run drops the task without its
  \<open>finally\<close>: the turn counts as being processed for ever. Until a resumption no spoken turn of this
  connection is processed again, not even in a new session: what ends a turn finds the mark and does nothing.
\<close>

theorem early_interrupt_mutes_microphone:
  assumes "\<not> cn_turn_finalizing (con r)" "cn_audio (con r) \<noteq> []" "cn_assistant_task (con r) = None"
    and "ce_type m = ''assistant.interrupt''" "list_all (\<lambda>x. \<not> resumes (snd x)) is"
    and "r' = realtime_run e sk is (snd (dispatch e now sk m (finalize_audio_turn e sk l k r)))"
  shows "finalize_audio_turn e sk l' k' r' = r'
    \<and> (\<forall>s t. cn_assistant_task (con r') = Some (s, t) \<longrightarrow> \<not> voice_task t)"
proof -
  let ?f = "finalize_audio_turn e sk l k r"
  have f: "cn_assistant_task (con ?f) = Some (sk, AudioTurn (cn_audio (con r)) l k)" "cn_turn_finalizing (con ?f)"
    using assms(1-3)
    by (simp_all add: finalize_audio_turn_def cancel_partial_task_def replace_assistant_task_def
        cancel_assistant_task_def Let_def)
  have "snd (dispatch e now sk m ?f) = emit e sk ''assistant.interrupted'' (ev [(''state'', jstr ''listening'')])
      (Some (ce_event_id m)) (cancel_assistant_task e ?f)"
    by (simp add: dispatch_def assms(4))
  then have "wedged (con (snd (dispatch e now sk m ?f)))"
    using f by (simp add: wedged_def cancel_assistant_task_def)
  from run_wedged [OF this assms(5)] have w: "wedged (con r')" unfolding assms(6) .
  then show ?thesis using wedged_finalize [OF w] unfolding wedged_def by blast
qed

section \<open>The database changes by whole turns\<close>

text \<open>What a step may do to the database: nothing, one turn with its answer in one transaction, the start of a
  conversation of the account, or its end.\<close>

definition store_effect :: "realtime_env \<Rightarrow> instant \<Rightarrow> realtime \<Rightarrow> realtime \<Rightarrow> bool" where
  "store_effect e now r r' \<longleftrightarrow>
     store r' = store r
   \<or> (\<exists>t key spoken. store r' = snd (run_tx (turn_and_answer e now (con r) t key spoken) (store r)))
   \<or> (\<exists>rq ctx. store r' = snd (run_tx (start (re_crypto e) now (cn_account_id (con r)) rq ctx) (store r)))
   \<or> (\<exists>cid ctx. store r' = snd (run_tx (end_conversation (re_crypto e) now (cn_account_id (con r)) cid ''user_ended'' ctx) (store r)))"

lemma store_sel [simp]:
  "store (set_task t r) = store r" "store (voice_done r) = store r" "store (turn_done e sk spoken r) = store r"
  "store (turn_failed e sk x k spoken r) = store r"
  by (simp_all add: set_task_def voice_done_def turn_done_def turn_failed_def emit_error_def Let_def)

lemma store_synthesize [simp]: "store (snd (synthesize e sk t l r)) = store r"
proof -
  have f: "store (foldl (\<lambda>r b. if b = [] then r else send_audio e sk b r) r bs) = store r" for r bs
    by (induction bs arbitrary: r) simp_all
  have a: "store (snd (audio_error e sk x r)) = store r" for x r
    by (simp add: audio_error_def Let_def split: exc.split)
  show ?thesis
    by (auto simp: synthesize_def Let_def f a split: sum.split prod.split option.split)
qed

lemma store_begin [simp]: "store (begin_turn e now sk t key k spoken r) = store r"
  by (auto simp: begin_turn_def Let_def emit_error_def split: sum.split)

lemma store_cancel [simp]: "store (cancel_assistant_task e r) = store r"
proof -
  have "store (cancelled e sk t x) = store x" for sk t x by (cases t) simp_all
  then show ?thesis by (auto simp: cancel_assistant_task_def split: option.split)
qed

lemma store_replace [simp]: "store (replace_assistant_task e sk t r) = store r"
  by (simp add: replace_assistant_task_def)

lemma store_finalize [simp]: "store (finalize_audio_turn e sk l k r) = store r"
  by (simp add: finalize_audio_turn_def cancel_partial_task_def Let_def)

lemma store_audio: "store (receive_audio e sk b r) = store r"
proof (cases "next_frame b r")
  case None
  then show ?thesis using receive_other [OF None, of e sk] by simp
next
  case (Some f)
  then obtain t pcm where f: "next_frame b r = Some (t, pcm)" by (metis prod.exhaust)
  show ?thesis
    using receive_next [OF f, of e sk] accept_shape [of e sk "cn_last_audio_sequence (con r) + 1" t pcm r] by auto
qed

lemma store_task: "store_effect e now r (task_step e now sk t r)"
proof (cases t)
  case (Answering t' key k spoken)
  obtain res d1 where "run_tx (turn_and_answer e now (con r) t' key spoken) (store r) = (res, d1)" by fastforce
  then have "store (task_step e now sk t r) = snd (run_tx (turn_and_answer e now (con r) t' key spoken) (store r))"
    unfolding Answering by (cases res) (simp_all add: Let_def)
  then show ?thesis unfolding store_effect_def by blast
next
  case (Speaking t' k spoken)
  obtain res r1 where s: "synthesize e sk t' (cn_language (con r)) r = (res, r1)" by fastforce
  have "store r1 = store r" using store_synthesize [of e sk t' "cn_language (con r)" r] unfolding s by simp
  then have "store (task_step e now sk t r) = store r" unfolding Speaking by (cases res) (simp_all add: s)
  then show ?thesis by (simp add: store_effect_def)
qed (auto simp: store_effect_def emit_error_def split: sum.split)

lemma store_start: "store_effect e now r (snd (start_session e now sk m r))"
proof -
  have "store (snd (start_session e now sk m r)) = store r
    \<or> (\<exists>rq ctx. store (snd (start_session e now sk m r)) = snd (run_tx (start (re_crypto e) now (cn_account_id (con r)) rq ctx) (store r)))"
    unfolding start_session_def Let_def
    by (auto split: option.split sum.split prod.split dest!: sndI [symmetric])
  then show ?thesis unfolding store_effect_def by blast
qed

lemma store_end: "store_effect e now r (snd (end_session e now sk m r))"
proof (cases "cn_conversation_id (con r)")
  case None
  then show ?thesis by (simp add: end_session_def store_effect_def)
next
  case (Some cid)
  let ?ctx = "administrator (cn_account_id (con r)) (uuid_str (ce_event_id m))"
  obtain res d1 where t: "run_tx (end_conversation (re_crypto e) now (cn_account_id (con r)) cid ''user_ended'' ?ctx) (store r) = (res, d1)"
    by fastforce
  have "store (snd (end_session e now sk m r)) = d1"
    using Some t by (cases res) (simp_all add: end_session_def)
  then have "store (snd (end_session e now sk m r))
      = snd (run_tx (end_conversation (re_crypto e) now (cn_account_id (con r)) cid ''user_ended'' ?ctx) (store r))"
    by (simp only: t snd_conv)
  then show ?thesis unfolding store_effect_def by blast
qed

lemma store_same: "store r' = store r \<Longrightarrow> store_effect e now r r'"
  by (simp add: store_effect_def)

lemma store_resume: "store (resume_session e sk m r) = store r"
  by (auto simp: resume_session_def Let_def)

lemma store_dispatch: "store_effect e now r (snd (dispatch e now sk m r))"
proof (cases "ce_type m = ''session.start'' \<and> \<not> resume_available r \<or> ce_type m = ''session.end''")
  case True
  then have "dispatch e now sk m r = start_session e now sk m r \<or> dispatch e now sk m r = end_session e now sk m r"
    by (auto simp: dispatch_def)
  with store_start [of e now r sk m] store_end [of e now r sk m] show ?thesis by auto
next
  case False
  have "store (snd (dispatch e now sk m r)) = store r"
  proof (cases "ce_type m = ''session.start''")
    case True
    then show ?thesis using False by (simp add: dispatch_def emit_error_def)
  next
    case start: False
    have "ce_type m \<noteq> ''session.end''" using False by blast
    then show ?thesis
      using start unfolding dispatch_def Let_def
      by (simp only: if_False if_distrib [of snd] if_distrib [of store] option.case_distrib [of snd]
          option.case_distrib [of store] snd_conv emit_error_def emit_rest store_cancel store_replace
          store_finalize store_resume put_sel if_cancel cong: if_cong) (simp split: option.split)
  qed
  then show ?thesis by (rule store_same)
qed

lemma store_park: "store (park r) = store r"
  by (auto simp: park_def cancel_partial_task_def Let_def split: option.split)

lemma turn_account:
  "turn_and_answer e now (c\<lparr>cn_last_client_sequence := n\<rparr>) t key spoken = turn_and_answer e now c t key spoken"
  "cn_account_id (c\<lparr>cn_last_client_sequence := n\<rparr>) = cn_account_id c"
proof -
  let ?c = "c\<lparr>cn_last_client_sequence := n\<rparr>"
  have f: "cn_account_id ?c = cn_account_id c" "cn_conversation_id ?c = cn_conversation_id c" "cn_language ?c = cn_language c"
    by simp_all
  show "turn_and_answer e now ?c t key spoken = turn_and_answer e now c t key spoken"
    by (rule ext) (unfold turn_and_answer_def realtime_turn_def f, rule refl)
  show "cn_account_id ?c = cn_account_id c" by (rule f)
qed

lemma store_effect_cong:
  "store_effect e now r r' \<Longrightarrow> store r'' = store r' \<Longrightarrow> store_effect e now r r''"
  by (simp add: store_effect_def)

text \<open>
  C32. A voice conversation changes the database only by whole transactions: a turn together with its answer, the
  start of a conversation of the account, its end. What is interrupted leaves no trace in it, and neither does
  any sound, any other event or the loss of the socket.
\<close>

theorem realtime_store_effects:
  "store_effect e now r (realtime_step e now sk i r)
   \<and> store (cancel_assistant_task e r) = store r
   \<and> store (realtime_step e now sk (Binary b) r) = store r
   \<and> store (realtime_step e now sk Partial r) = store r
   \<and> store (realtime_step e now sk Closed r) = store r"
proof -
  have p: "store (partial_step e r) = store r"
    by (auto simp: partial_step_def Let_def split: option.split sum.split)
  have "store_effect e now r (realtime_step e now sk i r)"
  proof (cases i)
    case (Message raw)
    have "store_effect e now r (snd (receive_event e now sk raw r))"
    proof (cases raw)
      case (Some m)
      let ?r = "put (\<lambda>c. c\<lparr>cn_last_client_sequence := ce_sequence m\<rparr>) r"
      have "store_effect e now ?r (snd (dispatch e now sk m ?r))" by (rule store_dispatch)
      then have "store_effect e now r (snd (dispatch e now sk m ?r))"
        by (simp only: store_effect_def put_sel turn_account)
      then show ?thesis using Some by (auto simp: receive_event_def intro: store_same)
    qed (simp add: receive_event_def emit_error_def store_same)
    then show ?thesis
      using Message store_effect_cong store_park by (auto simp: realtime_step_def split: prod.split sum.split)
  next
    case Assistant
    then show ?thesis by (auto simp: realtime_step_def assistant_step_def split: option.split intro: store_task store_same)
  qed (auto simp: realtime_step_def store_audio store_park p intro: store_same)
  then show ?thesis by (auto simp: realtime_step_def store_audio store_park p)
qed

section \<open>Sockets\<close>

lemma open_socketD:
  assumes "open_socket e now sk ticket requested generation r = (Inr (), r')"
  shows "\<exists>t acc. ticket = Some t \<and> t \<noteq> [] \<and> run_tx (consume_ticket (re_crypto e) now t) (store r) = (Inr acc, store r')"
  using assms by (auto simp: open_socket_def Let_def split: option.splits if_splits sum.splits prod.splits)

text \<open>
  A ticket opens one socket: once a socket was opened with it, every later attempt with the same ticket is
  closed with code 4401, whatever login, logout, new tickets and the like happen in between.
\<close>

theorem ticket_opens_one_socket:
  assumes "sec_inv (store r)" "open_socket e now sk ticket requested generation r = (Inr (), r')"
    and "(security_step (re_crypto e))\<^sup>*\<^sup>* (store r') (store r2)"
  shows "fst (open_socket e now' sk' ticket requested' generation' r2) = Inl 4401"
proof -
  obtain t acc where t: "ticket = Some t" "run_tx (consume_ticket (re_crypto e) now t) (store r) = (Inr acc, store r')"
    using open_socketD [OF assms(2)] by blast
  obtain x where "run_tx (consume_ticket (re_crypto e) now' t) (store r2) = (Inl x, store r2)"
    using ticket.redeemed_once [OF assms(1) t(2) assms(3)] by blast
  then show ?thesis by (simp add: open_socket_def t(1))
qed

lemma park_parks:
  assumes "cn_conversation_id (con r) = Some cid"
  shows "parked (park r) cid = Some (con (park r))"
    "con (park r) = (con r)\<lparr>cn_connected := False, cn_partial_task := None, cn_paused := True\<rparr>"
    "store (park r) = store r"
  using assms by (simp_all add: park_def cancel_partial_task_def Let_def)

lemma find_parked:
  assumes "ps cid = Some c" "cid < 2 ^ 128" "cn_account_id c = acc" "re_parse_int e g = Some (cn_generation c + 1)"
  shows "find_session e acc (Some (uuid_str cid)) (Some g) ps = (resumed (cn_generation c + 1) c, True, ps(cid := None))"
proof -
  have "uuid_str cid \<noteq> []" by (simp add: uuid_str_def Let_def)
  then show ?thesis using assms uuid_parse_str [OF assms(2)] by (simp add: find_session_def Let_def)
qed

lemma emit_sequence: "cn_sequence (con r) \<le> cn_sequence (con (emit e sk ty p k r))"
  by (simp add: emit_def Let_def)

text \<open>
  C33. A conversation survives its socket: with a new ticket, the conversation and the next generation, a new
  socket gets the parked connection back - conversation, numbers, partial transcript, language and the running
  task - and after a resumption from a number the server has reached it listens again.
\<close>

theorem parked_session_resumes:
  assumes "cn_conversation_id (con r) = Some cid" "cid < 2 ^ 128" "tok \<noteq> []"
    and "run_tx (consume_ticket (re_crypto e) now tok) (store r) = (Inr (cn_account_id (con r)), d1)"
    and "re_parse_int e g = Some (cn_generation (con r) + 1)"
    and "open_socket e now sk (Some tok) (Some (uuid_str cid)) (Some g) (park r) = (x, r')"
    and "ce_resume_cursor m = Some k" "k \<le> cn_sequence (con r)"
  shows "x = Inr () \<and> live r' = Some sk \<and> resume_available r' \<and> parked r' cid = None
    \<and> cn_generation (con r') = cn_generation (con r) + 1
    \<and> cn_conversation_id (con r') = Some cid
    \<and> cn_last_client_sequence (con r') = cn_last_client_sequence (con r)
    \<and> cn_last_audio_sequence (con r') = cn_last_audio_sequence (con r)
    \<and> cn_partial_text (con r') = cn_partial_text (con r) \<and> cn_language (con r') = cn_language (con r)
    \<and> cn_assistant_task (con r') = cn_assistant_task (con r)
    \<and> (let r'' = resume_session e sk m r' in \<not> cn_paused (con r'') \<and> \<not> resume_available r''
         \<and> cn_conversation_id (con r'') = Some cid \<and> cn_audio (con r'') = [] \<and> \<not> cn_turn_finalizing (con r''))"
proof -
  let ?c = "resumed (cn_generation (con r) + 1) (con (park r))"
  let ?q = "(park r)\<lparr>con := ?c, store := d1, live := Some sk, resume_available := True, parked := (parked (park r))(cid := None)\<rparr>"
  note pk = park_parks [OF assms(1)]
  have f: "find_session e (cn_account_id (con r)) (Some (uuid_str cid)) (Some g) (parked (park r))
      = (?c, True, (parked (park r))(cid := None))"
    using find_parked [of "parked (park r)" cid "con (park r)" "cn_account_id (con r)" e g] assms(2,5)
    by (simp add: pk)
  obtain p where o: "x = Inr ()" "r' = emit e sk ''connection.ready'' p None ?q"
    using assms(3,4,6) f by (auto simp: open_socket_def pk(3) Let_def)
  have c: "cn_generation ?c = cn_generation (con r) + 1" "cn_conversation_id ?c = Some cid"
    "cn_last_client_sequence ?c = cn_last_client_sequence (con r)"
    "cn_last_audio_sequence ?c = cn_last_audio_sequence (con r)"
    "cn_partial_text ?c = cn_partial_text (con r)" "cn_language ?c = cn_language (con r)"
    "cn_assistant_task ?c = cn_assistant_task (con r)" "cn_sequence ?c = cn_sequence (con r)"
    using assms(1) by (simp_all add: resumed_def pk(2))
  have sel: "con ?q = ?c" "live ?q = Some sk" "resume_available ?q" "parked ?q cid = None" by simp_all
  have "\<not> cn_sequence (con r') < k"
    using emit_sequence [of ?q e sk "''connection.ready''" p None] assms(8) unfolding o(2) sel(1) c(8) by linarith
  moreover have av: "resume_available r'" "cn_conversation_id (con r') = Some cid" unfolding o(2) by (simp_all add: c)
  ultimately have res: "let r'' = resume_session e sk m r' in \<not> cn_paused (con r'') \<and> \<not> resume_available r''
         \<and> cn_conversation_id (con r'') = Some cid \<and> cn_audio (con r'') = [] \<and> \<not> cn_turn_finalizing (con r'')"
    using assms(7) by (auto simp: resume_session_def Let_def)
  show ?thesis using o(1) res av unfolding o(2) by (simp add: c)
qed

text \<open>
  A task keeps the socket it was started with. When it reports after its connection has been resumed on another
  one, the failure to send on the old socket marks the new one as lost, and the client hears nothing more.
\<close>

theorem late_task_silences:
  assumes "cn_assistant_task (con r) = Some (old, AudioTurn a l k)" "live r = Some sk" "old \<noteq> sk"
    and "list_all (\<lambda>x. \<not> ends_session (snd x)) is"
  shows "wire (realtime_run e sk is (assistant_step e now r)) = wire r"
proof -
  let ?r = "assistant_step e now r"
  have "\<not> cn_connected (con ?r)" "wire ?r = wire r"
    using assms(1-3) by (simp_all add: assistant_step_def emit_def set_task_def Let_def)
  with server_events_numbered_run [OF assms(4), of ?r e sk] show ?thesis by simp
qed

text \<open>A generation that is no number: the parked connection is taken out and lost, and its expiry, which
  looks for it, does not end the conversation.\<close>

lemma malformed_generation_loses_session:
  assumes "parked r cid = Some c" "cid < 2 ^ 128" "tok \<noteq> []" "re_parse_int e g = None"
    and "open_socket e now sk (Some tok) (Some (uuid_str cid)) (Some g) r = (Inr (), r')"
  shows "parked r' cid = None \<and> cn_conversation_id (con r') = None \<and> expire e later cid r' = r'"
proof -
  have "uuid_str cid \<noteq> []" by (simp add: uuid_str_def Let_def)
  then have f: "find_session e acc (Some (uuid_str cid)) (Some g) ps = (new_connection acc, False, ps(cid := None))" for acc ps
    using assms(4) uuid_parse_str [OF assms(2)] by (simp add: find_session_def Let_def)
  have "parked r' cid = None" "cn_conversation_id (con r') = None"
    using assms(5) f by (auto simp: open_socket_def Let_def new_connection_def split: option.splits if_splits sum.splits prod.splits)
  then show ?thesis by (simp add: expire_def)
qed

section \<open>On concrete conversations\<close>

text \<open>A network that delivers, a recognition that hears the same words and a speech without sound.\<close>

definition plain_realtime :: realtime_env where
  "plain_realtime = \<lparr>re_env = plain_env, re_crypto = plain_crypto, re_sends = (\<lambda>_. True), re_uuid = nat,
     re_transcribe = (\<lambda>_ _ _. Inr (asc ''hello'')), re_speak = (\<lambda>_ _ _ _. ([], None)),
     re_parse_int = (\<lambda>_. Some 2)\<rparr>"

definition demo_voice :: realtime where
  "demo_voice = \<lparr>con = (new_connection 1)\<lparr>cn_conversation_id := Some 7\<rparr>, store = demo_auth, wire = [],
     live = Some 5, resume_available = False, parked = (\<lambda>_. None)\<rparr>"

definition demo_event :: "string \<Rightarrow> int \<Rightarrow> client_event" where
  "demo_event ty n = \<lparr>ce_event_id = 3, ce_sequence = n, ce_type = ty, ce_payload = [], ce_resume_cursor = Some 0\<rparr>"

definition demo_inputs :: "(instant \<times> input) list" where
  "demo_inputs = map (Pair 9) [Message (Some (demo_event ''ping'' 1)), Message (Some (demo_event ''ping'' 1)),
     Message (Some (demo_event ''ping'' 4))]"

lemma demo_inputs_kept: "list_all (\<lambda>x. \<not> ends_session (snd x)) demo_inputs"
  by (simp add: demo_inputs_def demo_event_def ends_session_def)

lemma demo_ping: "realtime_step e now sk (Message (Some (demo_event ''ping'' n))) r =
   (if n \<le> cn_last_client_sequence (con r) then emit e sk ''ack'' (ev [(''duplicate'', JBool True)]) (Some 3) r
    else if n \<noteq> cn_last_client_sequence (con r) + 1
    then emit e sk ''resync.required'' (ev [(''expected_sequence'', JInt (cn_last_client_sequence (con r) + 1)),
        (''received_sequence'', JInt n)]) (Some 3) r
    else emit e sk ''pong'' [] (Some 3) (put (\<lambda>c. c\<lparr>cn_last_client_sequence := n\<rparr>) r))"
  by (simp add: realtime_step_def receive_event_def dispatch_def demo_event_def)

lemma demo_emit:
  "re_sends e = (\<lambda>_. True) \<Longrightarrow> cn_connected (con r) \<Longrightarrow> live r = Some sk \<Longrightarrow>
   cn_connected (con (emit e sk ty p k r)) \<and> live (emit e sk ty p k r) = Some sk
   \<and> cn_sequence (con (emit e sk ty p k r)) = cn_sequence (con r) + 1"
  by (simp add: emit_def Let_def)

lemma demo_start: "cn_connected (con demo_voice)" "live demo_voice = Some 5" "cn_sequence (con demo_voice) = 0"
  "cn_last_client_sequence (con demo_voice) = 0" "wire demo_voice = []" "re_sends plain_realtime = (\<lambda>_. True)"
  by (simp_all add: demo_voice_def new_connection_def plain_realtime_def)

lemma demo_run:
  "cn_connected (con (realtime_run plain_realtime 5 demo_inputs demo_voice))"
  "cn_sequence (con (realtime_run plain_realtime 5 demo_inputs demo_voice)) = 3"
  by (simp_all add: demo_inputs_def demo_ping demo_emit demo_start)

theorem server_events_numbered_witness:
  "event_numbers (wire (realtime_run plain_realtime 5 demo_inputs demo_voice)) = [1, 2, 3]"
proof -
  note demo_run
  moreover have "cn_sequence (con demo_voice) = 0" "wire demo_voice = []" by (rule demo_start)+
  moreover obtain fs where "wire (realtime_run plain_realtime 5 demo_inputs demo_voice) = wire demo_voice @ fs"
    "event_numbers fs = map (\<lambda>i. cn_sequence (con demo_voice) + 1 + int i) [0..<length (event_numbers fs)]"
    "cn_connected (con (realtime_run plain_realtime 5 demo_inputs demo_voice)) \<longrightarrow>
         cn_sequence (con (realtime_run plain_realtime 5 demo_inputs demo_voice))
           = cn_sequence (con demo_voice) + int (length (event_numbers fs))"
    using server_events_numbered [OF demo_inputs_kept, of plain_realtime 5 demo_voice] by blast
  ultimately have "wire (realtime_run plain_realtime 5 demo_inputs demo_voice) = fs"
    "event_numbers fs = map (\<lambda>i. 1 + int i) [0..<3]" by auto
  then show ?thesis by (simp add: upt_rec)
qed

theorem client_events_in_order_witness:
  "map ce_sequence (taken plain_realtime 5 demo_inputs demo_voice) = [1]
   \<and> cn_last_client_sequence (con (realtime_run plain_realtime 5 demo_inputs demo_voice)) = 1"
proof -
  have n: "ce_sequence (demo_event ty n) = n" for ty n by (simp add: demo_event_def)
  have "length (taken plain_realtime 5 demo_inputs demo_voice) = 1" "cn_last_client_sequence (con demo_voice) = 0"
    by (simp_all add: demo_inputs_def demo_ping demo_emit demo_start n)
  with client_events_in_order [OF demo_inputs_kept, of plain_realtime 5 demo_voice] show ?thesis by simp
qed

theorem audio_bounded_witness:
  "audio_ok (con (realtime_run plain_realtime 5 [(9, Binary [1, 2]), (9, Closed)] demo_voice))"
proof -
  have "audio_ok (con demo_voice)" by (simp add: audio_ok_def demo_voice_def new_connection_def)
  then show ?thesis by (rule audio_bounded)
qed

theorem turn_settles_witness:
  "cn_assistant_task (con (assistant_steps plain_realtime [1, 2, 3, 4]
     (set_task (Some (5, AudioTurn [0, 0] (asc ''cs'') 3)) demo_voice))) = None"
proof -
  let ?r = "set_task (Some (5, AudioTurn [0, 0] (asc ''cs'') 3)) demo_voice"
  have "cn_assistant_task (con ?r) = Some (5, AudioTurn [0, 0] (asc ''cs'') 3)" by simp
  from turn_settles [OF this, of "[1, 2, 3, 4]" plain_realtime] show ?thesis by simp
qed

theorem early_interrupt_mutes_microphone_witness:
  "finalize_audio_turn plain_realtime 5 (asc ''en'') 4
       (snd (dispatch plain_realtime 9 5 (demo_event ''assistant.interrupt'' 1)
          (finalize_audio_turn plain_realtime 5 (asc ''cs'') 3 (put (\<lambda>c. c\<lparr>cn_audio := [0, 0]\<rparr>) demo_voice))))
     = snd (dispatch plain_realtime 9 5 (demo_event ''assistant.interrupt'' 1)
          (finalize_audio_turn plain_realtime 5 (asc ''cs'') 3 (put (\<lambda>c. c\<lparr>cn_audio := [0, 0]\<rparr>) demo_voice)))"
proof -
  let ?r = "put (\<lambda>c. c\<lparr>cn_audio := [0, 0]\<rparr>) demo_voice" and ?m = "demo_event ''assistant.interrupt'' 1"
  let ?r' = "snd (dispatch plain_realtime 9 5 ?m (finalize_audio_turn plain_realtime 5 (asc ''cs'') 3 ?r))"
  have r: "\<not> cn_turn_finalizing (con ?r)" "cn_audio (con ?r) \<noteq> []" "cn_assistant_task (con ?r) = None"
    by (simp_all add: demo_voice_def new_connection_def)
  have m: "ce_type ?m = ''assistant.interrupt''" by (simp add: demo_event_def)
  have n: "list_all (\<lambda>x. \<not> resumes (snd x)) []" by simp
  have "?r' = realtime_run plain_realtime 5 [] ?r'" by simp
  from early_interrupt_mutes_microphone [OF r m n this] show ?thesis by blast
qed

theorem late_task_silences_witness:
  "wire (realtime_run plain_realtime 5 demo_inputs (assistant_step plain_realtime 9
     (set_task (Some (4, AudioTurn [0, 0] (asc ''cs'') 3)) demo_voice))) = []"
proof -
  let ?r = "set_task (Some (4, AudioTurn [0, 0] (asc ''cs'') 3)) demo_voice"
  have "cn_assistant_task (con ?r) = Some (4, AudioTurn [0, 0] (asc ''cs'') 3)" "live ?r = Some 5" "wire ?r = []"
    by (simp_all add: set_task_def demo_voice_def)
  then show ?thesis using late_task_silences [OF _ _ _ demo_inputs_kept] by simp
qed

text \<open>A login's ticket for the conversation.\<close>

definition demo_ticket :: db where
  "demo_ticket = snd (run_tx (issue_ticket plain_crypto 5 1 (asc ''t'')) demo_auth)"

lemma demo_ticket_inv: "sec_inv demo_ticket"
  unfolding demo_ticket_def
  using security_step_ok [OF demo_auth_inv security_step.issue_ticket [OF surjective_pairing]] by blast

lemma demo_ticket_consumed: "fst (run_tx (consume_ticket plain_crypto 6 (asc ''t'')) demo_ticket) = Inr 1"
  by code_simp

lemma demo_socket_opens:
  "\<exists>r'. open_socket plain_realtime 6 8 (Some (asc ''t'')) q g (demo_voice\<lparr>store := demo_ticket\<rparr>) = (Inr (), r')"
proof -
  obtain d1 where "run_tx (consume_ticket plain_crypto 6 (asc ''t'')) demo_ticket = (Inr 1, d1)"
    using demo_ticket_consumed by (metis prod.collapse)
  moreover have "asc ''t'' \<noteq> []" by code_simp
  ultimately show ?thesis by (simp add: open_socket_def plain_realtime_def Let_def split: prod.split)
qed

theorem ticket_opens_one_socket_witness:
  "\<exists>r'. open_socket plain_realtime 6 8 (Some (asc ''t'')) None None (demo_voice\<lparr>store := demo_ticket\<rparr>) = (Inr (), r')
     \<and> fst (open_socket plain_realtime 7 9 (Some (asc ''t'')) None None r') = Inl 4401"
proof -
  obtain r' where r: "open_socket plain_realtime 6 8 (Some (asc ''t'')) None None (demo_voice\<lparr>store := demo_ticket\<rparr>) = (Inr (), r')"
    using demo_socket_opens by blast
  have i: "sec_inv (store (demo_voice\<lparr>store := demo_ticket\<rparr>))" by (simp add: demo_ticket_inv)
  show ?thesis using r ticket_opens_one_socket [OF i r rtranclp.rtrancl_refl] by blast
qed

theorem parked_session_resumes_witness:
  "\<exists>r'. open_socket plain_realtime 6 8 (Some (asc ''t'')) (Some (uuid_str 7)) (Some (asc ''2''))
       (park (demo_voice\<lparr>store := demo_ticket\<rparr>)) = (Inr (), r')
     \<and> cn_generation (con r') = 2 \<and> cn_conversation_id (con r') = Some 7"
proof -
  let ?r = "demo_voice\<lparr>store := demo_ticket\<rparr>"
  obtain x r' where o: "open_socket plain_realtime 6 8 (Some (asc ''t'')) (Some (uuid_str 7)) (Some (asc ''2'')) (park ?r) = (x, r')"
    by fastforce
  obtain d1 where d: "run_tx (consume_ticket plain_crypto 6 (asc ''t'')) demo_ticket = (Inr 1, d1)"
    using demo_ticket_consumed by (metis prod.collapse)
  have c: "cn_account_id (con ?r) = 1" "cn_generation (con ?r) = 1" "cn_conversation_id (con ?r) = Some 7"
    "cn_sequence (con ?r) = 0" by (simp_all add: demo_voice_def new_connection_def)
  have t: "asc ''t'' \<noteq> []" by code_simp
  have b: "(7::nat) < 2 ^ 128" by simp
  have d': "run_tx (consume_ticket (re_crypto plain_realtime) 6 (asc ''t'')) (store ?r) = (Inr (cn_account_id (con ?r)), d1)"
    using d c(1) by (simp add: plain_realtime_def)
  have g: "re_parse_int plain_realtime (asc ''2'') = Some (cn_generation (con ?r) + 1)"
    using c(2) by (simp add: plain_realtime_def)
  have m: "ce_resume_cursor (demo_event ''session.resume'' 1) = Some 0" "0 \<le> cn_sequence (con ?r)"
    using c(4) by (simp_all add: demo_event_def)
  from parked_session_resumes [OF c(3) b t d' g o m] show ?thesis using o c(2) by simp
qed

end
