(* ===== verification/ExportTheorems.thy ===== *)
theory ExportTheorems
  imports Exports
begin

text \<open>
  What exports guarantee: files are written only into the directory of the account, unless a symbolic
  link stands at the temporary name, the bytes a download sends are the export, purging removes the files of expired exports, and an export holds
  nothing of other accounts.
\<close>

section \<open>Files and paths\<close>

lemma fs_read_write [simp]: "fs_read p (fs_write q b fs) = (if p = q then Some b else fs_read p fs)"
  by (induction fs) (auto simp: fs_read_def fs_write_def)

lemma fs_read_remove [simp]: "fs_read p (fs_remove q fs) = (if p = q then None else fs_read p fs)"
  by (induction fs) (auto simp: fs_read_def fs_remove_def)

lemma below_trans: "below a b \<Longrightarrow> below b c \<Longrightarrow> below a c"
  by (auto simp: below_def min_def) (metis min.absorb1 nat_less_le take_take)

lemma below_temporary:
  assumes "below a p"
  shows "below a (temporary_path p)"
proof -
  have l: "length a \<le> length (butlast p)" using assms by (auto simp: below_def)
  then have "take (length a) (butlast p) = a"
    using assms by (simp add: below_def butlast_conv_take)
  with l show ?thesis by (simp add: below_def temporary_path_def)
qed

lemma below_nonempty: "below a p \<Longrightarrow> p \<noteq> []"
  by (auto simp: below_def)

lemma temporary_path_neq: "p \<noteq> [] \<Longrightarrow> temporary_path p \<noteq> p"
  by (cases p rule: rev_cases) (auto simp: temporary_path_def asc_def)

text \<open>The components of a path that a file system can return.\<close>

definition component :: "pystr \<Rightarrow> bool" where
  "component c \<longleftrightarrow> c \<noteq> [] \<and> c \<noteq> [46] \<and> 47 \<notin> set c"

lemma split_slash_component: "47 \<notin> set c \<Longrightarrow> split_slash acc (c @ 47 # s) = (acc @ c) # split_slash [] s"
  by (induction c arbitrary: acc) auto

lemma split_slash_last: "47 \<notin> set c \<Longrightarrow> split_slash acc c = [acc @ c]"
  by (induction c arbitrary: acc) auto

lemma split_slash_path:
  "list_all component p \<Longrightarrow> split_slash [] (path_str p) = [] # p"
proof (induction p)
  case (Cons c p)
  then have c: "47 \<notin> set c" and IH: "split_slash [] (path_str p) = [] # p" by (auto simp: component_def)
  show ?case
  proof (cases p)
    case Nil
    then show ?thesis using c by (simp add: path_str_def split_slash_last)
  next
    case (Cons x q)
    then have s: "path_str p = 47 # x @ path_str q" by (simp add: path_str_def)
    then have "split_slash [] (c @ path_str p) = c # split_slash [] (x @ path_str q)"
      using split_slash_component [OF c, of "[]" "x @ path_str q"] by simp
    with IH s show ?thesis by (simp add: path_str_def)
  qed
qed (simp add: path_str_def)

lemma path_of_str: "list_all component p \<Longrightarrow> path_of (path_str p) = p"
  by (simp add: path_of_def split_slash_path) (auto simp: list_all_iff component_def)

lemma path_str_nonempty: "p \<noteq> [] \<Longrightarrow> path_str p \<noteq> []"
  by (cases p) (simp_all add: path_str_def)

section \<open>Properties\<close>

lemma write_export_frame:
  assumes "write_export xe target b fs = (res, fs')" "p \<noteq> target" "p \<noteq> temporary_path target"
    and "p \<noteq> xe_resolve xe (temporary_path target)"
  shows "fs_read p fs' = fs_read p fs"
  using assms by (auto simp: write_export_def Let_def split: if_splits)

text \<open>C21. Generating an export leaves every file outside the directory of its account, which lies below
  the export directory, as it is, wherever symbolic links lead, with one exception: when a link stands
  at the temporary name beside the target, the file this link leads to.\<close>

theorem export_confined:
  assumes "export_generate env xe digest now i d fs = (res, d', fs')"
    and "fs_read p fs' \<noteq> fs_read p fs"
  shows "\<exists>r. get_row i (exports d) = Some r \<and> below (xe_root xe) (account_directory xe r)
    \<and> (below (account_directory xe r) p \<and> below (xe_root xe) p
       \<or> p = xe_resolve xe (temporary_path (export_target xe r))
         \<and> xe_resolve xe (temporary_path (export_target xe r)) \<noteq> temporary_path (export_target xe r))"
proof -
  have "\<exists>r b res1. get_row i (exports d) = Some r \<and> below (xe_root xe) (account_directory xe r)
      \<and> below (account_directory xe r) (export_target xe r)
      \<and> write_export xe (export_target xe r) b fs = (res1, fs')"
    using assms
    by (auto simp: export_generate_def Let_def split: option.splits if_splits sum.splits prod.splits)
  then obtain r b res1 where r: "get_row i (exports d) = Some r"
      "below (xe_root xe) (account_directory xe r)" "below (account_directory xe r) (export_target xe r)"
      and w: "write_export xe (export_target xe r) b fs = (res1, fs')" by blast
  let ?tmp = "temporary_path (export_target xe r)"
  consider "p = export_target xe r \<or> p = ?tmp" | "p = xe_resolve xe ?tmp" "p \<noteq> ?tmp"
    using write_export_frame [OF w] assms(2) by blast
  then show ?thesis
  proof cases
    case 1
    then have "below (account_directory xe r) p" using r(3) by (auto intro: below_temporary)
    with r(1,2) show ?thesis by (blast intro: below_trans)
  next
    case 2
    with r(1,2) show ?thesis by blast
  qed
qed

lemma write_export_ok:
  assumes "\<And>s. xe_ok xe s" "xe_resolve xe (temporary_path target) \<noteq> target"
  obtains fs' where "write_export xe target b fs = (Inr (), fs')" "fs_read target fs' = Some b"
    "\<And>p. p \<noteq> target \<Longrightarrow> p \<noteq> temporary_path target \<Longrightarrow> p \<noteq> xe_resolve xe (temporary_path target)
       \<Longrightarrow> fs_read p fs' = fs_read p fs"
    "xe_resolve xe (temporary_path target) \<noteq> temporary_path target
       \<Longrightarrow> fs_read (xe_resolve xe (temporary_path target)) fs' = Some b"
  using assms by (simp add: write_export_def Let_def)

text \<open>The state of a generated record, and what generating does when nothing fails.\<close>

definition generated :: "export_env \<Rightarrow> (bytes \<Rightarrow> pystr) \<Rightarrow> instant \<Rightarrow> bytes \<Rightarrow> export_record \<Rightarrow> export_record" where
  "generated xe digest now b r =
     r\<lparr>ex_file_path := Some (path_str (export_target xe r)), ex_file_digest := Some (digest b),
       ex_state := ''completed'', ex_completed_at := Some now, version := version r + 1\<rparr>"

lemma generated_sel [simp]:
  "row_id (generated xe digest now b r) = row_id r"
  "ex_account_id (generated xe digest now b r) = ex_account_id r"
  "ex_file_path (generated xe digest now b r) = Some (path_str (export_target xe r))"
  "ex_file_digest (generated xe digest now b r) = Some (digest b)"
  "ex_state (generated xe digest now b r) = ''completed''"
  "ex_expires_at (generated xe digest now b r) = ex_expires_at r"
  by (simp_all add: generated_def)

lemma export_generated:
  assumes "get_row i (exports d) = Some r"
    and "ex_state r \<noteq> ''completed''" "ex_expires_at r = Some t" "now < t" "\<And>s. xe_ok xe s"
    and "below (xe_root xe) (account_directory xe r)" "below (account_directory xe r) (export_target xe r)"
    and "xe_resolve xe (temporary_path (export_target xe r)) \<noteq> export_target xe r"
    and "utf8_encode (export_text env xe now r d) = Inr b"
  obtains fs' where
    "export_generate env xe digest now i d fs
       = (Inr (), d\<lparr>exports := save_row now (generated xe digest now b r) (exports d)\<rparr>, fs')"
    "fs_read (export_target xe r) fs' = Some b"
    "xe_resolve xe (temporary_path (export_target xe r)) \<noteq> temporary_path (export_target xe r)
       \<Longrightarrow> fs_read (xe_resolve xe (temporary_path (export_target xe r))) fs' = Some b"
proof -
  let ?t = "export_target xe r"
  obtain fs' where w: "write_export xe ?t b fs = (Inr (), fs')" "fs_read ?t fs' = Some b"
      "xe_resolve xe (temporary_path ?t) \<noteq> temporary_path ?t
         \<Longrightarrow> fs_read (xe_resolve xe (temporary_path ?t)) fs' = Some b"
    using write_export_ok [OF assms(5,8)] by metis
  have "export_generate env xe digest now i d fs
      = (Inr (), d\<lparr>exports := save_row now (generated xe digest now b r) (exports d)\<rparr>, fs')"
    unfolding export_generate_def Let_def generated_def using assms w(1) by simp
  then show ?thesis using w(2,3) by (rule that)
qed

text \<open>The exception is real: a link at the temporary name lets the export of the account be written to
  where the link leads, inside the export directory or not.\<close>

lemma temporary_link_followed:
  assumes "get_row i (exports d) = Some r"
    and "ex_state r \<noteq> ''completed''" "ex_expires_at r = Some t" "now < t" "\<And>s. xe_ok xe s"
    and "below (xe_root xe) (account_directory xe r)" "below (account_directory xe r) (export_target xe r)"
    and "utf8_encode (export_text env xe now r d) = Inr b"
    and "xe_resolve xe (temporary_path (export_target xe r)) = q"
    and "q \<noteq> temporary_path (export_target xe r)" "q \<noteq> export_target xe r"
  shows "\<exists>d' fs'. export_generate env xe digest now i d fs = (Inr (), d', fs') \<and> fs_read q fs' = Some b"
proof -
  have ne: "xe_resolve xe (temporary_path (export_target xe r)) \<noteq> export_target xe r"
    using assms(9,11) by simp
  show ?thesis
    by (rule export_generated [OF assms(1-7) ne assms(8), of digest fs]) (use assms(9,10) in auto)
qed


text \<open>A record of account 7 for its memory items, in a store without symbolic links.\<close>

definition demo_export :: export_record where
  "demo_export = \<lparr>row_id = 1, created_at = 0, updated_at = 0, version = 1, ex_account_id = 7,
     ex_kind = ''memory'', ex_state = ''queued'', ex_format = ''json'', ex_scope = [], ex_file_path = None,
     ex_file_digest = None, ex_expires_at = Some 100, ex_completed_at = None, ex_error_code = None\<rparr>"

definition demo_store :: export_env where
  "demo_store = \<lparr>xe_root = [asc ''exports''], xe_resolve = filter component, xe_ok = (\<lambda>_. True),
     xe_partial = (\<lambda>b. b), xe_str_instant = (\<lambda>t. int_str t), xe_float = (\<lambda>_. [])\<rparr>"

lemma component_uuid: "component (uuid_str u)"
proof -
  have "uuid_str u \<noteq> []" "uuid_str u \<noteq> [46]" by (auto simp: uuid_str_def Let_def)
  moreover have "47 \<notin> set (uuid_str u)" using set_uuid_str by fastforce
  ultimately show ?thesis by (simp add: component_def)
qed

lemma component_export_name: "component (uuid_str u @ [46] @ asc ''json'')"
  using component_uuid [of u] by (auto simp: component_def asc_def)

lemma demo_target:
  "account_directory demo_store demo_export = [asc ''exports'', uuid_str 7]"
  "export_target demo_store demo_export = [asc ''exports'', uuid_str 7, uuid_str 1 @ [46] @ asc ''json'']"
proof -
  have e: "component (asc ''exports'')" by (simp add: component_def asc_def)
  then show a: "account_directory demo_store demo_export = [asc ''exports'', uuid_str 7]"
    by (simp add: account_directory_def demo_store_def demo_export_def component_uuid)
  show "export_target demo_store demo_export = [asc ''exports'', uuid_str 7, uuid_str 1 @ [46] @ asc ''json'']"
    using e component_export_name [of 1]
    by (simp add: export_target_def a) (simp add: demo_store_def demo_export_def component_uuid)
qed

lemma demo_below:
  "below (xe_root demo_store) (account_directory demo_store demo_export)"
  "below (account_directory demo_store demo_export) (export_target demo_store demo_export)"
proof -
  have "xe_root demo_store = [asc ''exports'']" by (simp add: demo_store_def)
  then show "below (xe_root demo_store) (account_directory demo_store demo_export)"
    "below (account_directory demo_store demo_export) (export_target demo_store demo_export)"
    by (simp_all add: demo_target below_def)
qed

lemma demo_temporary:
  "xe_resolve demo_store (temporary_path (export_target demo_store demo_export)) \<noteq> export_target demo_store demo_export"
proof -
  have "component ((uuid_str 1 @ [46] @ asc ''json'') @ asc ''.tmp'')"
    using component_uuid [of 1] by (auto simp: component_def asc_def)
  moreover have "component (asc ''exports'')" by (simp add: component_def asc_def)
  ultimately show ?thesis
    by (simp add: temporary_path_def demo_target) (simp add: demo_store_def component_uuid)
qed

definition demo_exports :: db where
  "demo_exports = empty_db\<lparr>exports := [demo_export]\<rparr>"

lemma demo_exports_sel:
  "get_row 1 (exports demo_exports) = Some demo_export" "keyed 2 (exports demo_exports)"
  "ex_state demo_export \<noteq> ''completed''" "ex_expires_at demo_export = Some 100" "ex_account_id demo_export = 7"
  "xe_ok demo_store s" "list_all component (xe_resolve demo_store p)"
  "xe_resolve demo_store (xe_resolve demo_store p) = xe_resolve demo_store p"
  by (simp_all add: demo_exports_def demo_export_def demo_store_def keyed_def list_all_iff)

lemma demo_text: "encodable (export_text plain_env demo_store 5 demo_export demo_exports)"
  by (simp add: export_text_def export_payload_def export_items_def demo_export_def demo_exports_def
      empty_db_def demo_store_def at_time_def jstr_def quoted_def newline_def escape_char_def asc_def
      int_str_def nat_str.simps encodable_def surrogate_def numeral_2_eq_2)


theorem export_confined_witness:
  "\<exists>d' fs'. export_generate plain_env demo_store (\<lambda>b. b) 5 1 demo_exports [] = (Inr (), d', fs')
     \<and> fs_read (export_target demo_store demo_export) fs' \<noteq> None
     \<and> (\<exists>r. get_row 1 (exports demo_exports) = Some r \<and> below (xe_root demo_store) (account_directory demo_store r))"
proof -
  obtain b where enc: "utf8_encode (export_text plain_env demo_store 5 demo_export demo_exports) = Inr b"
    using demo_text by (simp add: utf8_encode_def)
  have lt: "5 < (100 :: instant)" by simp
  obtain d' fs' where g: "export_generate plain_env demo_store (\<lambda>b. b) 5 1 demo_exports [] = (Inr (), d', fs')"
    and f: "fs_read (export_target demo_store demo_export) fs' = Some b"
    by (rule export_generated [OF demo_exports_sel(1,3,4) lt demo_exports_sel(6) demo_below demo_temporary enc])
  have "fs_read (export_target demo_store demo_export) fs' \<noteq> fs_read (export_target demo_store demo_export) []"
    using f by (simp add: fs_read_def)
  from export_confined [OF g this] g f show ?thesis by blast
qed

section \<open>Purging\<close>

lemma unlink_read:
  "fs_read p (unlink_export xe r fs) =
     (case ex_file_path r of
        None \<Rightarrow> fs_read p fs
      | Some s \<Rightarrow> if s \<noteq> [] \<and> p = xe_resolve xe (path_of s) \<and> below (xe_root xe) p then None else fs_read p fs)"
  by (auto simp: unlink_export_def Let_def split: option.split)

definition unlinked :: "export_env \<Rightarrow> path \<Rightarrow> export_record \<Rightarrow> bool" where
  "unlinked xe p r \<longleftrightarrow>
     (case ex_file_path r of None \<Rightarrow> False
      | Some s \<Rightarrow> s \<noteq> [] \<and> p = xe_resolve xe (path_of s) \<and> below (xe_root xe) p)"

lemma unlink_all_read:
  "fs_read p (foldl (\<lambda>fs r. unlink_export xe r fs) fs rs)
     = (if \<exists>r \<in> set rs. unlinked xe p r then None else fs_read p fs)"
proof (induction rs arbitrary: fs)
  case (Cons r rs)
  then show ?case by (auto simp: unlink_read unlinked_def split: option.splits)
qed simp

text \<open>A purge removes the files of all expired exports and nothing else: afterwards no export is
  due for a purge, and a path has lost its content exactly if it lies below the export directory and
  is the file of an expired export.\<close>

theorem export_purge_exact:
  assumes "export_purge xe now d fs = (d', fs')"
  shows "(\<forall>r \<in> set (exports d'). \<not> purgeable now r)
    \<and> (\<forall>p. fs_read p fs' =
         (if \<exists>r \<in> set (exports d). purgeable now r \<and> unlinked xe p r then None else fs_read p fs))
    \<and> map row_id (exports d') = map row_id (exports d)
    \<and> (\<forall>r \<in> set (exports d). \<not> purgeable now r \<longrightarrow> r \<in> set (exports d'))"
proof -
  let ?f = "\<lambda>r. r\<lparr>ex_state := ''expired'', ex_file_path := None, version := version r + 1, updated_at := now\<rparr>"
  have e: "exports d' = update_where (purgeable now) ?f (exports d)"
    and f: "fs' = foldl (\<lambda>fs r. unlink_export xe r fs) fs (filter (purgeable now) (exports d))"
    using assms by (auto simp: export_purge_def)
  have "\<not> purgeable now (?f r)" for r by (simp add: purgeable_def)
  then have "\<forall>r \<in> set (exports d'). \<not> purgeable now r"
    unfolding e by (auto simp: update_where_def)
  moreover have "\<forall>r \<in> set (exports d). \<not> purgeable now r \<longrightarrow> r \<in> set (exports d')"
    unfolding e update_where_def by force
  moreover have "map row_id (exports d') = map row_id (exports d)"
    unfolding e by (simp add: update_where_def comp_def cong: map_cong if_cong)
  moreover have "\<forall>p. fs_read p fs' =
         (if \<exists>r \<in> set (exports d). purgeable now r \<and> unlinked xe p r then None else fs_read p fs)"
    unfolding f unlink_all_read by auto
  ultimately show ?thesis by blast
qed

text \<open>An export that expired before its file was recorded keeps its file: after a failed commit
  the file has no record, and no later purge looks for it.\<close>

lemma unrecorded_file_survives:
  assumes "export_purge xe now d fs = (d', fs')" "\<forall>r \<in> set (exports d). ex_file_path r = None"
  shows "fs' = fs"
proof -
  have "foldl (\<lambda>fs r. unlink_export xe r fs) fs rs = fs" if "set rs \<subseteq> set (exports d)" for rs
    using that assms(2) by (induction rs) (auto simp: unlink_export_def)
  with assms(1) show ?thesis by (auto simp: export_purge_def)
qed

section \<open>Isolation\<close>

text \<open>Two databases that agree on what an account owns, on the audit log and on the open settings.\<close>

definition same_view :: "uuid \<Rightarrow> db \<Rightarrow> db \<Rightarrow> bool" where
  "same_view acc d e \<longleftrightarrow>
     filter (\<lambda>cv. cv_account_id cv = acc) (conversations d) = filter (\<lambda>cv. cv_account_id cv = acc) (conversations e)
   \<and> (\<forall>cv \<in> set (conversations d). cv_account_id cv = acc \<longrightarrow>
        filter (\<lambda>m. ms_conversation_id m = row_id cv) (messages d)
          = filter (\<lambda>m. ms_conversation_id m = row_id cv) (messages e))
   \<and> filter (\<lambda>i. mi_account_id i = acc) (memories d) = filter (\<lambda>i. mi_account_id i = acc) (memories e)
   \<and> (\<forall>i \<in> set (memories d). mi_account_id i = acc \<longrightarrow>
        filter (\<lambda>v. mv_memory_id v = row_id i) (memory_versions d)
          = filter (\<lambda>v. mv_memory_id v = row_id i) (memory_versions e)
      \<and> filter (\<lambda>s. mo_memory_id s = row_id i) (memory_sources d)
          = filter (\<lambda>s. mo_memory_id s = row_id i) (memory_sources e))
   \<and> audit_events d = audit_events e
   \<and> filter open_setting (settings d) = filter open_setting (settings e)"

text \<open>What an export holds depends only on what its account owns, on the audit log and on the
  settings that are not secret: databases that agree on these have the same export. So it reveals
  nothing of other accounts, no credential, token or encrypted key.\<close>

theorem export_isolated:
  assumes "same_view (ex_account_id r) d e"
  shows "export_text env xe now r d = export_text env xe now r e"
proof -
  let ?acc = "ex_account_id r"
  have cv: "conversation_item xe d cv = conversation_item xe e cv"
    if "cv \<in> set (conversations d)" "cv_account_id cv = ?acc" for cv
    using assms that by (simp add: conversation_item_def same_view_def)
  have mi: "memory_item_of xe d i = memory_item_of xe e i"
    if "i \<in> set (memories d)" "mi_account_id i = ?acc" for i
    using assms that by (simp add: memory_item_of_def same_view_def)
  have c: "map (conversation_item xe d) (sort_key cv_started_at (filter (\<lambda>cv. cv_account_id cv = ?acc) (conversations d)))
      = map (conversation_item xe e) (sort_key cv_started_at (filter (\<lambda>cv. cv_account_id cv = ?acc) (conversations e)))"
  proof -
    have f: "filter (\<lambda>cv. cv_account_id cv = ?acc) (conversations e)
        = filter (\<lambda>cv. cv_account_id cv = ?acc) (conversations d)"
      using assms by (simp add: same_view_def)
    show ?thesis unfolding f by (rule map_cong [OF refl]) (simp add: cv)
  qed
  have m: "map (memory_item_of xe d) (sort_key created_at (filter (\<lambda>i. mi_account_id i = ?acc) (memories d)))
      = map (memory_item_of xe e) (sort_key created_at (filter (\<lambda>i. mi_account_id i = ?acc) (memories e)))"
  proof -
    have f: "filter (\<lambda>i. mi_account_id i = ?acc) (memories e) = filter (\<lambda>i. mi_account_id i = ?acc) (memories d)"
      using assms by (simp add: same_view_def)
    show ?thesis unfolding f by (rule map_cong [OF refl]) (simp add: mi)
  qed
  have "export_items xe r d = export_items xe r e"
    using assms c m by (simp add: export_items_def same_view_def)
  then show ?thesis by (simp add: export_text_def export_payload_def)
qed

text \<open>An item of account 8 does not change the export of account 7.\<close>

definition foreign_item :: memory_item where
  "foreign_item = \<lparr>row_id = 5, created_at = 0, updated_at = 0, version = 1, mi_account_id = 8,
     mi_content = asc ''private'', mi_category = Note, mi_state = MActive, mi_origin_type = Manual,
     mi_event_at = None, mi_valid_from = None, mi_valid_until = None, mi_original_expression = None,
     mi_keywords = [], mi_merged_into_id = None, mi_deleted_at = None, mi_purge_after = None,
     mi_confirmed_at = None\<rparr>"

theorem export_isolated_witness:
  "export_text plain_env demo_store 5 demo_export demo_exports
     = export_text plain_env demo_store 5 demo_export (demo_exports\<lparr>memories := [foreign_item]\<rparr>)"
proof (rule export_isolated)
  show "same_view (ex_account_id demo_export) demo_exports (demo_exports\<lparr>memories := [foreign_item]\<rparr>)"
    by (simp add: same_view_def foreign_item_def demo_export_def demo_exports_def empty_db_def)
qed

theorem export_purge_exact_witness:
  "\<exists>d' fs'. export_purge demo_store 200 (demo_exports\<lparr>exports := [generated demo_store (\<lambda>b. []) 5 [1] demo_export]\<rparr>)
       [(export_target demo_store demo_export, [1])] = (d', fs')
     \<and> fs_read (export_target demo_store demo_export) fs' = None"
proof -
  let ?r = "generated demo_store (\<lambda>b. []) 5 [1] demo_export"
  let ?d = "demo_exports\<lparr>exports := [?r]\<rparr>"
  let ?t = "export_target demo_store demo_export"
  obtain d' fs' where p: "export_purge demo_store 200 ?d [(?t, [1])] = (d', fs')" by (cases "export_purge demo_store 200 ?d [(?t, [1])]") auto
  have c: "list_all component ?t" by (simp only: export_target_def demo_exports_sel(7))
  have "purgeable 200 ?r" by (simp add: purgeable_def demo_exports_sel(4))
  moreover have "unlinked demo_store ?t ?r"
  proof -
    have "xe_resolve demo_store ?t = ?t" unfolding export_target_def by (rule demo_exports_sel(8))
    moreover have "below (xe_root demo_store) ?t" using demo_below by (rule below_trans)
    moreover have "path_str ?t \<noteq> []" using demo_below(2) by (intro path_str_nonempty below_nonempty)
    ultimately show ?thesis by (simp add: unlinked_def path_of_str [OF c])
  qed
  ultimately have "fs_read ?t fs' = None" using export_purge_exact [OF p] by auto
  with p show ?thesis by blast
qed

end
