(* ===== verification/OrchestrationProps.thy ===== *)
theory OrchestrationProps
  imports Orchestration
begin

text \<open>
  Lemmas on the orchestration: the frame of an answer, the bound of its model calls, the origin of
  the sources it names, the life of an action in the transition system \<open>orch_step\<close>, and the run that
  a finished answer leaves. The properties are in \<open>OrchestrationTheorems\<close>.
\<close>

section \<open>The context window\<close>

lemma take_context_prefix: "\<exists>rest. ms = take_context b s u ms @ rest"
  by (induction b s u ms rule: take_context.induct) auto

lemma take_context_budget:
  "s \<Longrightarrow> u \<le> b \<Longrightarrow> u + sum_list (map (\<lambda>m. int (length (ms_content m))) (take_context b s u ms)) \<le> b"
  by (induction b s u ms rule: take_context.induct) (auto simp: add.assoc)

lemma take_context_maximal:
  assumes "ms = take_context b s u ms @ m # rest"
  shows "b < u + sum_list (map (\<lambda>m. int (length (ms_content m))) (take_context b s u ms)) + int (length (ms_content m))"
  using assms
proof (induction b s u ms rule: take_context.induct)
  case (2 b s u x ms)
  then show ?case by (auto split: if_splits simp: add.assoc)
qed simp

section \<open>What an answer may change\<close>

text \<open>The tables an answer never writes, and what it may add to the actions and the messages.\<close>

definition untouched :: "db \<Rightarrow> db" where
  "untouched d = d\<lparr>next_id := 0, runs := [], attempts := [], actions := [], messages := [],
     conversations := [], audit_events := []\<rparr>"

definition proposal :: "crypto \<Rightarrow> instant \<Rightarrow> tool_action \<Rightarrow> bool" where
  "proposal c now a \<longleftrightarrow>
     ta_state a = APending \<and> ta_confirmation_required a \<and> ta_name a \<in> set STATE_TOOLS
   \<and> ta_expires_at a = Some (now + minutes 10) \<and> ta_confirmed_at a = None \<and> version a = 1
   \<and> ta_arguments_hash a = canonical_digest c (ta_arguments a)"

definition answer_effect :: "crypto \<Rightarrow> instant \<Rightarrow> db \<Rightarrow> db \<Rightarrow> bool" where
  "answer_effect c now d d' \<longleftrightarrow>
     untouched d' = untouched d
   \<and> (\<exists>as. actions d' = actions d @ as \<and> list_all (proposal c now) as)
   \<and> (\<exists>ms. messages d' = messages d @ ms \<and> list_all (\<lambda>m. ms_role m = ''assistant'') ms)
   \<and> next_id d \<le> next_id d'
   \<and> (keyed (next_id d) (actions d) \<longrightarrow> keyed (next_id d') (actions d'))
   \<and> (keyed (next_id d) (messages d) \<longrightarrow> keyed (next_id d') (messages d'))"

lemma answer_effect_refl [simp]: "answer_effect c now d d"
  by (simp add: answer_effect_def)

lemma answer_effect_trans [trans]:
  assumes "answer_effect c now a b" "answer_effect c now b d"
  shows "answer_effect c now a d"
proof -
  obtain xs ys where "actions b = actions a @ xs" "list_all (proposal c now) xs"
      "actions d = actions b @ ys" "list_all (proposal c now) ys"
    using assms by (auto simp: answer_effect_def)
  then have a: "\<exists>as. actions d = actions a @ as \<and> list_all (proposal c now) as"
    by (intro exI [of _ "xs @ ys"]) simp
  obtain xs ys where "messages b = messages a @ xs" "list_all (\<lambda>m. ms_role m = ''assistant'') xs"
      "messages d = messages b @ ys" "list_all (\<lambda>m. ms_role m = ''assistant'') ys"
    using assms by (auto simp: answer_effect_def)
  then have m: "\<exists>ms. messages d = messages a @ ms \<and> list_all (\<lambda>m. ms_role m = ''assistant'') ms"
    by (intro exI [of _ "xs @ ys"]) simp
  have n: "next_id a \<le> next_id d" using assms unfolding answer_effect_def by linarith
  show ?thesis using a m n assms unfolding answer_effect_def by metis
qed

lemma answer_effectI:
  "untouched d' = untouched d \<Longrightarrow> actions d' = actions d \<Longrightarrow> messages d' = messages d \<Longrightarrow>
     next_id d \<le> next_id d' \<Longrightarrow> answer_effect c now d d'"
  by (auto simp: answer_effect_def intro: keyed_mono)

lemma set_run_effect [intro]: "answer_effect c now d (set_run t rid f d)"
  by (rule answer_effectI) (simp_all add: set_run_def untouched_def)

lemma audit_effect [intro]: "answer_effect c now d (audit_append c' t ctx ety res tty tid det d)"
  by (rule answer_effectI) (simp_all add: audit_append_def untouched_def)

lemma open_attempt_effect: "answer_effect c now d (open_attempt t rid pv mdl d)"
  by (rule answer_effectI) (simp_all add: open_attempt_def untouched_def set_run_def fresh_def Let_def)

lemma set_attempt_effect: "answer_effect c now d (set_attempt aid f d)"
  by (rule answer_effectI) (simp_all add: set_attempt_def untouched_def)

lemma call_model_effect: "answer_effect c now d (snd (call_model env t rid pv mdl prompt ms d))"
  using answer_effect_trans [OF open_attempt_effect set_attempt_effect]
  by (auto simp: call_model_def Let_def split: sum.split prod.split)

lemma decide_effect: "answer_effect c now d (snd (decide env t rid acc pv mdl cv ms src bundle d))"
proof -
  have call: "call_model env t rid pv mdl p ms x = (r, y) \<Longrightarrow> answer_effect c now x y" for p x r y
    using call_model_effect by (metis snd_conv)
  show ?thesis
    unfolding decide_def Let_def
    by (auto split: prod.split sum.split
        intro: call answer_effect_trans [OF call] answer_effect_trans [OF set_run_effect call])
qed

lemma state_calls_names: "t \<in> set (state_calls dec) \<Longrightarrow> tl_name t \<in> set STATE_TOOLS"
  by (auto simp: state_calls_def Let_def STATE_TOOLS_def split: option.splits if_splits)

text \<open>A reflexive and transitive relation that adding one action satisfies relates the states
  before and after the loop.\<close>

lemma add_actions_rel:
  assumes "\<And>x. R x x" "\<And>x y z. R x y \<Longrightarrow> R y z \<Longrightarrow> R x z"
    and "\<And>x k call norm. call \<in> set calls \<Longrightarrow>
      R x ((fresh x)\<lparr>actions := actions x @ [new_action c now rid k (tl_name call) norm x]\<rparr>)"
  shows "R d (snd (add_actions env c now rid acc cv src index calls d))"
  using assms(3)
proof (induction calls arbitrary: d index)
  case (Cons call calls)
  show ?case
  proof (cases "normalize_action env acc call cv src d")
    case (Inl e)
    then show ?thesis by (simp add: assms(1))
  next
    case (Inr norm)
    let ?d = "(fresh d)\<lparr>actions := actions d @ [new_action c now rid index (tl_name call) norm d]\<rparr>"
    have "R d ?d" using Cons.prems by simp
    moreover have "R ?d (snd (add_actions env c now rid acc cv src (Suc index) calls ?d))"
      using Cons.prems by (intro Cons.IH) auto
    ultimately have "R d (snd (add_actions env c now rid acc cv src (Suc index) calls ?d))" by (rule assms(2))
    then show ?thesis using Inr by (auto simp: Let_def split: prod.split sum.split)
  qed
qed (simp add: assms(1))

lemma add_actions_effect:
  assumes "\<forall>t \<in> set calls. tl_name t \<in> set STATE_TOOLS"
  shows "answer_effect c now d (snd (add_actions env c now rid acc cv src index calls d))"
proof (rule add_actions_rel [of "answer_effect c now", OF answer_effect_refl answer_effect_trans])
  fix x k call norm assume "call \<in> set calls"
  then have "proposal c now (new_action c now rid k (tl_name call) norm x)"
    using assms by (simp add: proposal_def new_action_def Let_def)
  then show "answer_effect c now x
      ((fresh x)\<lparr>actions := actions x @ [new_action c now rid k (tl_name call) norm x]\<rparr>)"
    by (auto simp: answer_effect_def untouched_def fresh_def new_action_def Let_def
        intro: keyed_append_new keyed_mono)
qed

lemma create_actions_effect:
  "answer_effect c now d (snd (create_actions env c now rid acc cv src dec d))"
  using add_actions_effect state_calls_names by (auto simp: create_actions_def)

lemma assistant_turn_effect:
  "answer_effect c now d (snd (add_assistant_turn t cid content key rid interrupted d))"
  by (auto simp: add_assistant_turn_def add_message_def answer_effect_def untouched_def fresh_def Let_def
      intro: keyed_append_new keyed_mono split: option.split)

lemma answer_run_effect:
  "answer_effect c now d (snd (answer_run env c now rid acc pv mdl cv ms src bundle ctx d))"
proof -
  have decide: "decide env now rid acc pv mdl cv ms src bundle d = (r, y) \<Longrightarrow> answer_effect c now d y" for r y
    using decide_effect by (metis snd_conv)
  have create: "create_actions env c now rid acc cv src dec x = (r, y) \<Longrightarrow> answer_effect c now x y" for dec x r y
    using create_actions_effect by (metis snd_conv)
  have turn: "add_assistant_turn now cid content key rid i x = (r, y) \<Longrightarrow> answer_effect c now x y"
    for cid content key i x r y
    using assistant_turn_effect by (metis snd_conv)
  have "answer_effect c now y (audit_append c now ctx ety res tty tid det (set_run now rid f z))"
    if "add_assistant_turn now cid content key rid i (set_run now rid g y) = (r, z)"
    for cid content key i r y z f g ety res tty tid det
    using turn [OF that] by (blast intro: answer_effect_trans)
  note last = this
  show ?thesis
    unfolding answer_run_def Let_def
    by (auto split: prod.split sum.split
        intro: decide answer_effect_trans [OF decide] create answer_effect_trans [OF create]
          answer_effect_trans [OF decide answer_effect_trans [OF create]] last
          answer_effect_trans [OF set_run_effect turn])
qed

lemma open_run_effect: "answer_effect c now d (snd (open_run t acc cid mid pv mdl manifest existing d))"
  by (rule answer_effectI) (simp_all add: open_run_def untouched_def fresh_def split: option.split)

lemma fail_run_effect: "answer_effect c now d (fail_run c' t rid ctx e d)"
  unfolding fail_run_def Let_def by (blast intro: answer_effect_trans)

lemma answer_start_effect:
  "answer_effect c now d (snd (answer_start env c now acc cid mid ctx existing d))"
proof -
  have opened: "open_run now acc cid mid pv mdl manifest existing d = (rid, x) \<Longrightarrow> answer_effect c now d x"
    for pv mdl manifest rid x
    using open_run_effect by (metis snd_conv)
  have run: "answer_run env c now rid acc pv mdl cv ms src bdl ctx x = (r, y) \<Longrightarrow> answer_effect c now x y"
    for rid pv mdl cv ms src bdl x r y
    using answer_run_effect by (metis snd_conv)
  show ?thesis
    unfolding answer_start_def Let_def
    by (auto split: prod.split sum.split option.split
        intro: answer_effect_trans [OF opened run] answer_effect_trans [OF opened answer_effect_trans [OF run fail_run_effect]])
qed

text \<open>An answer is either read from a finished run, or refused, or worked out anew.\<close>

lemma answer_shape:
  "(\<exists>r. answer env c now acc cid mid ctx d = (r, d))
   \<or> (\<exists>ctx'. answer env c now acc cid mid ctx d = answer_start env c now acc cid mid ctx'
        (query_one (\<lambda>r. rn_source_message_id r = mid \<and> rn_account_id r = acc) (runs d)) d)"
  by (auto simp: answer_def Let_def split: option.split run_state.split)

lemma answer_effect: "answer_effect c now d (snd (answer env c now acc cid mid ctx d))"
  using answer_shape [of env c now acc cid mid ctx d] answer_start_effect
  by (metis answer_effect_refl snd_conv)

section \<open>Model calls\<close>

text \<open>What a run of the model leaves of the data it reads.\<close>

definition read_tables :: "db \<Rightarrow> db" where
  "read_tables d = d\<lparr>next_id := 0, runs := [], attempts := []\<rparr>"

lemma call_model_tables:
  "read_tables (snd (call_model env t rid pv mdl prompt ms d)) = read_tables d
   \<and> length (attempts (snd (call_model env t rid pv mdl prompt ms d))) \<le> length (attempts d) + 1"
  by (auto simp: call_model_def open_attempt_def set_attempt_def set_run_def fresh_def update_where_def
      read_tables_def Let_def split: sum.split prod.split)

lemma set_run_tables [simp]:
  "read_tables (set_run t rid f d) = read_tables d" "attempts (set_run t rid f d) = attempts d"
  by (simp_all add: set_run_def read_tables_def)

lemma decide_tables:
  "read_tables (snd (decide env t rid acc pv mdl cv ms src bdl d)) = read_tables d
   \<and> length (attempts (snd (decide env t rid acc pv mdl cv ms src bdl d))) \<le> length (attempts d) + 2"
proof -
  have call: "call_model env t rid pv mdl p ms x = (r, y) \<Longrightarrow>
      read_tables y = read_tables x \<and> length (attempts y) \<le> length (attempts x) + 1" for p x r y
    using call_model_tables by (metis snd_conv)
  show ?thesis
    unfolding decide_def Let_def
    by (auto split: prod.split sum.split dest!: call)
qed

lemma add_actions_attempts: "attempts (snd (add_actions env c t rid acc cv src index calls d)) = attempts d"
  by (rule add_actions_rel [of "\<lambda>x y. attempts y = attempts x"]) (simp_all add: fresh_def)

lemma assistant_turn_attempts: "attempts (snd (add_assistant_turn t cid content key rid i d)) = attempts d"
  by (auto simp: add_assistant_turn_def add_message_def fresh_def Let_def split: option.split)

lemma answer_run_attempts:
  "length (attempts (snd (answer_run env c t rid acc pv mdl cv ms src bdl ctx d))) \<le> length (attempts d) + 2"
proof -
  have decide: "decide env t rid acc pv mdl cv ms src bdl d = (r, y) \<Longrightarrow>
      length (attempts y) \<le> length (attempts d) + 2" for r y
    using decide_tables by (metis snd_conv)
  have create: "create_actions env c t rid acc cv src dec x = (r, y) \<Longrightarrow> attempts y = attempts x" for dec x r y
    using add_actions_attempts by (auto simp: create_actions_def split: if_splits) (metis snd_conv)
  have turn: "add_assistant_turn t cid content key rid i x = (r, y) \<Longrightarrow> attempts y = attempts x"
    for cid content key i x r y
    using assistant_turn_attempts by (metis snd_conv)
  show ?thesis
    unfolding answer_run_def Let_def
    by (auto simp: audit_append_def split: prod.split sum.split dest!: decide create turn)
qed

lemma answer_attempts:
  "length (attempts (snd (answer env c t acc cid mid ctx d))) \<le> length (attempts d) + 2"
proof -
  have run: "answer_run env c t rid acc pv mdl cv ms src bdl ctx' x = (r, y) \<Longrightarrow>
      length (attempts y) \<le> length (attempts x) + 2" for rid pv mdl cv ms src bdl ctx' x r y
    using answer_run_attempts by (metis snd_conv)
  have opened: "open_run t acc cid mid pv mdl manifest existing d = (rid, x) \<Longrightarrow> attempts x = attempts d"
    for pv mdl manifest existing rid x
    by (auto simp: open_run_def fresh_def split: option.splits)
  have "length (attempts (snd (answer_start env c t acc cid mid ctx' existing d))) \<le> length (attempts d) + 2"
    for ctx' existing
    unfolding answer_start_def Let_def
    by (auto simp: fail_run_def audit_append_def Let_def split: prod.split sum.split option.split dest!: run opened)
  then show ?thesis using answer_shape [of env c t acc cid mid ctx d] by (metis le_add1 snd_conv)
qed

section \<open>Where the sources of an answer come from\<close>

definition context_ids :: "uuid \<Rightarrow> uuid \<Rightarrow> db \<Rightarrow> pystr set" where
  "context_ids acc cid d =
     (\<lambda>m. uuid_str (row_id m)) ` {m \<in> set (messages d). ms_conversation_id m = cid}
   \<union> (\<lambda>i. uuid_str (row_id i)) ` {i \<in> set (memories d). mi_account_id i = acc \<and> mi_state i = MActive}
   \<union> (\<lambda>x. uuid_str (row_id x)) ` {x \<in> set (conversations d). cv_account_id x = acc \<and> cv_deleted_at x = None}"

lemma context_messages_subset: "set (context_messages ms b) \<subseteq> set ms"
proof -
  obtain rest where "rev ms = take_context b False 0 (rev ms) @ rest" using take_context_prefix by blast
  then have "set (take_context b False 0 (rev ms)) \<subseteq> set (rev ms)" by (metis set_append sup_ge1)
  then show ?thesis by (simp add: context_messages_def)
qed

lemma context_memories_subset:
  "set (context_memories env acc q d) \<subseteq> {i \<in> set (memories d). mi_account_id i = acc \<and> mi_state i = MActive}"
  by (auto simp: context_memories_def Let_def split: if_splits dest!: in_set_takeD)

lemma uuid_str_Cons: "uuid_str u \<noteq> []"
  by (simp add: uuid_str_def Let_def)

lemma item_ids_tool_result:
  assumes "\<And>r. r \<in> set rows \<Longrightarrow> \<exists>kvs. f r = jobj ((''id'', JStr (g r)) # kvs) \<and> g r \<noteq> []"
  shows "set (item_ids env (tool_result name q (map f rows))) = g ` set rows"
proof -
  have "item_ids env (tool_result name q (map f rows)) = concat (map (item_id env) (map f rows))"
    by (simp add: tool_result_def jobj_def jget_def)
  moreover have "item_id env (f r) = [g r]" if "r \<in> set rows" for r
    using assms [OF that] by (auto simp: item_id_def jobj_def jget_def)
  ultimately show ?thesis by auto
qed

lemma read_tool_ids:
  assumes "read_tool env acc call d = Inr (rs, ids)"
  shows "set ids \<subseteq> context_ids acc cid d \<and> (\<forall>r \<in> set rs. set (item_ids env r) \<subseteq> context_ids acc cid d)"
proof -
  have m: "\<exists>kvs. memory_item_json env i = jobj ((''id'', JStr (uuid_str (row_id i))) # kvs) \<and> uuid_str (row_id i) \<noteq> []" for i
    unfolding memory_item_json_def using uuid_str_Cons by blast
  have h: "\<exists>kvs. conversation_json env x = jobj ((''id'', JStr (uuid_str (row_id x))) # kvs) \<and> uuid_str (row_id x) \<noteq> []" for x
    unfolding conversation_json_def using uuid_str_Cons by blast
  have ms: "set (memory_search lower acc rq ranked d) \<subseteq> {i \<in> set (memories d). mi_account_id i = acc \<and> mi_state i \<in> set (sq_states rq)}"
    for lower rq ranked
    by (auto simp: memory_search_def Let_def split: if_splits dest!: in_set_takeD)
  have hs: "set (search_history lower acc rq ranked d) \<subseteq> {x \<in> set (conversations d). cv_account_id x = acc \<and> cv_deleted_at x = None}"
    for lower rq ranked
    by (auto simp: search_history_def Let_def split: if_splits dest!: in_set_takeD in_set_dropD)
  show ?thesis
    using assms ms hs
    by (fastforce simp: read_tool_def Let_def context_ids_def item_ids_tool_result [OF m] item_ids_tool_result [OF h]
        split: if_splits option.splits)
qed

lemma read_tools_ids:
  assumes "read_tools env acc d calls = Inr (rs, ids)"
  shows "set ids \<subseteq> context_ids acc cid d \<and> (\<forall>r \<in> set rs. set (item_ids env r) \<subseteq> context_ids acc cid d)"
  using assms
proof (induction calls arbitrary: rs ids)
  case (Cons call calls)
  then obtain r1 i1 r2 i2 where "read_tool env acc call d = Inr (r1, i1)" "read_tools env acc d calls = Inr (r2, i2)"
      "rs = r1 @ r2" "ids = i1 @ i2"
    by (auto split: sum.splits prod.splits)
  then show ?case using read_tool_ids [of env acc call d r1 i1 cid] Cons.IH by auto
qed simp

lemma build_context_allowed:
  "set (cb_allowed (build_context env acc cv ms src q results d)) =
     (\<lambda>m. uuid_str (row_id m)) ` set (context_messages ms 45000)
   \<union> (\<lambda>i. uuid_str (row_id i)) ` set (context_memories env acc q d)
   \<union> (\<Union>r \<in> set results. set (item_ids env r))"
  by (simp add: build_context_def Let_def Un_assoc)

lemma build_context_ids:
  assumes "set ms \<subseteq> {m \<in> set (messages d). ms_conversation_id m = cid}"
    and "\<forall>r \<in> set results. set (item_ids env r) \<subseteq> context_ids acc cid d"
  shows "set (cb_allowed (build_context env acc cv ms src q results d)) \<subseteq> context_ids acc cid d"
proof -
  have "(\<lambda>m. uuid_str (row_id m)) ` set (context_messages ms 45000) \<subseteq> context_ids acc cid d"
    using assms(1) context_messages_subset [of ms 45000] unfolding context_ids_def by blast
  moreover have "(\<lambda>i. uuid_str (row_id i)) ` set (context_memories env acc q d) \<subseteq> context_ids acc cid d"
    using context_memories_subset [of env acc q d] unfolding context_ids_def by blast
  ultimately show ?thesis using assms(2) unfolding build_context_allowed by blast
qed

lemma read_tables_fields:
  assumes "read_tables d' = read_tables d"
  shows "messages d' = messages d" "memories d' = memories d" "conversations d' = conversations d"
  using arg_cong [OF assms, of messages] arg_cong [OF assms, of memories] arg_cong [OF assms, of conversations]
  by (simp_all add: read_tables_def)

lemma context_ids_tables: "read_tables d' = read_tables d \<Longrightarrow> context_ids acc cid d' = context_ids acc cid d"
  using read_tables_fields [of d' d] by (simp add: context_ids_def)

lemma decide_sources:
  assumes "decide env t rid acc pv mdl cv ms src bdl d = (Inr (dec, allowed, u), d')"
    and "set ms \<subseteq> {m \<in> set (messages d). ms_conversation_id m = cid}"
    and "set (cb_allowed bdl) \<subseteq> context_ids acc cid d"
  shows "set allowed \<subseteq> context_ids acc cid d"
proof -
  obtain first res1 d1 where c1: "call_model env t rid pv mdl (cb_prompt bdl) ms d = (Inr (first, res1), d1)"
    using assms(1) by (auto simp: decide_def split: prod.splits sum.splits)
  have t1: "read_tables d1 = read_tables d"
    using call_model_tables [of env t rid pv mdl "cb_prompt bdl" ms d] c1 by simp
  let ?reads = "filter (\<lambda>t. tl_name t \<in> set READ_ONLY_TOOLS) (md_tool_calls first)"
  show ?thesis
  proof (cases "?reads = []")
    case True
    then show ?thesis using assms c1 by (auto simp: decide_def Let_def)
  next
    case False
    then obtain results ids where ex: "execute_read_tools env acc ?reads d1 = Inr (results, ids)"
      using assms(1) c1 by (auto simp: decide_def Let_def split: sum.splits)
    have r: "set ids \<subseteq> context_ids acc cid d1" "\<forall>r \<in> set results. set (item_ids env r) \<subseteq> context_ids acc cid d1"
      using read_tools_ids ex unfolding execute_read_tools_def by blast+
    have "set ms \<subseteq> {m \<in> set (messages d1). ms_conversation_id m = cid}"
      using assms(2) read_tables_fields [OF t1] by simp
    note b = build_context_ids [OF this r(2), of cv src "normalize_text (ms_content src)"]
    have "allowed = cb_allowed bdl @ ids @ cb_allowed (build_context env acc cv ms src (normalize_text (ms_content src)) results d1)"
      using assms(1) c1 ex False by (auto simp: decide_def Let_def split: prod.splits sum.splits if_splits)
    then show ?thesis using assms(3) r(1) b context_ids_tables [OF t1] by auto
  qed
qed

lemma validate_sourcesD:
  "validate_sources dec allowed = Inr u \<Longrightarrow> sf_source_id ` set (md_sources dec) \<subseteq> set allowed"
  by (auto simp: validate_sources_def Let_def filter_empty_conv split: if_splits)

lemma answer_run_sources:
  assumes "answer_run env c t rid acc pv mdl cv ms src bdl ctx d = (Inr res, d')"
    and "set ms \<subseteq> {m \<in> set (messages d). ms_conversation_id m = cid}"
    and "set (cb_allowed bdl) \<subseteq> context_ids acc cid d"
  shows "sf_source_id ` set (md_sources (or_decision res)) \<subseteq> context_ids acc cid d"
proof -
  obtain dec allowed u d1 where dec: "decide env t rid acc pv mdl cv ms src bdl d = (Inr (dec, allowed, u), d1)"
      "validate_sources dec allowed = Inr ()" "or_decision res = dec"
    using assms(1) by (auto simp: answer_run_def Let_def split: prod.splits sum.splits)
  show ?thesis
    using decide_sources [OF dec(1) assms(2,3)] validate_sourcesD [OF dec(2)] dec(3) by blast
qed

lemma open_run_tables:
  "read_tables (snd (open_run t acc cid mid pv mdl manifest existing d)) = read_tables d"
  by (simp add: open_run_def read_tables_def fresh_def split: option.split)

lemma answer_startD:
  assumes "answer_start env c t acc cid mid ctx existing d = (Inr res, d')"
  obtains cv src pv mdl rid d1 ms where
    "query_one (\<lambda>x. row_id x = cid \<and> cv_account_id x = acc) (conversations d) = Some cv"
    "ms = sort_key ms_sequence (filter (\<lambda>m. ms_conversation_id m = cid) (messages d))"
    "src \<in> set ms" "row_id src = mid" "primary_model env d = Inr (pv, mdl)"
    "open_run t acc cid mid pv mdl (cb_manifest (build_context env acc cv ms src (normalize_text (ms_content src)) [] d))
       existing d = (rid, d1)"
    "answer_run env c t rid acc pv mdl cv ms src
       (build_context env acc cv ms src (normalize_text (ms_content src)) [] d) ctx d1 = (Inr res, d')"
proof -
  let ?ms = "sort_key ms_sequence (filter (\<lambda>m. ms_conversation_id m = cid) (messages d))"
  obtain cv src where f: "query_one (\<lambda>x. row_id x = cid \<and> cv_account_id x = acc) (conversations d) = Some cv"
      "List.find (\<lambda>m. row_id m = mid) ?ms = Some src"
    using assms by (auto simp: answer_start_def Let_def split: option.splits)
  then have src: "src \<in> set ?ms" "row_id src = mid" by (auto dest: find_Some_D)
  obtain pv mdl where p: "primary_model env d = Inr (pv, mdl)"
    using assms f by (auto simp: answer_start_def Let_def split: sum.splits if_splits)
  obtain rid d1 where o: "open_run t acc cid mid pv mdl (cb_manifest
      (build_context env acc cv ?ms src (normalize_text (ms_content src)) [] d)) existing d = (rid, d1)"
    by fastforce
  have "answer_run env c t rid acc pv mdl cv ?ms src
       (build_context env acc cv ?ms src (normalize_text (ms_content src)) [] d) ctx d1 = (Inr res, d')"
    using assms f p o by (auto simp: answer_start_def Let_def split: sum.splits prod.splits if_splits)
  with that f(1) src p o show ?thesis by blast
qed

lemma answer_start_sources:
  assumes "answer_start env c t acc cid mid ctx existing d = (Inr res, d')"
  shows "sf_source_id ` set (md_sources (or_decision res)) \<subseteq> context_ids acc cid d"
proof -
  obtain cv src pv mdl rid d1 ms where
      "query_one (\<lambda>x. row_id x = cid \<and> cv_account_id x = acc) (conversations d) = Some cv"
    and ms: "ms = sort_key ms_sequence (filter (\<lambda>m. ms_conversation_id m = cid) (messages d))"
    and "src \<in> set ms" "row_id src = mid" "primary_model env d = Inr (pv, mdl)"
    and o: "open_run t acc cid mid pv mdl (cb_manifest (build_context env acc cv ms src (normalize_text (ms_content src)) [] d))
       existing d = (rid, d1)"
    and r: "answer_run env c t rid acc pv mdl cv ms src
       (build_context env acc cv ms src (normalize_text (ms_content src)) [] d) ctx d1 = (Inr res, d')"
    by (rule answer_startD [OF assms])
  have t1: "read_tables d1 = read_tables d" using open_run_tables o by (metis snd_conv)
  have m: "set ms \<subseteq> {m \<in> set (messages d). ms_conversation_id m = cid}" using ms by auto
  have "set (cb_allowed (build_context env acc cv ms src (normalize_text (ms_content src)) [] d)) \<subseteq> context_ids acc cid d"
    by (rule build_context_ids [OF m]) simp
  then show ?thesis
    using answer_run_sources [OF r, of cid] m read_tables_fields [OF t1] context_ids_tables [OF t1] by simp
qed

lemma answer_news:
  assumes "answer env c t acc cid mid ctx d = (r, d')" "d' \<noteq> d"
  obtains ctx' where "answer_start env c t acc cid mid ctx'
    (query_one (\<lambda>r. rn_source_message_id r = mid \<and> rn_account_id r = acc) (runs d)) d = (r, d')"
  using answer_shape [of env c t acc cid mid ctx d]
proof
  assume "\<exists>r. answer env c t acc cid mid ctx d = (r, d)"
  then have "snd (answer env c t acc cid mid ctx d) = d" by (elim exE) (rule HOL.trans [OF arg_cong [of _ _ snd]], assumption, simp)
  moreover have "snd (answer env c t acc cid mid ctx d) = d'" unfolding assms(1) by simp
  ultimately show thesis using assms(2) by blast
next
  assume "\<exists>ctx'. answer env c t acc cid mid ctx d = answer_start env c t acc cid mid ctx'
      (query_one (\<lambda>r. rn_source_message_id r = mid \<and> rn_account_id r = acc) (runs d)) d"
  then show thesis using that unfolding assms(1) by (elim exE) (drule sym, blast)
qed

lemma answer_sources:
  assumes "answer env c t acc cid mid ctx d = (Inr res, d')" "d' \<noteq> d"
  shows "sf_source_id ` set (md_sources (or_decision res)) \<subseteq> context_ids acc cid d"
  by (rule answer_news [OF assms]) (rule answer_start_sources)

section \<open>What executing an action may change\<close>

text \<open>The services an action calls do not touch runs, actions and messages.\<close>

definition orch_frame :: "db \<Rightarrow> db \<Rightarrow> bool" where
  "orch_frame d d' \<longleftrightarrow> runs d' = runs d \<and> actions d' = actions d \<and> messages d' = messages d \<and> next_id d \<le> next_id d'"

lemma orch_frame_refl [simp]: "orch_frame d d"
  by (simp add: orch_frame_def)

lemma orch_frame_trans: "orch_frame a b \<Longrightarrow> orch_frame b d \<Longrightarrow> orch_frame a d"
  by (simp add: orch_frame_def)

lemma orch_frame_parts [simp]:
  "orch_frame a (audit_append c t ctx ety res tty tid det d) \<longleftrightarrow> orch_frame a d"
  "orch_frame a (save_memory t i d) \<longleftrightarrow> orch_frame a d"
  "orch_frame a (d\<lparr>conversations := x\<rparr>) \<longleftrightarrow> orch_frame a d"
  by (simp_all add: orch_frame_def audit_append_def save_memory_def)

lemma orch_frame_grows:
  "orch_frame a d \<Longrightarrow> orch_frame a (record_version t i acc kind d)"
  "orch_frame a d \<Longrightarrow> orch_frame a (request_index t i n d)"
  "orch_frame a d \<Longrightarrow> orch_frame a (insert_item t acc rq i d)"
  "orch_frame a d \<Longrightarrow> orch_frame a (add_link t x y d)"
  by (simp_all add: orch_frame_def record_version_def request_index_def insert_item_def add_outbox_def add_link_def
      fresh_def Let_def)

lemma mark_merged_frame: "orch_frame a d \<Longrightarrow> orch_frame a (foldl (\<lambda>d s. mark_merged t acc m s d) d ss)"
  by (induction ss arbitrary: d) (simp_all add: mark_merged_def orch_frame_grows Let_def)

lemma service_frames:
  "orch_frame d (snd (memory_create c t acc rq ctx d))"
  "orch_frame d (snd (memory_update c t acc mid urq ctx d))"
  "orch_frame d (snd (memory_soft_delete c t acc mid v ret ctx d))"
  "orch_frame d (snd (memory_restore c t acc mid v ctx d))"
  "orch_frame d (snd (memory_merge c t acc ids rq ctx d))"
  "orch_frame d (snd (continue_from c t acc cid ctx d))"
  "orch_frame d (snd (history_soft_delete c t acc cid v ret ctx d))"
  "orch_frame d (snd (history_restore c t acc cid v ctx d))"
proof -
  show create: "orch_frame d (snd (memory_create c t acc rq ctx d))" for rq
    by (auto simp: memory_create_def orch_frame_grows Let_def split: option.split)
  show "orch_frame d (snd (memory_update c t acc mid urq ctx d))"
    by (auto simp: memory_update_def orch_frame_grows Let_def split: option.split)
  show "orch_frame d (snd (memory_soft_delete c t acc mid v ret ctx d))"
    by (auto simp: memory_soft_delete_def orch_frame_grows Let_def split: option.split)
  show "orch_frame d (snd (memory_restore c t acc mid v ctx d))"
    by (auto simp: memory_restore_def orch_frame_grows Let_def split: option.split)
  have "memory_create c t acc rq' ctx d = (r, x) \<Longrightarrow> orch_frame d x" for rq' r x
    using create [of rq'] by simp
  then show "orch_frame d (snd (memory_merge c t acc ids rq ctx d))"
    by (auto simp: memory_merge_def mark_merged_frame Let_def split: prod.split sum.split)
  show "orch_frame d (snd (continue_from c t acc cid ctx d))"
    by (auto simp: continue_from_def orch_frame_grows Let_def split: sum.split)
      (simp_all add: orch_frame_def add_link_def fresh_def)
  show "orch_frame d (snd (history_soft_delete c t acc cid v ret ctx d))"
    by (auto simp: history_soft_delete_def Let_def split: option.split)
  show "orch_frame d (snd (history_restore c t acc cid v ctx d))"
    by (auto simp: history_restore_def Let_def split: option.split)
qed

lemma outcome_snd [simp]:
  "snd (memory_outcome r) = snd r" "snd (memory_deletion_outcome env r) = snd r"
  "snd (conversation_outcome q) = snd q" "snd (conversation_deletion_outcome env q) = snd q"
  by (simp_all add: memory_outcome_def memory_deletion_outcome_def conversation_outcome_def
      conversation_deletion_outcome_def split: prod.split sum.split)

lemma execute_frame: "orch_frame d (snd (execute_state_action env c t acc a ctx d))"
proof -
  have "orch_frame d (snd (run_update env c t acc name args ctx d))" for name args
    by (auto simp: run_update_def service_frames split: sum.split prod.split)
  moreover have "orch_frame d (snd (run_delete env c t acc args ctx d))" for args
    by (auto simp: run_delete_def service_frames split: sum.split prod.split)
  moreover have "orch_frame d (snd (run_restore env c t acc args ctx d))" for args
    by (auto simp: run_restore_def service_frames split: sum.split prod.split)
  moreover have "orch_frame d (snd (run_merge env c t acc args ctx d))" for args
    by (auto simp: run_merge_def service_frames split: sum.split prod.split json.split)
  moreover have "orch_frame d (snd (run_continue c t acc args ctx d))" for args
    by (auto simp: run_continue_def service_frames split: sum.split prod.split)
  moreover have "orch_frame d (snd (run_history_delete env c t acc args ctx d))" for args
    by (auto simp: run_history_delete_def service_frames split: sum.split prod.split)
  moreover have "orch_frame d (snd (run_history_restore env c t acc args ctx d))" for args
    by (auto simp: run_history_restore_def service_frames split: sum.split prod.split)
  moreover have "orch_frame d (snd (case parse_create env args of Inl e \<Rightarrow> (Inl e, d)
      | Inr rq \<Rightarrow> memory_outcome (memory_create c t acc rq ctx d)))" for args
    by (auto simp: service_frames split: sum.split)
  ultimately show ?thesis by (simp add: execute_state_action_def Let_def)
qed

section \<open>The life of an action\<close>

definition orch_inv :: "db \<Rightarrow> bool" where
  "orch_inv d \<longleftrightarrow> keyed (next_id d) (actions d) \<and> (\<forall>a \<in> set (actions d). ta_state a = APending \<or> finished a)"

text \<open>A finished action is never changed again.\<close>

definition actions_kept :: "db \<Rightarrow> db \<Rightarrow> bool" where
  "actions_kept d d' \<longleftrightarrow> (\<forall>a \<in> set (actions d). finished a \<longrightarrow> a \<in> set (actions d'))"

text \<open>One request of the orchestration, or a change by another service, which leaves the actions alone.\<close>

inductive orch_step :: "crypto \<Rightarrow> db \<Rightarrow> db \<Rightarrow> bool" for c where
  step_answer: "run_tx (answer env c now acc cid mid ctx) d = (r, d') \<Longrightarrow> orch_step c d d'"
| step_confirm: "run_tx (confirm_action env c now acc aid v actx) d = (r', d') \<Longrightarrow> orch_step c d d'"
| step_cancel: "run_tx (cancel_run c now acc rid actx) d = (r'', d') \<Longrightarrow> orch_step c d d'"
| step_other: "actions d' = actions d \<Longrightarrow> next_id d \<le> next_id d' \<Longrightarrow> orch_step c d d'"

lemma answer_inv: "orch_inv d \<Longrightarrow> orch_inv (snd (answer env c now acc cid mid ctx d))"
  using answer_effect [of c now d env acc cid mid ctx]
  by (auto simp: orch_inv_def answer_effect_def list_all_iff proposal_def)

lemma answer_keeps: "actions_kept d (snd (answer env c now acc cid mid ctx d))"
  using answer_effect [of c now d env acc cid mid ctx] by (auto simp: actions_kept_def answer_effect_def)

text \<open>Changing the row of a key, once or twice.\<close>

lemma set_update_key:
  assumes "keyed n t" "a \<in> set t" "row_id a = i"
  shows "set (update_where (\<lambda>x. row_id x = i) f t) = insert (f a) {x \<in> set t. row_id x \<noteq> i}"
proof -
  let ?h = "\<lambda>x. if row_id x = i then f x else x"
  let ?R = "{x \<in> set t. row_id x \<noteq> i}"
  have u: "x = a" if "x \<in> set t" "row_id x = i" for x
    by (rule keyed_unique [OF assms(1) that(1) assms(2)]) (simp add: that(2) assms(3))
  have "set t = insert a ?R"
  proof (rule set_eqI)
    fix x show "x \<in> set t \<longleftrightarrow> x \<in> insert a ?R"
      using u [of x] assms(2) by (cases "row_id x = i") blast+
  qed
  from arg_cong [OF this, of "image ?h"] have "?h ` set t = insert (?h a) (?h ` ?R)"
    by (rule trans) (rule image_insert)
  moreover have "?h ` ?R = id ` ?R" by (rule image_cong) auto
  ultimately show ?thesis using assms(3) by (simp add: update_where_def)
qed

lemma update_key_twice:
  assumes "\<And>r. row_id (g r) = row_id r"
  shows "update_where (\<lambda>x. row_id x = i) f (update_where (\<lambda>x. row_id x = i) g t) =
    update_where (\<lambda>x. row_id x = i) (\<lambda>x. f (g x)) t"
  using assms by (simp add: update_where_def)

lemma actions_set_action:
  "actions (set_action t aid f d) = update_where (\<lambda>a. row_id a = aid) (\<lambda>a. (f a)\<lparr>updated_at := t\<rparr>) (actions d)"
  by (simp add: set_action_def)

lemma set_action_frame [simp]:
  "runs (set_action t aid f d) = runs d" "next_id (set_action t aid f d) = next_id d"
  "messages (set_action t aid f d) = messages d"
  by (simp_all add: set_action_def)

lemma keyed_set_action:
  "(\<And>a. row_id (f a) = row_id a) \<Longrightarrow> keyed n (actions (set_action t aid f d)) = keyed n (actions d)"
  by (simp add: set_action_def keyed_update_where)

lemma owned_actionD: "owned_action acc aid d = Some a \<Longrightarrow> a \<in> set (actions d) \<and> row_id a = aid"
  by (auto simp: owned_action_def dest: query_one_Some)

lemma cancel_state:
  assumes "cancel_run c now acc rid ctx d = (r, d')"
  shows "d' = d \<or> next_id d' = next_id d \<and> actions d' =
    update_where (\<lambda>a. ta_run_id a = rid \<and> ta_state a = APending)
      (\<lambda>a. a\<lparr>ta_state := ACancelled, version := version a + 1, updated_at := now\<rparr>) (actions d)"
  using assms by (auto simp: cancel_run_def set_run_def audit_append_def Let_def split: option.splits if_splits)

lemma cancel_inv: "orch_inv d \<Longrightarrow> orch_inv (snd (cancel_run c now acc rid ctx d))"
proof -
  assume i: "orch_inv d"
  obtain r d' where e: "cancel_run c now acc rid ctx d = (r, d')" by fastforce
  show ?thesis
    using cancel_state [OF e]
  proof
    assume "d' = d"
    then show ?thesis using i unfolding e by simp
  next
    assume "next_id d' = next_id d \<and> actions d' = update_where (\<lambda>a. ta_run_id a = rid \<and> ta_state a = APending)
      (\<lambda>a. a\<lparr>ta_state := ACancelled, version := version a + 1, updated_at := now\<rparr>) (actions d)"
    then show ?thesis
      using i unfolding e by (auto simp: orch_inv_def keyed_update_where) (auto simp: update_where_def finished_def)
  qed
qed

lemma cancel_keeps: "actions_kept d (snd (cancel_run c now acc rid ctx d))"
proof -
  obtain r d' where e: "cancel_run c now acc rid ctx d = (r, d')" by fastforce
  show ?thesis
    using cancel_state [OF e]
  proof
    assume "d' = d"
    then show ?thesis unfolding e by (simp add: actions_kept_def)
  next
    assume "next_id d' = next_id d \<and> actions d' = update_where (\<lambda>a. ta_run_id a = rid \<and> ta_state a = APending)
      (\<lambda>a. a\<lparr>ta_state := ACancelled, version := version a + 1, updated_at := now\<rparr>) (actions d)"
    then show ?thesis
      unfolding e actions_kept_def by (auto simp: update_where_def finished_def image_iff)
  qed
qed

lemma settle_run_frame [simp]:
  "actions (settle_run t rid aid d) = actions d" "next_id (settle_run t rid aid d) = next_id d"
  by (simp_all add: settle_run_def set_run_def split: option.split)

lemma audit_actions [simp]:
  "actions (audit_append c t ctx ety res tty tid det d) = actions d"
  "next_id (audit_append c t ctx ety res tty tid det d) = next_id d"
  by (simp_all add: audit_append_def)

text \<open>A confirmation either changes nothing or takes a pending action, at the version it names,
  to a state that is final.\<close>

definition settled :: "uuid \<Rightarrow> tool_action \<Rightarrow> db \<Rightarrow> db \<Rightarrow> bool" where
  "settled aid a' d d' \<longleftrightarrow> finished a' \<and> row_id a' = aid
     \<and> set (actions d') = insert a' {x \<in> set (actions d). row_id x \<noteq> aid} \<and> keyed (next_id d') (actions d')"

lemma settledI:
  assumes "keyed (next_id d) (actions d)" "a \<in> set (actions d)" "row_id a = aid"
    and "actions d' = update_where (\<lambda>x. row_id x = aid) f (actions d)" "next_id d \<le> next_id d'"
    and "\<And>x. row_id (f x) = row_id x" "finished (f a)"
  shows "settled aid (f a) d d'"
proof -
  have "keyed (next_id d') (actions d')"
    using assms(1,4,6) keyed_mono [OF _ assms(5)] by (simp add: keyed_update_where)
  then show ?thesis
    using set_update_key [OF assms(1-3)] assms(3,4,6,7) by (simp add: settled_def)
qed

lemma confirm_effect:
  assumes "keyed (next_id d) (actions d)" "confirm_action env c now acc aid v ctx d = (r, d')" "d' \<noteq> d"
  shows "\<exists>a a'. owned_action acc aid d = Some a \<and> ta_state a = APending \<and> version a = v
    \<and> settled aid a' d d' \<and> (r = Inr a' \<or> isl r)"
proof -
  obtain a where a: "owned_action acc aid d = Some a"
    using assms(2,3) by (cases "owned_action acc aid d") (simp_all add: confirm_action_def)
  note am = owned_actionD [OF a]
  have p: "ta_state a = APending" "version a = v"
    using assms(2,3) a by (auto simp: confirm_action_def split: if_splits)
  show ?thesis
  proof (cases "case ta_expires_at a of None \<Rightarrow> False | Some t \<Rightarrow> t \<le> now")
    case True
    have "d' = set_action now aid (\<lambda>a. a\<lparr>ta_state := AExpired, version := version a + 1\<rparr>) d" "isl r"
      using assms(2) a p True by (auto simp: confirm_action_def)
    then show ?thesis
      using a p am settledI [OF assms(1), of a aid d'
          "\<lambda>a. (a\<lparr>ta_state := AExpired, version := version a + 1\<rparr>)\<lparr>updated_at := now\<rparr>"]
      by (auto simp: actions_set_action finished_def)
  next
    case False
    let ?g = "\<lambda>a. (a\<lparr>ta_state := ARunning, ta_confirmed_at := Some now, version := version a + 1\<rparr>)\<lparr>updated_at := now\<rparr>"
    let ?d1 = "set_action now aid (\<lambda>a. a\<lparr>ta_state := ARunning, ta_confirmed_at := Some now, version := version a + 1\<rparr>) d"
    obtain q d2 where e: "execute_state_action env c now acc a ctx ?d1 = (q, d2)" by fastforce
    have f: "actions d2 = actions ?d1" "next_id d \<le> next_id d2"
      using execute_frame [of ?d1 env c now acc a ctx] unfolding e by (simp_all add: orch_frame_def)
    show ?thesis
    proof (cases q)
      case (Inl x)
      let ?f = "\<lambda>a. (a\<lparr>ta_state := AFailed, ta_error_code := Some (error_code_of x), version := version a + 1\<rparr>)\<lparr>updated_at := now\<rparr>"
      have "actions d' = update_where (\<lambda>x. row_id x = aid) (\<lambda>x. ?f (?g x)) (actions d)"
          "next_id d' = next_id d2" "isl r"
        using assms(2) a p False e Inl f(1) by (auto simp: confirm_action_def actions_set_action update_key_twice)
      then show ?thesis
        using a p settledI [OF assms(1), of a aid d' "\<lambda>x. ?f (?g x)"] am f(2) by (auto simp: finished_def)
    next
      case (Inr res)
      let ?f = "\<lambda>a. (a\<lparr>ta_result := Some res, ta_state := ACompleted, ta_completed_at := Some now, version := version a + 1\<rparr>)\<lparr>updated_at := now\<rparr>"
      have "actions d' = update_where (\<lambda>x. row_id x = aid) (\<lambda>x. ?f (?g x)) (actions d)"
          "next_id d' = next_id d2" "r = Inr (?f (?g a))"
        using assms(2) a p False e Inr f(1)
        by (auto simp: confirm_action_def actions_set_action update_key_twice Let_def)
      then show ?thesis
        using a p settledI [OF assms(1), of a aid d' "\<lambda>x. ?f (?g x)"] am f(2) by (auto simp: finished_def)
    qed
  qed
qed

lemma settled_inv:
  assumes "orch_inv d" "settled aid a' d d'"
  shows "orch_inv d'"
  using assms by (auto simp: orch_inv_def settled_def)

lemma settled_keeps:
  assumes "orch_inv d" "settled aid a' d d'" "a \<in> set (actions d)" "row_id a = aid" "\<not> finished a"
  shows "actions_kept d d'"
proof -
  have "row_id x \<noteq> aid" if "x \<in> set (actions d)" "finished x" for x
  proof
    assume "row_id x = aid"
    moreover have "keyed (next_id d) (actions d)" using assms(1) by (simp add: orch_inv_def)
    ultimately have "x = a" using assms(4) by (intro keyed_unique [OF _ that(1) assms(3)]) auto
    with that(2) assms(5) show False by simp
  qed
  then show ?thesis using assms(2) unfolding actions_kept_def settled_def by blast
qed

lemma confirm_inv:
  assumes "orch_inv d"
  shows "orch_inv (snd (confirm_action env c now acc aid v ctx d))"
    and "actions_kept d (snd (confirm_action env c now acc aid v ctx d))"
proof -
  obtain r d' where e: "confirm_action env c now acc aid v ctx d = (r, d')" by fastforce
  have k: "keyed (next_id d) (actions d)" using assms by (simp add: orch_inv_def)
  have "orch_inv d' \<and> actions_kept d d'"
  proof (cases "d' = d")
    case True
    show ?thesis unfolding True using assms by (simp add: actions_kept_def)
  next
    case False
    from confirm_effect [OF k e False] obtain a a' where o: "owned_action acc aid d = Some a"
        "ta_state a = APending" "settled aid a' d d'" by blast
    then have "\<not> finished a" by (simp add: finished_def)
    then show ?thesis
      using settled_inv [OF assms o(3)] settled_keeps [OF assms o(3)] owned_actionD [OF o(1)] by blast
  qed
  then show "orch_inv (snd (confirm_action env c now acc aid v ctx d))"
    and "actions_kept d (snd (confirm_action env c now acc aid v ctx d))"
    unfolding e by simp_all
qed

lemma run_tx_keeps:
  assumes "run_tx f d = (r, d')" "P d" "P (snd (f d))"
  shows "P d'"
  using run_tx_state [OF assms(1)] assms(2,3) by metis

interpretation orch: step_system "orch_step c" orch_inv for c
proof unfold_locales
  fix s s' assume i: "orch_inv s" and "orch_step c s s'"
  from this(2) show "orch_inv s'"
  proof cases
    case step_answer
    show ?thesis by (rule run_tx_keeps [OF step_answer i answer_inv [OF i]])
  next
    case step_confirm
    show ?thesis by (rule run_tx_keeps [OF step_confirm i confirm_inv(1) [OF i]])
  next
    case step_cancel
    show ?thesis by (rule run_tx_keeps [OF step_cancel i cancel_inv [OF i]])
  next
    case step_other
    then show ?thesis using i keyed_mono unfolding orch_inv_def by metis
  qed
qed

lemma actions_kept_refl: "actions_kept d d"
  by (simp add: actions_kept_def)

lemma actions_kept_trans: "actions_kept a b \<Longrightarrow> actions_kept b d \<Longrightarrow> actions_kept a d"
  unfolding actions_kept_def by blast

lemma orch_step_keeps: "orch_inv d \<Longrightarrow> orch_step c d d' \<Longrightarrow> actions_kept d d'"
proof -
  assume i: "orch_inv d"
  assume "orch_step c d d'"
  then show ?thesis
  proof cases
    case step_answer
    show ?thesis by (rule run_tx_keeps [OF step_answer, of "actions_kept d", OF actions_kept_refl answer_keeps])
  next
    case step_confirm
    show ?thesis by (rule run_tx_keeps [OF step_confirm, of "actions_kept d", OF actions_kept_refl confirm_inv(2) [OF i]])
  next
    case step_cancel
    show ?thesis by (rule run_tx_keeps [OF step_cancel, of "actions_kept d", OF actions_kept_refl cancel_keeps])
  next
    case step_other
    then show ?thesis by (simp add: actions_kept_def)
  qed
qed

lemma orch_reach_keeps: "(orch_step c)\<^sup>*\<^sup>* d d' \<Longrightarrow> orch_inv d \<Longrightarrow> actions_kept d d'"
  by (rule orch.reach_rel [of c d d' actions_kept])
    (auto intro: actions_kept_refl actions_kept_trans orch_step_keeps)

text \<open>Confirming a finished action changes nothing.\<close>

lemma finished_confirm:
  assumes "orch_inv d" "a \<in> set (actions d)" "finished a" "run_tx (confirm_action env c now acc (row_id a) v ctx) d = (r, d')"
  shows "d' = d"
proof (rule ccontr)
  assume ne: "d' \<noteq> d"
  obtain q x where e: "confirm_action env c now acc (row_id a) v ctx d = (q, x)" by fastforce
  have k: "keyed (next_id d) (actions d)" using assms(1) by (simp add: orch_inv_def)
  have "x = d'" using run_tx_state [OF assms(4)] ne unfolding e by simp
  with ne have "x \<noteq> d" by blast
  from confirm_effect [OF k e this] obtain b where b: "owned_action acc (row_id a) d = Some b" "ta_state b = APending"
    by blast
  have "b = a" by (rule keyed_unique [OF k]) (use owned_actionD [OF b(1)] assms(2) in auto)
  with b(2) assms(3) show False by (simp add: finished_def)
qed

section \<open>A plain answer\<close>

text \<open>The run of the message, in the state after the answer.\<close>

lemma get_row_last: "get_row i t = None \<Longrightarrow> row_id r = i \<Longrightarrow> get_row i (t @ [r]) = Some r"
  by (simp add: get_row_append)

lemma update_where_last:
  "get_row i t = None \<Longrightarrow> row_id r = i \<Longrightarrow> update_where (\<lambda>x. row_id x = i) f (t @ [r]) = t @ [f r]"
  by (auto simp: update_where_def get_row_def find_None_iff intro!: map_idI)

lemma set_run_last:
  assumes "get_row i t = None" "row_id r = i"
  shows "set_run now i f (d\<lparr>runs := t @ [r]\<rparr>) = d\<lparr>runs := t @ [(f r)\<lparr>updated_at := now\<rparr>]\<rparr>"
  using update_where_last [OF assms] by (simp add: set_run_def)

lemma runtime_secrets:
  assumes "secrets d' = secrets d"
  shows "provider_runtime env pv d' = provider_runtime env pv d"
  unfolding provider_runtime_def assms ..

lemma plain_answer_run:
  assumes "keyed (next_id d) (runs d)" "provider_runtime env pv d = Inr ()"
    and r: "model_reply env 1 (chat_request_of mdl (cb_prompt bdl) ms) = Inr (dec, res)"
    and tools: "md_tool_calls dec = []" "md_memory_proposal dec = None"
    and sources: "sf_source_id ` set (md_sources dec) \<subseteq> set (cb_allowed bdl)"
    and cv: "get_row (row_id cv) (conversations d) = Some cv"
    and key: "find_turn (row_id cv) (answer_key c (row_id cv) (row_id src) (next_id d)) d = None"
    and run: "row_id run = next_id d" "rn_attempt_count run = 0"
  shows "\<exists>d' msg run'. answer_run env c t (next_id d) acc pv mdl cv ms src bdl ctx ((fresh d)\<lparr>runs := runs d @ [run]\<rparr>) =
      (Inr \<lparr>or_run_id = next_id d, or_message = msg, or_decision = dec, or_actions = []\<rparr>, d')
    \<and> messages d' = messages d @ [msg] \<and> ms_content msg = md_answer dec \<and> ms_role msg = ''assistant''
    \<and> ms_conversation_id msg = row_id cv \<and> ms_sequence msg = next_sequence (row_id cv) d
    \<and> runs d' = runs d @ [run'] \<and> rn_state run' = RunCompleted \<and> rn_response_message_id run' = Some (row_id msg)
    \<and> rn_decision run' = Some dec \<and> rn_source_message_id run' = rn_source_message_id run
    \<and> rn_account_id run' = rn_account_id run \<and> row_id run' = next_id d \<and> actions d' = actions d"
proof -
  have free: "get_row (next_id d) (runs d) = None" using get_row_fresh [OF assms(1)] by simp
  let ?d0 = "(fresh d)\<lparr>runs := runs d @ [run]\<rparr>"
  have n: "next_attempt (next_id d) ?d0 = 1" using run by (simp add: next_attempt_def get_row_last [OF free])
  have rt: "provider_runtime env pv ?d0 = Inr ()" using runtime_secrets [of ?d0 d] assms(2) by (simp add: fresh_def)
  obtain d1 run1 where call: "call_model env t (next_id d) pv mdl (cb_prompt bdl) ms ?d0 = (Inr (dec, res), d1)"
    and d1: "runs d1 = runs d @ [run1]" "messages d1 = messages d" "conversations d1 = conversations d" "actions d1 = actions d"
    and run1: "row_id run1 = next_id d" "rn_source_message_id run1 = rn_source_message_id run" "rn_account_id run1 = rn_account_id run"
    using rt r n run
    by (simp add: call_model_def open_attempt_def set_run_last [OF free] set_attempt_def fresh_def Let_def)
  have dec: "decide env t (next_id d) acc pv mdl cv ms src bdl ?d0 = (Inr (dec, cb_allowed bdl, usage res), d1)"
    using call tools by (simp add: decide_def)
  have ok: "validate_sources dec (cb_allowed bdl) = Inr ()"
    using sources by (auto simp: validate_sources_def filter_empty_conv)
  have none: "create_actions env c t (next_id d) acc cv src dec d1 = (Inr [], d1)"
    using tools by (simp add: create_actions_def state_calls_def)
  have turn: "find_turn (row_id cv) (answer_key c (row_id cv) (row_id src) (next_id d)) d1 = None"
    using key d1(2) by (simp add: find_turn_def)
  have seq: "next_sequence (row_id cv) d1 = next_sequence (row_id cv) d" using d1(2) by (simp add: next_sequence_def)
  show ?thesis
    using dec ok none turn cv d1 run1 seq
    by (simp add: answer_run_def add_assistant_turn_def add_message_def set_run_def update_where_last [OF free]
        find_turn_def next_sequence_def fresh_def audit_append_def Let_def)
qed

lemma plain_answer:
  assumes "keyed (next_id d) (runs d)" "keyed (next_id d) (conversations d)"
    and new: "query_one (\<lambda>r. rn_source_message_id r = mid \<and> rn_account_id r = acc) (runs d) = None"
    and cv: "get_row cid (conversations d) = Some cv" "cv_account_id cv = acc"
    and ms: "ms = sort_key ms_sequence (filter (\<lambda>m. ms_conversation_id m = cid) (messages d))"
    and src: "List.find (\<lambda>m. row_id m = mid) ms = Some src" "ms_role src = ''user''"
    and model: "primary_model env d = Inr (pv, mdl)" "provider_runtime env pv d = Inr ()"
    and bdl: "bdl = build_context env acc cv ms src (normalize_text (ms_content src)) [] d"
    and reply: "model_reply env 1 (chat_request_of mdl (cb_prompt bdl) ms) = Inr (dec, res)"
    and tools: "md_tool_calls dec = []" "md_memory_proposal dec = None"
    and sources: "sf_source_id ` set (md_sources dec) \<subseteq> set (cb_allowed bdl)"
    and key: "find_turn cid (answer_key c cid mid (next_id d)) d = None"
  shows "\<exists>d' msg run. answer env c now acc cid mid ctx d =
      (Inr \<lparr>or_run_id = next_id d, or_message = msg, or_decision = dec, or_actions = []\<rparr>, d')
    \<and> messages d' = messages d @ [msg] \<and> ms_content msg = md_answer dec \<and> ms_role msg = ''assistant''
    \<and> ms_conversation_id msg = cid \<and> ms_sequence msg = next_sequence cid d
    \<and> runs d' = runs d @ [run] \<and> rn_state run = RunCompleted \<and> rn_source_message_id run = mid
    \<and> rn_response_message_id run = Some (row_id msg) \<and> actions d' = actions d"
proof -
  have id: "row_id cv = cid" "row_id src = mid" using cv(1) src(1) by (auto dest: find_Some_D)
  have own: "query_one (\<lambda>x. row_id x = cid \<and> cv_account_id x = acc) (conversations d) = Some cv"
    unfolding query_one_owned [OF assms(2)] using cv by simp
  let ?run = "new_run now acc cid mid pv mdl (cb_manifest bdl) d"
  have run: "row_id ?run = next_id d" "rn_attempt_count ?run = 0" by (simp_all add: new_run_def)
  obtain d' msg run' where r: "answer_run env c now (next_id d) acc pv mdl cv ms src bdl
      (case ctx of None \<Rightarrow> system_context ''system'' (Some acc) | Some x \<Rightarrow> x) ((fresh d)\<lparr>runs := runs d @ [?run]\<rparr>) =
      (Inr \<lparr>or_run_id = next_id d, or_message = msg, or_decision = dec, or_actions = []\<rparr>, d')"
    and m: "messages d' = messages d @ [msg]" "ms_content msg = md_answer dec" "ms_role msg = ''assistant''"
      "ms_conversation_id msg = row_id cv" "ms_sequence msg = next_sequence (row_id cv) d"
      "runs d' = runs d @ [run']" "rn_state run' = RunCompleted" "rn_response_message_id run' = Some (row_id msg)"
      "rn_source_message_id run' = rn_source_message_id ?run" "actions d' = actions d"
    using plain_answer_run [OF assms(1) model(2) reply tools sources, where cv = cv and c = c and src = src
        and run = ?run and acc = acc and t = now
        and ctx = "case ctx of None \<Rightarrow> system_context ''system'' (Some acc) | Some x \<Rightarrow> x"] run cv(1) key
    unfolding id by blast
  have "answer env c now acc cid mid ctx d =
      (Inr \<lparr>or_run_id = next_id d, or_message = msg, or_decision = dec, or_actions = []\<rparr>, d')"
    using new own src(1,2) model(1) r
    by (simp add: answer_def answer_start_def open_run_def ms [symmetric] bdl [symmetric])
  with m id show ?thesis by (simp add: new_run_def)
qed

section \<open>A finished run\<close>

text \<open>Which run belongs to which message never changes during an answer.\<close>

definition run_keys :: "db \<Rightarrow> (uuid \<times> uuid \<times> uuid) list" where
  "run_keys d = map (\<lambda>r. (row_id r, rn_source_message_id r, rn_account_id r)) (runs d)"

lemma set_run_keys:
  assumes "\<And>r. row_id (f r) = row_id r" "\<And>r. rn_source_message_id (f r) = rn_source_message_id r"
    "\<And>r. rn_account_id (f r) = rn_account_id r"
  shows "run_keys (set_run t rid f d) = run_keys d"
  using assms by (simp add: run_keys_def set_run_def update_where_def)

lemma run_keys_runs: "runs d' = runs d \<Longrightarrow> run_keys d' = run_keys d"
  by (simp add: run_keys_def)

lemma open_attempt_keys [simp]: "run_keys (open_attempt t rid pv mdl d) = run_keys d"
proof -
  have "run_keys (open_attempt t rid pv mdl d)
      = run_keys (set_run t rid (\<lambda>r. r\<lparr>rn_attempt_count := Suc (rn_attempt_count r)\<rparr>) d)"
    by (rule run_keys_runs) (simp add: open_attempt_def fresh_def Let_def)
  then show ?thesis by (simp add: set_run_keys)
qed

lemma set_attempt_keys [simp]: "run_keys (set_attempt aid f d) = run_keys d"
  by (rule run_keys_runs) (simp add: set_attempt_def)

lemma call_model_keys: "run_keys (snd (call_model env t rid pv mdl prompt ms d)) = run_keys d"
  by (simp add: call_model_def Let_def split: sum.split prod.split)

lemma decide_keys: "run_keys (snd (decide env t rid acc pv mdl cv ms src bdl d)) = run_keys d"
proof -
  have call: "call_model env t rid pv mdl p ms x = (r, y) \<Longrightarrow> run_keys y = run_keys x" for p x r y
    using call_model_keys by (metis snd_conv)
  have s: "run_keys (set_run t rid (\<lambda>r. r\<lparr>rn_context_manifest := j\<rparr>) x) = run_keys x" for x j
    by (rule set_run_keys) simp_all
  show ?thesis
    unfolding decide_def Let_def
    by (auto split: prod.split sum.split dest!: call simp: s)
qed

lemma create_actions_runs: "runs (snd (create_actions env c t rid acc cv src dec d)) = runs d"
  unfolding create_actions_def
  by (auto intro!: add_actions_rel [of "\<lambda>x y. runs y = runs x"] simp: fresh_def)

lemma assistant_turn_result:
  assumes "add_assistant_turn t cid content key rid i d = (r, d')"
  shows "runs d' = runs d \<and> (\<forall>m. r = Inr m \<longrightarrow> m \<in> set (messages d'))"
  using assms
  by (auto simp: add_assistant_turn_def add_message_def find_turn_def fresh_def Let_def
      dest: query_one_Some split: option.splits)

lemma update_where_mem:
  assumes "r \<in> set (update_where (\<lambda>x. row_id x = i) f t)" "row_id r = i" "\<And>x. row_id (f x) = row_id x"
  shows "\<exists>x \<in> set t. row_id x = i \<and> r = f x"
  using assms by (auto simp: update_where_def split: if_splits)

lemma answer_run_final:
  assumes "answer_run env c t rid acc pv mdl cv ms src bdl ctx d = (Inr res, d')"
  shows "run_keys d' = run_keys d" "or_run_id res = rid" "or_message res \<in> set (messages d')"
    and "or_actions res = [] \<Longrightarrow> r \<in> set (runs d') \<Longrightarrow> row_id r = rid \<Longrightarrow>
      rn_state r = RunCompleted \<and> rn_response_message_id r = Some (row_id (or_message res))
      \<and> rn_decision r = Some (or_decision res)"
proof -
  obtain dec allowed u d1 where dec: "decide env t rid acc pv mdl cv ms src bdl d = (Inr (dec, allowed, u), d1)"
    using assms by (auto simp: answer_run_def split: prod.splits sum.splits)
  obtain acts d2 where acts: "create_actions env c t rid acc cv src dec d1 = (Inr acts, d2)"
    using assms dec by (auto simp: answer_run_def split: prod.splits sum.splits)
  let ?d3 = "set_run t rid (\<lambda>r. r\<lparr>rn_intent := Some (md_intent dec), rn_decision := Some dec,
     rn_usage := usage_json u, rn_state := (if acts = [] then RunCompleted else RunAwaiting)\<rparr>) d2"
  obtain msg d4 where turn: "add_assistant_turn t (row_id cv) (md_answer dec)
      (answer_key c (row_id cv) (row_id src) rid) rid False ?d3 = (Inr msg, d4)"
    using assms dec acts by (auto simp: answer_run_def Let_def split: prod.splits sum.splits)
  let ?g = "\<lambda>r. r\<lparr>rn_response_message_id := Some (row_id msg),
     rn_completed_at := (if acts = [] then Some t else rn_completed_at r), version := version r + 1\<rparr>"
  have d': "runs d' = runs (set_run t rid ?g d4)" "messages d' = messages d4"
    "res = \<lparr>or_run_id = rid, or_message = msg, or_decision = dec, or_actions = acts\<rparr>"
    using assms dec acts turn
    by (auto simp: answer_run_def Let_def audit_append_def set_run_def split: sum.splits)
  note m = assistant_turn_result [OF turn]
  have "run_keys d1 = run_keys d" using decide_keys dec by (metis snd_conv)
  moreover have "run_keys d2 = run_keys d1" using create_actions_runs acts run_keys_runs by (metis snd_conv)
  moreover have "run_keys ?d3 = run_keys d2" by (rule set_run_keys) simp_all
  moreover have "run_keys d4 = run_keys ?d3" using m run_keys_runs by blast
  moreover have "run_keys (set_run t rid ?g d4) = run_keys d4" by (rule set_run_keys) simp_all
  ultimately show "run_keys d' = run_keys d" using run_keys_runs [OF d'(1)] by simp
  show "or_run_id res = rid" "or_message res \<in> set (messages d')" using d' m by simp_all
  have m4: "runs d4 = runs ?d3" using m by (rule conjunct1)
  have "runs d' = update_where (\<lambda>x. row_id x = rid) (\<lambda>r. (?g r)\<lparr>updated_at := t\<rparr>) (runs d4)"
    unfolding d'(1) set_run_def by simp
  note fin = this [unfolded m4]
  show "rn_state r = RunCompleted \<and> rn_response_message_id r = Some (row_id (or_message res))
      \<and> rn_decision r = Some (or_decision res)"
    if a: "or_actions res = []" and r: "r \<in> set (runs d')" "row_id r = rid"
  proof -
    obtain y where y: "y \<in> set (runs ?d3)" "row_id y = rid" "r = (?g y)\<lparr>updated_at := t\<rparr>"
      using update_where_mem [OF r(1) [unfolded fin] r(2)] by auto
    let ?f = "\<lambda>x. (x\<lparr>rn_intent := Some (md_intent dec), rn_decision := Some dec,
        rn_usage := usage_json u, rn_state := (if acts = [] then RunCompleted else RunAwaiting)\<rparr>)\<lparr>updated_at := t\<rparr>"
    have "runs ?d3 = update_where (\<lambda>x. row_id x = rid) ?f (runs d2)" by (simp add: set_run_def)
    then obtain x where "y = ?f x" using update_where_mem [of y rid ?f "runs d2"] y(1,2) by auto
    then show ?thesis using y(3) a unfolding d'(3) by simp
  qed
qed

lemma query_run_keys:
  assumes "run_keys d' = run_keys d"
  shows "map_option row_id (query_one (\<lambda>r. rn_source_message_id r = mid \<and> rn_account_id r = acc) (runs d'))
    = map_option row_id (query_one (\<lambda>r. rn_source_message_id r = mid \<and> rn_account_id r = acc) (runs d))"
proof -
  have "map_option row_id (query_one (\<lambda>r. rn_source_message_id r = mid \<and> rn_account_id r = acc) t)
    = map_option fst (List.find (\<lambda>k. fst (snd k) = mid \<and> snd (snd k) = acc)
        (map (\<lambda>r. (row_id r, rn_source_message_id r, rn_account_id r)) t))" for t
    by (induction t) (simp_all add: query_one_def)
  note q = this
  show ?thesis unfolding q using assms unfolding run_keys_def by (rule arg_cong)
qed

lemma open_run_query:
  assumes "open_run t acc cid mid pv mdl manifest
      (query_one (\<lambda>r. rn_source_message_id r = mid \<and> rn_account_id r = acc) (runs d)) d = (rid, d1)"
  shows "map_option row_id (query_one (\<lambda>r. rn_source_message_id r = mid \<and> rn_account_id r = acc) (runs d1)) = Some rid"
proof (cases "query_one (\<lambda>r. rn_source_message_id r = mid \<and> rn_account_id r = acc) (runs d)")
  case None
  have "query_one P (t @ [x]) = (if P x then Some x else None)" if "query_one P t = None" for P and t :: "run_row list" and x
    using that by (induction t) (auto simp: query_one_def split: if_splits)
  with None assms show ?thesis by (auto simp: open_run_def new_run_def fresh_def)
next
  case (Some r)
  with assms show ?thesis by (auto simp: open_run_def)
qed

lemma cached_answer:
  assumes "answer env c t acc cid mid ctx d = (Inr res, d')" "d' \<noteq> d" "or_actions res = []"
    and "keyed (next_id d) (messages d)"
  shows "\<exists>acts. answer env' c' t' acc cid' mid ctx' d' =
    (Inr \<lparr>or_run_id = or_run_id res, or_message = or_message res, or_decision = or_decision res, or_actions = acts\<rparr>, d')"
proof -
  let ?Q = "\<lambda>r. rn_source_message_id r = mid \<and> rn_account_id r = acc"
  obtain ctx0 where s: "answer_start env c t acc cid mid ctx0 (query_one ?Q (runs d)) d = (Inr res, d')"
    by (rule answer_news [OF assms(1,2)])
  obtain cv src pv mdl rid d1 ms where
      "query_one (\<lambda>x. row_id x = cid \<and> cv_account_id x = acc) (conversations d) = Some cv"
    and "ms = sort_key ms_sequence (filter (\<lambda>m. ms_conversation_id m = cid) (messages d))"
    and "src \<in> set ms" "row_id src = mid" "primary_model env d = Inr (pv, mdl)"
    and o: "open_run t acc cid mid pv mdl (cb_manifest (build_context env acc cv ms src (normalize_text (ms_content src)) [] d))
       (query_one ?Q (runs d)) d = (rid, d1)"
    and r: "answer_run env c t rid acc pv mdl cv ms src
       (build_context env acc cv ms src (normalize_text (ms_content src)) [] d) ctx0 d1 = (Inr res, d')"
    by (rule answer_startD [OF s])
  note fin = answer_run_final [OF r]
  obtain run where run: "query_one ?Q (runs d') = Some run" "row_id run = rid"
    using query_run_keys [OF fin(1), of mid acc] open_run_query [OF o] by auto
  have run_fin: "rn_state run = RunCompleted \<and> rn_response_message_id run = Some (row_id (or_message res))
      \<and> rn_decision run = Some (or_decision res)"
    by (rule fin(4) [OF assms(3)]) (use query_one_Some [OF run(1)] run(2) in auto)
  have "keyed (next_id d') (messages d')"
    using answer_effect [of c t d env acc cid mid ctx] assms(1,4) by (simp add: answer_effect_def)
  then have "get_row (row_id (or_message res)) (messages d') = Some (or_message res)"
    using fin(3) by (rule get_row_mem)
  then show ?thesis
    using run run_fin fin(2) by (simp add: answer_def)
qed

section \<open>Round trip of a proposed memory item\<close>

lemma parse_category_str: "parse_category (asc (memory_category_str k)) = Some k"
  by (cases k) (simp_all add: parse_category_def)

lemma parse_origin_str: "parse_origin (jstr (origin_str t)) = Inr t"
  by (cases t) (simp_all add: parse_origin_def origin_str_def jstr_def)

lemma parse_texts_strs: "parse_texts (map JStr ss) = Inr ss"
  by (induction ss) simp_all

lemma parse_opt_uuid_str:
  "(case u of None \<Rightarrow> True | Some x \<Rightarrow> x < 2 ^ 128) \<Longrightarrow> parse_opt_uuid (opt_uuid u) = Inr u"
  by (cases u) (simp_all add: parse_opt_uuid_def opt_uuid_def uuid_parse_str)

lemma parse_create_dump:
  assumes "\<And>t. oe_parse_iso env (oe_iso env t) = Some t"
    and "case rq_source_conversation_id rq of None \<Rightarrow> True | Some x \<Rightarrow> x < 2 ^ 128"
    and "case rq_source_message_id rq of None \<Rightarrow> True | Some x \<Rightarrow> x < 2 ^ 128"
  shows "parse_create env (dump_create env rq) = validate_create rq"
proof -
  let ?d = "dump_create env rq"
  have get: "get_or ?d ''origin_type'' JNull = jstr (origin_str (rq_origin_type rq))"
    "get_or ?d ''source_conversation_id'' JNull = opt_uuid (rq_source_conversation_id rq)"
    "get_or ?d ''source_message_id'' JNull = opt_uuid (rq_source_message_id rq)"
    "get_or ?d ''original_expression'' JNull = (case rq_original_expression rq of None \<Rightarrow> JNull | Some t \<Rightarrow> JStr t)"
    "get_or ?d ''event_at'' JNull = opt_iso env (rq_event_at rq)"
    "get_or ?d ''valid_from'' JNull = opt_iso env (rq_valid_from rq)"
    "get_or ?d ''valid_until'' JNull = opt_iso env (rq_valid_until rq)"
    "get_or ?d ''keywords'' (JList []) = JList (map JStr (rq_keywords rq))"
    "get_or ?d ''confirmed'' (JBool False) = JBool (rq_confirmed rq)"
    "jget ?d ''content'' = Some (JStr (rq_content rq))"
    "jget ?d ''category'' = Some (JStr (asc (memory_category_str (rq_category rq))))"
    by (simp_all add: get_or_def jget_def dump_create_def jstr_def)
  have iso: "parse_instant env (opt_iso env t) = Inr t" for t
    using assms(1) by (cases t) (simp_all add: parse_instant_def opt_iso_def)
  have expr: "parse_opt_text (case t of None \<Rightarrow> JNull | Some x \<Rightarrow> JStr x) = Inr t" for t
    by (cases t) (simp_all add: parse_opt_text_def)
  show ?thesis
    unfolding parse_create_def get
    using assms(2,3)
    by (simp add: iso expr parse_origin_str parse_category_str parse_texts_strs parse_opt_uuid_str)
      (cases rq, simp)
qed

end
