(* ===== verification/SettingsProps.thy ===== *)
theory SettingsProps
  imports Providers OrchestrationProps "HOL-Library.Sublist"
begin

text \<open>
  The settings as a typed, versioned store: every stored value satisfies its definition, the
  revisions of a setting are its whole history, and the operations refine an abstract store that
  maps each setting to the list of its values.
\<close>

section \<open>The invariant\<close>

definition revs :: "uuid \<Rightarrow> db \<Rightarrow> setting_revision list" where
  "revs i d = filter (\<lambda>x. sr_setting_id x = i) (setting_revisions d)"

definition typed :: "string \<Rightarrow> string \<Rightarrow> json \<Rightarrow> bool" where
  "typed area key v \<longleftrightarrow>
     (\<exists>s \<in> set DEFINITIONS. sd_area s = area \<and> sd_key s = key \<and> validate_value s v = Inr v)"

definition holds_value :: "string \<Rightarrow> string \<Rightarrow> jdict \<Rightarrow> bool" where
  "holds_value area key kvs \<longleftrightarrow> (\<exists>v. kvs = [(asc ''value'', v)] \<and> typed area key v)"

lemma holds_value_code [code]:
  "holds_value area key kvs = (case kvs of [(k, v)] \<Rightarrow> k = asc ''value'' \<and> typed area key v | _ \<Rightarrow> False)"
  by (auto simp: holds_value_def split: list.splits prod.splits)

definition setting_ok :: "db \<Rightarrow> setting_row \<Rightarrow> bool" where
  "setting_ok d r \<longleftrightarrow>
     holds_value (st_area r) (st_key r) (st_value r) \<and> 1 \<le> version r
   \<and> map sr_revision_number (revs (row_id r) d) = map int [1..<Suc (nat (version r))]
   \<and> sr_value (last (revs (row_id r) d)) = st_value r
   \<and> (\<forall>x \<in> set (revs (row_id r) d). holds_value (st_area r) (st_key r) (sr_value x))"

definition settings_inv :: "db \<Rightarrow> bool" where
  "settings_inv d \<longleftrightarrow>
     keyed (next_id d) (settings d)
   \<and> distinct (map (\<lambda>r. (st_area r, st_key r)) (settings d))
   \<and> (\<forall>r \<in> set (settings d). setting_ok d r)
   \<and> (\<forall>x \<in> set (setting_revisions d). sr_setting_id x < next_id d)"

text \<open>What the tables of the settings keep when something else changes.\<close>

definition settings_frame :: "db \<Rightarrow> db \<Rightarrow> bool" where
  "settings_frame d d' \<longleftrightarrow>
     settings d' = settings d \<and> setting_revisions d' = setting_revisions d \<and> next_id d \<le> next_id d'"

lemma settings_frame_refl [simp]: "settings_frame d d"
  by (simp add: settings_frame_def)

lemma settings_frame_trans: "settings_frame a b \<Longrightarrow> settings_frame b d \<Longrightarrow> settings_frame a d"
  by (simp add: settings_frame_def)

lemma revs_frame: "setting_revisions d' = setting_revisions d \<Longrightarrow> revs i d' = revs i d"
  by (simp add: revs_def)

lemma frame_inv:
  assumes "settings_inv d" "settings_frame d d'"
  shows "settings_inv d'"
proof -
  have e: "settings d' = settings d" "setting_revisions d' = setting_revisions d" "next_id d \<le> next_id d'"
    using assms(2) unfolding settings_frame_def by blast+
  have "setting_ok d' r = setting_ok d r" for r
    unfolding setting_ok_def revs_frame [OF e(2)] ..
  moreover have "keyed (next_id d') (settings d)"
    using assms(1) keyed_mono [OF _ e(3)] unfolding settings_inv_def by blast
  moreover have "\<forall>x \<in> set (setting_revisions d). sr_setting_id x < next_id d'"
    using assms(1) e(3) less_le_trans unfolding settings_inv_def by blast
  ultimately show ?thesis
    using assms(1) unfolding settings_inv_def e(1,2) by simp
qed

section \<open>The abstract store\<close>

type_synonym value_log = "string \<times> string \<Rightarrow> json list"

definition revision_value :: "setting_revision \<Rightarrow> json" where
  "revision_value x = get_or (sr_value x) ''value'' JNull"

definition value_log :: "db \<Rightarrow> value_log" where
  "value_log d = (\<lambda>(a, k). case query_one (\<lambda>r. st_area r = a \<and> st_key r = k) (settings d) of
     None \<Rightarrow> [] | Some r \<Rightarrow> map revision_value (revs (row_id r) d))"

definition log_write :: "string \<times> string \<Rightarrow> json \<Rightarrow> value_log \<Rightarrow> value_log" where
  "log_write k v h = h(k := h k @ [v])"

lemma frame_log: "settings_frame d d' \<Longrightarrow> value_log d' = value_log d"
  by (simp add: fun_eq_iff value_log_def settings_frame_def revs_def split: option.split)

section \<open>Writing one setting\<close>

lemma add_revision_sel [simp]:
  "settings (add_setting_revision now r v b acc kind d) = settings d"
  "next_id (add_setting_revision now r v b acc kind d) = Suc (next_id d)"
  by (simp_all add: add_setting_revision_def fresh_def)

lemma revs_add_revision:
  "revs i (add_setting_revision now r v b acc kind d) = revs i d @
     (if i = row_id r then [\<lparr>row_id = next_id d, sr_setting_id = row_id r, sr_revision_number = version r,
          sr_value = [(asc ''value'', v)], sr_effect_boundary = b, sr_changed_by = Some acc,
          sr_created_at = now, sr_change_kind = kind\<rparr>] else [])"
  by (simp add: revs_def add_setting_revision_def fresh_def)

lemma by_key_Some:
  "by_key area key = Some s \<Longrightarrow> s \<in> set DEFINITIONS \<and> asc (sd_area s) = area \<and> asc (sd_key s) = key"
  unfolding by_key_def by (auto dest: find_Some_D)

lemma validate_value_id: "validate_value s v = Inr w \<Longrightarrow> w = v"
  by (auto simp: validate_value_def split: if_splits)

lemma find_setting_row:
  "find_setting s d = Some r \<Longrightarrow> r \<in> set (settings d) \<and> st_area r = sd_area s \<and> st_key r = sd_key s"
  unfolding find_setting_def by (drule query_one_Some) simp

lemma row_versions:
  assumes "settings_inv d" "r \<in> set (settings d)"
  shows "int (length (revs (row_id r) d)) = version r"
proof -
  have "setting_ok d r" using assms by (simp add: settings_inv_def)
  then have "length (map sr_revision_number (revs (row_id r) d)) = length [1..<Suc (nat (version r))]" "1 \<le> version r"
    by (simp_all add: setting_ok_def)
  then show ?thesis by simp
qed

lemma revise:
  assumes i: "settings_inv d" and f: "find_setting s d = Some old"
    and s: "s \<in> set DEFINITIONS" "validate_value s v = Inr v"
    and r: "row_id r = row_id old" "st_area r = sd_area s" "st_key r = sd_key s"
      "version r = version old + 1" "st_value r = [(asc ''value'', v)]"
    and d'_def: "d' = add_setting_revision now r v b acc kind (d\<lparr>settings := save_row now r (settings d)\<rparr>)"
  shows "settings_inv d'" "value_log d' = log_write (sd_area s, sd_key s) v (value_log d)"
proof -
  note old = find_setting_row [OF f]
  have k: "keyed (next_id d) (settings d)" using i by (simp add: settings_inv_def)
  have ok: "setting_ok d x" if "x \<in> set (settings d)" for x using i that by (simp add: settings_inv_def)
  let ?r = "r\<lparr>updated_at := now\<rparr>"
  let ?x = "\<lparr>row_id = next_id d, sr_setting_id = row_id r, sr_revision_number = version r,
          sr_value = [(asc ''value'', v)], sr_effect_boundary = b, sr_changed_by = Some acc,
          sr_created_at = now, sr_change_kind = kind\<rparr>"
  have rows: "settings d' = put_row ?r (settings d)" by (simp add: d'_def save_row_def)
  have revs': "revs n d' = revs n d @ (if n = row_id old then [?x] else [])" for n
    by (simp add: d'_def revs_add_revision r(1)) (simp add: revs_def)
  have ty: "typed (sd_area s) (sd_key s) v" using s unfolding typed_def by blast
  have mem: "set (settings d') = insert ?r {x \<in> set (settings d). row_id x \<noteq> row_id old}"
    using set_put_row [OF k, of ?r] get_row_mem [OF k, of old] old r(1) unfolding rows by auto
  have o: "setting_ok d old" using ok old by blast
  have "setting_ok d' ?r"
  proof -
    have n: "[1..<Suc (nat (version old + 1))] = [1..<Suc (nat (version old))] @ [Suc (nat (version old))]"
      using o by (simp add: setting_ok_def nat_add_distrib)
    have "holds_value (sd_area s) (sd_key s) [(asc ''value'', v)]"
      unfolding holds_value_def using ty by blast
    then show ?thesis
      using o r old n by (auto simp: setting_ok_def revs')
  qed
  moreover have "setting_ok d' x" if "x \<in> set (settings d)" "row_id x \<noteq> row_id old" for x
    using ok [OF that(1)] that(2) by (simp add: setting_ok_def revs')
  ultimately have all: "\<forall>x \<in> set (settings d'). setting_ok d' x" unfolding mem by blast
  have "map (\<lambda>r. (st_area r, st_key r)) (settings d') = map (\<lambda>r. (st_area r, st_key r)) (settings d)"
    unfolding rows by (rule map_put_row [OF k, of old]) (use old r in simp_all)
  moreover have "next_id d' = Suc (next_id d)" by (simp add: d'_def)
  moreover have "\<forall>x \<in> set (setting_revisions d'). sr_setting_id x < Suc (next_id d)"
  proof -
    have "row_id old < next_id d" using k old by (simp add: keyed_def)
    moreover have "set (setting_revisions d') = insert ?x (set (setting_revisions d))"
      by (simp add: d'_def add_setting_revision_def fresh_def)
    ultimately show ?thesis using i r(1) by (auto simp: settings_inv_def)
  qed
  ultimately show "settings_inv d'"
    using i all keyed_mono [of "next_id d" "settings d" "Suc (next_id d)"] k
    by (simp add: settings_inv_def rows)
  show "value_log d' = log_write (sd_area s, sd_key s) v (value_log d)"
  proof (rule ext, clarify)
    fix a key
    show "value_log d' (a, key) = log_write (sd_area s, sd_key s) v (value_log d) (a, key)"
    proof (cases "(a, key) = (sd_area s, sd_key s)")
      case True
      have "query_one (\<lambda>r. st_area r = sd_area s \<and> st_key r = sd_key s) (settings d') = Some ?r"
        unfolding rows by (rule query_one_put_row [OF k f [unfolded find_setting_def]]) (use r in simp_all)
      then show ?thesis
        using True f r(1) by (simp add: value_log_def log_write_def revs' find_setting_def revision_value_def
            get_or_def jget_def)
    next
      case False
      have "query_one (\<lambda>r. st_area r = a \<and> st_key r = key) (settings d') =
          query_one (\<lambda>r. st_area r = a \<and> st_key r = key) (settings d)"
        unfolding rows using False r old keyed_unique [OF k]
        by (intro query_one_put_row_other) auto
      moreover have "revs (row_id x) d' = revs (row_id x) d"
        if "query_one (\<lambda>r. st_area r = a \<and> st_key r = key) (settings d) = Some x" for x
      proof -
        have "row_id x \<noteq> row_id old"
          using query_one_Some [OF that] old False keyed_unique [OF k] by auto
        then show ?thesis by (simp add: revs')
      qed
      ultimately show ?thesis
        using False by (simp add: value_log_def log_write_def split: option.splits)
    qed
  qed
qed
lemma create:
  assumes i: "settings_inv d" and f: "find_setting s d = None"
    and s: "s \<in> set DEFINITIONS" "validate_value s v = Inr v"
    and r: "row_id r = next_id d" "st_area r = sd_area s" "st_key r = sd_key s"
      "version r = 1" "st_value r = [(asc ''value'', v)]"
    and d'_def: "d' = add_setting_revision now r v b acc kind ((fresh d)\<lparr>settings := settings d @ [r]\<rparr>)"
  shows "settings_inv d'" "value_log d' = log_write (sd_area s, sd_key s) v (value_log d)"
proof -
  have k: "keyed (next_id d) (settings d)" using i by (simp add: settings_inv_def)
  have old: "\<forall>x \<in> set (setting_revisions d). sr_setting_id x < next_id d" using i by (simp add: settings_inv_def)
  then have none: "revs (next_id d) d = []" by (auto simp: revs_def filter_empty_conv)
  let ?x = "\<lparr>row_id = Suc (next_id d), sr_setting_id = row_id r, sr_revision_number = version r,
          sr_value = [(asc ''value'', v)], sr_effect_boundary = b, sr_changed_by = Some acc,
          sr_created_at = now, sr_change_kind = kind\<rparr>"
  have rows: "settings d' = settings d @ [r]" by (simp add: d'_def)
  have revs': "revs n d' = revs n d @ (if n = next_id d then [?x] else [])" for n
    by (simp add: d'_def revs_add_revision r(1)) (simp add: revs_def fresh_def)
  have n: "next_id d' = Suc (Suc (next_id d))" by (simp add: d'_def fresh_def)
  have "typed (sd_area s) (sd_key s) v" using s unfolding typed_def by blast
  then have "holds_value (sd_area s) (sd_key s) [(asc ''value'', v)]" unfolding holds_value_def by blast
  then have new: "setting_ok d' r" using r by (simp add: setting_ok_def revs' none)
  have ids: "row_id x < next_id d" if "x \<in> set (settings d)" for x using k that by (simp add: keyed_def)
  have "setting_ok d' x" if "x \<in> set (settings d)" for x
    using i that ids [OF that] by (simp add: settings_inv_def setting_ok_def revs')
  then have all: "\<forall>x \<in> set (settings d'). setting_ok d' x" using new unfolding rows by auto
  have "(sd_area s, sd_key s) \<notin> (\<lambda>r. (st_area r, st_key r)) ` set (settings d)"
    using f by (auto simp: find_setting_def query_one_None)
  moreover have "\<forall>x \<in> set (setting_revisions d'). sr_setting_id x < Suc (Suc (next_id d))"
    using old r(1) by (auto simp: d'_def add_setting_revision_def fresh_def)
  moreover have "keyed (Suc (Suc (next_id d))) (settings d')"
    unfolding rows by (rule keyed_append_new [OF k]) (simp_all add: r)
  ultimately show "settings_inv d'"
    using i all by (simp add: settings_inv_def rows n r)
  show "value_log d' = log_write (sd_area s, sd_key s) v (value_log d)"
  proof (rule ext, clarify)
    fix a key
    let ?P = "\<lambda>r. st_area r = a \<and> st_key r = key"
    have q: "query_one ?P (settings d') = (case query_one ?P (settings d) of
        Some x \<Rightarrow> Some x | None \<Rightarrow> if ?P r then Some r else None)"
      unfolding rows by (rule query_one_snoc)
    show "value_log d' (a, key) = log_write (sd_area s, sd_key s) v (value_log d) (a, key)"
    proof (cases "query_one ?P (settings d)")
      case (Some x)
      have "(a, key) \<noteq> (sd_area s, sd_key s)" using f Some by (auto simp: find_setting_def)
      moreover have "row_id x \<noteq> next_id d" using ids [of x] query_one_Some [OF Some] by auto
      ultimately show ?thesis using Some q by (auto simp: value_log_def log_write_def revs')
    next
      case None
      then show ?thesis
        using q r none by (auto simp: value_log_def log_write_def revs' revision_value_def get_or_def jget_def)
    qed
  qed
qed

lemma put_setting_ok:
  assumes "settings_inv d" "s \<in> set DEFINITIONS" "validate_value s v = Inr v" "put_setting now s v acc d = (r, d1)"
  shows "settings_inv (add_setting_revision now r v b acc kind d1)"
    and "value_log (add_setting_revision now r v b acc kind d1) = log_write (sd_area s, sd_key s) v (value_log d)"
    and "version r = setting_version s d + 1" "next_id d \<le> next_id d1"
proof -
  have "settings_inv (add_setting_revision now r v b acc kind d1)
    \<and> value_log (add_setting_revision now r v b acc kind d1) = log_write (sd_area s, sd_key s) v (value_log d)
    \<and> version r = setting_version s d + 1 \<and> next_id d \<le> next_id d1"
  proof (cases "find_setting s d")
    case None
    with assms(4) have r: "row_id r = next_id d" "st_area r = sd_area s" "st_key r = sd_key s" "version r = 1"
        "st_value r = [(asc ''value'', v)]" and d1: "d1 = (fresh d)\<lparr>settings := settings d @ [r]\<rparr>"
      by (auto simp: put_setting_def Let_def)
    have "next_id d \<le> next_id d1" unfolding d1 by (simp add: fresh_def)
    with create [OF assms(1) None assms(2,3) r refl] r(4) None show ?thesis
      unfolding d1 by (simp add: setting_version_def)
  next
    case (Some old)
    with assms(4) have r: "row_id r = row_id old" "st_area r = st_area old" "st_key r = st_key old"
        "version r = version old + 1" "st_value r = [(asc ''value'', v)]"
      and d1: "d1 = d\<lparr>settings := save_row now r (settings d)\<rparr>"
      by (auto simp: put_setting_def Let_def)
    have r': "st_area r = sd_area s" "st_key r = sd_key s" using r find_setting_row [OF Some] by simp_all
    have "next_id d \<le> next_id d1" unfolding d1 by simp
    with revise [OF assms(1) Some assms(2,3) r(1) r' r(4,5) refl] r(4) Some show ?thesis
      unfolding d1 by (simp add: setting_version_def)
  qed
  then show "settings_inv (add_setting_revision now r v b acc kind d1)"
    "value_log (add_setting_revision now r v b acc kind d1) = log_write (sd_area s, sd_key s) v (value_log d)"
    "version r = setting_version s d + 1" "next_id d \<le> next_id d1" by blast+
qed

lemma frame_parts [simp]:
  "settings_frame a (audit_append c t ctx ety res tty tid det d) = settings_frame a d"
  "settings_frame d (reindex_all t reason d)"
  by (simp_all add: settings_frame_def audit_append_def reindex_all_def mark_all_stale_def enqueue_def fresh_def Let_def)

section \<open>The operations\<close>

lemma change_setting_failed: "change_setting c now area key rq acc ctx d = (Inl e, d') \<Longrightarrow> d' = d"
  by (auto simp: change_setting_def Let_def split: option.splits sum.splits if_splits prod.splits)

lemma change_setting_done:
  assumes "change_setting c now area key rq acc ctx d = (Inr out, d')"
  shows "\<exists>s v r d1. by_key area key = Some s \<and> validate_value s v = Inr v
     \<and> json_int (get_or rq ''version'' (JInt 0)) = Inr (setting_version s d)
     \<and> (sd_area s = ''models'' \<and> truthy v \<longrightarrow> validate_model_selection (sd_key s) (setting_text v) d = Inr ())
     \<and> put_setting now s v acc d = (r, d1)
     \<and> settings_frame (add_setting_revision now r v (sd_boundary s) acc ''changed'' d1) d'
     \<and> out = \<lparr>so_key = sd_key s, so_value = v, so_version = version r, so_boundary = sd_boundary s\<rparr>"
proof -
  from assms obtain s where s: "by_key area key = Some s"
    by (auto simp: change_setting_def split: option.splits)
  from assms s obtain v where v: "validate_value s (get_or rq ''value'' JNull) = Inr v"
    by (auto simp: change_setting_def split: sum.splits)
  obtain r d1 where p: "put_setting now s v acc d = (r, d1)" by fastforce
  let ?d2 = "add_setting_revision now r v (sd_boundary s) acc ''changed'' d1"
  have i: "json_int (get_or rq ''version'' (JInt 0)) = Inr (setting_version s d)"
    and m: "sd_area s = ''models'' \<and> truthy v \<longrightarrow> validate_model_selection (sd_key s) (setting_text v) d = Inr ()"
    using assms s v by (auto simp: change_setting_def split: sum.splits if_splits)
  have o: "out = \<lparr>so_key = sd_key s, so_value = v, so_version = version r, so_boundary = sd_boundary s\<rparr>"
    using assms s v i p by (auto simp: change_setting_def Let_def split: sum.splits if_splits)
  have "settings_frame ?d2 d'"
  proof -
    have "settings_frame x (audit_append c now ctx a b t u w (reindex_all now q x'))"
      if "x' = audit_append c now ctx a' b' t' u' w' x" for x x' a b t u w q a' b' t' u' w'
      using that settings_frame_trans [of x x'] by simp
    then show ?thesis
      using assms s v i p by (auto simp: change_setting_def Let_def split: sum.splits if_splits)
  qed
  moreover have "validate_value s v = Inr v" using v validate_value_id [OF v] by simp
  ultimately show ?thesis using s i m p o by blast
qed

definition outcome_write :: "string \<Rightarrow> setting_outcome \<Rightarrow> value_log \<Rightarrow> value_log" where
  "outcome_write area out = log_write (area, so_key out) (so_value out)"

lemma change_setting_refines:
  assumes "settings_inv d" "change_setting c now (asc area) key rq acc ctx d = (Inr out, d')"
  shows "settings_inv d'" "value_log d' = outcome_write area out (value_log d)" "next_id d \<le> next_id d'"
proof -
  from change_setting_done [OF assms(2)] obtain s v r d1 where h:
      "by_key (asc area) key = Some s" "validate_value s v = Inr v" "put_setting now s v acc d = (r, d1)"
      "settings_frame (add_setting_revision now r v (sd_boundary s) acc ''changed'' d1) d'"
      "out = \<lparr>so_key = sd_key s, so_value = v, so_version = version r, so_boundary = sd_boundary s\<rparr>" by blast
  have s: "s \<in> set DEFINITIONS" "sd_area s = area" using by_key_Some [OF h(1)] by simp_all
  note p = put_setting_ok(1,2) [OF assms(1) s(1) h(2,3), where b = "sd_boundary s" and kind = "''changed''"]
  show "settings_inv d'" by (rule frame_inv [OF p(1) h(4)])
  show "value_log d' = outcome_write area out (value_log d)"
    using frame_log [OF h(4)] p(2) s(2) by (simp add: outcome_write_def h(5))
  show "next_id d \<le> next_id d'" using put_setting_ok(4) [OF assms(1) s(1) h(2,3)] h(4) by (simp add: settings_frame_def)
qed

lemma change_setting_inv:
  assumes "settings_inv d" "change_setting c now area key rq acc ctx d = (r, d')"
  shows "settings_inv d' \<and> next_id d \<le> next_id d'"
proof (cases r)
  case (Inl e)
  with assms change_setting_failed show ?thesis by blast
next
  case (Inr out)
  with assms(2) obtain s where s: "by_key area key = Some s"
    by (auto simp: change_setting_def split: option.splits)
  have "area = asc (sd_area s)" using by_key_Some [OF s] by simp
  with assms Inr change_setting_refines [OF assms(1), of c now "sd_area s" key rq acc ctx out d'] show ?thesis by simp
qed

lemma update_area_inv:
  "settings_inv d \<Longrightarrow> update_area c now area changes acc ctx d = (r, d') \<Longrightarrow> settings_inv d' \<and> next_id d \<le> next_id d'"
proof (induction changes arbitrary: d r d')
  case (Cons x changes)
  obtain key rq where x: "x = (key, rq)" by fastforce
  obtain q d1 where q: "change_setting c now area key rq acc ctx d = (q, d1)" by fastforce
  note one = change_setting_inv [OF Cons.prems(1) q]
  obtain q2 d2 where q2: "update_area c now area changes acc ctx d1 = (q2, d2)" by fastforce
  have "settings_inv d2 \<and> next_id d1 \<le> next_id d2" using Cons.IH [OF _ q2] one by blast
  then show ?case
    using Cons.prems(2) one q q2 by (cases q; cases q2) (auto simp: x)
qed simp

lemma update_area_refines:
  "settings_inv d \<Longrightarrow> update_area c now (asc area) changes acc ctx d = (Inr outs, d')
     \<Longrightarrow> value_log d' = fold (outcome_write area) outs (value_log d)"
proof (induction changes arbitrary: d outs d')
  case (Cons x changes)
  obtain key rq where x: "x = (key, rq)" by fastforce
  obtain q d1 where q: "change_setting c now (asc area) key rq acc ctx d = (q, d1)" by fastforce
  obtain q2 d2 where q2: "update_area c now (asc area) changes acc ctx d1 = (q2, d2)" by fastforce
  from Cons.prems(2) q q2 obtain out rest where r: "q = Inr out" "q2 = Inr rest" "outs = out # rest" "d' = d2"
    by (cases q; cases q2) (auto simp: x)
  note one = change_setting_refines [OF Cons.prems(1) q [unfolded r(1)]]
  from Cons.IH [OF one(1) q2 [unfolded r(2)]] one(2) show ?case by (simp add: r)
qed simp
lemma restore_done:
  assumes "restore_revision c now area key n expected acc ctx d = (Inr r, d')"
  shows "\<exists>s old x v. by_key area key = Some s \<and> find_setting s d = Some old \<and> version old = expected
     \<and> query_one (\<lambda>x. sr_setting_id x = row_id old \<and> sr_revision_number x = n) (setting_revisions d) = Some x
     \<and> v = revision_value x \<and> validate_value s v = Inr v
     \<and> (sd_area s = ''models'' \<longrightarrow> validate_model_selection (sd_key s) (setting_text v) d = Inr ())
     \<and> (let r1 = old\<lparr>st_value := [(asc ''value'', v)], st_effect_boundary := sd_boundary s,
                    st_changed_by := Some acc, version := version old + 1\<rparr>
        in r = r1\<lparr>updated_at := now\<rparr> \<and> settings_frame (add_setting_revision now r1 v (sd_boundary s) acc ''restored''
               (d\<lparr>settings := save_row now r1 (settings d)\<rparr>)) d')"
proof -
  from assms obtain s where s: "by_key area key = Some s"
    by (auto simp: restore_revision_def split: option.splits)
  from assms s obtain old where o: "find_setting s d = Some old"
    by (auto simp: restore_revision_def split: option.splits)
  from assms s o have e: "version old = expected"
    by (auto simp: restore_revision_def split: if_splits)
  from assms s o e obtain x where x: "query_one (\<lambda>x. sr_setting_id x = row_id old \<and> sr_revision_number x = n)
      (setting_revisions d) = Some x"
    by (auto simp: restore_revision_def split: option.splits)
  from assms s o e x obtain w where "validate_value s (revision_value x) = Inr w"
    by (auto simp: restore_revision_def revision_value_def split: sum.splits)
  then have v: "validate_value s (revision_value x) = Inr (revision_value x)" using validate_value_id by metis
  from assms s o e x v have m: "sd_area s = ''models'' \<longrightarrow>
      validate_model_selection (sd_key s) (setting_text (revision_value x)) d = Inr ()"
    by (auto simp: restore_revision_def revision_value_def split: sum.splits)
  let ?r1 = "old\<lparr>st_value := [(asc ''value'', revision_value x)], st_effect_boundary := sd_boundary s,
                    st_changed_by := Some acc, version := version old + 1\<rparr>"
  let ?d2 = "add_setting_revision now ?r1 (revision_value x) (sd_boundary s) acc ''restored''
               (d\<lparr>settings := save_row now ?r1 (settings d)\<rparr>)"
  have "r = ?r1\<lparr>updated_at := now\<rparr> \<and> settings_frame ?d2 d'"
    using assms s o e x v m
    by (auto simp: restore_revision_def revision_value_def Let_def split: if_splits)
  then show ?thesis using s o e x v m unfolding Let_def by blast
qed

lemma restore_failed: "restore_revision c now area key n expected acc ctx d = (Inl e, d') \<Longrightarrow> d' = d"
  by (auto simp: restore_revision_def Let_def split: option.splits sum.splits if_splits)

lemma revision_in_log:
  assumes "settings_inv d" "r \<in> set (settings d)"
    and "query_one (\<lambda>x. sr_setting_id x = row_id r \<and> sr_revision_number x = n) (setting_revisions d) = Some x"
  shows "1 \<le> n \<and> n \<le> version r \<and> map revision_value (revs (row_id r) d) ! nat (n - 1) = revision_value x"
proof -
  let ?xs = "revs (row_id r) d"
  have ok: "map sr_revision_number ?xs = map int [1..<Suc (nat (version r))]" "1 \<le> version r"
    using assms(1,2) by (simp_all add: settings_inv_def setting_ok_def)
  have "x \<in> set ?xs" "sr_revision_number x = n"
    using query_one_Some [OF assms(3)] by (simp_all add: revs_def)
  then obtain k where k: "k < length ?xs" "?xs ! k = x" by (meson in_set_conv_nth)
  have len: "length ?xs = nat (version r)"
    using arg_cong [OF ok(1), of length] ok(2) by simp
  have "map sr_revision_number ?xs ! k = map int [1..<Suc (nat (version r))] ! k" by (simp only: ok(1))
  then have "n = int (Suc k)"
    using k \<open>sr_revision_number x = n\<close> len by (simp del: upt_Suc)
  then show ?thesis using k len by simp
qed

lemma restore_refines:
  assumes i: "settings_inv d" and e: "restore_revision c now (asc area) (asc key) n expected acc ctx d = (Inr r, d')"
  shows "settings_inv d'" "next_id d \<le> next_id d'"
    and "value_log d' = log_write (area, key) (value_log d (area, key) ! nat (n - 1)) (value_log d)"
    and "expected = int (length (value_log d (area, key)))" "1 \<le> n" "n \<le> expected"
proof -
  from restore_done [OF e] obtain s old x where h: "by_key (asc area) (asc key) = Some s"
      "find_setting s d = Some old" "version old = expected"
      "query_one (\<lambda>x. sr_setting_id x = row_id old \<and> sr_revision_number x = n) (setting_revisions d) = Some x"
      "validate_value s (revision_value x) = Inr (revision_value x)"
    and f: "settings_frame (add_setting_revision now (old\<lparr>st_value := [(asc ''value'', revision_value x)],
          st_effect_boundary := sd_boundary s, st_changed_by := Some acc, version := version old + 1\<rparr>)
          (revision_value x) (sd_boundary s) acc ''restored''
          (d\<lparr>settings := save_row now (old\<lparr>st_value := [(asc ''value'', revision_value x)],
          st_effect_boundary := sd_boundary s, st_changed_by := Some acc, version := version old + 1\<rparr>) (settings d)\<rparr>)) d'"
    unfolding Let_def by blast
  have s: "s \<in> set DEFINITIONS" "sd_area s = area" "sd_key s = key" using by_key_Some [OF h(1)] by simp_all
  note old = find_setting_row [OF h(2)]
  have r: "row_id (old\<lparr>st_value := [(asc ''value'', revision_value x)],
          st_effect_boundary := sd_boundary s, st_changed_by := Some acc, version := version old + 1\<rparr>) = row_id old" by simp
  have l: "value_log d (area, key) = map revision_value (revs (row_id old) d)"
    using h(2) by (simp add: value_log_def find_setting_def s)
  note m = revision_in_log [OF i _ h(4)]
  show "settings_inv d'" by (rule frame_inv [OF _ f]) (rule revise(1) [OF i h(2) s(1) h(5) r _ _ _ _ refl], simp_all add: old)
  show "next_id d \<le> next_id d'" using f by (simp add: settings_frame_def)
  have "value_log d' = log_write (sd_area s, sd_key s) (revision_value x) (value_log d)"
    unfolding frame_log [OF f] by (rule revise(2) [OF i h(2) s(1) h(5) r _ _ _ _ refl]) (simp_all add: old)
  then show "value_log d' = log_write (area, key) (value_log d (area, key) ! nat (n - 1)) (value_log d)"
    using m old unfolding l by (simp add: s)
  show "expected = int (length (value_log d (area, key)))"
    using row_versions [OF i, of old] old h(3) unfolding l by simp
  show "1 \<le> n" "n \<le> expected" using m old h(3) by simp_all
qed
section \<open>Providers and recommendations\<close>

lemma put_catalog_frame: "settings_frame d (snd (put_catalog now pid m caps role d))"
  by (auto simp: put_catalog_def settings_frame_def fresh_def Let_def split: option.split)

lemma put_roles_frame: "settings_frame d (snd (put_roles now pid m caps rs d))"
proof (induction rs arbitrary: d)
  case (Cons r rs)
  obtain e d1 where e: "put_catalog now pid m caps r d = (e, d1)" by fastforce
  obtain es d2 where es: "put_roles now pid m caps rs d1 = (es, d2)" by fastforce
  have "settings_frame d d1" using put_catalog_frame [of d now pid m caps r] e by simp
  moreover have "settings_frame d1 d2" using Cons.IH [of d1] es by simp
  ultimately show ?case using settings_frame_trans by (simp add: e es)
qed simp

lemma put_models_frame: "settings_frame d (snd (put_models now pid ms d))"
proof (induction ms arbitrary: d)
  case (Cons m ms)
  let ?c = "classify_model (pm_external_id m) (pm_capabilities m)"
  obtain es d1 where e: "put_roles now pid m (cl_capabilities ?c) (cl_roles ?c) d = (es, d1)" by fastforce
  obtain fs d2 where fs: "put_models now pid ms d1 = (fs, d2)" by fastforce
  have "settings_frame d d1" using put_roles_frame [of d now pid m "cl_capabilities ?c" "cl_roles ?c"] e by simp
  moreover have "settings_frame d1 d2" using Cons.IH [of d1] fs by simp
  ultimately show ?case using settings_frame_trans by (simp add: Let_def e fs)
qed simp

lemma save_frame: "settings_frame d (snd (provider_save g k nonce c now rq ctx d))"
  by (auto simp: provider_save_def open_provider_def replace_key_def settings_frame_def audit_append_def fresh_def
      Let_def split: option.split sum.split)

lemma verify_frame: "settings_frame d (snd (provider_verify env c now pid listed ctx d))"
proof -
  have w: "settings_frame d (snd (put_models now pid ms (withdraw_catalog now pid (d\<lparr>providers := x\<rparr>))))" for ms x
  proof -
    have "settings_frame d (withdraw_catalog now pid (d\<lparr>providers := x\<rparr>))"
      by (simp add: settings_frame_def withdraw_catalog_def)
    from settings_frame_trans [OF this put_models_frame] show ?thesis .
  qed
  have p: "settings_frame d (d\<lparr>providers := x\<rparr>)" for x by (simp add: settings_frame_def)
  have "settings_frame d x" if "put_models now pid ms (withdraw_catalog now pid (d\<lparr>providers := y\<rparr>)) = (es, x)" for ms y es x
    using w [of ms y] that by simp
  then show ?thesis
    using p by (auto simp: provider_verify_def Let_def split: option.split sum.split list.split prod.splits
        simp del: put_models.simps)
qed

lemma role_definition:
  assumes "role \<in> set ROLE_ORDER"
  shows "\<exists>s. by_key (asc ''models'') (asc role) = Some s \<and> sd_area s = ''models'' \<and> sd_key s = role
     \<and> (\<forall>t. validate_value s (JStr t) = Inr (JStr t))"
  using assms
  by (auto simp: ROLE_ORDER_def by_key_def DEFINITIONS_def choosing_def ranged_def SettingDefinition_def
      validate_value_def)

lemma set_setting_refines:
  assumes "settings_inv d" "role \<in> set ROLE_ORDER"
  shows "\<exists>d'. set_setting now role (JStr t) acc d = (Inr (), d') \<and> settings_inv d' \<and> next_id d \<le> next_id d'
    \<and> value_log d' = log_write (''models'', role) (JStr t) (value_log d)"
proof -
  obtain s where s: "by_key (asc ''models'') (asc role) = Some s" "sd_area s = ''models''" "sd_key s = role"
      "validate_value s (JStr t) = Inr (JStr t)"
    using role_definition [OF assms(2)] by blast
  obtain r d1 where p: "put_setting now s (JStr t) acc d = (r, d1)" by fastforce
  have m: "s \<in> set DEFINITIONS" using by_key_Some [OF s(1)] by simp
  show ?thesis
    using put_setting_ok [OF assms(1) m s(4) p] s p by (simp add: set_setting_def)
qed

lemma apply_roles_refines:
  assumes "settings_inv d" "fst ` set rs \<subseteq> set ROLE_ORDER"
  shows "\<exists>cs d'. apply_roles now rs acc d = (Inr cs, d') \<and> settings_inv d' \<and> next_id d \<le> next_id d'
    \<and> value_log d' = fold (\<lambda>(role, t). log_write (''models'', role) (JStr t)) cs (value_log d)"
  using assms
proof (induction rs arbitrary: d)
  case (Cons x rs)
  obtain role opts where x: "x = (role, opts)" by fastforce
  show ?case
  proof (cases "ro_recommended opts")
    case None
    with Cons x show ?thesis by simp
  next
    case (Some i)
    obtain d1 where d1: "set_setting now role (JStr (uuid_str i)) acc d = (Inr (), d1)" "settings_inv d1"
        "next_id d \<le> next_id d1" "value_log d1 = log_write (''models'', role) (JStr (uuid_str i)) (value_log d)"
      using set_setting_refines [OF Cons.prems(1), of role now "uuid_str i" acc] Cons.prems(2) x by auto
    obtain cs d2 where d2: "apply_roles now rs acc d1 = (Inr cs, d2)" "settings_inv d2" "next_id d1 \<le> next_id d2"
        "value_log d2 = fold (\<lambda>(role, t). log_write (''models'', role) (JStr t)) cs (value_log d1)"
      using Cons.IH [OF d1(2)] Cons.prems(2) x by auto
    show ?thesis using d1 d2 x Some by simp
  qed
qed simp

lemma apply_recommended_refines:
  assumes "settings_inv d" "apply_recommended c now pid acc ctx d = (r, d')"
  shows "settings_inv d'" "next_id d \<le> next_id d'"
    and "r = Inr changes \<Longrightarrow> value_log d' = fold (\<lambda>(role, t). log_write (''models'', role) (JStr t)) changes (value_log d)"
proof -
  have "settings_inv d' \<and> next_id d \<le> next_id d'
    \<and> (\<forall>changes. r = Inr changes \<longrightarrow> value_log d' = fold (\<lambda>(role, t). log_write (''models'', role) (JStr t)) changes (value_log d))"
  proof (cases "model_options pid d")
    case (Inl e)
    then show ?thesis using assms by (auto simp: apply_recommended_def)
  next
    case (Inr pr)
    obtain p roles where pr: "pr = (p, roles)" by fastforce
    have "fst ` set roles \<subseteq> set ROLE_ORDER"
      using Inr pr by (auto simp: model_options_def split: option.splits)
    from apply_roles_refines [OF assms(1) this, of now acc] obtain cs d1 where
      a: "apply_roles now roles acc d = (Inr cs, d1)" "settings_inv d1" "next_id d \<le> next_id d1"
        "value_log d1 = fold (\<lambda>(role, t). log_write (''models'', role) (JStr t)) cs (value_log d)" by blast
    have f: "settings_frame d1 d'" "r = Inr cs"
      using assms(2) Inr pr a(1) by (auto simp: apply_recommended_def)
    show ?thesis
      using frame_inv [OF a(2) f(1)] frame_log [OF f(1)] a(3,4) f by (auto simp: settings_frame_def)
  qed
  then show "settings_inv d'" "next_id d \<le> next_id d'"
    "r = Inr changes \<Longrightarrow> value_log d' = fold (\<lambda>(role, t). log_write (''models'', role) (JStr t)) changes (value_log d)"
    by blast+
qed

lemma verify_and_apply_inv:
  assumes "settings_inv d"
  shows "settings_inv (snd (verify_and_apply env c now pid listed acc ctx d))"
proof -
  obtain q d1 where q: "provider_verify env c now pid listed ctx d = (q, d1)" by fastforce
  have i: "settings_inv d1" using frame_inv [OF assms] verify_frame [of d env c now pid listed ctx] q by simp
  obtain r d2 where r: "apply_recommended c now pid acc ctx d1 = (r, d2)" by fastforce
  show ?thesis
    using i apply_recommended_refines(1) [OF i r] q r by (simp add: verify_and_apply_def split: sum.split)
qed

lemma save_and_verify_inv:
  assumes "settings_inv d"
  shows "settings_inv (snd (save_and_verify env g k nonce c now rq lm acc ctx d))"
proof -
  obtain p d0 where p: "provider_save g k nonce c now rq ctx d = (p, d0)" by fastforce
  have i0: "settings_inv d0" using frame_inv [OF assms] save_frame [of d g k nonce c now rq ctx] p by simp
  show ?thesis
  proof (cases p)
    case (Inl e)
    then show ?thesis using i0 p by (simp add: save_and_verify_def)
  next
    case (Inr row)
    obtain q d1 where q: "provider_verify env c now (row_id row) (lm row) ctx d0 = (q, d1)" by fastforce
    have i: "settings_inv d1"
      using frame_inv [OF i0] verify_frame [of d0 env c now "row_id row" "lm row" ctx] q by simp
    obtain r d2 where r: "apply_recommended c now (row_id row) acc ctx d1 = (r, d2)" by fastforce
    show ?thesis
      using i apply_recommended_refines(1) [OF i r] p q r Inr by (simp add: save_and_verify_def split: sum.split)
  qed
qed

section \<open>Requests\<close>

inductive settings_step :: "crypto \<Rightarrow> db \<Rightarrow> db \<Rightarrow> bool" for c where
  step_update: "run_tx (update_area c now area changes acc ctx) d = (r, d') \<Longrightarrow> settings_step c d d'"
| step_restore: "run_tx (restore_revision c now area key n expected acc ctx) d = (r', d') \<Longrightarrow> settings_step c d d'"
| step_recommend: "run_tx (apply_recommended c now pid acc ctx) d = (r'', d') \<Longrightarrow> settings_step c d d'"
| step_save: "run_tx (save_and_verify env g k nonce c now rq lm acc ctx) d = (r3, d') \<Longrightarrow> settings_step c d d'"
| step_verify: "run_tx (verify_and_apply env c now pid listed acc ctx) d = (r4, d') \<Longrightarrow> settings_step c d d'"
| step_elsewhere: "settings_frame d d' \<Longrightarrow> settings_step c d d'"

lemma restore_inv:
  assumes "settings_inv d"
  shows "settings_inv (snd (restore_revision c now area key n expected acc ctx d))"
proof -
  obtain r d' where e: "restore_revision c now area key n expected acc ctx d = (r, d')" by fastforce
  show ?thesis
  proof (cases r)
    case (Inl x)
    then show ?thesis using assms e restore_failed [OF e [unfolded Inl]] by simp
  next
    case (Inr row)
    obtain s where "by_key area key = Some s"
      using restore_done [OF e [unfolded Inr]] by blast
    then have "area = asc (sd_area s)" "key = asc (sd_key s)" using by_key_Some by blast+
    then show ?thesis using restore_refines(1) [OF assms] e Inr by simp
  qed
qed

interpretation settings: step_system "settings_step c" settings_inv for c
proof unfold_locales
  fix s s' assume i: "settings_inv s" and "settings_step c s s'"
  from this(2) show "settings_inv s'"
  proof cases
    case (step_update now area changes acc ctx r)
    have "settings_inv (snd (update_area c now area changes acc ctx s))"
      using update_area_inv [OF i] by (metis prod.collapse)
    with step_update i show ?thesis using run_tx_keeps [OF step_update] by blast
  next
    case step_restore
    show ?thesis by (rule run_tx_keeps [OF step_restore i restore_inv [OF i]])
  next
    case (step_recommend now pid acc ctx r)
    have "settings_inv (snd (apply_recommended c now pid acc ctx s))"
      using apply_recommended_refines(1) [OF i] by (metis prod.collapse)
    with step_recommend i show ?thesis using run_tx_keeps [OF step_recommend] by blast
  next
    case step_save
    show ?thesis by (rule run_tx_keeps [OF step_save i save_and_verify_inv [OF i]])
  next
    case step_verify
    show ?thesis by (rule run_tx_keeps [OF step_verify i verify_and_apply_inv [OF i]])
  next
    case step_elsewhere
    show ?thesis by (rule frame_inv [OF i step_elsewhere])
  qed
qed

lemma settings_inv_empty: "settings_inv empty_db"
  by (simp add: settings_inv_def empty_db_def)

end
