(* ===== verification/OrchestrationTheorems.thy ===== *)
theory OrchestrationTheorems
  imports OrchestrationProps
begin

text \<open>
  What the orchestration guarantees: an answer changes nothing but its own tables and
  only proposes actions; the sources it names come from the context it was given;
  a proposed action is executed at most once, only in time and only with the
  arguments that were shown; a completed answer is given again without calling the
  model.
\<close>

section \<open>A concrete conversation\<close>

text \<open>Account 7, a conversation with one user message, a verified provider of the test environment,
  and a model that proposes to remember something.\<close>

definition demo_env :: "model_decision \<Rightarrow> orch_env" where
  "demo_env dec = \<lparr>oe_test_environment = True, oe_decrypts = (\<lambda>_. True), oe_ranked = (\<lambda>_ _ _ _ _. []),
     oe_chat = (\<lambda>_ _. Inr \<lparr>cx_provider_response_id = asc ''r1'', cx_structured = Some dec,
        cx_input_units = Some 10, cx_output_units = Some 5\<rparr>),
     oe_latency = (\<lambda>_. 3), oe_lower = casefold, oe_iso = (\<lambda>t. [if t < 0 then 1 else 0, nat \<bar>t\<bar>]), oe_isoformat = (\<lambda>t. int_str t),
     oe_validation_errors = (\<lambda>_. JList []), oe_parse_iso = (\<lambda>s. case s of [sg, n] \<Rightarrow> Some (if sg = 1 then - int n else int n) | _ \<Rightarrow> None), oe_datetime = (\<lambda>_. None),
     oe_repr = (\<lambda>_. []), oe_int = (\<lambda>_. None)\<rparr>"

definition demo_decision :: model_decision where
  "demo_decision = \<lparr>md_intent = ''change_proposal'', md_result_type = ''confirmation_required'',
     md_answer = asc ''Save it?'', md_uncertainty = ''none'', md_sources = [],
     md_tool_calls = [\<lparr>tl_name = ''memory_create'', tl_arguments = [(asc ''content'', JStr (asc ''Likes tea''))]\<rparr>],
     md_memory_proposal = None, md_requires_confirmation = True\<rparr>"

definition demo_reply :: model_decision where
  "demo_reply = demo_decision\<lparr>md_intent := ''conversation'', md_result_type := ''answer'', md_tool_calls := [],
     md_requires_confirmation := False,
     md_sources := [\<lparr>sf_source_type = ''conversation'', sf_source_id = uuid_str 2, sf_label = asc ''turn''\<rparr>]\<rparr>"

definition demo_orch :: db where
  "demo_orch = empty_db\<lparr>next_id := 6,
     conversations := [\<lparr>row_id = 1, created_at = 0, updated_at = 0, version = 2, cv_account_id = 7, cv_state = CActive,
       cv_input_mode = ''text'', cv_language = asc ''cs'', cv_title = None, cv_title_source = ''automatic'',
       cv_summary = None, cv_summary_source = ''automatic'', cv_started_at = 0, cv_ended_at = None,
       cv_last_activity_at = 0, cv_end_reason = None, cv_continuation_of_id = None, cv_deleted_at = None,
       cv_purge_after = None, cv_message_count = 1, cv_context_summary = None, cv_context_summary_version = 0\<rparr>],
     messages := [\<lparr>row_id = 2, created_at = 0, updated_at = 0, version = 1, ms_conversation_id = 1, ms_sequence = 1,
       ms_role = ''user'', ms_content = asc ''I like tea'', ms_input_mode = ''text'', ms_status = ''final'',
       ms_idempotency_key = asc ''k'', ms_request_hash = None, ms_provider_message_id = None,
       ms_response_run_id = None, ms_interrupted = False, ms_audio_played_until_ms = None,
       ms_finalized_at = Some 0, ms_metadata_json = []\<rparr>],
     providers := [\<lparr>row_id = 3, created_at = 0, updated_at = 0, version = 1, pv_type = ''deterministic'',
       pv_display_name = asc ''p'', pv_base_url = [], pv_enabled = True, pv_verification_state = ''verified'',
       pv_verified_at = None, pv_catalog_refreshed_at = None, pv_catalog_state = ''ready'',
       pv_last_error_code = None, pv_capabilities = [], pv_secret_id = None\<rparr>],
     catalog := [\<lparr>row_id = 4, created_at = 0, updated_at = 0, version = 1, mc_provider_id = 3,
       mc_external_id = asc ''m'', mc_display_name = asc ''m'', mc_role = ''conversation'',
       mc_capabilities = [(asc ''responses'', JBool True), (asc ''structured_outputs'', JBool True)],
       mc_available = True, mc_last_seen_at = 0\<rparr>],
     settings := [\<lparr>row_id = 5, created_at = 0, updated_at = 0, version = 1, st_area = ''models'',
       st_key = ''conversation_model'', st_value = [(asc ''value'', JStr (uuid_str 4))],
       st_schema_version = ''1'', st_effect_boundary = ''immediate'', st_changed_by = None\<rparr>]\<rparr>"

definition demo_messages :: "message list" where
  "demo_messages = sort_key ms_sequence (filter (\<lambda>m. ms_conversation_id m = 1) (messages demo_orch))"

definition demo_conv :: conversation where
  "demo_conv = hd (conversations demo_orch)"

definition demo_source :: message where
  "demo_source = hd (messages demo_orch)"

definition demo_model :: catalog_entry where
  "demo_model = hd (catalog demo_orch)"

definition demo_provider :: provider_row where
  "demo_provider = hd (providers demo_orch)"

definition demo_bundle :: context_bundle where
  "demo_bundle = build_context (demo_env demo_reply) 7 demo_conv demo_messages demo_source
     (normalize_text (ms_content demo_source)) [] demo_orch"

lemma demo_messages: "demo_messages = messages demo_orch"
  by code_simp

lemma demo_sources: "sf_source_id ` set (md_sources demo_reply) \<subseteq> set (cb_allowed demo_bundle)"
proof -
  have "context_messages demo_messages 45000 = demo_messages"
    unfolding demo_messages by (simp add: context_messages_def demo_orch_def)
  then show ?thesis
    unfolding demo_bundle_def build_context_allowed by (simp add: demo_messages demo_reply_def demo_orch_def)
qed

lemma demo_keyed:
  "keyed (next_id demo_orch) (runs demo_orch)"
  "keyed (next_id demo_orch) (conversations demo_orch)"
  by code_simp+

lemma demo_no_run:
  "query_one (\<lambda>r. rn_source_message_id r = 2 \<and> rn_account_id r = 7) (runs demo_orch) = None"
  by code_simp

lemma demo_conv_facts:
  "get_row 1 (conversations demo_orch) = Some demo_conv"
  "cv_account_id demo_conv = 7"
  by code_simp+

lemma demo_source_facts:
  "List.find (\<lambda>m. row_id m = 2) demo_messages = Some demo_source" "ms_role demo_source = ''user''"
  unfolding demo_messages by code_simp+

lemma demo_model_facts:
  "primary_model (demo_env demo_reply) demo_orch = Inr (demo_provider, demo_model)"
  "provider_runtime (demo_env demo_reply) demo_provider demo_orch = Inr ()"
  "md_tool_calls demo_reply = []"
  "md_memory_proposal demo_reply = None"
  "find_turn 1 (answer_key plain_crypto 1 2 (next_id demo_orch)) demo_orch = None"
  by code_simp+

lemmas demo_facts = demo_keyed demo_no_run demo_conv_facts demo_messages_def demo_source_facts
  demo_model_facts(1-4) demo_sources demo_model_facts(5)

lemma demo_reply_ok:
  "\<exists>res. model_reply (demo_env demo_reply) 1 (chat_request_of demo_model (cb_prompt demo_bundle) demo_messages)
     = Inr (demo_reply, res)"
proof -
  have "decision_valid demo_reply" by code_simp
  then show ?thesis by (simp add: model_reply_def demo_env_def)
qed

lemma demo_answer:
  "\<exists>d' msg. answer (demo_env demo_reply) plain_crypto 10 7 1 2 None demo_orch =
      (Inr \<lparr>or_run_id = 6, or_message = msg, or_decision = demo_reply, or_actions = []\<rparr>, d')
    \<and> messages d' = messages demo_orch @ [msg]"
proof -
  have "next_id demo_orch = 6" by (simp add: demo_orch_def)
  with demo_reply_ok plain_answer [OF demo_facts(1-10) demo_bundle_def _ demo_facts(11-14)]
  show ?thesis by metis
qed

text \<open>The conversation with a run that proposed to remember something; the proposal expires at 600.\<close>

definition demo_memory :: memory_create_request where
  "demo_memory = \<lparr>rq_content = asc ''Likes tea'', rq_category = Preference, rq_origin_type = ExplicitCommand,
     rq_source_conversation_id = Some 1, rq_source_message_id = Some 2,
     rq_original_expression = Some (asc ''I like tea''), rq_event_at = Some 0, rq_valid_from = None,
     rq_valid_until = None, rq_keywords = [], rq_confirmed = True\<rparr>"

definition demo_action :: tool_action where
  "demo_action = \<lparr>row_id = 7, created_at = 0, updated_at = 0, version = 1, ta_run_id = 6,
     ta_name = ''memory_create'', ta_contract_version = ''1.0'',
     ta_arguments = JObj (dump_create (demo_env demo_decision) demo_memory), ta_arguments_hash = [48],
     ta_side_effect = ''state_change'', ta_confirmation_required = True, ta_state = APending,
     ta_preview = JNull, ta_expected_target_version = None, ta_expires_at = Some 600,
     ta_idempotency_key = [], ta_confirmed_at = None, ta_completed_at = None, ta_result = None,
     ta_error_code = None\<rparr>"

definition demo_pending :: db where
  "demo_pending = demo_orch\<lparr>next_id := 8, actions := [demo_action],
     runs := [\<lparr>row_id = 6, created_at = 0, updated_at = 0, version = 1, rn_account_id = 7,
       rn_conversation_id = 1, rn_source_message_id = 2, rn_response_message_id = None,
       rn_state = RunAwaiting, rn_intent = None, rn_orchestration_version = ''1'', rn_prompt_version = ''1'',
       rn_provider_id = Some 3, rn_model_id = Some 4, rn_context_manifest = JNull, rn_decision = None,
       rn_attempt_count = 1, rn_started_at = 0, rn_completed_at = None, rn_cancelled_at = None,
       rn_usage = JNull, rn_error_code = None\<rparr>]\<rparr>"

lemma demo_pending_inv: "orch_inv demo_pending"
  by code_simp

lemma demo_owned: "owned_action 7 7 demo_pending = Some demo_action"
  by code_simp

lemma demo_action_sel:
  "ta_state demo_action = APending" "version demo_action = 1" "ta_expires_at demo_action = Some 600"
  "ta_name demo_action = ''memory_create''" "ta_arguments_hash demo_action = [48]" "row_id demo_action = 7"
  "ta_run_id demo_action = 6"
  "ta_arguments demo_action = JObj (dump_create (demo_env demo_decision) demo_memory)"
  by (simp_all add: demo_action_def)

section \<open>Properties\<close>

text \<open>
  C1. An answer never changes data by itself: whatever the model decides, the memory items, their
  versions, the settings, the accounts and every other table but those of the dialogue and of the
  orchestration are as before; existing actions and messages stay as they are; the actions it adds are
  pending, need a confirmation, expire in ten minutes and carry the hash of their arguments; the
  messages it adds are the assistant's.
\<close>

theorem answer_only_proposes:
  "untouched (snd (answer env c now acc cid mid ctx d)) = untouched d
   \<and> (\<exists>as. actions (snd (answer env c now acc cid mid ctx d)) = actions d @ as \<and> list_all (proposal c now) as)
   \<and> (\<exists>ms. messages (snd (answer env c now acc cid mid ctx d)) = messages d @ ms
         \<and> list_all (\<lambda>m. ms_role m = ''assistant'') ms)"
  using answer_effect [of c now d env acc cid mid ctx] by (simp add: answer_effect_def)

text \<open>
  One answer calls the model at most twice, however its tool calls look.
\<close>

theorem answer_two_calls:
  "length (attempts (snd (answer env c now acc cid mid ctx d))) \<le> length (attempts d) + 2"
  by (rule answer_attempts)

text \<open>
  The conversation window of the prompt is the newest part of the conversation: a suffix, never
  empty unless the conversation is, within the budget of characters unless a single message is
  longer, and as long as the budget allows.
\<close>

theorem context_window:
  "(\<exists>old. ms = old @ context_messages ms b
     \<and> (context_messages ms b = [] \<longleftrightarrow> ms = [])
     \<and> (sum_list (map (\<lambda>m. int (length (ms_content m))) (context_messages ms b)) \<le> b
         \<or> length (context_messages ms b) \<le> 1)
     \<and> (old = [] \<or> b < sum_list (map (\<lambda>m. int (length (ms_content m))) (last old # context_messages ms b))))"
proof -
  let ?k = "take_context b False 0 (rev ms)"
  obtain rest where r: "rev ms = ?k @ rest" using take_context_prefix by blast
  have "ms = rev rest @ context_messages ms b"
    unfolding context_messages_def using arg_cong [OF r, of rev] by simp
  moreover have "context_messages ms b = [] \<longleftrightarrow> ms = []"
    by (cases "rev ms") (simp_all add: context_messages_def)
  moreover have "sum_list (map (\<lambda>m. int (length (ms_content m))) ?k) \<le> b \<or> length ?k \<le> 1"
  proof (cases "rev ms")
    case (Cons m rs)
    show ?thesis
    proof (cases "int (length (ms_content m)) \<le> b")
      case True
      then show ?thesis using take_context_budget [OF TrueI True, of rs] Cons by simp
    next
      case False
      then have "take_context b True (int (length (ms_content m))) rs = []" by (cases rs) auto
      then show ?thesis using Cons by simp
    qed
  qed simp
  moreover have "rest = [] \<or> b < sum_list (map (\<lambda>m. int (length (ms_content m))) (hd rest # ?k))"
    using take_context_maximal [of "rev ms" b False 0 "hd rest" "tl rest"] r by (cases rest) auto
  ultimately show ?thesis
    by (intro exI [of _ "rev rest"]) (simp add: context_messages_def rev_map [symmetric] sum_list_rev last_rev)
qed

text \<open>
  C6. Provenance: every source that a newly worked out answer names is a message of the
  conversation, an active memory item of the account or one of its conversations that is not deleted.
\<close>

theorem answer_sources_known:
  assumes "answer env c now acc cid mid ctx d = (Inr res, d')" "d' \<noteq> d"
  shows "sf_source_id ` set (md_sources (or_decision res)) \<subseteq> context_ids acc cid d"
  using assms by (rule answer_sources)

theorem answer_sources_known_witness:
  "\<exists>res d'. answer (demo_env demo_reply) plain_crypto 10 7 1 2 None demo_orch = (Inr res, d')
     \<and> sf_source_id ` set (md_sources (or_decision res)) \<subseteq> context_ids 7 1 demo_orch
     \<and> md_sources (or_decision res) \<noteq> []"
proof -
  obtain d' msg where a: "answer (demo_env demo_reply) plain_crypto 10 7 1 2 None demo_orch =
      (Inr \<lparr>or_run_id = 6, or_message = msg, or_decision = demo_reply, or_actions = []\<rparr>, d')"
      "messages d' = messages demo_orch @ [msg]"
    using demo_answer by blast
  have "d' \<noteq> demo_orch" using arg_cong [of d' demo_orch messages] a(2) by auto
  from answer_sources_known [OF a(1) this] show ?thesis using a(1) by (auto simp: demo_reply_def)
qed

text \<open>
  C5. A user's turn gets its answer: when a model is chosen and its provider is at hand, and the model
  replies with a valid decision without tools whose sources are in the context, the answer is stored as
  the next message of the conversation and the run is completed.
\<close>

theorem turn_is_answered:
  assumes "keyed (next_id d) (runs d)" "keyed (next_id d) (conversations d)"
    and "query_one (\<lambda>r. rn_source_message_id r = mid \<and> rn_account_id r = acc) (runs d) = None"
    and "get_row cid (conversations d) = Some cv" "cv_account_id cv = acc"
    and "ms = sort_key ms_sequence (filter (\<lambda>m. ms_conversation_id m = cid) (messages d))"
    and "List.find (\<lambda>m. row_id m = mid) ms = Some src" "ms_role src = ''user''"
    and "primary_model env d = Inr (pv, mdl)" "provider_runtime env pv d = Inr ()"
    and "bdl = build_context env acc cv ms src (normalize_text (ms_content src)) [] d"
    and "model_reply env 1 (chat_request_of mdl (cb_prompt bdl) ms) = Inr (dec, res)"
    and "md_tool_calls dec = []" "md_memory_proposal dec = None"
    and "sf_source_id ` set (md_sources dec) \<subseteq> set (cb_allowed bdl)"
    and "find_turn cid (answer_key c cid mid (next_id d)) d = None"
  shows "\<exists>d' msg run. answer env c now acc cid mid ctx d =
      (Inr \<lparr>or_run_id = next_id d, or_message = msg, or_decision = dec, or_actions = []\<rparr>, d')
    \<and> messages d' = messages d @ [msg] \<and> ms_content msg = md_answer dec \<and> ms_role msg = ''assistant''
    \<and> ms_conversation_id msg = cid \<and> ms_sequence msg = next_sequence cid d
    \<and> runs d' = runs d @ [run] \<and> rn_state run = RunCompleted \<and> rn_source_message_id run = mid
    \<and> rn_response_message_id run = Some (row_id msg) \<and> actions d' = actions d"
  using assms by (rule plain_answer)

theorem turn_is_answered_witness:
  "\<exists>d' msg. answer (demo_env demo_reply) plain_crypto 10 7 1 2 None demo_orch =
      (Inr \<lparr>or_run_id = 6, or_message = msg, or_decision = demo_reply, or_actions = []\<rparr>, d')
    \<and> messages d' = messages demo_orch @ [msg]"
proof -
  obtain res where r: "model_reply (demo_env demo_reply) 1 (chat_request_of demo_model
      (cb_prompt demo_bundle) demo_messages) = Inr (demo_reply, res)"
    using demo_reply_ok by blast
  have "next_id demo_orch = 6" by (simp add: demo_orch_def)
  with turn_is_answered [OF demo_facts(1-10) demo_bundle_def r demo_facts(11-14)] show ?thesis by metis
qed

text \<open>
  Answers are given once: after a message has got a final answer, asking for it again returns the
  same run, message and decision and changes nothing, whatever the model would say now.
\<close>

theorem completed_answer_cached:
  assumes "answer env c now acc cid mid ctx d = (Inr res, d')" "d' \<noteq> d" "or_actions res = []"
    and "keyed (next_id d) (messages d)"
  shows "\<exists>acts. answer env' c' now' acc cid' mid ctx' d' =
    (Inr \<lparr>or_run_id = or_run_id res, or_message = or_message res, or_decision = or_decision res, or_actions = acts\<rparr>, d')"
  using assms by (rule cached_answer)

theorem completed_answer_cached_witness:
  "\<exists>res d' acts. answer (demo_env demo_reply) plain_crypto 10 7 1 2 None demo_orch = (Inr res, d')
     \<and> answer (demo_env demo_decision) plain_crypto 20 7 1 2 None d' =
       (Inr \<lparr>or_run_id = 6, or_message = or_message res, or_decision = demo_reply, or_actions = acts\<rparr>, d')"
proof -
  obtain d' msg where a: "answer (demo_env demo_reply) plain_crypto 10 7 1 2 None demo_orch =
      (Inr \<lparr>or_run_id = 6, or_message = msg, or_decision = demo_reply, or_actions = []\<rparr>, d')"
      "messages d' = messages demo_orch @ [msg]"
    using demo_answer by blast
  have n: "d' \<noteq> demo_orch" using arg_cong [of d' demo_orch messages] a(2) by auto
  have k: "keyed (next_id demo_orch) (messages demo_orch)" by code_simp
  have "or_actions \<lparr>or_run_id = 6, or_message = msg, or_decision = demo_reply, or_actions = []\<rparr> = []" by simp
  from completed_answer_cached [OF a(1) n this k, of "demo_env demo_decision" plain_crypto 20 1 None] a(1)
  show ?thesis by auto
qed

text \<open>
  C2. At most once: after a confirmation that took effect the action is final, whether it was executed,
  failed or had expired; whatever is requested later, confirming it again changes nothing.
\<close>

theorem action_executed_once:
  assumes "orch_inv d" "run_tx (confirm_action env c now acc aid v ctx) d = (r, d1)" "d1 \<noteq> d"
    and "(orch_step c)\<^sup>*\<^sup>* d1 d2"
  shows "(\<exists>r'. run_tx (confirm_action env' c now' acc' aid v' ctx') d2 = (r', d2))
    \<and> (\<exists>a \<in> set (actions d2). row_id a = aid \<and> finished a)"
proof -
  obtain q x where e: "confirm_action env c now acc aid v ctx d = (q, x)" by fastforce
  have x: "x = d1" using run_tx_state [OF assms(2)] assms(3) unfolding e by simp
  have k: "keyed (next_id d) (actions d)" using assms(1) by (simp add: orch_inv_def)
  obtain a where a: "a \<in> set (actions d1)" "row_id a = aid" "finished a"
    using confirm_effect [OF k e [unfolded x] assms(3)] by (auto simp: settled_def)
  have "orch_step c d d1" using assms(2) by (rule step_confirm)
  then have i1: "orch_inv d1" by (rule orch.step_inv [OF assms(1)])
  have i2: "orch_inv d2" by (rule orch.reach_inv [OF assms(4) i1])
  have a2: "a \<in> set (actions d2)" using orch_reach_keeps [OF assms(4) i1] a unfolding actions_kept_def by blast
  obtain r' y where r': "run_tx (confirm_action env' c now' acc' aid v' ctx') d2 = (r', y)" by fastforce
  have "y = d2" by (rule finished_confirm [OF i2 a2 a(3)]) (use r' a(2) in simp)
  with r' a2 a show ?thesis by blast
qed

theorem action_executed_once_witness:
  "\<exists>r d1. run_tx (confirm_action (demo_env demo_decision) plain_crypto 700 7 7 1 (system_context ''user'' None))
       demo_pending = (r, d1)
     \<and> (\<exists>r'. run_tx (confirm_action (demo_env demo_decision) plain_crypto 10 7 7 1 (system_context ''user'' None))
       d1 = (r', d1))
     \<and> list_ex (\<lambda>a. row_id a = 7 \<and> finished a) (actions d1)"
proof -
  let ?f = "confirm_action (demo_env demo_decision) plain_crypto 700 7 7 1 (system_context ''user'' None)"
  obtain r d1 where e: "run_tx ?f demo_pending = (r, d1)" by fastforce
  have "map ta_state (actions (snd (run_tx ?f demo_pending))) = [AExpired]" by code_simp
  moreover have "map ta_state (actions demo_pending) = [APending]" by code_simp
  ultimately have "d1 \<noteq> demo_pending"
    using arg_cong [of d1 demo_pending "\<lambda>d. map ta_state (actions d)"] e by auto
  from action_executed_once [OF demo_pending_inv e this rtranclp.rtrancl_refl] e
  show ?thesis unfolding list_ex_iff by blast
qed

text \<open>Executing a proposed memory item.\<close>

lemma confirm_create:
  assumes "keyed (next_id d) (actions d)" "owned_action acc aid d = Some a"
    and "ta_state a = APending" "version a = v" "ta_expires_at a = Some t" "now < t"
    and "ta_name a = ''memory_create''" "ta_arguments a = JObj (dump_create env rq)"
    and "ta_arguments_hash a = canonical_digest c (ta_arguments a)"
    and "\<And>t. oe_parse_iso env (oe_iso env t) = Some t"
    and "case rq_source_conversation_id rq of None \<Rightarrow> True | Some x \<Rightarrow> x < 2 ^ 128"
    and "case rq_source_message_id rq of None \<Rightarrow> True | Some x \<Rightarrow> x < 2 ^ 128"
    and "validate_create rq = Inr rq'"
    and "\<not> contains_secret_instruction (rq_content rq')"
    and "\<not> invalid_interval (rq_valid_from rq') (rq_valid_until rq')"
    and "\<forall>i \<in> set (memories d). current acc i \<longrightarrow>
           canonical_content (mi_content i) \<noteq> canonical_content (rq_content rq')"
  shows "\<exists>a' d'. confirm_action env c now acc aid v ctx d = (Inr a', d')
    \<and> memories d' = memories d @ [new_item now acc rq' d]
    \<and> ta_state a' = ACompleted \<and> row_id a' = aid \<and> a' \<in> set (actions d')"
proof -
  let ?d1 = "set_action now aid (\<lambda>a. a\<lparr>ta_state := ARunning, ta_confirmed_at := Some now, version := version a + 1\<rparr>) d"
  have d1: "memories ?d1 = memories d" "new_item now acc rq' ?d1 = new_item now acc rq' d"
    by (simp_all add: set_action_def new_item_def)
  obtain d2 where m: "memory_create c now acc rq' ctx ?d1 = (Inr (new_item now acc rq' ?d1), d2)"
    using memory_create_ok [OF assms(14,15), of ?d1 acc c now ctx] assms(16) unfolding d1 by blast
  have m2: "memories d2 = memories d @ [new_item now acc rq' d]"
    using memory_create_success(5) [OF m] d1 by (auto simp: audit_append_def insert_item_sel)
  have "parse_create env (args_of (ta_arguments a)) = Inr rq'"
    using parse_create_dump [where env = env and rq = rq, OF assms(10-12)] assms(8,13) by simp
  then have x: "execute_state_action env c now acc a ctx ?d1 = memory_outcome (Inr (new_item now acc rq' ?d1), d2)"
    using m assms(7,9) by (simp add: execute_state_action_def Let_def)
  obtain r d' where e: "confirm_action env c now acc aid v ctx d = (r, d')" by fastforce
  have c: "\<not> isl r \<and> memories d' = memories d @ [new_item now acc rq' d] \<and> (\<forall>a'. r = Inr a' \<longrightarrow> ta_state a' = ACompleted)"
    using e assms(2-6) x m2 by (auto simp: confirm_action_def memory_outcome_def Let_def audit_append_def set_action_def
        settle_run_def set_run_def split: option.splits if_splits)
  have ne: "d' \<noteq> d"
  proof
    assume "d' = d"
    from arg_cong [OF this, of "\<lambda>d. length (memories d)"] c show False by simp
  qed
  from confirm_effect [OF assms(1) e ne] c obtain a' where a': "settled aid a' d d'" "r = Inr a'" by blast
  then have "row_id a' = aid \<and> a' \<in> set (actions d')" unfolding settled_def by blast
  with c e a'(2) show ?thesis by blast
qed

lemma demo_env_iso: "oe_parse_iso (demo_env dec) (oe_iso (demo_env dec) t) = Some t"
  by (simp add: demo_env_def)

lemma demo_create:
  "keyed (next_id demo_pending) (actions demo_pending)"
  "(10 :: int) < 600"
  "ta_arguments_hash demo_action = canonical_digest plain_crypto (ta_arguments demo_action)"
  "case rq_source_conversation_id demo_memory of None \<Rightarrow> True | Some x \<Rightarrow> x < 2 ^ 128"
  "case rq_source_message_id demo_memory of None \<Rightarrow> True | Some x \<Rightarrow> x < 2 ^ 128"
  "validate_create demo_memory = Inr demo_memory"
  "\<not> contains_secret_instruction (rq_content demo_memory)"
  "\<not> invalid_interval (rq_valid_from demo_memory) (rq_valid_until demo_memory)"
  "\<forall>i \<in> set (memories demo_pending). current 7 i \<longrightarrow>
     canonical_content (mi_content i) \<noteq> canonical_content (rq_content demo_memory)"
proof -
  show "keyed (next_id demo_pending) (actions demo_pending)" by code_simp
  show "validate_create demo_memory = Inr demo_memory" by code_simp
  show "\<not> contains_secret_instruction (rq_content demo_memory)" by code_simp
  show "\<not> invalid_interval (rq_valid_from demo_memory) (rq_valid_until demo_memory)" by code_simp
qed (simp_all add: demo_action_sel plain_crypto_def canonical_digest_def demo_memory_def demo_pending_def
    demo_orch_def empty_db_def)

lemma demo_executed:
  "\<exists>a' d'. confirm_action (demo_env demo_decision) plain_crypto 10 7 7 1 (system_context ''user'' None) demo_pending
      = (Inr a', d')
    \<and> memories d' = memories demo_pending @ [new_item 10 7 demo_memory demo_pending]
    \<and> ta_state a' = ACompleted \<and> row_id a' = 7 \<and> a' \<in> set (actions d')"
  by (rule confirm_create [OF demo_create(1) demo_owned demo_action_sel(1-3) demo_create(2)
        demo_action_sel(4,8) demo_create(3) demo_env_iso demo_create(4-9)])

text \<open>The tables that hold the account's data.\<close>

definition effects :: "db \<Rightarrow> db" where
  "effects d = d\<lparr>actions := [], runs := [], audit_events := []\<rparr>"

lemma effects_parts [simp]:
  "effects (set_action t aid f d) = effects d"
  "effects (audit_append c t ctx ety res tty tid det d) = effects d"
  "effects (settle_run t rid aid d) = effects d"
  by (simp_all add: effects_def set_action_def audit_append_def settle_run_def set_run_def split: option.split)

lemma execute_effects:
  assumes "effects (snd (execute_state_action env c t acc a ctx d)) \<noteq> effects d"
  shows "canonical_digest c (ta_arguments a) = ta_arguments_hash a"
  by (rule ccontr) (use assms in \<open>simp add: execute_state_action_def Let_def\<close>)

lemma confirm_guard:
  assumes "effects (snd (confirm_action env c now acc aid v ctx d)) \<noteq> effects d"
  shows "\<exists>a. owned_action acc aid d = Some a \<and> ta_state a = APending \<and> version a = v
    \<and> \<not> (case ta_expires_at a of None \<Rightarrow> False | Some t \<Rightarrow> t \<le> now)
    \<and> canonical_digest c (ta_arguments a) = ta_arguments_hash a"
proof -
  obtain a where a: "owned_action acc aid d = Some a"
    using assms by (cases "owned_action acc aid d") (simp_all add: confirm_action_def)
  let ?d1 = "set_action now aid (\<lambda>a. a\<lparr>ta_state := ARunning, ta_confirmed_at := Some now, version := version a + 1\<rparr>) d"
  obtain q d2 where e: "execute_state_action env c now acc a ctx ?d1 = (q, d2)" by fastforce
  have g: "ta_state a = APending \<and> version a = v \<and> \<not> (case ta_expires_at a of None \<Rightarrow> False | Some t \<Rightarrow> t \<le> now)"
    using assms a by (auto simp: confirm_action_def split: if_splits)
  then have "effects d2 \<noteq> effects d"
    using assms a e by (cases q) (simp_all add: confirm_action_def)
  then have "canonical_digest c (ta_arguments a) = ta_arguments_hash a"
    using execute_effects [of env c now acc a ctx ?d1] e by simp
  with a g show ?thesis by blast
qed

text \<open>
  C3. Only what was shown is done: when a confirmation changes anything but the action, its run and the
  audit log, the action belongs to a run of the account, was pending at the version that was named, had
  not expired, and its arguments still carry the hash taken when it was proposed.
\<close>

theorem action_guarded:
  assumes "confirm_action env c now acc aid v ctx d = (r, d')" "effects d' \<noteq> effects d"
  shows "\<exists>a \<in> set (actions d). row_id a = aid \<and> ta_state a = APending \<and> version a = v
    \<and> (\<forall>t. ta_expires_at a = Some t \<longrightarrow> now < t)
    \<and> canonical_digest c (ta_arguments a) = ta_arguments_hash a
    \<and> (\<exists>run \<in> set (runs d). row_id run = ta_run_id a \<and> rn_account_id run = acc)"
proof -
  have "effects (snd (confirm_action env c now acc aid v ctx d)) \<noteq> effects d"
    using assms(2) unfolding assms(1) by simp
  from confirm_guard [OF this] obtain a where a: "owned_action acc aid d = Some a"
      "ta_state a = APending" "version a = v" "\<not> (case ta_expires_at a of None \<Rightarrow> False | Some t \<Rightarrow> t \<le> now)"
      "canonical_digest c (ta_arguments a) = ta_arguments_hash a" by blast
  have "a \<in> set (actions d) \<and> row_id a = aid
      \<and> (\<exists>run \<in> set (runs d). row_id run = ta_run_id a \<and> rn_account_id run = acc)"
    using a(1) by (auto simp: owned_action_def dest: query_one_Some)
  with a(2-5) show ?thesis by (intro bexI [of _ a]) auto
qed

theorem action_guarded_witness:
  "\<exists>r d'. confirm_action (demo_env demo_decision) plain_crypto 10 7 7 1 (system_context ''user'' None) demo_pending
      = (r, d') \<and> length (memories d') = 1
    \<and> list_ex (\<lambda>a. row_id a = 7 \<and> ta_state a = APending \<and> version a = 1) (actions demo_pending)"
proof -
  obtain a' d' where e: "confirm_action (demo_env demo_decision) plain_crypto 10 7 7 1
      (system_context ''user'' None) demo_pending = (Inr a', d')"
    and m: "memories d' = memories demo_pending @ [new_item 10 7 demo_memory demo_pending]"
    using demo_executed by blast
  have "memories demo_pending = []" by code_simp
  then have m1: "length (memories d') = 1" using m by simp
  have "effects d' \<noteq> effects demo_pending"
  proof
    assume "effects d' = effects demo_pending"
    from arg_cong [OF this, of "\<lambda>d. length (memories d)"] m show False by (simp add: effects_def)
  qed
  from action_guarded [OF e this] have
    "\<exists>a \<in> set (actions demo_pending). row_id a = 7 \<and> ta_state a = APending \<and> version a = 1" by blast
  with e m1 show ?thesis unfolding list_ex_iff by blast
qed

lemma cancel_finishes:
  assumes "orch_inv d" "cancel_run c now acc rid ctx d = (r, d1)" "d1 \<noteq> d"
    and "a \<in> set (actions d1)" "ta_run_id a = rid"
  shows "finished a"
proof -
  let ?p = "\<lambda>a. ta_run_id a = rid \<and> ta_state a = APending"
  let ?g = "\<lambda>a. a\<lparr>ta_state := ACancelled, version := version a + 1, updated_at := now\<rparr>"
  have "actions d1 = update_where ?p ?g (actions d)"
    using cancel_state [OF assms(2)] assms(3) by blast
  with assms(4) obtain b where b: "b \<in> set (actions d)" "a = (if ?p b then ?g b else b)"
    by (auto simp: update_where_def)
  have i: "ta_state b = APending \<or> finished b" using assms(1) b(1) by (simp add: orch_inv_def)
  show ?thesis
  proof (cases "?p b")
    case True
    then show ?thesis using b(2) by (simp add: finished_def)
  next
    case False
    have "a = b" using b(2) unfolding if_not_P [OF False] .
    then show ?thesis using i False assms(5) by simp
  qed
qed

text \<open>
  Cancelling a run withdraws its proposals for good: none of its actions can be executed any more,
  whatever is requested later.
\<close>

theorem cancelled_run_inert:
  assumes "orch_inv d" "run_tx (cancel_run c now acc rid ctx) d = (r, d1)" "d1 \<noteq> d"
    and "a \<in> set (actions d1)" "ta_run_id a = rid" "(orch_step c)\<^sup>*\<^sup>* d1 d2"
  shows "finished a \<and> (\<exists>r'. run_tx (confirm_action env c now' acc' (row_id a) v ctx') d2 = (r', d2))"
proof -
  obtain q x where e: "cancel_run c now acc rid ctx d = (q, x)" by fastforce
  have x: "x = d1" using run_tx_state [OF assms(2)] assms(3) unfolding e by simp
  have fin: "finished a" by (rule cancel_finishes [OF assms(1) e [unfolded x] assms(3-5)])
  have "orch_step c d d1" using assms(2) by (rule step_cancel)
  then have i1: "orch_inv d1" by (rule orch.step_inv [OF assms(1)])
  have i2: "orch_inv d2" by (rule orch.reach_inv [OF assms(6) i1])
  have a2: "a \<in> set (actions d2)" using orch_reach_keeps [OF assms(6) i1] assms(4) fin unfolding actions_kept_def by blast
  obtain r' y where r': "run_tx (confirm_action env c now' acc' (row_id a) v ctx') d2 = (r', y)" by fastforce
  have "y = d2" by (rule finished_confirm [OF i2 a2 fin]) (use r' in simp)
  with r' fin show ?thesis by blast
qed

theorem cancelled_run_inert_witness:
  "\<exists>d1. snd (run_tx (cancel_run plain_crypto 20 7 6 (system_context ''user'' None)) demo_pending) = d1
    \<and> list_ex (\<lambda>a. row_id a = 7 \<and> finished a) (actions d1)
    \<and> snd (run_tx (confirm_action (demo_env demo_decision) plain_crypto 30 7 7 2 (system_context ''user'' None)) d1) = d1"
proof -
  let ?f = "cancel_run plain_crypto 20 7 6 (system_context ''user'' None)"
  obtain r d1 where e: "run_tx ?f demo_pending = (r, d1)" by fastforce
  have st: "map (\<lambda>a. (row_id a, ta_run_id a, ta_state a)) (actions d1) = [(7, 6, ACancelled)]"
  proof -
    have "map (\<lambda>a. (row_id a, ta_run_id a, ta_state a)) (actions (snd (run_tx ?f demo_pending))) = [(7, 6, ACancelled)]"
      by code_simp
    then show ?thesis using e by simp
  qed
  have "map ta_state (actions demo_pending) = [APending]" by code_simp
  then have ne: "d1 \<noteq> demo_pending"
    using arg_cong [of d1 demo_pending "\<lambda>d. map ta_state (actions d)"] arg_cong [OF st, of "map (snd \<circ> snd)"]
    by (auto simp: comp_def)
  obtain a where a: "actions d1 = [a]" "row_id a = 7" "ta_run_id a = 6"
    using st by (auto simp: map_eq_Cons_conv)
  have am: "a \<in> set (actions d1)" by (simp add: a(1))
  from cancelled_run_inert [OF demo_pending_inv e ne am a(3) rtranclp.rtrancl_refl,
      of "demo_env demo_decision" 30 7 2 "system_context ''user'' None"]
  obtain r' where f: "finished a"
      "run_tx (confirm_action (demo_env demo_decision) plain_crypto 30 7 (row_id a) 2 (system_context ''user'' None)) d1 = (r', d1)"
    by blast
  have "snd (run_tx (confirm_action (demo_env demo_decision) plain_crypto 30 7 7 2 (system_context ''user'' None)) d1) = d1"
    using f(2) unfolding a(2) by simp
  moreover have "list_ex (\<lambda>a. row_id a = 7 \<and> finished a) (actions d1)"
    unfolding a(1) by (simp add: a(2) f(1))
  ultimately show ?thesis using e by (intro exI [of _ d1]) simp
qed

text \<open>
  C4. A confirmed proposal to remember something is carried out: a pending memory proposal of the
  account that has not expired and whose arguments are intact completes, and the item that was shown is
  saved, unless it holds a secret, its interval is reversed or the account has it already.
\<close>

theorem confirmed_memory_saved:
  assumes "keyed (next_id d) (actions d)" "owned_action acc aid d = Some a"
    and "ta_state a = APending" "version a = v" "ta_expires_at a = Some t" "now < t"
    and "ta_name a = ''memory_create''" "ta_arguments a = JObj (dump_create env rq)"
    and "ta_arguments_hash a = canonical_digest c (ta_arguments a)"
    and "\<And>t. oe_parse_iso env (oe_iso env t) = Some t"
    and "case rq_source_conversation_id rq of None \<Rightarrow> True | Some x \<Rightarrow> x < 2 ^ 128"
    and "case rq_source_message_id rq of None \<Rightarrow> True | Some x \<Rightarrow> x < 2 ^ 128"
    and "validate_create rq = Inr rq'"
    and "\<not> contains_secret_instruction (rq_content rq')"
    and "\<not> invalid_interval (rq_valid_from rq') (rq_valid_until rq')"
    and "\<forall>i \<in> set (memories d). current acc i \<longrightarrow>
           canonical_content (mi_content i) \<noteq> canonical_content (rq_content rq')"
  shows "\<exists>a' d'. confirm_action env c now acc aid v ctx d = (Inr a', d')
    \<and> memories d' = memories d @ [new_item now acc rq' d]
    \<and> ta_state a' = ACompleted \<and> row_id a' = aid \<and> a' \<in> set (actions d')"
  using assms by (rule confirm_create)

theorem confirmed_memory_saved_witness:
  "\<exists>a' d'. confirm_action (demo_env demo_decision) plain_crypto 10 7 7 1 (system_context ''user'' None) demo_pending
      = (Inr a', d') \<and> map mi_content (memories d') = [asc ''Likes tea''] \<and> ta_state a' = ACompleted"
proof -
  have "\<exists>a' d'. confirm_action (demo_env demo_decision) plain_crypto 10 7 7 1 (system_context ''user'' None) demo_pending
      = (Inr a', d')
    \<and> memories d' = memories demo_pending @ [new_item 10 7 demo_memory demo_pending]
    \<and> ta_state a' = ACompleted \<and> row_id a' = 7 \<and> a' \<in> set (actions d')"
    by (rule confirmed_memory_saved [OF demo_create(1) demo_owned demo_action_sel(1-3) demo_create(2)
          demo_action_sel(4,8) demo_create(3) demo_env_iso demo_create(4-9)])
  moreover have "memories demo_pending = []" by code_simp
  moreover have "mi_content (new_item 10 7 demo_memory demo_pending) = asc ''Likes tea''" by code_simp
  ultimately show ?thesis by (elim exE) simp
qed

end
