(* ===== verification/ProviderTheorems.thy ===== *)
theory ProviderTheorems
  imports SettingsProps OrchestrationTheorems
begin

text \<open>
  What the provider service guarantees: a new key replaces and revokes the old one and its stored
  ciphertext opens to it; a revoked key is not used again; after a verification the available catalog is exactly the
  classified models of the provider; a verification that fails leaves no trace, not even in the audit
  log; the classification and the recommendation of models.
\<close>

section \<open>The catalog\<close>

definition offered :: "uuid \<Rightarrow> db \<Rightarrow> (pystr \<times> string) set" where
  "offered pid d = set (map (\<lambda>e. (mc_external_id e, mc_role e))
     (filter (\<lambda>e. mc_provider_id e = pid \<and> mc_available e) (catalog d)))"

definition foreign :: "uuid \<Rightarrow> db \<Rightarrow> catalog_entry list" where
  "foreign pid d = filter (\<lambda>e. mc_provider_id e \<noteq> pid) (catalog d)"

definition catalog_keyed :: "db \<Rightarrow> bool" where
  "catalog_keyed d \<longleftrightarrow> keyed (next_id d) (catalog d)"

lemma image_keep:
  assumes "S' = insert a' X" "S = insert a X" "P a'" "F a' = F a"
  shows "F ` {e \<in> S'. P e} = insert (F a) (F ` {e \<in> S. P e})"
proof -
  have "F a' \<in> F ` {e \<in> insert a' X. P e}" using assms(3) by (intro imageI) simp
  then show ?thesis unfolding assms(1,2) using assms(4) by auto
qed

lemma put_catalog_effect:
  assumes "catalog_keyed d"
  shows "catalog_keyed (snd (put_catalog now pid m caps role d))
    \<and> offered pid (snd (put_catalog now pid m caps role d)) = insert (pm_external_id m, role) (offered pid d)
    \<and> foreign pid (snd (put_catalog now pid m caps role d)) = foreign pid d"
proof (cases "query_one (catalog_key pid (pm_external_id m) role) (catalog d)")
  case None
  have "keyed (Suc (next_id d)) (catalog d @ [e])" if "row_id e = next_id d" for e :: catalog_entry
    by (rule keyed_append_new [OF assms [unfolded catalog_keyed_def]]) (simp_all add: that)
  then show ?thesis
    by (simp add: put_catalog_def None Let_def catalog_keyed_def offered_def foreign_def fresh_def)
next
  case (Some old)
  note old = query_one_Some [OF Some, unfolded catalog_key_def]
  let ?e = "old\<lparr>mc_display_name := pm_display_name m, mc_capabilities := caps, mc_available := True,
                     mc_last_seen_at := now\<rparr>\<lparr>updated_at := now\<rparr>"
  have k: "keyed (next_id d) (catalog d)" using assms by (simp add: catalog_keyed_def)
  have c: "catalog (snd (put_catalog now pid m caps role d)) = put_row ?e (catalog d)"
    by (simp add: put_catalog_def Some save_row_def Let_def)
  have "next_id (snd (put_catalog now pid m caps role d)) = next_id d"
    by (simp add: put_catalog_def Some Let_def)
  moreover have "offered pid (snd (put_catalog now pid m caps role d)) = insert (pm_external_id m, role) (offered pid d)"
  proof -
    let ?X = "{x \<in> set (catalog d). row_id x \<noteq> row_id old}"
    have new: "set (put_row ?e (catalog d)) = insert ?e ?X"
      using set_put_row [OF k, of ?e] get_row_mem [OF k] old by auto
    have all: "set (catalog d) = insert old ?X" using old keyed_unique [OF k] by auto
    show ?thesis
      unfolding offered_def set_map set_filter c
      using image_keep [OF new all, of "\<lambda>e. mc_provider_id e = pid \<and> mc_available e" "\<lambda>e. (mc_external_id e, mc_role e)"] old
      by simp
  qed
  moreover have "filter (\<lambda>e. mc_provider_id e \<noteq> pid) (put_row ?e (catalog d)) = filter (\<lambda>e. mc_provider_id e \<noteq> pid) (catalog d)"
    using old keyed_unique [OF k] by (intro filter_put_row) auto
  ultimately show ?thesis
    using k unfolding catalog_keyed_def foreign_def c by simp
qed

lemma put_roles_effect:
  "catalog_keyed d \<Longrightarrow> put_roles now pid m caps rs d = (es, d') \<Longrightarrow>
     catalog_keyed d' \<and> offered pid d' = Pair (pm_external_id m) ` set rs \<union> offered pid d \<and> foreign pid d' = foreign pid d"
proof (induction rs arbitrary: d es d')
  case (Cons r rs)
  obtain e d1 where e: "put_catalog now pid m caps r d = (e, d1)" by fastforce
  obtain es' d2 where es: "put_roles now pid m caps rs d1 = (es', d2)" by fastforce
  have 1: "catalog_keyed d1 \<and> offered pid d1 = insert (pm_external_id m, r) (offered pid d) \<and> foreign pid d1 = foreign pid d"
    using put_catalog_effect [OF Cons.prems(1), of now pid m caps r] unfolding e by simp
  from Cons.IH [OF _ es] 1 Cons.prems(2) show ?case by (simp add: e es)
qed simp

definition advertised_roles :: "provider_model list \<Rightarrow> (pystr \<times> string) set" where
  "advertised_roles ms =
     (\<Union>m \<in> set ms. Pair (pm_external_id m) ` set (cl_roles (classify_model (pm_external_id m) (pm_capabilities m))))"

lemma put_models_effect:
  "catalog_keyed d \<Longrightarrow> put_models now pid ms d = (es, d') \<Longrightarrow>
     catalog_keyed d' \<and> offered pid d' = advertised_roles ms \<union> offered pid d \<and> foreign pid d' = foreign pid d"
proof (induction ms arbitrary: d es d')
  case Nil
  then show ?case by (simp add: advertised_roles_def)
next
  case (Cons m ms)
  let ?c = "classify_model (pm_external_id m) (pm_capabilities m)"
  obtain e d1 where e: "put_roles now pid m (cl_capabilities ?c) (cl_roles ?c) d = (e, d1)" by fastforce
  obtain fs d2 where fs: "put_models now pid ms d1 = (fs, d2)" by fastforce
  from put_roles_effect [OF Cons.prems(1) e] Cons.IH [OF _ fs] Cons.prems(2) show ?case
    by (auto simp: Let_def e fs advertised_roles_def)
qed

lemma filter_update_where:
  "(\<And>x. Q x \<Longrightarrow> \<not> P x \<and> \<not> P (f x)) \<Longrightarrow> filter P (update_where Q f t) = filter P t"
  by (induction t) (auto simp: update_where_def)

lemma update_where_all:
  "(\<And>y. Q y \<Longrightarrow> R (f y)) \<Longrightarrow> (\<And>y. \<not> Q y \<Longrightarrow> R y) \<Longrightarrow> \<forall>x \<in> set (update_where Q f t). R x"
  by (auto simp: update_where_def)

lemma withdraw_effect:
  "catalog_keyed (withdraw_catalog now pid d) = catalog_keyed d"
  "offered pid (withdraw_catalog now pid d) = {}"
  "foreign pid (withdraw_catalog now pid d) = foreign pid d"
proof -
  show "catalog_keyed (withdraw_catalog now pid d) = catalog_keyed d"
    by (simp add: catalog_keyed_def withdraw_catalog_def keyed_update_where)
  have "\<forall>x \<in> set (update_where (\<lambda>e. mc_provider_id e = pid \<and> mc_available e)
      (\<lambda>e. e\<lparr>mc_available := False, updated_at := now\<rparr>) t). mc_provider_id x = pid \<longrightarrow> \<not> mc_available x" for t
    by (rule update_where_all) simp_all
  from this [of "catalog d"] show "offered pid (withdraw_catalog now pid d) = {}"
    by (auto simp: offered_def withdraw_catalog_def)
  show "foreign pid (withdraw_catalog now pid d) = foreign pid d"
    unfolding foreign_def withdraw_catalog_def by (simp, rule filter_update_where) simp
qed

lemma verify_done:
  assumes "provider_verify env c now pid listed ctx d = (Inr es, d')"
  shows "\<exists>r models d2. get_row pid (providers d) = Some r \<and> provider_runtime env r d = Inr () \<and> listed = Inr models
    \<and> models \<noteq> []
    \<and> put_models now pid models (withdraw_catalog now pid (d\<lparr>providers := save_row now
        (r\<lparr>pv_verification_state := ''verified'', pv_verified_at := Some now, pv_enabled := True,
           pv_catalog_refreshed_at := Some now, pv_catalog_state := ''ready''\<rparr>) (providers d)\<rparr>)) = (es, d2)
    \<and> catalog d' = catalog d2"
  using assms
  by (auto simp: provider_verify_def Let_def audit_append_def split: option.splits sum.splits list.splits prod.splits
      simp del: put_models.simps)

section \<open>A provider with a key\<close>

definition demo_openai :: provider_row where
  "demo_openai = \<lparr>row_id = 1, created_at = 0, updated_at = 0, version = 1, pv_type = ''openai'',
     pv_display_name = asc ''p'', pv_base_url = asc ''https://p'', pv_enabled = True,
     pv_verification_state = ''verified'', pv_verified_at = Some 0, pv_catalog_refreshed_at = Some 0,
     pv_catalog_state = ''ready'', pv_last_error_code = None, pv_capabilities = [], pv_secret_id = Some 2\<rparr>"

definition demo_secret :: secret_row where
  "demo_secret = \<lparr>row_id = 2, created_at = 0, updated_at = 0, version = 1, es_purpose = asc ''provider:1'',
     es_ciphertext = \<lparr>ev_key_version = 1, ev_nonce = [], ev_ciphertext = [], ev_associated_data = []\<rparr>,
     es_key_version = 1, es_masked_hint = [], es_verified_at = None, es_revoked_at = None\<rparr>"

definition demo_entry :: catalog_entry where
  "demo_entry = \<lparr>row_id = 3, created_at = 0, updated_at = 0, version = 1, mc_provider_id = 1,
     mc_external_id = asc ''o1'', mc_display_name = asc ''o1'', mc_role = ''conversation_model'',
     mc_capabilities = [], mc_available = True, mc_last_seen_at = 0\<rparr>"

definition demo_prov :: db where
  "demo_prov = empty_db\<lparr>next_id := 10, providers := [demo_openai], secrets := [demo_secret], catalog := [demo_entry]\<rparr>"

definition demo_list :: "provider_model list" where
  "demo_list = [\<lparr>pm_external_id = asc ''tts-1'', pm_display_name = asc ''tts-1'', pm_capabilities = CapSet []\<rparr>]"

lemma demo_prov_keyed:
  "keyed (next_id demo_prov) (providers demo_prov)" "keyed (next_id demo_prov) (secrets demo_prov)"
  "keyed (next_id demo_prov) (catalog demo_prov)"
  by (simp_all add: demo_prov_def demo_openai_def demo_secret_def demo_entry_def keyed_def)

lemma demo_prov_row:
  "get_row 1 (providers demo_prov) = Some demo_openai"
  "provider_runtime (demo_env demo_reply) demo_openai demo_prov = Inr ()"
  by code_simp+

section \<open>Properties\<close>

text \<open>
  Verifying a provider publishes its catalog exactly: afterwards the available entries of the
  provider are its models in the roles of their classification, each model and role once more offered
  or newly added, everything it no longer lists withdrawn; the entries of other providers are untouched.
\<close>

theorem verify_publishes_catalog:
  assumes "keyed (next_id d) (catalog d)" "provider_verify env c now pid listed ctx d = (Inr es, d')"
  shows "\<exists>models. listed = Inr models \<and> models \<noteq> [] \<and> offered pid d' = advertised_roles models
    \<and> foreign pid d' = foreign pid d"
proof -
  obtain r models d2 where h: "listed = Inr models" "models \<noteq> []" "catalog d' = catalog d2"
    "put_models now pid models (withdraw_catalog now pid (d\<lparr>providers := save_row now
        (r\<lparr>pv_verification_state := ''verified'', pv_verified_at := Some now, pv_enabled := True,
           pv_catalog_refreshed_at := Some now, pv_catalog_state := ''ready''\<rparr>) (providers d)\<rparr>)) = (es, d2)"
    using verify_done [OF assms(2)] by blast
  have "catalog_keyed (d\<lparr>providers := x\<rparr>)" "foreign pid (d\<lparr>providers := x\<rparr>) = foreign pid d" for x
    using assms(1) by (simp_all add: catalog_keyed_def foreign_def)
  with put_models_effect [OF _ h(4)] have "offered pid d2 = advertised_roles models \<and> foreign pid d2 = foreign pid d"
    by (simp add: withdraw_effect)
  then show ?thesis using h by (simp add: offered_def foreign_def)
qed

theorem verify_publishes_catalog_witness:
  "\<exists>es d'. provider_verify (demo_env demo_reply) plain_crypto 5 1 (Inr demo_list) (system_context ''user'' None) demo_prov
      = (Inr es, d') \<and> offered 1 d' = {(asc ''tts-1'', ''speech_model'')}
    \<and> offered 1 demo_prov = {(asc ''o1'', ''conversation_model'')}"
proof -
  let ?f = "provider_verify (demo_env demo_reply) plain_crypto 5 1 (Inr demo_list) (system_context ''user'' None) demo_prov"
  obtain r d' where r: "?f = (r, d')" by fastforce
  have "\<not> isl (fst ?f)" by code_simp
  with r obtain es where e: "?f = (Inr es, d')" by (cases r) auto
  have "map (\<lambda>m. (pm_external_id m, cl_roles (classify_model (pm_external_id m) (pm_capabilities m)))) demo_list
      = [(asc ''tts-1'', [''speech_model''])]"
    by code_simp
  then have "advertised_roles demo_list = {(asc ''tts-1'', ''speech_model'')}"
    by (simp add: advertised_roles_def demo_list_def)
  moreover have "offered 1 demo_prov = {(asc ''o1'', ''conversation_model'')}"
    by (simp add: offered_def demo_prov_def demo_entry_def)
  ultimately show ?thesis
    using verify_publishes_catalog [OF demo_prov_keyed(3) e] e by auto
qed

text \<open>
  A failed verification leaves no trace: the service marks the catalog as empty or stale and appends
  the audit event of the failure, but its error is not durable, so the transaction takes both back.
\<close>

lemma failed_verification_unrecorded:
  assumes "listed = Inr [] \<or> (\<exists>e. listed = Inl e \<and> \<not> is_durable e)"
    and "get_row pid (providers d) = Some r" "provider_runtime env r d = Inr ()"
  shows "\<exists>e d1 p. verify_and_apply env c now pid listed acc ctx d = (Inl e, d1)
    \<and> get_row pid (providers d1) = Some p
    \<and> pv_catalog_state p = (if listed = Inr [] then ''empty'' else ''stale_error'')
    \<and> length (audit_events d1) = Suc (length (audit_events d))
    \<and> run_tx (verify_and_apply env c now pid listed acc ctx) d = (Inl e, d)"
proof -
  have i: "row_id r = pid" using get_row_Some [OF assms(2)] by simp
  from assms(1) show ?thesis
  proof (elim disjE exE conjE)
    assume "listed = Inr []"
    then show ?thesis using assms(2,3) i
      by (simp add: verify_and_apply_def provider_verify_def Let_def run_tx_def DomainError_def
          audit_append_def append_event_def get_row_save_row)
  next
    fix e assume "listed = Inl e" "\<not> is_durable e"
    then show ?thesis using assms(2,3) i
      by (simp add: verify_and_apply_def provider_verify_def Let_def run_tx_def
          audit_append_def append_event_def get_row_save_row)
  qed
qed

text \<open>
  C10. A revoked key is not used: after the key of a provider was revoked, its client cannot be built,
  the key cannot be revealed, and the provider is not chosen for answers.
\<close>

theorem revoked_key_unused:
  assumes "keyed (next_id d) (providers d)" "revoke_key c now pid ctx d = (Inr u, d')"
  shows "\<exists>r. get_row pid (providers d') = Some r
    \<and> (pv_type r \<noteq> ''deterministic'' \<longrightarrow> isl (provider_runtime env r d'))
    \<and> isl (fst (reveal_key g k c now' pid ctx' d'))
    \<and> (\<forall>p m. primary_model env d' = Inr (p, m) \<longrightarrow> row_id p \<noteq> pid)"
proof -
  from assms(2) obtain r0 where r0: "get_row pid (providers d) = Some r0"
    by (auto simp: revoke_key_def split: option.splits)
  let ?r = "r0\<lparr>pv_secret_id := None, pv_enabled := False, pv_verification_state := ''not_verified'',
                     version := version r0 + 1\<rparr>\<lparr>updated_at := now\<rparr>"
  have i: "row_id r0 = pid" using get_row_Some [OF r0] by simp
  have "providers d' = put_row ?r (providers d)"
    using assms(2) r0 by (auto simp: revoke_key_def Let_def audit_append_def save_row_def split: option.splits)
  then have r: "get_row pid (providers d') = Some ?r" using r0 i by (simp add: get_row_put_row)
  have "row_id p \<noteq> pid" if "primary_model env d' = Inr (p, m)" for p m
  proof
    assume "row_id p = pid"
    have "get_row (mc_provider_id m) (providers d') = Some p" "pv_enabled p"
      using that by (auto simp: primary_model_def split: option.splits if_splits)
    then show False using r \<open>row_id p = pid\<close> get_row_Some by fastforce
  qed
  moreover have "isl (provider_runtime env ?r d')" if "pv_type ?r \<noteq> ''deterministic''"
    using that by (simp add: provider_runtime_def)
  moreover have "isl (fst (reveal_key g k c now' pid ctx' d'))"
    using r by (simp add: reveal_key_def)
  ultimately show ?thesis using r by blast
qed

theorem revoked_key_unused_witness:
  "\<exists>d' r. revoke_key plain_crypto 5 1 (system_context ''user'' None) demo_prov = (Inr (), d')
     \<and> get_row 1 (providers d') = Some r \<and> isl (fst (reveal_key demo_aead demo_cipher plain_crypto 6 1 (system_context ''user'' None) d'))
     \<and> pv_type r = ''openai'' \<and> isl (provider_runtime (demo_env demo_reply) r d')"
proof -
  obtain d' where e: "revoke_key plain_crypto 5 1 (system_context ''user'' None) demo_prov = (Inr (), d')"
    using demo_prov_row(1) by (simp add: revoke_key_def Let_def)
  obtain r where r: "get_row 1 (providers d') = Some r" "pv_type r \<noteq> ''deterministic'' \<longrightarrow> isl (provider_runtime (demo_env demo_reply) r d')"
      "isl (fst (reveal_key demo_aead demo_cipher plain_crypto 6 1 (system_context ''user'' None) d'))"
    using revoked_key_unused [OF demo_prov_keyed(1) e] by blast
  have "map_option pv_type (get_row 1 (providers d')) = Some ''openai''"
    using e demo_prov_row(1)
    by (auto simp: revoke_key_def Let_def audit_append_def get_row_save_row demo_openai_def)
  then show ?thesis using e r by auto
qed

section \<open>Saving a key\<close>

lemma provider_save_key:
  assumes "provider_save g k nonce c now rq ctx d = (Inr r, d')" "pq_api_key rq = Some key" "key \<noteq> []"
  shows "\<exists>old r0 d1 enc. old = (case pq_id rq of None \<Rightarrow> None | Some i \<Rightarrow> get_row i (providers d))
     \<and> open_provider now old (pq_type rq) (pq_display_name rq) (pq_base_url rq) d = (r0, d1)
     \<and> cipher_encrypt g k nonce key (asc ''provider_api_key'') (uuid_str (row_id r0)) = Inr enc
     \<and> row_id r = row_id r0
     \<and> providers d' = providers (snd (replace_key now key enc (case old of None \<Rightarrow> None | Some x \<Rightarrow> pv_secret_id x) r0 d1))
     \<and> secrets d' = secrets (snd (replace_key now key enc (case old of None \<Rightarrow> None | Some x \<Rightarrow> pv_secret_id x) r0 d1))"
proof -
  define old where "old = (case pq_id rq of None \<Rightarrow> None | Some i \<Rightarrow> get_row i (providers d))"
  obtain r0 d1 where o: "open_provider now old (pq_type rq) (pq_display_name rq) (pq_base_url rq) d = (r0, d1)" by fastforce
  from assms o obtain enc where e: "cipher_encrypt g k nonce key (asc ''provider_api_key'') (uuid_str (row_id r0)) = Inr enc"
    by (auto simp: provider_save_def old_def Let_def simp del: asc_simps split: if_splits sum.splits)
  show ?thesis
    using assms o e
    by (intro exI [of _ old] exI [of _ r0] exI [of _ d1] exI [of _ enc])
      (auto simp: provider_save_def old_def Let_def replace_key_def audit_append_def simp del: asc_simps
        split: if_splits prod.splits)
qed

lemma open_provider_row:
  assumes "keyed (next_id d) (providers d)" "open_provider now old ty name url d = (r0, d1)"
    and "case old of None \<Rightarrow> True | Some x \<Rightarrow> get_row (row_id x) (providers d) = Some x"
  shows "get_row (row_id r0) (providers d1) \<noteq> None" "pv_type r0 = ty" "pv_verification_state r0 = ''not_verified''"
    "secrets d1 = secrets d" "next_id d \<le> next_id d1"
proof -
  have "get_row (row_id r0) (providers d1) \<noteq> None \<and> pv_type r0 = ty \<and> pv_verification_state r0 = ''not_verified''
    \<and> secrets d1 = secrets d \<and> next_id d \<le> next_id d1"
  proof (cases old)
    case None
    then show ?thesis using assms(2) get_row_fresh [OF assms(1)]
      by (auto simp: open_provider_def Let_def new_provider_def fresh_def get_row_append)
  next
    case (Some x)
    then show ?thesis using assms(2,3)
      by (auto simp: open_provider_def Let_def get_row_save_row)
  qed
  then show "get_row (row_id r0) (providers d1) \<noteq> None" "pv_type r0 = ty" "pv_verification_state r0 = ''not_verified''"
    "secrets d1 = secrets d" "next_id d \<le> next_id d1" by blast+
qed

lemma replace_key_rows:
  assumes "keyed (next_id d1) (secrets d1)" "get_row (row_id r0) (providers d1) \<noteq> None" "old \<noteq> Some (next_id d1)"
  shows "\<exists>p s. get_row (row_id r0) (providers (snd (replace_key now key enc old r0 d1))) = Some p
     \<and> pv_secret_id p = Some (next_id d1) \<and> pv_type p = pv_type r0
     \<and> pv_verification_state p = pv_verification_state r0
     \<and> get_row (next_id d1) (secrets (snd (replace_key now key enc old r0 d1))) = Some s
     \<and> es_ciphertext s = enc \<and> es_masked_hint s = mask_key key \<and> es_revoked_at s = None
     \<and> (\<forall>i x. old = Some i \<longrightarrow> get_row i (secrets d1) = Some x \<longrightarrow>
          (\<exists>y. get_row i (secrets (snd (replace_key now key enc old r0 d1))) = Some y \<and> es_revoked_at y = Some now))"
proof -
  have "get_row (next_id d1) (secrets d1) = None" by (rule get_row_fresh [OF assms(1)]) simp
  then show ?thesis
    using assms(2,3)
    by (cases old) (auto simp: replace_key_def Let_def get_row_save_row get_row_append get_row_update_where fresh_def)
qed

text \<open>
  C9. A saved key replaces the old one. The provider then refers to a new secret that is not revoked,
  whose ciphertext opens to exactly the saved key when the server builds its client; of the key itself
  only the mask is stored beside it. The provider has to be verified anew, and the secret it referred
  to before is revoked.
\<close>

theorem saved_key_replaces_old:
  assumes "\<And>key nonce p aad. sc_open g key nonce (sc_seal g key nonce p aad) aad = Some p"
    and "\<And>key nonce p aad. list_all (\<lambda>b. b < 256) p \<Longrightarrow> list_all (\<lambda>b. b < 256) (sc_seal g key nonce p aad)"
    and "list_all (\<lambda>b. b < 256) nonce"
    and "keyed (next_id d) (providers d)" "keyed (next_id d) (secrets d)"
    and "\<forall>p \<in> set (providers d). \<forall>i. pv_secret_id p = Some i \<longrightarrow> i < next_id d"
    and "provider_save g k nonce c now rq ctx d = (Inr r, d')" "pq_api_key rq = Some key" "key \<noteq> []"
  shows "(\<exists>p i s. get_row (row_id r) (providers d') = Some p \<and> pv_verification_state p = ''not_verified''
         \<and> pv_secret_id p = Some i \<and> next_id d \<le> i
         \<and> get_row i (secrets d') = Some s \<and> es_revoked_at s = None
         \<and> cipher_decrypt g k (es_ciphertext s) = Inr key \<and> es_masked_hint s = mask_key key)
    \<and> (\<forall>i x j s. pq_id rq = Some i \<longrightarrow> get_row i (providers d) = Some x \<longrightarrow> pv_secret_id x = Some j
         \<longrightarrow> get_row j (secrets d) = Some s \<longrightarrow> (\<exists>y. get_row j (secrets d') = Some y \<and> es_revoked_at y = Some now))"
proof -
  from provider_save_key [OF assms(7-9)] obtain old r0 d1 enc where
      old: "old = (case pq_id rq of None \<Rightarrow> None | Some i \<Rightarrow> get_row i (providers d))"
    and o: "open_provider now old (pq_type rq) (pq_display_name rq) (pq_base_url rq) d = (r0, d1)"
    and e: "cipher_encrypt g k nonce key (asc ''provider_api_key'') (uuid_str (row_id r0)) = Inr enc"
    and r: "row_id r = row_id r0"
    and d': "providers d' = providers (snd (replace_key now key enc (case old of None \<Rightarrow> None | Some x \<Rightarrow> pv_secret_id x) r0 d1))"
      "secrets d' = secrets (snd (replace_key now key enc (case old of None \<Rightarrow> None | Some x \<Rightarrow> pv_secret_id x) r0 d1))"
    by blast
  have oo: "case old of None \<Rightarrow> True | Some x \<Rightarrow> get_row (row_id x) (providers d) = Some x"
    using old by (auto split: option.splits dest: get_row_Some)
  note row = open_provider_row [OF assms(4) o oo]
  have ks: "keyed (next_id d1) (secrets d1)" using keyed_mono [OF assms(5) row(5)] row(4) by simp
  have fresh: "(case old of None \<Rightarrow> None | Some x \<Rightarrow> pv_secret_id x) \<noteq> Some (next_id d1)"
  proof (cases old)
    case (Some x)
    then have "x \<in> set (providers d)" using oo get_row_Some by fastforce
    then show ?thesis using Some assms(6) row(5) by fastforce
  qed simp
  from replace_key_rows [OF ks row(1) fresh, of now key enc] obtain p s where
      p: "get_row (row_id r) (providers d') = Some p" "pv_secret_id p = Some (next_id d1)" "pv_type p = pv_type r0"
        "pv_verification_state p = pv_verification_state r0"
    and s: "get_row (next_id d1) (secrets d') = Some s" "es_ciphertext s = enc" "es_masked_hint s = mask_key key" "es_revoked_at s = None"
    and rev: "\<forall>i x. (case old of None \<Rightarrow> None | Some x \<Rightarrow> pv_secret_id x) = Some i \<longrightarrow> get_row i (secrets d1) = Some x \<longrightarrow>
          (\<exists>y. get_row i (secrets d') = Some y \<and> es_revoked_at y = Some now)"
    unfolding d' r by blast
  have "cipher_decrypt g k enc = Inr key" by (rule cipher_decrypt_encrypted [OF assms(1-3) e])
  moreover have "\<exists>y. get_row j (secrets d') = Some y \<and> es_revoked_at y = Some now"
    if "pq_id rq = Some i" "get_row i (providers d) = Some x" "pv_secret_id x = Some j" "get_row j (secrets d) = Some s"
    for i x j s
    using rev that old row(4) by simp
  ultimately show ?thesis using p s row(3,5) by auto
qed

definition demo_key_request :: provider_request where
  "demo_key_request = \<lparr>pq_id = Some 1, pq_type = ''openai'', pq_display_name = asc ''p'', pq_base_url = asc ''https://p'',
     pq_api_key = Some (asc ''sk-2''), pq_expected_version = 1\<rparr>"

lemma cipher_encrypt_total:
  "encodable purpose \<Longrightarrow> encodable rid \<Longrightarrow> encodable t \<Longrightarrow> encodable (nat_str (sc_key_version k))
     \<Longrightarrow> \<exists>v. cipher_encrypt g k nonce t purpose rid = Inr v"
  by (auto simp: cipher_encrypt_def associated_def utf8_encode_def encodable_def surrogate_def)

lemma encodable_uuid: "encodable (uuid_str u)"
  unfolding encodable_def list_all_iff by (auto dest!: set_uuid_str simp: surrogate_def)

theorem saved_key_replaces_old_witness:
  "\<exists>r d' p i s y. provider_save demo_aead demo_cipher [1, 2, 3] plain_crypto 5 demo_key_request (system_context ''user'' None) demo_prov
      = (Inr r, d')
    \<and> get_row (row_id r) (providers d') = Some p \<and> pv_secret_id p = Some i \<and> get_row i (secrets d') = Some s
    \<and> cipher_decrypt demo_aead demo_cipher (es_ciphertext s) = Inr (asc ''sk-2'')
    \<and> get_row 2 (secrets d') = Some y \<and> es_revoked_at y = Some 5"
proof -
  have "encodable (asc ''provider_api_key'')" "encodable (asc ''sk-2'')" "encodable (nat_str (sc_key_version demo_cipher))"
    by (simp_all add: encodable_def surrogate_def demo_cipher_def nat_str.simps)
  then obtain v where v: "cipher_encrypt demo_aead demo_cipher [1, 2, 3] (asc ''sk-2'') (asc ''provider_api_key'') (uuid_str 1) = Inr v"
    using cipher_encrypt_total [OF _ encodable_uuid] by blast
  obtain r0 d1 where o: "open_provider 5 (Some demo_openai) ''openai'' (asc ''p'') (asc ''https://p'') demo_prov = (r0, d1)" by fastforce
  then have "row_id r0 = 1" by (auto simp: open_provider_def Let_def demo_openai_def)
  moreover obtain r1 d2 where "replace_key 5 (asc ''sk-2'') v (Some 2) r0 d1 = (r1, d2)" by fastforce
  moreover have "version demo_openai = 1" "pv_secret_id demo_openai = Some 2" "asc ''sk-2'' \<noteq> []"
    by (simp_all add: demo_openai_def)
  ultimately obtain r d' where e: "provider_save demo_aead demo_cipher [1, 2, 3] plain_crypto 5 demo_key_request
      (system_context ''user'' None) demo_prov = (Inr r, d')"
    using demo_prov_row(1) v o
    by (simp add: provider_save_def demo_key_request_def Let_def del: asc_simps)
  have "\<forall>p \<in> set (providers demo_prov). \<forall>i. pv_secret_id p = Some i \<longrightarrow> i < next_id demo_prov"
    by (simp add: demo_prov_def demo_openai_def)
  from saved_key_replaces_old [of demo_aead, OF _ _ _ demo_prov_keyed(1,2) this e, where key = "asc ''sk-2''"]
  have "(\<exists>p i s. get_row (row_id r) (providers d') = Some p \<and> pv_secret_id p = Some i
        \<and> get_row i (secrets d') = Some s \<and> cipher_decrypt demo_aead demo_cipher (es_ciphertext s) = Inr (asc ''sk-2''))
    \<and> (\<forall>i x j s. pq_id demo_key_request = Some i \<longrightarrow> get_row i (providers demo_prov) = Some x \<longrightarrow> pv_secret_id x = Some j
         \<longrightarrow> get_row j (secrets demo_prov) = Some s \<longrightarrow> (\<exists>y. get_row j (secrets d') = Some y \<and> es_revoked_at y = Some 5))"
    by (simp add: demo_aead_def demo_key_request_def) blast
  moreover have "pq_id demo_key_request = Some 1" "pv_secret_id demo_openai = Some 2" "get_row 2 (secrets demo_prov) = Some demo_secret"
    by (simp_all add: demo_key_request_def demo_openai_def demo_prov_def demo_secret_def)
  ultimately show ?thesis using e demo_prov_row(1) by blast
qed
section \<open>Roles and recommendations\<close>

text \<open>Which roles a model has, said for each role by itself.\<close>

definition has_role :: "pystr \<Rightarrow> pystr list \<Rightarrow> string \<Rightarrow> bool" where
  "has_role model_id adv role \<longleftrightarrow>
     (if role = ''transcription_model'' then transcribes model_id
      else if role = ''speech_model'' then speaks model_id
      else if role = ''embedding_model'' then embeds model_id adv
      else \<not> denied model_id \<and> (text_family model_id \<or> explicit_chat adv)
           \<and> \<not> transcribes model_id \<and> \<not> speaks model_id)"

lemma role_set_iff: "r \<in> set ALL_ROLES \<Longrightarrow> r \<in> role_set model_id adv \<longleftrightarrow> has_role model_id adv r"
  by (auto simp: ALL_ROLES_def role_set_def has_role_def Let_def)

lemma classify_roles:
  "cl_roles (classify_model eid adv) = filter (has_role (casefold eid) (advertised_lower adv)) ALL_ROLES"
  unfolding classify_model_def Let_def by (simp add: role_set_iff cong: filter_cong)

text \<open>
  Building the set of roles step by step, with its later subtractions, decides each role as if it were
  asked for by itself; the capabilities for transcription, speech and embeddings are exactly these roles.
\<close>

theorem classification_by_role:
  "cl_roles (classify_model eid adv) = filter (has_role (casefold eid) (advertised_lower adv)) ALL_ROLES
   \<and> set ALL_ROLES = set ROLE_ORDER \<and> sorted (map asc ALL_ROLES)
   \<and> jget (cl_capabilities (classify_model eid adv)) ''transcriptions''
       = Some (JBool (''transcription_model'' \<in> set (cl_roles (classify_model eid adv))))
   \<and> jget (cl_capabilities (classify_model eid adv)) ''speech''
       = Some (JBool (''speech_model'' \<in> set (cl_roles (classify_model eid adv))))
   \<and> jget (cl_capabilities (classify_model eid adv)) ''embeddings''
       = Some (JBool (''embedding_model'' \<in> set (cl_roles (classify_model eid adv))))"
proof -
  have "set ALL_ROLES = set ROLE_ORDER" by (auto simp: ALL_ROLES_def ROLE_ORDER_def)
  moreover have "sorted (map asc ALL_ROLES)" by (simp add: ALL_ROLES_def)
  moreover have "r \<in> set (cl_roles (classify_model eid adv)) \<longleftrightarrow>
      r \<in> set ALL_ROLES \<and> r \<in> role_set (casefold eid) (advertised_lower adv)" for r
    by (auto simp: classify_model_def Let_def)
  moreover have "set [''transcription_model'', ''speech_model'', ''embedding_model''] \<subseteq> set ALL_ROLES"
    by (simp add: ALL_ROLES_def)
  ultimately show ?thesis
    using classify_roles [of eid adv] by (simp add: jget_def) (simp add: classify_model_def Let_def)
qed

text \<open>
  The roles of a model are consistent: a model for conversations is one for summaries and the other
  way round, it is never one for transcription or speech, and a marker of the deny list in its name
  excludes it from conversations whatever the provider advertises; each role is listed once.
\<close>

theorem roles_consistent:
  "distinct (cl_roles (classify_model eid adv)) \<and> set (cl_roles (classify_model eid adv)) \<subseteq> set ROLE_ORDER
   \<and> (''conversation_model'' \<in> set (cl_roles (classify_model eid adv))
       \<longleftrightarrow> ''summary_model'' \<in> set (cl_roles (classify_model eid adv)))
   \<and> (''conversation_model'' \<in> set (cl_roles (classify_model eid adv)) \<longrightarrow>
       ''transcription_model'' \<notin> set (cl_roles (classify_model eid adv))
       \<and> ''speech_model'' \<notin> set (cl_roles (classify_model eid adv)))
   \<and> (denied (casefold eid) \<longrightarrow> ''conversation_model'' \<notin> set (cl_roles (classify_model eid adv)))"
  by (auto simp: classify_roles ALL_ROLES_def ROLE_ORDER_def has_role_def)

theorem roles_consistent_witness:
  "denied (casefold (asc ''GPT-4o-audio'')) \<and> cl_roles (classify_model (asc ''GPT-4o-audio'') (CapSet [])) = []"
proof -
  have d: "denied (casefold (asc ''GPT-4o-audio''))" by code_simp
  have "''conversation_model'' \<notin> set (cl_roles (classify_model (asc ''GPT-4o-audio'') (CapSet [])))"
    using roles_consistent [of "asc ''GPT-4o-audio''" "CapSet []"] d by blast
  moreover have "filter (\<lambda>r. r \<noteq> ''conversation_model'') (cl_roles (classify_model (asc ''GPT-4o-audio'') (CapSet []))) = []"
    by code_simp
  ultimately show ?thesis using d by (auto simp: filter_empty_conv) (metis list.set_intros(1) neq_Nil_conv)
qed

lemma sort_key_hd_least:
  assumes "sort_key f xs = y # ys" "x \<in> set xs"
  shows "f y \<le> f x"
proof -
  have "x \<in> set (y # ys)" using assms by (metis set_sort)
  moreover have "sorted (map f (y # ys))" using assms(1) by (metis sorted_sort_key)
  ultimately show ?thesis by auto
qed

text \<open>
  The recommended model of a role is one that the provider offers for it, available, and of the least
  rank among these: an earlier preference beats a later one, an exact name a model of the same family,
  and that any other model.
\<close>

theorem recommended_is_best:
  assumes "model_options pid d = Inr (p, opts)" "(role, ro) \<in> set opts" "ro_recommended ro = Some i"
  shows "\<exists>e \<in> set (catalog d). row_id e = i \<and> mc_provider_id e = pid \<and> mc_available e \<and> mc_role e = role
    \<and> (\<forall>x \<in> set (catalog d). mc_provider_id x = pid \<longrightarrow> mc_available x \<longrightarrow> mc_role x = role \<longrightarrow>
         recommendation_rank role (mc_external_id e) \<le> recommendation_rank role (mc_external_id x))"
proof -
  have o: "ro = options_of pid role d"
    using assms(1,2) by (auto simp: model_options_def split: option.splits)
  then obtain e es where e: "relevant_models pid role d = e # es" "row_id e = i"
    using assms(3) by (auto simp: options_of_def Let_def split: list.splits)
  have "e \<in> set (relevant_models pid role d)" by (simp add: e)
  then have mem: "e \<in> set (catalog d)" "mc_provider_id e = pid" "mc_available e" "mc_role e = role"
    by (simp_all add: relevant_models_def)
  have "recommendation_rank role (mc_external_id e) \<le> recommendation_rank role (mc_external_id x)"
    if "x \<in> set (catalog d)" "mc_provider_id x = pid" "mc_available x" "mc_role x = role" for x
  proof -
    have "(recommendation_rank role (mc_external_id e), mc_external_id e) \<le>
        (recommendation_rank role (mc_external_id x), mc_external_id x)"
      using sort_key_hd_least [OF e(1) [unfolded relevant_models_def], of x] that by simp
    then show ?thesis by (simp only: less_eq_prod_simp) (blast intro: less_imp_le)
  qed
  with mem e(2) show ?thesis by blast
qed

theorem recommended_is_best_witness:
  "\<exists>p opts ro. model_options 1 demo_prov = Inr (p, opts) \<and> (''conversation_model'', ro) \<in> set opts
     \<and> ro_recommended ro = Some 3
     \<and> list_ex (\<lambda>e. row_id e = 3 \<and> mc_available e \<and> mc_role e = ''conversation_model'') (catalog demo_prov)"
proof -
  have m: "model_options 1 demo_prov = Inr (demo_openai, map (\<lambda>role. (role, options_of 1 role demo_prov)) ROLE_ORDER)"
    using demo_prov_row(1) by (simp add: model_options_def)
  have o: "(''conversation_model'', options_of 1 ''conversation_model'' demo_prov) \<in>
      set (map (\<lambda>role. (role, options_of 1 role demo_prov)) ROLE_ORDER)"
    by (simp add: ROLE_ORDER_def)
  have r: "ro_recommended (options_of 1 ''conversation_model'' demo_prov) = Some 3" by code_simp
  from recommended_is_best [OF m o r]
  have "list_ex (\<lambda>e. row_id e = 3 \<and> mc_available e \<and> mc_role e = ''conversation_model'') (catalog demo_prov)"
    unfolding list_ex_iff by blast
  with m o r show ?thesis by blast
qed

text \<open>The models of the test provider get no role but those of conversations and summaries: their
  names and capabilities are not the ones the classification looks for.\<close>

theorem deterministic_roles:
  "map (\<lambda>m. cl_roles (classify_model (pm_external_id m) (pm_capabilities m))) deterministic_models
     = [[''conversation_model'', ''summary_model''], [], [], []]"
  by (simp add: deterministic_models_def Let_def classify_roles ALL_ROLES_def has_role_def explicit_chat_def
      transcribes_def speaks_def embeds_def denied_def DENY_MARKERS_def text_family_def casefold_def fold_char_def
      starts_with_def comp_def)

section \<open>Reindexing\<close>

text \<open>Recommendations change the embedding model without marking the search index as stale.\<close>

lemma put_setting_search: "search_documents (snd (put_setting now s v acc d)) = search_documents d"
    "jobs (snd (put_setting now s v acc d)) = jobs d"
  by (simp_all add: put_setting_def Let_def fresh_def split: option.split)

lemma set_setting_search:
  "search_documents (snd (set_setting now key v acc d)) = search_documents d \<and> jobs (snd (set_setting now key v acc d)) = jobs d"
  using put_setting_search [of now _ v acc d]
  by (auto simp: set_setting_def add_setting_revision_def fresh_def split: option.splits prod.splits)
    (metis snd_conv)+

lemma apply_roles_search:
  "search_documents (snd (apply_roles now rs acc d)) = search_documents d \<and> jobs (snd (apply_roles now rs acc d)) = jobs d"
proof (induction rs arbitrary: d)
  case (Cons x rs)
  obtain role opts where x: "x = (role, opts)" by fastforce
  show ?case
  proof (cases "ro_recommended opts")
    case (Some i)
    obtain q d1 where q: "set_setting now role (JStr (uuid_str i)) acc d = (q, d1)" by fastforce
    obtain q2 d2 where q2: "apply_roles now rs acc d1 = (q2, d2)" by fastforce
    show ?thesis
      using set_setting_search [of now role "JStr (uuid_str i)" acc d] Cons.IH [of d1] q q2 x Some
      by (cases q; cases q2) simp_all
  qed (use Cons x in simp)
qed simp

theorem recommendations_do_not_reindex:
  "search_documents (snd (apply_recommended c now pid acc ctx d)) = search_documents d
   \<and> jobs (snd (apply_recommended c now pid acc ctx d)) = jobs d"
  using apply_roles_search [of now _ acc d]
  by (auto simp: apply_recommended_def audit_append_def split: sum.split prod.split) (metis snd_conv)+

end
