(* ===== verification/NotificationTheorems.thy ===== *)
theory NotificationTheorems
  imports Notifications ProviderTheorems
begin

text \<open>
  What outgoing mail guarantees: the configuration that was saved is the one that is used, for
  servers that are not named by an IPv6 address, a password is sent only over an encrypted connection unless encryption was switched off, a mailed
  reset link works, and a mail that fails leaves no trace.
\<close>

section \<open>Reading back the address\<close>

lemma digits_value_append:
  "digits_value acc (s @ t) = (case digits_value acc s of None \<Rightarrow> None | Some a \<Rightarrow> digits_value a t)"
  by (induction s arbitrary: acc) auto

lemma digits_value_nat: "digits_value 0 (nat_str n) = Some (int n)"
proof (induction n rule: nat_str.induct)
  case (1 n)
  show ?case
  proof (cases "n < 10")
    case True
    then show ?thesis by (subst nat_str.simps) simp
  next
    case False
    have "int (n div 10) * 10 + int (n mod 10) = int n" by presburger
    with False 1 show ?thesis by (subst nat_str.simps) (simp add: digits_value_append)
  qed
qed

lemma nat_str_digits: "c \<in> set (nat_str n) \<Longrightarrow> 48 \<le> c \<and> c \<le> 57"
proof (induction n rule: nat_str.induct)
  case (1 n)
  then show ?case by (subst (asm) (2) nat_str.simps) (auto split: if_splits)
qed

lemma nat_str_nonempty: "nat_str n \<noteq> []"
  by (subst nat_str.simps) simp

text \<open>The characters of a host name or an IPv4 address: letters, digits, full stops and hyphens.\<close>

definition host_char :: "nat \<Rightarrow> bool" where
  "host_char c \<longleftrightarrow> (65 \<le> c \<and> c \<le> 90) \<or> (97 \<le> c \<and> c \<le> 122) \<or> (48 \<le> c \<and> c \<le> 57) \<or> c = 45 \<or> c = 46"

lemma split_at_absent: "x \<notin> set s \<Longrightarrow> split_at x s = (s, None)"
  by (induction s) auto

lemma split_at_first: "x \<notin> set s \<Longrightarrow> split_at x (s @ x # t) = (s, Some t)"
  by (induction s) auto

lemma fold_small: "c < 128 \<Longrightarrow> fold_char c = (if 65 \<le> c \<and> c \<le> 90 then [c + 32] else [c])"
  by (simp add: fold_char_def)

lemma lower_host_char: "host_char c \<Longrightarrow> lower_char c = (if 65 \<le> c \<and> c \<le> 90 then [c + 32] else [c])"
proof -
  assume "host_char c"
  then have "c < 128" by (auto simp: host_char_def)
  then show ?thesis using fold_small by (simp add: lower_char_def)
qed

text \<open>A host in small letters is not changed.\<close>

lemma py_lower_host: "\<forall>c \<in> set s. host_char c \<and> \<not> (65 \<le> c \<and> c \<le> 90) \<Longrightarrow> py_lower s = s"
  by (induction s) (simp_all add: py_lower_def lower_host_char)

lemma py_lower_nonempty: "list_all host_char s \<Longrightarrow> s \<noteq> [] \<Longrightarrow> py_lower s \<noteq> []"
  by (cases s) (simp_all add: py_lower_def lower_host_char)

lemma host_notin: "list_all host_char s \<Longrightarrow> x \<in> {37, 47, 58, 63, 64, 91, 93, 35, 9, 10, 13} \<Longrightarrow> x \<notin> set s"
  by (auto simp: list_all_iff host_char_def)

lemma port_notin: "x \<in> {37, 47, 58, 63, 64, 91, 93, 35, 9, 10, 13} \<Longrightarrow> x \<notin> set (nat_str n)"
  using nat_str_digits by fastforce

lemma smtp_netloc:
  assumes "list_all host_char host" "0 \<le> port"
  shows "url_netloc (smtp_url host port) = host @ [58] @ nat_str (nat port)"
proof -
  let ?n = "host @ [58] @ nat_str (nat port)"
  have url: "smtp_url host port = asc ''smtp'' @ 58 # 47 # 47 # ?n"
    using assms(2) by (simp add: smtp_url_def int_str_def)
  have "filter (\<lambda>c. c \<notin> {9, 10, 13}) ?n = ?n"
    using host_notin [OF assms(1)] port_notin by (intro filter_True) auto
  then have "filter (\<lambda>c. c \<notin> {9, 10, 13}) (dropWhile (\<lambda>c. c \<le> 32) (smtp_url host port))
      = asc ''smtp'' @ 58 # 47 # 47 # ?n"
    unfolding url by simp
  moreover have "split_at 58 (asc ''smtp'' @ 58 # 47 # 47 # ?n) = (asc ''smtp'', Some (47 # 47 # ?n))"
    by (rule split_at_first) simp
  moreover have "ascii_letter (hd (asc ''smtp'')) \<and> list_all scheme_char (asc ''smtp'')"
    by (simp add: ascii_letter_def scheme_char_def)
  ultimately have "url_rest (smtp_url host port) = 47 # 47 # ?n"
    by (simp add: url_rest_def Let_def del: asc_simps) (simp add: asc_simps)
  moreover have "takeWhile (\<lambda>c. c \<notin> {47, 63, 35}) ?n = ?n"
    unfolding takeWhile_eq_all_conv using host_notin [OF assms(1)] port_notin by fastforce
  ultimately show ?thesis by (simp add: url_netloc_def)
qed

lemma smtp_url_parts:
  assumes "list_all host_char host" "0 \<le> port" "port \<le> 65535"
  shows "url_check me (smtp_url host port) = Inr ()"
    and "url_hostname (smtp_url host port) = py_lower host"
    and "url_port (smtp_url host port) = Inr (Some port)"
proof -
  let ?p = "nat_str (nat port)"
  let ?n = "host @ [58] @ ?p"
  note n = smtp_netloc [OF assms(1,2)]
  have ab: "x \<notin> set ?n" if "x \<in> {64, 91, 93}" for x
    using that host_notin [OF assms(1), of x] port_notin [of x] by auto
  show "url_check me (smtp_url host port) = Inr ()"
    unfolding url_check_def n Let_def using ab by auto
  have "after_last 64 ?n = ?n"
    unfolding after_last_def using ab [of 64] by (subst split_at_absent) auto
  moreover have "split_at 91 ?n = (?n, None)" using ab by (intro split_at_absent) simp
  moreover have "split_at 58 ?n = (host, Some ?p)"
    using host_notin [OF assms(1), of 58] by (simp add: split_at_first)
  ultimately have i: "url_hostinfo (smtp_url host port) = (host, Some ?p)"
    unfolding url_hostinfo_def n Let_def by simp
  have "split_at 37 host = (host, None)"
    using host_notin [OF assms(1), of 37] by (intro split_at_absent) simp
  then show "url_hostname (smtp_url host port) = py_lower host"
    by (simp add: url_hostname_def i)
  show "url_port (smtp_url host port) = Inr (Some port)"
    using assms(2,3) nat_str_nonempty [of "nat port"] digits_value_nat [of "nat port"]
    by (auto simp: url_port_def i split: list.split)
qed

section \<open>Saving and reading back\<close>

lemma smtp_row_frame:
  "providers d' = providers d \<Longrightarrow> smtp_row d' = smtp_row d"
  by (simp add: smtp_row_def)

lemma open_smtp_row:
  assumes "open_smtp now rq d = (r, d')" "keyed n (providers d)" "n = next_id d"
  obtains x where "smtp_row d' = Some x" "row_id x = row_id r" "pv_type r = ''smtp''"
    "pv_base_url r = smtp_url (rq_host rq) (rq_port rq)" "pv_capabilities r = smtp_capabilities rq"
    "pv_secret_id x = pv_secret_id r" "pv_base_url x = pv_base_url r" "pv_capabilities x = pv_capabilities r"
    "secrets d' = secrets d" "next_id d \<le> next_id d'" "keyed (next_id d') (providers d')"
    "pv_secret_id x = (case smtp_row d of None \<Rightarrow> None | Some r0 \<Rightarrow> pv_secret_id r0)"
proof (cases "smtp_row d")
  case None
  then have r: "r = (new_provider now ''smtp'' (rq_display_name rq) (smtp_url (rq_host rq) (rq_port rq)) d)
        \<lparr>pv_capabilities := smtp_capabilities rq\<rparr>"
      and d': "d' = (fresh d)\<lparr>providers := providers d @ [r]\<rparr>"
    using assms(1) by (auto simp: open_smtp_def Let_def)
  have "smtp_row d' = Some r"
    using None unfolding d' r by (simp add: smtp_row_def query_one_snoc new_provider_def)
  moreover have "keyed (next_id d') (providers d')"
    using assms(2,3) unfolding d' r by (auto simp: fresh_def new_provider_def intro: keyed_append_new)
  ultimately show ?thesis
    using that [of r] None unfolding d' r by (simp add: new_provider_def fresh_def)
next
  case (Some r0)
  then have r: "r = r0\<lparr>pv_display_name := rq_display_name rq, pv_base_url := smtp_url (rq_host rq) (rq_port rq),
         version := version r0 + 1, pv_enabled := False, pv_verification_state := ''not_verified'',
         pv_capabilities := smtp_capabilities rq\<rparr>"
      and d': "d' = d\<lparr>providers := save_row now r (providers d)\<rparr>"
    using assms(1) by (auto simp: open_smtp_def Let_def)
  have ty: "pv_type r0 = ''smtp''" using query_one_Some [OF Some [unfolded smtp_row_def]] by simp
  then have "smtp_row d' = Some (r\<lparr>updated_at := now\<rparr>)"
    unfolding d' smtp_row_def save_row_def
    using query_one_put_row [OF assms(2) Some [unfolded smtp_row_def], of "r\<lparr>updated_at := now\<rparr>"] by (simp add: r)
  then show ?thesis
    using that [of "r\<lparr>updated_at := now\<rparr>"] ty assms(2,3) Some unfolding d' r by simp
qed

lemma store_password_row:
  assumes "store_password now pw enc r d = (r', d')" "keyed (next_id d) (providers d)"
    and "smtp_row d = Some x" "row_id x = row_id r" "pv_type r = ''smtp''" "keyed (next_id d) (secrets d)"
  obtains y s where "smtp_row d' = Some y" "pv_secret_id y = Some (next_id d)" "pv_base_url y = pv_base_url r"
    "pv_capabilities y = pv_capabilities r" "get_row (next_id d) (secrets d') = Some s"
    "es_ciphertext s = enc" "es_revoked_at s = None"
proof -
  let ?r = "r\<lparr>pv_secret_id := Some (next_id d)\<rparr>"
  have p: "providers d' = save_row now ?r (providers d)"
    and s: "\<exists>s. secrets d' = secrets d @ [s] \<and> row_id s = next_id d \<and> es_ciphertext s = enc \<and> es_revoked_at s = None"
    using assms(1) by (auto simp: store_password_def Let_def fresh_def)
  have "query_one (\<lambda>p. pv_type p = ''smtp'') (put_row (?r\<lparr>updated_at := now\<rparr>) (providers d)) = Some (?r\<lparr>updated_at := now\<rparr>)"
    using query_one_put_row [OF assms(2) assms(3) [unfolded smtp_row_def], of "?r\<lparr>updated_at := now\<rparr>"] assms(4,5) by simp
  then have y: "smtp_row d' = Some (?r\<lparr>updated_at := now\<rparr>)"
    by (simp add: smtp_row_def p save_row_def)
  from s obtain s where s: "secrets d' = secrets d @ [s]" "row_id s = next_id d" "es_ciphertext s = enc" "es_revoked_at s = None"
    by blast
  have "get_row (next_id d) (secrets d') = Some s"
    using s(1,2) get_row_fresh [OF assms(6)] by (simp add: get_row_append)
  with y s show ?thesis using that [of "?r\<lparr>updated_at := now\<rparr>" s] by simp
qed

lemma mailer_saved:
  assumes "smtp_row d = Some r" "pv_base_url r = smtp_url host port" "pv_capabilities r = smtp_capabilities rq"
    and "list_all host_char host" "host \<noteq> []" "1 \<le> port" "port \<le> 65535" "rq_sender rq \<noteq> []"
    and "stored_password g k r d = Inr pw"
  shows "mailer me g k d = Inr (r, \<lparr>sm_host = py_lower host, sm_port = port, sm_username = rq_username rq,
     sm_password = pw, sm_sender = rq_sender rq, sm_use_starttls = rq_use_starttls rq \<and> port \<noteq> 465\<rparr>)"
proof -
  have caps: "get_or (smtp_capabilities rq) ''use_starttls'' (JBool True) = JBool (rq_use_starttls rq)"
      "get_or (smtp_capabilities rq) ''username'' JNull = text_or_null (rq_username rq)"
      "get_or (smtp_capabilities rq) ''sender'' (JStr []) = JStr (rq_sender rq)"
    by (simp_all add: smtp_capabilities_def get_or_def jget_def)
  have jt: "json_text (text_or_null u) = u" "json_text (JStr t) = Some t" for u t
    by (cases u) (simp_all add: json_text_def text_or_null_def)
  show ?thesis
    using assms smtp_url_parts [OF assms(4), of port] py_lower_nonempty [OF assms(4,5)]
    by (simp add: mailer_def Let_def caps jt)
qed

text \<open>The password in use before, and the one in use after a save: the new one, or when none was
  given the one before.\<close>

definition kept_password :: "aead \<Rightarrow> secret_cipher \<Rightarrow> db \<Rightarrow> pystr option result" where
  "kept_password g k d = (case smtp_row d of None \<Rightarrow> Inr None | Some r \<Rightarrow> stored_password g k r d)"

definition password_after :: "aead \<Rightarrow> secret_cipher \<Rightarrow> smtp_request \<Rightarrow> db \<Rightarrow> pystr option result" where
  "password_after g k rq d =
     (case rq_password rq of None \<Rightarrow> kept_password g k d
      | Some p \<Rightarrow> if p = [] then kept_password g k d else Inr (Some p))"

lemma save_keeps_password:
  assumes "save_smtp g k nonce c now rq ctx d = (Inr r, d')" "rq_password rq \<in> {None, Some []}"
    and "keyed (next_id d) (providers d)"
  obtains y where "smtp_row d' = Some y" "pv_base_url y = smtp_url (rq_host rq) (rq_port rq)"
    "pv_capabilities y = smtp_capabilities rq" "stored_password g k y d' = kept_password g k d"
    "1 \<le> rq_port rq" "rq_port rq \<le> 65535"
proof -
  obtain r0 d1 where o: "open_smtp now rq d = (r0, d1)" by fastforce
  from assms(1,2) o have port: "1 \<le> rq_port rq" "rq_port rq \<le> 65535"
    and fr: "providers d' = providers d1" "secrets d' = secrets d1"
    by (auto simp: save_smtp_def Let_def audit_append_def split: if_splits)
  obtain x where x: "smtp_row d1 = Some x" "pv_base_url r0 = smtp_url (rq_host rq) (rq_port rq)"
      "pv_capabilities r0 = smtp_capabilities rq" "pv_base_url x = pv_base_url r0"
      "pv_capabilities x = pv_capabilities r0" "secrets d1 = secrets d"
      "pv_secret_id x = (case smtp_row d of None \<Rightarrow> None | Some r0 \<Rightarrow> pv_secret_id r0)"
    using open_smtp_row [OF o assms(3) refl] by metis
  have "stored_password g k x d' = kept_password g k d"
    using x(6,7) fr(2) by (simp add: stored_password_def kept_password_def split: option.split)
  then show ?thesis using that [of x] port x smtp_row_frame [OF fr(1)] by simp
qed

lemma save_stores_password:
  assumes "\<And>key nonce p aad. sc_open g key nonce (sc_seal g key nonce p aad) aad = Some p"
    and "\<And>key nonce p aad. list_all (\<lambda>b. b < 256) p \<Longrightarrow> list_all (\<lambda>b. b < 256) (sc_seal g key nonce p aad)"
    and "list_all (\<lambda>b. b < 256) nonce"
    and "keyed (next_id d) (providers d)" "keyed (next_id d) (secrets d)"
    and "save_smtp g k nonce c now rq ctx d = (Inr r, d')"
    and "rq_password rq = Some pw" "pw \<noteq> []"
  obtains y where "smtp_row d' = Some y" "pv_base_url y = smtp_url (rq_host rq) (rq_port rq)"
    "pv_capabilities y = smtp_capabilities rq" "stored_password g k y d' = Inr (Some pw)"
    "1 \<le> rq_port rq" "rq_port rq \<le> 65535"
proof -
  obtain r0 d1 where o: "open_smtp now rq d = (r0, d1)" by fastforce
  from assms(6-8) o obtain enc r1 d2 where
      port: "1 \<le> rq_port rq" "rq_port rq \<le> 65535"
      and e: "cipher_encrypt g k nonce pw (asc ''smtp_password'') (uuid_str (row_id r0)) = Inr enc"
      and sp: "store_password now pw enc r0 d1 = (r1, d2)"
      and fr: "providers d' = providers d2" "secrets d' = secrets d2"
    by (auto simp: save_smtp_def Let_def audit_append_def split: if_splits sum.splits prod.splits)
  obtain x where x: "smtp_row d1 = Some x" "row_id x = row_id r0" "pv_type r0 = ''smtp''"
      "pv_base_url r0 = smtp_url (rq_host rq) (rq_port rq)" "pv_capabilities r0 = smtp_capabilities rq"
      "secrets d1 = secrets d" "next_id d \<le> next_id d1" "keyed (next_id d1) (providers d1)"
    using open_smtp_row [OF o assms(4) refl] by metis
  have ks: "keyed (next_id d1) (secrets d1)" using keyed_mono [OF assms(5) x(7)] x(6) by simp
  obtain y s where y: "smtp_row d2 = Some y" "pv_secret_id y = Some (next_id d1)" "pv_base_url y = pv_base_url r0"
      "pv_capabilities y = pv_capabilities r0" "get_row (next_id d1) (secrets d2) = Some s"
      "es_ciphertext s = enc" "es_revoked_at s = None"
    using store_password_row [OF sp x(8,1,2,3) ks] by metis
  have "cipher_decrypt g k enc = Inr pw" by (rule cipher_decrypt_encrypted [OF assms(1-3) e])
  then have "stored_password g k y d' = Inr (Some pw)"
    using y fr by (simp add: stored_password_def)
  then show ?thesis using that [of y] port x y smtp_row_frame [OF fr(1)] by simp
qed

lemma save_smtp_mailer:
  assumes "\<And>key nonce p aad. sc_open g key nonce (sc_seal g key nonce p aad) aad = Some p"
    and "\<And>key nonce p aad. list_all (\<lambda>b. b < 256) p \<Longrightarrow> list_all (\<lambda>b. b < 256) (sc_seal g key nonce p aad)"
    and "list_all (\<lambda>b. b < 256) nonce"
    and "keyed (next_id d) (providers d)" "keyed (next_id d) (secrets d)"
    and "save_smtp g k nonce c now rq ctx d = (Inr r, d')"
    and "list_all host_char (rq_host rq)" "rq_host rq \<noteq> []" "rq_sender rq \<noteq> []"
    and "password_after g k rq d = Inr pw"
  shows "\<exists>r'. mailer me g k d' = Inr (r', \<lparr>sm_host = py_lower (rq_host rq), sm_port = rq_port rq,
     sm_username = rq_username rq, sm_password = pw, sm_sender = rq_sender rq,
     sm_use_starttls = rq_use_starttls rq \<and> rq_port rq \<noteq> 465\<rparr>)
    \<and> pv_capabilities r' = smtp_capabilities rq"
proof -
  obtain y where y: "smtp_row d' = Some y" "pv_base_url y = smtp_url (rq_host rq) (rq_port rq)"
      "pv_capabilities y = smtp_capabilities rq" "stored_password g k y d' = Inr pw"
      "1 \<le> rq_port rq" "rq_port rq \<le> 65535"
  proof (cases "rq_password rq \<in> {None, Some []}")
    case True
    then have "kept_password g k d = Inr pw" using assms(10) by (auto simp: password_after_def)
    with save_keeps_password [OF assms(6) True assms(4)] that show ?thesis by metis
  next
    case False
    then obtain p where p: "rq_password rq = Some p" "p \<noteq> []" by auto
    then have "pw = Some p" using assms(10) by (simp add: password_after_def)
    with save_stores_password [OF assms(1-6) p] that show ?thesis by metis
  qed
  then show ?thesis
    by (intro exI conjI mailer_saved) (use assms(7-9) in simp_all)
qed

section \<open>Properties\<close>

text \<open>C26. The mail configuration that was saved is the one that is used, for a server named by a host
  name or an IPv4 address: port, user, sender and encryption are read back as they were given and the
  host in small letters. The password is the new one, or when none was given the one in use before. On
  port 465 the connection is encrypted from the start, with or without the option for the upgrade. Of
  an IPv6 address nothing can be read back (\<open>ipv6_server_unreadable\<close>).\<close>

theorem smtp_configuration_roundtrip:
  assumes "\<And>key nonce p aad. sc_open g key nonce (sc_seal g key nonce p aad) aad = Some p"
    and "\<And>key nonce p aad. list_all (\<lambda>b. b < 256) p \<Longrightarrow> list_all (\<lambda>b. b < 256) (sc_seal g key nonce p aad)"
    and "list_all (\<lambda>b. b < 256) nonce"
    and "keyed (next_id d) (providers d)" "keyed (next_id d) (secrets d)"
    and "save_smtp g k nonce c now rq ctx d = (Inr r, d')"
    and "list_all host_char (rq_host rq)" "rq_host rq \<noteq> []" "rq_sender rq \<noteq> []"
    and "password_after g k rq d = Inr pw"
  shows "\<exists>r' cfg. mailer me g k d' = Inr (r', cfg)
    \<and> cfg = \<lparr>sm_host = py_lower (rq_host rq), sm_port = rq_port rq,
        sm_username = rq_username rq, sm_password = pw, sm_sender = rq_sender rq,
        sm_use_starttls = rq_use_starttls rq \<and> rq_port rq \<noteq> 465\<rparr>
    \<and> (rq_port rq = 465 \<longrightarrow> use_implicit_tls cfg)"
  using save_smtp_mailer [OF assms] by (auto simp: use_implicit_tls_def)

text \<open>A colon in the host, as every IPv6 address has, spoils the port of the address: the configuration
  is saved and no mail can be sent with it.\<close>

lemma ipv6_server_unreadable:
  "url_port (smtp_url (asc ''fe80::1'') 587) = Inl ValueError"
  by code_simp

text \<open>A password is sent only after the connection was encrypted, from the start or by an upgrade,
  unless the configuration switched the upgrade off on another port than 465.\<close>

theorem smtp_login_encrypted:
  assumes "mailer me g k d = Inr (r, cfg)"
    and "truthy (get_or (pv_capabilities r) ''use_starttls'' (JBool True)) \<or> url_port (pv_base_url r) = Inr (Some 465)"
    and "smtp_calls cfg recipient body = before @ Login u p # after"
  shows "StartTls \<in> set before \<or> (\<exists>h n. Connect True h n \<in> set before)"
proof -
  have tls: "sm_use_starttls cfg \<or> use_implicit_tls cfg"
    using assms(1,2) by (auto simp: mailer_def Let_def use_implicit_tls_def split: option.splits sum.splits if_splits)
  have "\<exists>pre. smtp_calls cfg recipient body = pre @ [Login u p, SendMessage (sm_sender cfg) recipient body]
      \<and> Login u p \<notin> set pre
      \<and> (StartTls \<in> set pre \<or> (\<exists>h n. Connect True h n \<in> set pre))"
    if "Login u p \<in> set (smtp_calls cfg recipient body)"
  proof -
    have up: "sm_username cfg = Some u" "sm_password cfg = Some p" "u \<noteq> []" "p \<noteq> []"
      using that by (auto simp: smtp_calls_def split: option.splits if_splits)
    let ?pre = "[Connect (use_implicit_tls cfg) (sm_host cfg) (sm_port cfg)]
        @ (if sm_use_starttls cfg then [StartTls] else [])"
    have "smtp_calls cfg recipient body = ?pre @ [Login u p, SendMessage (sm_sender cfg) recipient body]"
      by (simp add: smtp_calls_def up)
    moreover have "Login u p \<notin> set ?pre" by simp
    moreover have "StartTls \<in> set ?pre \<or> (\<exists>h n. Connect True h n \<in> set ?pre)" using tls by auto
    ultimately show ?thesis by blast
  qed
  moreover have "Login u p \<in> set (smtp_calls cfg recipient body)" using assms(3) by simp
  ultimately obtain pre where pre: "pre @ [Login u p, SendMessage (sm_sender cfg) recipient body] = before @ Login u p # after"
      "Login u p \<notin> set pre" "StartTls \<in> set pre \<or> (\<exists>h n. Connect True h n \<in> set pre)"
    using assms(3) by metis
  have "before = pre"
    using pre(1,2) by (auto simp: append_eq_append_conv2 Cons_eq_append_conv append_eq_Cons_conv)
  with pre(3) show ?thesis by simp
qed

lemma complete_reset_succeeds:
  assumes "password_policy_errors new default_username = []" "find_token c token ''password_reset'' d = Some t"
    and "token_live now t" "credential_of (tk_account_id t) d = Some cr"
  shows "\<exists>d2. complete_reset c now token new ctx d = (Inr (), d2)"
  using assms by (simp add: complete_reset_def hash_password_def Let_def)

lemma invalidated_dead:
  assumes "t \<in> set (update_where (\<lambda>t. tk_account_id t = acc \<and> tk_purpose t = p \<and> tk_used_at t = None
      \<and> tk_invalidated_at t = None) (\<lambda>t. t\<lparr>tk_invalidated_at := Some now\<rparr>) ts)"
    and "tk_account_id t = acc" "tk_purpose t = p"
  shows "\<not> token_live later t"
proof
  assume l: "token_live later t"
  let ?P = "\<lambda>t. tk_account_id t = acc \<and> tk_purpose t = p \<and> tk_used_at t = None \<and> tk_invalidated_at t = None"
  from assms(1) obtain r where r: "t = (if ?P r then r\<lparr>tk_invalidated_at := Some now\<rparr> else r)"
    unfolding update_where_def set_map by (elim imageE)
  show False
  proof (cases "?P r")
    case True
    then have "tk_invalidated_at t = Some now" by (simp add: r)
    with l show ?thesis by (simp add: token_live_def)
  next
    case False
    then have "t = r" by (simp only: r if_False)
    with False l assms(2,3) show ?thesis by (simp add: token_live_def)
  qed
qed

text \<open>A mailed reset link works: when the mail was sent, the link holds a token with which the
  password can be changed within 30 minutes, and every other reset token of the account is dead.\<close>

theorem mailed_reset_link_works:
  assumes "process_password_reset me g k deliver c now token payload d = (Inr (), d')"
    and "jget payload ''account_id'' = Some (JStr (uuid_str acc))" "acc < 2 ^ 128"
    and "get_row acc (accounts d) = Some a" "credential_of acc d = Some cr"
    and "\<And>t. t \<in> set (security_tokens d) \<Longrightarrow> tk_digest t \<noteq> token_digest c token ''password_reset''"
    and "password_policy_errors new default_username = []" "later < now + minutes 30"
  shows "(\<exists>cfg email. deliver (smtp_calls cfg email (reset_link me token)) = Inr False)
    \<and> (\<exists>d2. complete_reset c later token new ctx d' = (Inr (), d2))
    \<and> (\<forall>t \<in> set (security_tokens d'). tk_account_id t = acc \<longrightarrow> tk_purpose t = ''password_reset'' \<longrightarrow>
         tk_digest t \<noteq> token_digest c token ''password_reset'' \<longrightarrow> \<not> token_live later t)"
proof -
  have u: "uuid_parse (uuid_str acc) = Some acc" using assms(3) by (rule uuid_parse_str)
  have i: "row_id a = acc" using assms(4) by auto
  let ?d1 = "snd (issue_reset_token c now acc token d)"
  from assms(1,2,4) u i obtain cfg email nd where
      send: "deliver_mail deliver cfg now email (reset_link me token) nd ?d1 = (Inr (), d')"
    by (auto simp: process_password_reset_def Let_def split: option.splits if_splits sum.splits)
  then have sent: "\<exists>cfg email. deliver (smtp_calls cfg email (reset_link me token)) = Inr False"
    by (auto simp: deliver_mail_def Let_def smtp_send_def split: sum.splits if_splits)
  let ?tok = "\<lparr>row_id = next_id d, tk_account_id = acc, tk_purpose = ''password_reset'',
      tk_digest = token_digest c token ''password_reset'', tk_target_digest = None, tk_created_at = now,
      tk_expires_at = now + minutes 30, tk_used_at = None, tk_invalidated_at = None, tk_attempt_count = 0\<rparr>"
  let ?P = "\<lambda>t. tk_account_id t = acc \<and> tk_purpose t = ''password_reset'' \<and> tk_used_at t = None \<and> tk_invalidated_at t = None"
  let ?old = "update_where ?P (\<lambda>t. t\<lparr>tk_invalidated_at := Some now\<rparr>) (security_tokens d)"
  have tok: "security_tokens d' = ?old @ [?tok]" and cr: "credentials d' = credentials d"
    using send by (auto simp: deliver_mail_def Let_def issue_reset_token_def add_token_def invalidate_tokens_def
        fresh_def split: sum.splits)
  have old: "tk_digest t \<noteq> token_digest c token ''password_reset''" if "t \<in> set ?old" for t
    using that assms(6) by (auto simp: update_where_def split: if_splits)
  have "query_one (\<lambda>t. tk_digest t = token_digest c token ''password_reset'' \<and> tk_purpose t = ''password_reset'') ?old = None"
    using old by (simp add: query_one_None)
  then have find: "find_token c token ''password_reset'' d' = Some ?tok"
    by (simp add: find_token_def tok query_one_snoc)
  have tl: "token_live later ?tok" using assms(8) by (simp add: token_live_def)
  have cred: "credential_of (tk_account_id ?tok) d' = Some cr" using assms(5) cr by (simp add: credential_of_def)
  note reset = complete_reset_succeeds [OF assms(7) find tl cred]
  have dead: "\<not> token_live later t" if "t \<in> set ?old \<or> t = ?tok" "tk_account_id t = acc"
      "tk_purpose t = ''password_reset''" "tk_digest t \<noteq> token_digest c token ''password_reset''" for t
    using that(1)
  proof
    assume "t = ?tok"
    then have "tk_digest t = token_digest c token ''password_reset''" by (rule ssubst) simp
    with that(4) show ?thesis by contradiction
  qed (rule invalidated_dead [OF _ that(2,3)])
  show ?thesis
  proof (intro conjI ballI impI)
    fix t
    assume "t \<in> set (security_tokens d')" "tk_account_id t = acc" "tk_purpose t = ''password_reset''"
      "tk_digest t \<noteq> token_digest c token ''password_reset''"
    moreover from this(1) have "t \<in> set ?old \<or> t = ?tok" by (simp only: tok set_append Un_iff list.set insert_iff empty_iff) blast
    ultimately show "\<not> token_live later t" by (intro dead)
  qed (rule sent reset)+
qed

text \<open>A mail that fails leaves no trace: the delivery is marked as failed just before the error is
  raised again, the error is not durable, and the transaction takes the mark back with everything else.\<close>

theorem failed_mail_unrecorded:
  assumes "begin_email_change c now acc email pw ctx token d = (Inr t, d1)"
    and "mailer me g k d1 = Inr (r, cfg)" "keyed (next_id d1) (deliveries d1)"
    and "smtp_send deliver cfg email (verification_link me t) = Inl e" "\<not> is_durable e"
  shows "run_tx (change_email me g k deliver c now acc email pw ctx token) d = (Inl e, d)
    \<and> (\<exists>d2 nd. change_email me g k deliver c now acc email pw ctx token d = (Inl e, d2)
         \<and> deliveries d2 = deliveries d1 @ [nd] \<and> nd_state nd = ''failed'')"
proof -
  let ?nd = "new_delivery c now ''email_verification'' email ''email_verification_v1'' [] d1"
  let ?f = "?nd\<lparr>nd_state := ''failed'', nd_failed_at := Some now, nd_error_code := Some ''smtp_delivery_failed''\<rparr>"
  let ?d2 = "(fresh d1)\<lparr>deliveries := save_row now ?f (deliveries d1 @ [?nd])\<rparr>"
  have x: "change_email me g k deliver c now acc email pw ctx token d = (Inl e, ?d2)"
    using assms(1,2,4) by (simp add: change_email_def send_email_verification_def deliver_mail_def Let_def fresh_def)
  have "row_id y \<noteq> next_id d1" if "y \<in> set (deliveries d1)" for y
    using that assms(3) by (auto simp: keyed_def)
  then have "deliveries ?d2 = deliveries d1 @ [?f\<lparr>updated_at := now\<rparr>]"
    by (simp add: save_row_def put_row_def new_delivery_def map_idI)
  moreover have "nd_state (?f\<lparr>updated_at := now\<rparr>) = ''failed''" by simp
  moreover have "run_tx (change_email me g k deliver c now acc email pw ctx token) d = (Inl e, d)"
    using x assms(5) by (simp add: run_tx_def)
  ultimately show ?thesis using x by blast
qed
section \<open>A small instance\<close>

definition demo_mail :: mail_env where
  "demo_mail = \<lparr>me_origin = asc ''https://k'', me_bracketed_host = (\<lambda>_. True)\<rparr>"

definition demo_smtp :: smtp_request where
  "demo_smtp = \<lparr>rq_display_name = asc ''mail'', rq_host = asc ''smtp.example.cz'', rq_port = 587,
     rq_username = Some (asc ''u''), rq_password = Some (asc ''pw''), rq_sender = asc ''a'', rq_use_starttls = True\<rparr>"

lemma demo_smtp_sel:
  "rq_password demo_smtp = Some (asc ''pw'')" "asc ''pw'' \<noteq> []" "list_all host_char (rq_host demo_smtp)"
  "rq_host demo_smtp \<noteq> []" "rq_sender demo_smtp \<noteq> []" "rq_port demo_smtp = 587" "rq_use_starttls demo_smtp"
  by (simp_all add: demo_smtp_def host_char_def)

lemma demo_password_after: "password_after g k demo_smtp d = Inr (Some (asc ''pw''))"
  using demo_smtp_sel(1,2) by (simp add: password_after_def del: asc_simps)

lemma demo_host: "py_lower (rq_host demo_smtp) = asc ''smtp.example.cz''"
  by code_simp

lemma demo_smtp_saved:
  assumes "d = empty_db"
  shows "\<exists>r d'. save_smtp demo_aead demo_cipher [1, 2, 3] plain_crypto 5 demo_smtp (system_context ''user'' None) d = (Inr r, d')"
proof -
  have "encodable (asc ''smtp_password'')" "encodable (asc ''pw'')" "encodable (nat_str (sc_key_version demo_cipher))"
    by (simp_all add: encodable_def surrogate_def demo_cipher_def nat_str.simps)
  moreover obtain r0 d1 where o: "open_smtp 5 demo_smtp d = (r0, d1)" by fastforce
  ultimately obtain v where v: "cipher_encrypt demo_aead demo_cipher [1, 2, 3] (asc ''pw'') (asc ''smtp_password'')
      (uuid_str (row_id r0)) = Inr v"
    using cipher_encrypt_total [OF _ encodable_uuid] by blast
  obtain r1 d2 where "store_password 5 (asc ''pw'') v r0 d1 = (r1, d2)" by fastforce
  with o v show ?thesis
    by (simp add: save_smtp_def demo_smtp_sel Let_def del: asc_simps)
qed

lemma demo_aead_laws:
  "sc_open demo_aead key nonce (sc_seal demo_aead key nonce p aad) aad = Some p"
  "list_all (\<lambda>b. b < 256) p \<Longrightarrow> list_all (\<lambda>b. b < 256) (sc_seal demo_aead key nonce p aad)"
  by (simp_all add: demo_aead_def)

lemma demo_nonce: "list_all (\<lambda>b. b < 256) [1, 2, 3 :: nat]"
  by simp

lemma keyed_empty: "keyed (next_id empty_db) (providers empty_db)" "keyed (next_id empty_db) (secrets empty_db)"
  by (simp_all add: empty_db_def)

theorem smtp_configuration_roundtrip_witness:
  "\<exists>r d' r' cfg. save_smtp demo_aead demo_cipher [1, 2, 3] plain_crypto 5 demo_smtp (system_context ''user'' None) empty_db
       = (Inr r, d')
     \<and> mailer demo_mail demo_aead demo_cipher d' = Inr (r', cfg)
     \<and> sm_host cfg = asc ''smtp.example.cz'' \<and> sm_port cfg = 587 \<and> sm_password cfg = Some (asc ''pw'')"
proof -
  obtain r d' where s: "save_smtp demo_aead demo_cipher [1, 2, 3] plain_crypto 5 demo_smtp (system_context ''user'' None)
      empty_db = (Inr r, d')"
    using demo_smtp_saved by blast
  obtain r' cfg where m: "mailer demo_mail demo_aead demo_cipher d' = Inr (r', cfg)"
    and c: "cfg = \<lparr>sm_host = py_lower (rq_host demo_smtp),
      sm_port = rq_port demo_smtp, sm_username = rq_username demo_smtp, sm_password = Some (asc ''pw''),
      sm_sender = rq_sender demo_smtp, sm_use_starttls = rq_use_starttls demo_smtp \<and> rq_port demo_smtp \<noteq> 465\<rparr>"
    using smtp_configuration_roundtrip [OF demo_aead_laws demo_nonce keyed_empty s demo_smtp_sel(3-5) demo_password_after]
    by blast
  have "sm_host cfg = asc ''smtp.example.cz''" "sm_port cfg = 587" "sm_password cfg = Some (asc ''pw'')"
    using demo_host demo_smtp_sel(6) by (simp_all add: c del: asc_simps)
  with s m show ?thesis by blast
qed

text \<open>The database after saving, with the configuration that is read back from it.\<close>

lemma demo_mailer:
  "\<exists>d' r' cfg. mailer demo_mail demo_aead demo_cipher d' = Inr (r', cfg)
     \<and> truthy (get_or (pv_capabilities r') ''use_starttls'' (JBool True))
     \<and> sm_username cfg = Some (asc ''u'') \<and> sm_password cfg = Some (asc ''pw'') \<and> sm_use_starttls cfg"
proof -
  obtain r d' where s: "save_smtp demo_aead demo_cipher [1, 2, 3] plain_crypto 5 demo_smtp (system_context ''user'' None)
      empty_db = (Inr r, d')"
    using demo_smtp_saved by blast
  obtain r' where "mailer demo_mail demo_aead demo_cipher d' = Inr (r', \<lparr>sm_host = py_lower (rq_host demo_smtp),
      sm_port = rq_port demo_smtp, sm_username = rq_username demo_smtp, sm_password = Some (asc ''pw''),
      sm_sender = rq_sender demo_smtp, sm_use_starttls = rq_use_starttls demo_smtp \<and> rq_port demo_smtp \<noteq> 465\<rparr>)
      \<and> pv_capabilities r' = smtp_capabilities demo_smtp"
    using save_smtp_mailer [OF demo_aead_laws demo_nonce keyed_empty s demo_smtp_sel(3-5) demo_password_after] by blast
  moreover have "truthy (get_or (smtp_capabilities demo_smtp) ''use_starttls'' (JBool True))"
    "rq_username demo_smtp = Some (asc ''u'')"
    by (simp_all add: smtp_capabilities_def demo_smtp_def get_or_def jget_def)
  ultimately show ?thesis
    using demo_smtp_sel(6,7) by (intro exI conjI) (erule conjunct1 | simp)+
qed

theorem smtp_login_encrypted_witness:
  "\<exists>cfg before after. smtp_calls cfg [] [] = before @ Login (asc ''u'') (asc ''pw'') # after
     \<and> (StartTls \<in> set before \<or> (\<exists>h n. Connect True h n \<in> set before))"
proof -
  obtain d' r' cfg where m: "mailer demo_mail demo_aead demo_cipher d' = Inr (r', cfg)"
      "truthy (get_or (pv_capabilities r') ''use_starttls'' (JBool True))"
    and cfg: "sm_username cfg = Some (asc ''u'')" "sm_password cfg = Some (asc ''pw'')" "sm_use_starttls cfg"
    using demo_mailer by blast
  have "asc ''u'' \<noteq> []" "asc ''pw'' \<noteq> []" by simp_all
  then have "smtp_calls cfg [] [] = [Connect (use_implicit_tls cfg) (sm_host cfg) (sm_port cfg), StartTls]
      @ Login (asc ''u'') (asc ''pw'') # [SendMessage (sm_sender cfg) [] []]"
    using cfg by (simp add: smtp_calls_def del: asc_simps)
  from this smtp_login_encrypted [OF m(1) disjI1 [OF m(2)] this] show ?thesis by blast
qed
text \<open>An account with a verified address and a password, and a mail server without a password.\<close>

definition demo_mail_row :: provider_row where
  "demo_mail_row = (new_provider 0 ''smtp'' [] (smtp_url (rq_host demo_smtp) (rq_port demo_smtp)) empty_db)
     \<lparr>pv_capabilities := smtp_capabilities demo_smtp\<rparr>"

definition demo_people :: db where
  "demo_people = empty_db\<lparr>next_id := 5, providers := [demo_mail_row],
     accounts := [\<lparr>row_id = 2, created_at = 0, updated_at = 0, version = 1, acc_username = asc ''Karmar78'',
       acc_state = AccActive, acc_failed_login_count = 0, acc_restricted_until = None, acc_last_login_at = None\<rparr>],
     profiles := [\<lparr>row_id = 3, created_at = 0, updated_at = 0, version = 1, pr_account_id = 2,
       pr_display_name = [], pr_email = Some (asc ''a''), pr_pending_email = None, pr_email_state = EmailVerified,
       pr_email_verified_at = Some 0, pr_locale = ''cs-CZ'', pr_timezone = ''Europe/Prague''\<rparr>],
     credentials := [\<lparr>row_id = 4, created_at = 0, updated_at = 0, version = 1, cr_account_id = 2,
       cr_password_hash = 36 # asc ''old'', cr_algorithm = ''argon2id'', cr_changed_at = 0\<rparr>]\<rparr>"

lemma demo_people_mailer:
  assumes "providers d = providers demo_people" "secrets d = secrets demo_people"
  shows "\<exists>r cfg. mailer demo_mail demo_aead demo_cipher d = Inr (r, cfg) \<and> sm_sender cfg = asc ''a''"
proof -
  have "smtp_row d = Some demo_mail_row"
    using assms(1) by (simp add: smtp_row_def demo_people_def query_one_def demo_mail_row_def new_provider_def)
  moreover have "pv_base_url demo_mail_row = smtp_url (rq_host demo_smtp) (rq_port demo_smtp)"
    "pv_capabilities demo_mail_row = smtp_capabilities demo_smtp" "pv_secret_id demo_mail_row = None"
    by (simp_all add: demo_mail_row_def new_provider_def)
  moreover from this(3) have "stored_password demo_aead demo_cipher demo_mail_row d = Inr None"
    by (simp add: stored_password_def)
  ultimately have "mailer demo_mail demo_aead demo_cipher d = Inr (demo_mail_row, \<lparr>sm_host = py_lower (rq_host demo_smtp),
     sm_port = rq_port demo_smtp, sm_username = rq_username demo_smtp, sm_password = None,
     sm_sender = rq_sender demo_smtp, sm_use_starttls = rq_use_starttls demo_smtp \<and> rq_port demo_smtp \<noteq> 465\<rparr>)"
    by (intro mailer_saved) (simp_all add: demo_smtp_sel(3-6))
  moreover have "rq_sender demo_smtp = asc ''a''" by (simp add: demo_smtp_def)
  ultimately show ?thesis by (intro exI conjI) (assumption | simp)+
qed

lemma demo_people_sel:
  "\<exists>a. get_row 2 (accounts demo_people) = Some a"
  "\<exists>cr. credential_of 2 demo_people = Some cr"
  "security_tokens demo_people = []" "deliveries demo_people = []"
  "\<exists>p. query_one (\<lambda>p. pr_account_id p = 2) (profiles demo_people) = Some p
     \<and> pr_email p = Some (asc ''a'') \<and> pr_email_state p = EmailVerified"
  by (simp_all add: demo_people_def credential_of_def query_one_def empty_db_def)

lemma demo_reset_sent:
  "\<exists>d'. process_password_reset demo_mail demo_aead demo_cipher (\<lambda>_. Inr False) plain_crypto 5 (asc ''t'')
      [(asc ''account_id'', JStr (uuid_str 2))] demo_people = (Inr (), d')"
proof -
  obtain a where a: "get_row 2 (accounts demo_people) = Some a" using demo_people_sel(1) by blast
  then have i: "row_id a = 2" by auto
  obtain p where p: "query_one (\<lambda>p. pr_account_id p = 2) (profiles demo_people) = Some p"
      "pr_email p = Some (asc ''a'')" "pr_email_state p = EmailVerified"
    using demo_people_sel(5) by blast
  obtain r cfg where m: "mailer demo_mail demo_aead demo_cipher demo_people = Inr (r, cfg)" "sm_sender cfg = asc ''a''"
    using demo_people_mailer [OF refl refl] by blast
  have "asc ''a'' \<noteq> []" "10 \<notin> set (asc ''a'')" "13 \<notin> set (asc ''a'')" by simp_all
  then show ?thesis
    using a i p m uuid_parse_str [of 2]
    by (simp add: process_password_reset_def jget_def deliver_mail_def smtp_send_def Let_def del: asc_simps)
qed

theorem mailed_reset_link_works_witness:
  "\<exists>d' d2. process_password_reset demo_mail demo_aead demo_cipher (\<lambda>_. Inr False) plain_crypto 5 (asc ''t'')
      [(asc ''account_id'', JStr (uuid_str 2))] demo_people = (Inr (), d')
    \<and> complete_reset plain_crypto 6 (asc ''t'') (asc ''new password'') (system_context ''user'' None) d' = (Inr (), d2)"
proof -
  obtain d' where s: "process_password_reset demo_mail demo_aead demo_cipher (\<lambda>_. Inr False) plain_crypto 5 (asc ''t'')
      [(asc ''account_id'', JStr (uuid_str 2))] demo_people = (Inr (), d')"
    using demo_reset_sent by blast
  obtain a where a: "get_row 2 (accounts demo_people) = Some a" using demo_people_sel(1) by blast
  obtain cr where cr: "credential_of 2 demo_people = Some cr" using demo_people_sel(2) by blast
  have j: "jget [(asc ''account_id'', JStr (uuid_str 2))] ''account_id'' = Some (JStr (uuid_str 2))" by (simp add: jget_def)
  have pol: "password_policy_errors (asc ''new password'') default_username = []"
    by (simp add: password_policy_errors_def default_username_def COMMON_COMPROMISED_def strip_def lstrip_def
        is_space_def fold_char_def)
  have u: "(2 :: uuid) < 2 ^ 128" by simp
  have t: "6 < 5 + minutes 30" by (simp add: minutes_def seconds_def)
  have n: "\<And>t. t \<in> set (security_tokens demo_people) \<Longrightarrow> tk_digest t \<noteq> token_digest plain_crypto (asc ''t'') ''password_reset''"
    by (simp add: demo_people_sel(3))
  show ?thesis using mailed_reset_link_works [OF s j u a cr n pol t] s by blast
qed

theorem failed_mail_unrecorded_witness:
  "run_tx (change_email demo_mail demo_aead demo_cipher (\<lambda>_. Inl OSError) plain_crypto 5 2 (asc ''b'') (asc ''old'')
      (system_context ''user'' None) (asc ''t'')) demo_people = (Inl OSError, demo_people)"
proof -
  let ?b = "begin_email_change plain_crypto 5 2 (asc ''b'') (asc ''old'') (system_context ''user'' None) (asc ''t'') demo_people"
  have b: "fst ?b = Inr (asc ''t'')" "providers (snd ?b) = providers demo_people" "secrets (snd ?b) = secrets demo_people"
      "deliveries (snd ?b) = []"
    by (simp_all add: begin_email_change_def verify_current_password_def credential_of_def demo_people_def empty_db_def
        query_one_def verify_password_def plain_crypto_def profile_of_def Let_def audit_append_def add_token_def
        invalidate_tokens_def fresh_def strip_def lstrip_def is_space_def fold_char_def)
  obtain r cfg where m: "mailer demo_mail demo_aead demo_cipher (snd ?b) = Inr (r, cfg)" "sm_sender cfg = asc ''a''"
    using demo_people_mailer [OF b(2,3)] by blast
  have p: "?b = (Inr (asc ''t''), snd ?b)" using b(1) by (metis prod.collapse)
  have k: "keyed (next_id (snd ?b)) (deliveries (snd ?b))" by (simp only: b(4) keyed_Nil)
  have s: "smtp_send (\<lambda>_. Inl OSError) cfg (asc ''b'') (verification_link demo_mail (asc ''t'')) = Inl OSError"
    using m(2) by (simp add: smtp_send_def)
  show ?thesis using failed_mail_unrecorded [OF p m(1) k s] by simp
qed
text \<open>Saving adds a secret and leaves the earlier ones as they are: the password that was replaced is
  not revoked, unlike a replaced provider key.\<close>

lemma replaced_smtp_password_kept:
  "save_smtp g k nonce c now rq ctx d = (Inr r, d') \<Longrightarrow> \<exists>ss. secrets d' = secrets d @ ss"
  by (auto simp: save_smtp_def open_smtp_def store_password_def Let_def audit_append_def fresh_def
      split: if_splits sum.splits prod.splits option.splits)

end
