(* ===== verification/WorkerTheorems.thy ===== *)
theory WorkerTheorems
  imports Worker ExportTheorems NotificationTheorems
begin

text \<open>
  What holds for the background worker: every outbox event becomes its jobs once, whatever a handler
  does the round settles the jobs it took, a failed handler changes nothing else, an index entry
  mirrors its owner, and a purge removes exactly what is due, with everything that belongs to it.
\<close>

section \<open>The outbox\<close>

definition unpublished :: "db \<Rightarrow> outbox_event list" where
  "unpublished d = sort_key (\<lambda>e. (ob_created_at e, row_id e)) (filter (\<lambda>e. ob_published_at e = None) (outbox d))"

text \<open>The jobs of a list of events, each with the payload of its event.\<close>

definition jobs_of :: "outbox_event list \<Rightarrow> (string \<times> jdict) list" where
  "jobs_of es = concat (map (\<lambda>e. map (\<lambda>k. (k, ob_payload e)) (event_jobs (ob_event_type e))) es)"

definition job_request :: "job_row \<Rightarrow> string \<times> jdict" where
  "job_request j = (jb_kind j, jb_payload j)"

lemma jobs_of_simps [simp]:
  "jobs_of [] = []"
  "jobs_of (e # es) = map (\<lambda>k. (k, ob_payload e)) (event_jobs (ob_event_type e)) @ jobs_of es"
  "jobs_of (es @ es') = jobs_of es @ jobs_of es'"
  by (simp_all add: jobs_of_def)

lemma pending_unpublished: "pending_events d = take 50 (unpublished d)"
  by (simp add: pending_events_def unpublished_def)

text \<open>\<open>appended now d d' rs\<close>: the jobs \<open>rs\<close> were added at the end, due at once; the others are as before.\<close>

definition appended :: "instant \<Rightarrow> db \<Rightarrow> db \<Rightarrow> (string \<times> jdict) list \<Rightarrow> bool" where
  "appended now d d' rs \<longleftrightarrow>
     (\<exists>js. jobs d' = jobs d @ js \<and> map job_request js = rs
       \<and> list_all (\<lambda>j. jb_state j = JobQueued \<and> jb_available_at j = now \<and> jb_attempts j = 0) js)"

lemma appended_refl [simp]: "appended now d d []"
  by (simp add: appended_def)

lemma appended_trans: "appended now a b rs \<Longrightarrow> appended now b d rs' \<Longrightarrow> appended now a d (rs @ rs')"
  unfolding appended_def
proof (elim exE conjE, goal_cases)
  case (1 js js')
  then show ?case by (intro exI [of _ "js @ js'"]) simp
qed

lemma enqueue_kinds_effect:
  "appended now d (enqueue_kinds now p ks d) (map (\<lambda>k. (k, p)) ks)
   \<and> outbox (enqueue_kinds now p ks d) = outbox d"
proof (induction ks arbitrary: d)
  case (Cons k ks)
  let ?d = "snd (enqueue now k p 100 0 None None d)"
  have "appended now d ?d [(k, p)]" "outbox ?d = outbox d"
    by (simp_all add: appended_def enqueue_def job_request_def fresh_def Let_def seconds_def)
  with Cons [of ?d] appended_trans [of now d ?d "[(k, p)]"] show ?case by simp
qed simp

lemma publish_id: "row_id (publish now e) = row_id e"
  by (simp add: publish_def)

lemma published_rows:
  "keyed n t \<Longrightarrow> set es \<subseteq> set t \<Longrightarrow> distinct es \<Longrightarrow>
   foldl (\<lambda>t e. put_row (publish now e) t) t es = map (\<lambda>e. if e \<in> set es then publish now e else e) t"
proof (induction es rule: rev_induct)
  case (snoc e es)
  let ?f = "\<lambda>es x. if x \<in> set es then publish now x else x"
  have f: "row_id (?f es x) = row_id x" for x by (simp add: publish_id)
  have same: "x = e" if "x \<in> set t" "row_id x = row_id e" for x
    using keyed_unique [OF snoc.prems(1) that(1) _ that(2)] snoc.prems(2) by simp
  have step: "(if row_id (?f es x) = row_id (publish now e) then publish now e else ?f es x) = ?f (es @ [e]) x"
    if "x \<in> set t" for x
  proof (cases "x = e")
    case True
    then show ?thesis by (simp add: publish_id)
  next
    case False
    then have "row_id x \<noteq> row_id e" using same [OF that] by blast
    with False show ?thesis unfolding f publish_id by simp
  qed
  have "foldl (\<lambda>t e. put_row (publish now e) t) t es = map (?f es) t"
    using snoc by simp
  then have "foldl (\<lambda>t e. put_row (publish now e) t) t (es @ [e])
      = map (\<lambda>x. if row_id (?f es x) = row_id (publish now e) then publish now e else ?f es x) t"
    by (simp only: foldl_append foldl.simps put_row_def list.map_comp comp_def)
  also have "\<dots> = map (?f (es @ [e])) t"
    by (rule map_cong [OF refl step])
  finally show ?case .
qed simp

lemma enqueue_kinds_appends:
  "appended now d ((enqueue_kinds now p ks d)\<lparr>outbox := t\<rparr>) (map (\<lambda>k. (k, p)) ks)"
  using enqueue_kinds_effect [of now d p ks] by (simp add: appended_def)

lemma dispatch_events_effect:
  "appended now d (dispatch_events now es d) (jobs_of es)
   \<and> outbox (dispatch_events now es d) = foldl (\<lambda>t e. put_row (publish now e) t) (outbox d) es"
proof (induction es arbitrary: d)
  case (Cons e es)
  let ?d1 = "enqueue_kinds now (ob_payload e) (event_jobs (ob_event_type e)) d"
  define d2 where "d2 = ?d1\<lparr>outbox := put_row (publish now e) (outbox ?d1)\<rparr>"
  have "outbox ?d1 = outbox d" by (rule conjunct2 [OF enqueue_kinds_effect])
  then have o2: "outbox d2 = put_row (publish now e) (outbox d)" by (simp add: d2_def)
  have step: "dispatch_events now (e # es) d = dispatch_events now es d2"
    unfolding d2_def by (simp only: dispatch_events.simps Let_def)
  have "appended now d (dispatch_events now es d2) (jobs_of (e # es))"
    unfolding jobs_of_simps(2)
    by (rule appended_trans [OF _ conjunct1 [OF Cons.IH]]) (simp only: d2_def enqueue_kinds_appends)
  moreover have "outbox (dispatch_events now es d2)
      = foldl (\<lambda>t e. put_row (publish now e) t) (outbox d) (e # es)"
    unfolding conjunct2 [OF Cons.IH] o2 by simp
  ultimately show ?case unfolding step ..
qed simp

lemma pending_subset: "set (pending_events d) \<subseteq> set (outbox d)"
  by (auto simp: pending_events_def dest: in_set_takeD)

lemma keyed_ids: "keyed n t \<longleftrightarrow> distinct (map row_id t) \<and> (\<forall>i \<in> set (map row_id t). i < n)"
  by (simp add: keyed_def)

lemma keyed_cong: "map row_id t' = map row_id t \<Longrightarrow> keyed n t \<Longrightarrow> keyed n t'"
  by (metis keyed_ids)

lemma keyed_distinct: "keyed n t \<Longrightarrow> distinct t"
  by (auto simp: keyed_def distinct_map)

lemma distinct_unpublished: "keyed n (outbox d) \<Longrightarrow> distinct (unpublished d)"
  by (simp add: unpublished_def keyed_distinct)

lemma dispatch_outbox_effect:
  assumes "keyed n (outbox d)" "dispatch_outbox now d = (k, d')"
  shows "k = length (pending_events d)"
    and "outbox d' = map (\<lambda>e. if e \<in> set (pending_events d) then publish now e else e) (outbox d)"
    and "appended now d d' (jobs_of (pending_events d))"
proof -
  have "distinct (pending_events d)"
    using distinct_unpublished [OF assms(1)] by (simp add: pending_unpublished distinct_take)
  note rows = published_rows [OF assms(1) pending_subset [of d] this]
  have d': "k = length (pending_events d)" "d' = dispatch_events now (pending_events d) d"
    using assms(2) by (simp_all add: dispatch_outbox_def Let_def)
  show "k = length (pending_events d)" by (rule d'(1))
  show "outbox d' = map (\<lambda>e. if e \<in> set (pending_events d) then publish now e else e) (outbox d)"
    unfolding d'(2) conjunct2 [OF dispatch_events_effect] by (rule rows)
  show "appended now d d' (jobs_of (pending_events d))"
    unfolding d'(2) by (rule conjunct1 [OF dispatch_events_effect])
qed

text \<open>After a dispatch the events that wait are the ones that were not taken, in the same order.\<close>

lemma drop_as_filter:
  assumes "distinct xs"
  shows "filter (\<lambda>x. x \<notin> set (take n xs)) xs = drop n xs"
proof -
  have "filter (\<lambda>x. x \<notin> set (take n xs)) (take n xs) = []" by (simp add: filter_empty_conv)
  moreover have "filter (\<lambda>x. x \<notin> set (take n xs)) (drop n xs) = drop n xs"
  proof (rule filter_True, rule ballI)
    fix x assume "x \<in> set (drop n xs)"
    then show "x \<notin> set (take n xs)" using set_take_disj_set_drop_if_distinct [OF assms, of n n] by auto
  qed
  ultimately show ?thesis by (metis append_take_drop_id filter_append self_append_conv2)
qed

lemma unpublished_after:
  assumes "keyed n (outbox d)" "dispatch_outbox now d = (k, d')"
  shows "unpublished d' = drop 50 (unpublished d)"
proof -
  let ?es = "pending_events d"
  have "filter (\<lambda>e. ob_published_at e = None) (map (\<lambda>e. if e \<in> set ?es then publish now e else e) t)
      = filter (\<lambda>e. e \<notin> set ?es) (filter (\<lambda>e. ob_published_at e = None) t)" for t
    by (induction t) (simp_all add: publish_def)
  then have "unpublished d' = filter (\<lambda>e. e \<notin> set ?es) (unpublished d)"
    by (simp add: unpublished_def dispatch_outbox_effect(2) [OF assms] filter_sort)
  then show ?thesis
    using drop_as_filter [OF distinct_unpublished [OF assms(1)], of 50] by (simp add: pending_unpublished)
qed

text \<open>
  One dispatch takes the fifty oldest waiting events: each is published once, with one attempt more,
  and the jobs of exactly these events, in their order and with their payloads, join the queue, due at
  once. No other event changes and no job is lost; an event of an unknown type is parked with its code.
\<close>

theorem outbox_dispatched:
  assumes "keyed n (outbox d)" "dispatch_outbox now d = (k, d')"
  shows "k = length (pending_events d) \<and> k \<le> 50
    \<and> outbox d' = map (\<lambda>e. if e \<in> set (pending_events d) then publish now e else e) (outbox d)
    \<and> appended now d d' (jobs_of (pending_events d))"
  using dispatch_outbox_effect [OF assms] by (simp add: pending_unpublished)

text \<open>
  C24. The outbox drains: after as many rounds as it takes at fifty events a round, no event waits, and
  the queue has grown by the jobs of the events that waited, each once, oldest event first.
\<close>

theorem outbox_drains:
  assumes "keyed n (outbox d)" "length (unpublished d) \<le> 50 * length ts"
  shows "pending_events (foldl (\<lambda>d t. snd (dispatch_outbox t d)) d ts) = []
    \<and> (\<exists>js. jobs (foldl (\<lambda>d t. snd (dispatch_outbox t d)) d ts) = jobs d @ js
         \<and> map job_request js = jobs_of (unpublished d))"
  using assms
proof (induction ts arbitrary: d)
  case Nil
  then show ?case by (simp add: pending_unpublished)
next
  case (Cons t ts)
  obtain k d1 where d1: "dispatch_outbox t d = (k, d1)" by fastforce
  have u: "unpublished d1 = drop 50 (unpublished d)" using unpublished_after [OF Cons.prems(1) d1] .
  have i: "row_id (publish t e) = row_id e" for e by (simp add: publish_def)
  have "map row_id (outbox d1) = map row_id (outbox d)"
    unfolding dispatch_outbox_effect(2) [OF Cons.prems(1) d1] by (simp add: i)
  then have "keyed n (outbox d1)" using Cons.prems(1) keyed_cong by blast
  moreover have "length (unpublished d1) \<le> 50 * length ts" using Cons.prems(2) by (simp add: u)
  ultimately obtain js' where *: "pending_events (foldl (\<lambda>d t. snd (dispatch_outbox t d)) d1 ts) = []"
      "jobs (foldl (\<lambda>d t. snd (dispatch_outbox t d)) d1 ts) = jobs d1 @ js'"
      "map job_request js' = jobs_of (unpublished d1)"
    using Cons.IH by blast
  obtain js where "jobs d1 = jobs d @ js" "map job_request js = jobs_of (take 50 (unpublished d))"
    using dispatch_outbox_effect(3) [OF Cons.prems(1) d1] by (auto simp: appended_def pending_unpublished)
  moreover have "jobs_of (unpublished d) = jobs_of (take 50 (unpublished d)) @ jobs_of (unpublished d1)"
    by (simp only: u jobs_of_simps(3) [symmetric] append_take_drop_id)
  ultimately show ?case
    using * by (simp add: d1)
qed

section \<open>What a handler may do to the queue\<close>

text \<open>Jobs are added at the end, queued; no job of the queue is changed.\<close>

definition jobs_grow :: "db \<Rightarrow> db \<Rightarrow> bool" where
  "jobs_grow a d \<longleftrightarrow>
     (\<exists>js. jobs d = jobs a @ js \<and> list_all (\<lambda>j. jb_state j = JobQueued \<and> job_wf j) js)
   \<and> next_id a \<le> next_id d \<and> (keyed (next_id a) (jobs a) \<longrightarrow> keyed (next_id d) (jobs d))"

lemma jobs_grow_refl [simp]: "jobs_grow d d"
  by (simp add: jobs_grow_def)

lemma jobs_grow_trans: "jobs_grow a b \<Longrightarrow> jobs_grow b d \<Longrightarrow> jobs_grow a d"
  unfolding jobs_grow_def
proof (elim exE conjE, goal_cases)
  case (1 js js')
  then show ?case by (intro conjI exI [of _ "js @ js'"] impI) simp_all
qed

lemma jobs_grow_same: "jobs d = jobs a \<Longrightarrow> next_id a \<le> next_id d \<Longrightarrow> jobs_grow a d"
  by (auto simp: jobs_grow_def intro: keyed_mono)

lemma enqueue_grows: "jobs_grow d (snd (enqueue now k p pr dl corr None d))"
  by (auto simp: jobs_grow_def enqueue_def Let_def fresh_def job_wf_def intro: keyed_append_new)

text \<open>What leaves the queue and only takes new identifiers.\<close>

definition no_jobs :: "db \<Rightarrow> db \<Rightarrow> bool" where
  "no_jobs a d \<longleftrightarrow> jobs d = jobs a \<and> next_id a \<le> next_id d"

lemma no_jobs_refl [simp]: "no_jobs d d"
  by (simp add: no_jobs_def)

lemma no_jobs_trans: "no_jobs a b \<Longrightarrow> no_jobs b d \<Longrightarrow> no_jobs a d"
  by (simp add: no_jobs_def)

lemma no_jobs_grow: "no_jobs a d \<Longrightarrow> jobs_grow a d"
  by (simp add: no_jobs_def jobs_grow_same)

lemma no_jobs_updates [simp]:
  "no_jobs a (d\<lparr>search_documents := x\<rparr>) = no_jobs a d"
  "no_jobs a (d\<lparr>search_embeddings := x2\<rparr>) = no_jobs a d"
  "no_jobs a (d\<lparr>conversations := x3\<rparr>) = no_jobs a d"
  "no_jobs a (d\<lparr>summaries := x4\<rparr>) = no_jobs a d"
  "no_jobs a (d\<lparr>exports := x5\<rparr>) = no_jobs a d"
  "no_jobs a (d\<lparr>deliveries := x6\<rparr>) = no_jobs a d"
  "no_jobs a (delete_documents P d) = no_jobs a d"
  "no_jobs a (delete_memories P2 d) = no_jobs a d"
  "no_jobs a (delete_conversations P3 d) = no_jobs a d"
  by (simp_all add: no_jobs_def delete_documents_def delete_memories_def delete_conversations_def Let_def)

lemma no_jobs_fresh: "no_jobs a d \<Longrightarrow> no_jobs a (fresh d)"
  by (simp add: no_jobs_def fresh_def)

lemma embed_no_jobs: "no_jobs d (snd (embed_document w now s t d))"
  by (auto simp: embed_document_def store_embedding_def no_jobs_fresh Let_def
      split: option.split sum.split list.split)

lemma add_document_no_jobs: "no_jobs d (snd (add_document now ty owner acc t v d))"
  by (simp add: add_document_def Let_def no_jobs_fresh)

lemma refresh_document_no_jobs: "no_jobs d (snd (refresh_document now t v s d))"
  by (simp add: refresh_document_def Let_def)

lemma embed_after: "no_jobs d x \<Longrightarrow> no_jobs d (snd (embed_document w now s t x))"
  by (rule no_jobs_trans [OF _ embed_no_jobs])

lemma document_no_jobs:
  "add_document now ty owner acc t v d = (s, x) \<Longrightarrow> no_jobs d x"
  "refresh_document now t v s0 d = (s, x) \<Longrightarrow> no_jobs d x"
  using add_document_no_jobs [of d now ty owner acc t v] refresh_document_no_jobs [of d now t v s0] by simp_all

lemma memory_index_no_jobs: "no_jobs d (snd (memory_index w now p d))"
  by (auto simp: memory_index_def Let_def split: sum.split option.split prod.split
      intro: embed_after dest: document_no_jobs)

lemma conversation_index_no_jobs: "no_jobs d (snd (conversation_index w now p d))"
  by (auto simp: conversation_index_def Let_def split: sum.split option.split prod.split
      intro: embed_after dest: document_no_jobs)

lemma reindex_no_jobs: "no_jobs d (snd (reindex_documents w now ss d))"
proof (induction ss arbitrary: d)
  case (Cons s ss)
  have m: "memory_index w now p d = (r, x) \<Longrightarrow> no_jobs d x" for p r x
    using memory_index_no_jobs by (metis snd_conv)
  have c: "conversation_index w now p d = (r, x) \<Longrightarrow> no_jobs d x" for p r x
    using conversation_index_no_jobs by (metis snd_conv)
  show ?case
    by (auto simp: Let_def split: prod.split sum.split dest: m c intro: Cons no_jobs_trans [OF _ Cons])
qed simp

lemma finalize_no_jobs: "no_jobs d (snd (conversation_finalize w now p d))"
  by (auto simp: conversation_finalize_def Let_def no_jobs_fresh split: sum.split option.split)

lemma reset_mail_no_jobs: "no_jobs d (snd (process_password_reset me g k dl c now token p d))"
proof -
  have i: "no_jobs d (snd (issue_reset_token c now acc token d))" for acc
    by (simp add: issue_reset_token_def add_token_def invalidate_tokens_def no_jobs_def fresh_def)
  have "no_jobs d (snd (deliver_mail dl cfg now r b nd x))" if "no_jobs d x" for cfg r b nd x
    using that by (auto simp: deliver_mail_def Let_def no_jobs_fresh split: sum.split)
  with i show ?thesis
    by (auto simp: process_password_reset_def Let_def split: option.split sum.split prod.split)
qed

lemma export_generate_no_jobs: "no_jobs d (fst (snd (export_generate env xe dg now i d fs)))"
  by (auto simp: export_generate_def Let_def split: option.split sum.split prod.split)

lemma purge_no_jobs: "no_jobs d (fst (purge_expired xe now d fs))"
  by (simp add: purge_expired_def export_purge_def Let_def)

lemma reprocess_grows: "jobs_grow d (snd (corrected_turn_reprocess w now corr p d))"
proof -
  have a: "jobs_grow d x" if "answer env c now acc cid mid ctx d = (r, x)" for env c acc cid mid ctx r x
  proof -
    have "answer_effect c now d x" using that answer_effect by (metis snd_conv)
    then have "jobs (untouched x) = jobs (untouched d)" "next_id d \<le> next_id x"
      unfolding answer_effect_def by simp_all
    then show ?thesis by (intro jobs_grow_same) (simp_all add: untouched_def)
  qed
  show ?thesis
    by (auto simp: corrected_turn_reprocess_def Let_def split: sum.split option.split prod.split
        dest: a intro: jobs_grow_trans [OF a enqueue_grows])
qed

lemma handle_grows: "jobs_grow d (fst (snd (handle w now j d fs)))"
proof -
  have "no_jobs d (fst (purge_expired (wk_exports w) now d fs))" by (rule purge_no_jobs)
  then show ?thesis
    by (auto simp: handle_def on_db_def Let_def search_reindex_all_def split: sum.split prod.split
        intro: no_jobs_grow memory_index_no_jobs finalize_no_jobs conversation_index_no_jobs reprocess_grows
          reset_mail_no_jobs export_generate_no_jobs reindex_no_jobs)
qed
section \<open>What becomes of a claimed job\<close>

definition job_outcome :: "instant \<Rightarrow> job_row \<Rightarrow> job_row \<Rightarrow> bool" where
  "job_outcome now j j' \<longleftrightarrow>
     row_id j' = row_id j \<and> jb_kind j' = jb_kind j \<and> jb_payload j' = jb_payload j
   \<and> jb_attempts j' = jb_attempts j \<and> jb_locked_by j' = None
   \<and> (jb_state j' = JobCompleted \<and> jb_completed_at j' = Some now
      \<or> jb_state j' = JobFailed \<and> jb_max_attempts j \<le> jb_attempts j
      \<or> jb_state j' = JobQueued \<and> now < jb_available_at j')"

lemma outcome_touch: "job_outcome now j x \<Longrightarrow> job_outcome now j (x\<lparr>updated_at := t\<rparr>)"
  unfolding job_outcome_def by simp

lemma complete_outcome: "job_outcome now j (Jobs.complete now j)"
  by (simp add: job_outcome_def Jobs.complete_def)

lemma fail_outcome: "job_outcome now j (fail now code j)"
proof -
  have "0 < seconds (retry_delay n)" for n by (simp add: seconds_def retry_delay_def min_def)
  then show ?thesis by (simp add: job_outcome_def fail_def Let_def)
qed

text \<open>One job: the handler may add to the queue, then the row of the job is saved with its outcome.\<close>

lemma process_job_effect:
  assumes "process_job w now j d fs = (d', fs')" "job_wf j"
  shows "\<exists>d1 j'. jobs_grow d d1 \<and> jobs d' = save_row now j' (jobs d1) \<and> next_id d' = next_id d1
    \<and> job_outcome now j j' \<and> job_wf j'"
proof -
  let ?r = "in_savepoint (handle w now j) d fs"
  have g: "jobs_grow d (fst (snd ?r))"
    using handle_grows [of d w now j fs] by (auto simp: in_savepoint_def split: prod.split sum.split)
  have s: "\<exists>d1 j'. jobs_grow d d1 \<and> jobs (x\<lparr>jobs := save_row now y (jobs x)\<rparr>) = save_row now j' (jobs d1)
      \<and> next_id (x\<lparr>jobs := save_row now y (jobs x)\<rparr>) = next_id d1 \<and> job_outcome now j j' \<and> job_wf j'"
    if "jobs_grow d x" "job_outcome now j y" "job_wf y" for x y
    using that by (intro exI [of _ x] exI [of _ y]) simp
  have "\<exists>x y. jobs_grow d x \<and> d' = x\<lparr>jobs := save_row now y (jobs x)\<rparr>
      \<and> (y = Jobs.complete now j \<or> (\<exists>code. y = fail now code j))"
  proof (cases "jb_kind j \<in> set HANDLERS")
    case False
    with assms(1) show ?thesis by (intro exI [of _ d]) (auto simp: process_job_def Let_def)
  next
    case True
    obtain r x fs1 where r: "?r = (r, x, fs1)" by (metis prod_cases3)
    have "jobs_grow d x" using g r by simp
    with True r assms(1) show ?thesis
      by (intro exI [of _ x]) (auto simp: process_job_def Let_def split: sum.splits)
  qed
  then show ?thesis
    using s complete_outcome fail_outcome complete_wf [OF assms(2)] fail_wf [OF assms(2)] by blast
qed

lemma process_job_rows:
  assumes "process_job w now j d fs = (d', fs')" "jobs_ok d" "get_row (row_id j) (jobs d) = Some j"
    and "jb_state j = JobRunning"
  shows "jobs_ok d'"
    and "\<exists>j'. get_row (row_id j) (jobs d') = Some j' \<and> job_outcome now j j'"
    and "i \<noteq> row_id j \<Longrightarrow> get_row i (jobs d) = Some x \<Longrightarrow> get_row i (jobs d') = Some x"
    and "get_row i (jobs d) = None \<Longrightarrow> get_row i (jobs d') = Some x \<Longrightarrow> jb_state x = JobQueued"
proof -
  have k: "keyed (next_id d) (jobs d)" and wf: "job_wf j"
    using assms(2) get_row_Some [OF assms(3)] by (auto simp: jobs_ok_def)
  from process_job_effect [OF assms(1) wf] obtain d1 j' where
    g: "jobs_grow d d1" and js: "jobs d' = save_row now j' (jobs d1)" and n: "next_id d' = next_id d1"
    and o': "job_outcome now j j'" and wf': "job_wf j'" by blast
  have id: "row_id j' = row_id j" using o' by (simp add: job_outcome_def)
  obtain new where new: "jobs d1 = jobs d @ new" "list_all (\<lambda>j. jb_state j = JobQueued \<and> job_wf j) new"
    and k1: "keyed (next_id d1) (jobs d1)"
    using g k by (auto simp: jobs_grow_def)
  have row: "get_row i (jobs d') = (case get_row i (jobs d1) of None \<Rightarrow> None
      | Some x \<Rightarrow> Some (if i = row_id j then j'\<lparr>updated_at := now\<rparr> else x))" for i
    unfolding js get_row_save_row id by (auto split: option.split)
  have old: "get_row i (jobs d1) = (case get_row i (jobs d) of Some x \<Rightarrow> Some x | None \<Rightarrow> get_row i new)" for i
    unfolding new(1) get_row_append by (auto split: option.split)
  show "\<exists>j'. get_row (row_id j) (jobs d') = Some j' \<and> job_outcome now j j'"
    unfolding row old assms(3) using outcome_touch [OF o'] by simp
  show "get_row i (jobs d') = Some x" if "i \<noteq> row_id j" "get_row i (jobs d) = Some x"
    unfolding row old that(2) using that(1) by simp
  show "jb_state x = JobQueued" if "get_row i (jobs d) = None" "get_row i (jobs d') = Some x"
  proof -
    have "i \<noteq> row_id j" using that(1) assms(3) by auto
    then have "get_row i new = Some x" using that unfolding row old by (simp split: option.splits)
    then show ?thesis using new(2) get_row_Some by (auto simp: list_all_iff)
  qed
  have "job_wf x" if "x \<in> set (jobs d')" for x
  proof -
    have "x = j'\<lparr>updated_at := now\<rparr> \<or> x \<in> set (jobs d1)"
      using that unfolding js save_row_def put_row_def by auto
    then show ?thesis
      using wf' assms(2) new by (auto simp: jobs_ok_def list_all_iff job_wf_def)
  qed
  moreover have "keyed (next_id d') (jobs d')" using k1 unfolding js n by simp
  ultimately show "jobs_ok d'" by (simp add: jobs_ok_def)
qed

lemma process_jobs_rows:
  assumes "process_jobs w now js d fs = (d', fs')" "jobs_ok d" "distinct (map row_id js)"
    and "\<And>j. j \<in> set js \<Longrightarrow> get_row (row_id j) (jobs d) = Some j \<and> jb_state j = JobRunning"
  shows "jobs_ok d'
    \<and> (\<forall>j \<in> set js. \<exists>j'. get_row (row_id j) (jobs d') = Some j' \<and> job_outcome now j j')
    \<and> (\<forall>i x. i \<notin> row_id ` set js \<longrightarrow> get_row i (jobs d) = Some x \<longrightarrow> get_row i (jobs d') = Some x)
    \<and> (\<forall>i x. get_row i (jobs d) = None \<longrightarrow> get_row i (jobs d') = Some x \<longrightarrow> jb_state x = JobQueued)"
  using assms
proof (induction js arbitrary: d fs)
  case (Cons j js)
  obtain d1 fs1 where p: "process_job w now j d fs = (d1, fs1)" by fastforce
  have rest: "process_jobs w now js d1 fs1 = (d', fs')" using Cons.prems(1) p by simp
  have j: "get_row (row_id j) (jobs d) = Some j" "jb_state j = JobRunning" using Cons.prems(4) [of j] by simp_all
  note one = process_job_rows [OF p Cons.prems(2) j]
  have ids: "row_id x \<noteq> row_id j" if "x \<in> set js" for x
    using Cons.prems(3) that by (metis distinct.simps(2) image_eqI list.map(2) list.set_map)
  have claimed: "get_row (row_id x) (jobs d1) = Some x \<and> jb_state x = JobRunning" if "x \<in> set js" for x
    using one(3) [OF ids [OF that]] Cons.prems(4) [of x] that by simp
  note IH = Cons.IH [OF rest one(1) _ claimed]
  have dj: "distinct (map row_id js)" "row_id j \<notin> row_id ` set js" using Cons.prems(3) by auto
  from IH [OF dj(1)] have ok: "jobs_ok d'"
    and out: "\<And>x. x \<in> set js \<Longrightarrow> \<exists>j'. get_row (row_id x) (jobs d') = Some j' \<and> job_outcome now x j'"
    and keep: "\<And>i x. i \<notin> row_id ` set js \<Longrightarrow> get_row i (jobs d1) = Some x \<Longrightarrow> get_row i (jobs d') = Some x"
    and new: "\<And>i x. get_row i (jobs d1) = None \<Longrightarrow> get_row i (jobs d') = Some x \<Longrightarrow> jb_state x = JobQueued"
    by blast+
  have mine: "\<exists>j'. get_row (row_id j) (jobs d') = Some j' \<and> job_outcome now j j'"
    using one(2) keep [OF dj(2)] by blast
  have fresh: "jb_state x = JobQueued" if "get_row i (jobs d) = None" "get_row i (jobs d') = Some x" for i x
  proof (cases "get_row i (jobs d1)")
    case None
    then show ?thesis using new that(2) by blast
  next
    case (Some y)
    have "i \<notin> row_id ` set js" using Cons.prems(4) that(1) by fastforce
    with Some keep that(2) have "x = y" by fastforce
    then show ?thesis using one(4) [OF that(1) Some] by simp
  qed
  show ?case using ok out mine keep one(3) fresh by auto
qed simp
section \<open>A round\<close>

lemma beat_no_jobs: "no_jobs d (beat w now d)"
  by (auto simp: beat_def no_jobs_def fresh_def split: option.split)

lemma enqueue_kinds_grows: "jobs_grow d (enqueue_kinds now p ks d)"
  by (induction ks arbitrary: d) (auto intro: jobs_grow_trans [OF enqueue_grows])

lemma dispatch_events_grows: "jobs_grow d (dispatch_events now es d)"
proof (induction es arbitrary: d)
  case (Cons e es)
  let ?d1 = "enqueue_kinds now (ob_payload e) (event_jobs (ob_event_type e)) d"
  have "jobs_grow d (?d1\<lparr>outbox := put_row (publish now e) (outbox ?d1)\<rparr>)"
    using enqueue_kinds_grows [of d now] by (simp add: jobs_grow_def)
  from jobs_grow_trans [OF this Cons] show ?case by (simp add: Let_def)
qed simp

lemma before_claim_grows:
  assumes "(x, d2) = (if b then (now, snd (enqueue now k [] 100 0 None None (beat w now d))) else (since, beat w now d))"
    and "dispatch_outbox now d2 = (n, d3)"
  shows "jobs_grow d d3"
proof -
  have "jobs_grow d (beat w now d)" by (rule no_jobs_grow [OF beat_no_jobs])
  then have "jobs_grow d d2"
    using assms(1) jobs_grow_trans [OF _ enqueue_grows] by (auto split: if_splits)
  moreover have "jobs_grow d2 d3"
    using assms(2) dispatch_events_grows by (auto simp: dispatch_outbox_def Let_def)
  ultimately show ?thesis by (rule jobs_grow_trans)
qed

lemma jobs_grow_ok: "jobs_grow d d' \<Longrightarrow> jobs_ok d \<Longrightarrow> jobs_ok d'"
  by (auto simp: jobs_grow_def jobs_ok_def list_all_iff)

lemma jobs_grow_get:
  assumes "jobs_grow d d'"
  shows "get_row i (jobs d) = Some x \<Longrightarrow> get_row i (jobs d') = Some x"
    and "get_row i (jobs d) = None \<Longrightarrow> get_row i (jobs d') = Some x \<Longrightarrow> jb_state x = JobQueued"
  using assms unfolding jobs_grow_def list_all_iff
  by (fastforce simp: get_row_append dest: get_row_Some)+

lemma claimed_rows:
  assumes "claim now w l ks d = (js, d')" "ks \<noteq> []" "keyed n (jobs d)"
  shows "distinct (map row_id js)"
    and "j \<in> set js \<Longrightarrow> get_row (row_id j) (jobs d') = Some j \<and> jb_state j = JobRunning
      \<and> (\<exists>x. get_row (row_id j) (jobs d) = Some x \<and> claimable now ks x \<and> j = mark_running now w x)"
    and "i \<notin> row_id ` set js \<Longrightarrow> get_row i (jobs d') = get_row i (jobs d)"
proof -
  let ?cs = "claim_rows now l ks (jobs d)"
  have js: "js = map (mark_running now w) ?cs" using assms(1,2) by (simp add: claim_def Let_def)
  have ids: "map row_id js = map row_id ?cs" unfolding js by (rule map_mark_running_ids)
  show "distinct (map row_id js)"
    unfolding ids using assms(3) by (intro distinct_claim_rows) (simp add: keyed_def)
  note get = claim_get_row [OF assms(3,1,2)]
  show "get_row (row_id j) (jobs d') = Some j \<and> jb_state j = JobRunning
      \<and> (\<exists>x. get_row (row_id j) (jobs d) = Some x \<and> claimable now ks x \<and> j = mark_running now w x)"
    if "j \<in> set js"
  proof -
    from that obtain x where x: "x \<in> set ?cs" "j = mark_running now w x" unfolding js by auto
    have c: "x \<in> set (jobs d)" "claimable now ks x" using set_claim_rows [OF x(1)] by simp_all
    have id: "row_id j = row_id x" unfolding x(2) by (simp add: mark_running_def)
    have g: "get_row (row_id j) (jobs d) = Some x" unfolding id by (rule get_row_mem [OF assms(3) c(1)])
    have "get_row (row_id j) (jobs d') = Some j" unfolding get g using x by simp
    moreover have "jb_state j = JobRunning" unfolding x(2) by (simp add: mark_running_def)
    ultimately show ?thesis using g c(2) x(2) by blast
  qed
  show "get_row i (jobs d') = get_row i (jobs d)" if "i \<notin> row_id ` set js"
  proof -
    have "row_id x \<noteq> i" if "x \<in> set ?cs" for x
      using \<open>i \<notin> row_id ` set js\<close> that ids by (metis image_eqI list.set_map)
    then show ?thesis unfolding get using get_row_id by (auto split: option.split)
  qed
qed

lemma worker_roundD:
  assumes "worker_round w now since d fs = (Inr r, d', fs')"
  shows "\<exists>d3 js d4. jobs_grow d d3 \<and> claim now (wk_id w) 10 HANDLERS d3 = (js, d4)
    \<and> process_jobs w now js d4 fs = (d', fs')"
proof -
  obtain x d2 where two: "(x, d2) = (if hours 1 \<le> now - since
      then (now, snd (enqueue now ''purge_expired'' [] 100 0 None None (beat w now d))) else (since, beat w now d))"
    by fastforce
  obtain n d3 where three: "dispatch_outbox now d2 = (n, d3)" by fastforce
  obtain js d4 where four: "claim now (wk_id w) 10 HANDLERS d3 = (js, d4)" by fastforce
  obtain e fs1 where five: "process_jobs w now js d4 fs = (e, fs1)" by fastforce
  have "round_body w now since d fs = ((n + length js, x), e, fs1)"
    unfolding round_body_def Let_def two [symmetric] prod.case three four five ..
  then have "d' = e" "fs' = fs1" using assms by (auto simp: worker_round_def split: if_splits)
  with before_claim_grows [OF two three] four five show ?thesis by blast
qed

text \<open>What a claim and the handlers leave of the queue.\<close>

lemma claim_and_process:
  assumes "claim now v l ks d = (js, d1)" "ks \<noteq> []" "jobs_ok d" "process_jobs w now js d1 fs = (d', fs')"
  shows "jobs_ok d'"
    and "get_row i (jobs d) = Some j \<Longrightarrow> \<exists>j'. get_row i (jobs d') = Some j'
      \<and> (j' = j \<or> claimable now ks j \<and> job_outcome now (mark_running now v j) j')"
    and "get_row i (jobs d) = None \<Longrightarrow> get_row i (jobs d') = Some j \<Longrightarrow> jb_state j = JobQueued"
proof -
  have k: "keyed (next_id d) (jobs d)" using assms(3) by (simp add: jobs_ok_def)
  note cl = claimed_rows [OF assms(1,2) k]
  have pre: "get_row (row_id j) (jobs d1) = Some j \<and> jb_state j = JobRunning" if "j \<in> set js" for j
    using cl(2) [OF that] by simp
  note rows = process_jobs_rows [OF assms(4) claim_ok [OF assms(3,1)] cl(1) pre]
  show "jobs_ok d'" using rows by blast
  show "\<exists>j'. get_row i (jobs d') = Some j' \<and> (j' = j \<or> claimable now ks j \<and> job_outcome now (mark_running now v j) j')"
    if "get_row i (jobs d) = Some j"
  proof (cases "i \<in> row_id ` set js")
    case True
    then obtain y where y: "y \<in> set js" "row_id y = i" by force
    then have "claimable now ks j" "y = mark_running now v j" using cl(2) [OF y(1)] that by auto
    moreover have "\<exists>j'. get_row i (jobs d') = Some j' \<and> job_outcome now y j'" using rows y by blast
    ultimately show ?thesis by blast
  next
    case False
    then have "get_row i (jobs d1) = Some j" using cl(3) that by simp
    with False rows show ?thesis by blast
  qed
  show "jb_state j = JobQueued" if "get_row i (jobs d) = None" "get_row i (jobs d') = Some j"
  proof -
    have "i \<notin> row_id ` set js" using cl(2) that(1) by fastforce
    then have "get_row i (jobs d1) = None" using cl(3) that(1) by simp
    with rows that(2) show ?thesis by blast
  qed
qed

text \<open>
  C23. A round settles what it took: whatever the handlers do or raise, after the round every job of the
  queue is as it was, or it was due and has an outcome - completed, given up after its last attempt, or
  queued for later - with one attempt more and no owner. A worker that held no job before holds none after.
\<close>

theorem round_settles_jobs:
  assumes "worker_round w now since d fs = (Inr r, d', fs')" "jobs_ok d"
    and "\<forall>j \<in> set (jobs d). jb_locked_by j \<noteq> Some (wk_id w)"
  shows "jobs_ok d' \<and> (\<forall>j \<in> set (jobs d'). jb_locked_by j \<noteq> Some (wk_id w))
    \<and> (\<forall>j \<in> set (jobs d). \<exists>j'. get_row (row_id j) (jobs d') = Some j'
         \<and> (j' = j \<or> claimable now HANDLERS j \<and> job_outcome now (mark_running now (wk_id w) j) j'))"
proof -
  obtain d3 js d4 where g: "jobs_grow d d3" and c: "claim now (wk_id w) 10 HANDLERS d3 = (js, d4)"
    and p: "process_jobs w now js d4 fs = (d', fs')"
    using worker_roundD [OF assms(1)] by blast
  have "HANDLERS \<noteq> []" by (simp add: HANDLERS_def)
  note cp = claim_and_process [OF c this jobs_grow_ok [OF g assms(2)] p]
  have k: "keyed (next_id d) (jobs d)" using assms(2) by (simp add: jobs_ok_def)
  have "jb_locked_by y \<noteq> Some (wk_id w)" if y: "y \<in> set (jobs d')" for y
  proof -
    have "keyed (next_id d') (jobs d')" "job_wf y" using cp(1) y by (auto simp: jobs_ok_def)
    then have gy: "get_row (row_id y) (jobs d') = Some y" and free: "jb_state y = JobQueued \<Longrightarrow> jb_locked_by y = None"
      using get_row_mem [OF _ y] by (auto simp: job_wf_def)
    show ?thesis
    proof (cases "get_row (row_id y) (jobs d3)")
      case None
      with cp(3) gy free show ?thesis by force
    next
      case (Some z)
      consider "y = z" | "job_outcome now (mark_running now (wk_id w) z) y" using cp(2) [OF Some] gy by auto
      then show ?thesis
      proof cases
        case 1
        show ?thesis
        proof (cases "get_row (row_id y) (jobs d)")
          case None
          then have "jb_state y = JobQueued" using jobs_grow_get(2) [OF g None Some] 1 by simp
          with free show ?thesis by simp
        next
          case (Some u)
          then have "u = z" using jobs_grow_get(1) [OF g Some] \<open>get_row (row_id y) (jobs d3) = Some z\<close> by simp
          then show ?thesis using assms(3) get_row_Some [OF Some] 1 by blast
        qed
      qed (simp add: job_outcome_def)
    qed
  qed
  moreover have "get_row (row_id j) (jobs d3) = Some j" if "j \<in> set (jobs d)" for j
    by (rule jobs_grow_get(1) [OF g get_row_mem [OF k that]])
  ultimately show ?thesis using cp(1,2) by blast
qed
section \<open>Purging keeps references\<close>

abbreviation ids :: "'a row_scheme list \<Rightarrow> uuid set" where
  "ids t \<equiv> row_id ` set t"

definition refers :: "('r \<Rightarrow> uuid) \<Rightarrow> 'r list \<Rightarrow> 'a row_scheme list \<Rightarrow> bool" where
  "refers f t t' \<longleftrightarrow> (\<forall>r \<in> set t. f r \<in> ids t')"

definition may_refer :: "('r \<Rightarrow> uuid option) \<Rightarrow> 'r list \<Rightarrow> 'a row_scheme list \<Rightarrow> bool" where
  "may_refer f t t' \<longleftrightarrow> (\<forall>r \<in> set t. \<forall>i. f r = Some i \<longrightarrow> i \<in> ids t')"

text \<open>The foreign keys between the rows of conversations and of memories.\<close>

definition memory_refs :: "db \<Rightarrow> bool" where
  "memory_refs d \<longleftrightarrow>
     refers mv_memory_id (memory_versions d) (memories d) \<and> refers mo_memory_id (memory_sources d) (memories d)
   \<and> may_refer mi_merged_into_id (memories d) (memories d)
   \<and> may_refer mo_conversation_id (memory_sources d) (conversations d)
   \<and> may_refer mo_message_id (memory_sources d) (messages d)"

definition conversation_refs :: "db \<Rightarrow> bool" where
  "conversation_refs d \<longleftrightarrow>
     refers ms_conversation_id (messages d) (conversations d)
   \<and> refers rn_conversation_id (runs d) (conversations d) \<and> refers rn_source_message_id (runs d) (messages d)
   \<and> may_refer rn_response_message_id (runs d) (messages d)
   \<and> refers at_run_id (attempts d) (runs d) \<and> refers ta_run_id (actions d) (runs d)
   \<and> refers mr_message_id (revisions d) (messages d)
   \<and> refers cl_source_id (links d) (conversations d) \<and> refers cl_target_id (links d) (conversations d)
   \<and> refers cs_conversation_id (summaries d) (conversations d)
   \<and> may_refer cv_continuation_of_id (conversations d) (conversations d)"

definition index_refs :: "db \<Rightarrow> bool" where
  "index_refs d \<longleftrightarrow> refers se_document_id (search_embeddings d) (search_documents d)"

abbreviation gone_ids :: "('a row_scheme \<Rightarrow> bool) \<Rightarrow> 'a row_scheme list \<Rightarrow> uuid set" where
  "gone_ids P t \<equiv> set (map row_id (filter P t))"

lemma kept_ids: "i \<in> ids t \<Longrightarrow> i \<notin> gone_ids P t \<Longrightarrow> i \<in> ids (filter (\<lambda>x. \<not> P x) t)"
  by auto

lemma refers_mono: "refers f t t' \<Longrightarrow> set u \<subseteq> set t \<Longrightarrow> ids t' \<subseteq> ids u' \<Longrightarrow> refers f u u'"
  unfolding refers_def by blast

lemma refers_filter:
  "refers f t t' \<Longrightarrow> (\<And>r. Q r \<Longrightarrow> f r \<notin> gone_ids P t') \<Longrightarrow> refers f (filter Q t) (filter (\<lambda>x. \<not> P x) t')"
  unfolding refers_def by (intro ballI kept_ids) auto

lemma refers_map: "(\<And>r. f (g r) = f r) \<Longrightarrow> refers f (map g t) t' = refers f t t'"
  by (simp add: refers_def)

lemma refers_to_map: "(\<And>r. row_id (g r) = row_id r) \<Longrightarrow> refers f t (map g t') = refers f t t'"
  by (simp add: refers_def image_image)

lemma may_refer_to_map: "(\<And>r. row_id (g r) = row_id r) \<Longrightarrow> may_refer f t (map g t') = may_refer f t t'"
  by (simp add: may_refer_def image_image)

lemma forgetD: "forget gone x = Some i \<Longrightarrow> x = Some i \<and> i \<notin> set gone"
  by (auto simp: forget_def split: option.splits if_splits)

lemma may_refer_forget:
  assumes "may_refer f t t'" "\<And>r. f (g r) = forget (map row_id (filter P t')) (f r)"
  shows "may_refer f (map g (filter Q t)) (filter (\<lambda>x. \<not> P x) t')"
  unfolding may_refer_def
proof (intro ballI allI impI)
  fix r i assume "r \<in> set (map g (filter Q t))" and s: "f r = Some i"
  then obtain x where x: "x \<in> set t" "r = g x" by auto
  from forgetD [of "map row_id (filter P t')" "f x" i] s have "f x = Some i" "i \<notin> gone_ids P t'"
    unfolding x(2) assms(2) by simp_all
  with assms(1) x(1) show "i \<in> ids (filter (\<lambda>x. \<not> P x) t')"
    unfolding may_refer_def by (intro kept_ids) blast+
qed

lemma may_refer_forget_all:
  "may_refer f t t' \<Longrightarrow> (\<And>r. f (g r) = forget (map row_id (filter P t')) (f r)) \<Longrightarrow>
     may_refer f (map g t) (filter (\<lambda>x. \<not> P x) t')"
  using may_refer_forget [of f t t' g P "\<lambda>_. True"] by simp

lemma may_refer_other: "(\<And>r. f (g r) = f r) \<Longrightarrow> may_refer f t t' \<Longrightarrow> may_refer f (map g (filter Q t)) t'"
  by (auto simp: may_refer_def)

lemma may_refer_filter: "may_refer f t t' \<Longrightarrow> may_refer f (filter Q t) t'"
  by (auto simp: may_refer_def)

lemma delete_documents_refs: "index_refs d \<Longrightarrow> index_refs (delete_documents P d)"
  unfolding index_refs_def delete_documents_def
  by simp (rule refers_filter, assumption, auto)

lemma delete_memories_refs:
  assumes "memory_refs d" shows "memory_refs (delete_memories P d)"
  unfolding memory_refs_def
proof (intro conjI)
  note r = assms [unfolded memory_refs_def]
  show "refers mv_memory_id (memory_versions (delete_memories P d)) (memories (delete_memories P d))"
    using r by (simp add: delete_memories_def Let_def refers_to_map) (intro refers_filter, auto)
  show "refers mo_memory_id (memory_sources (delete_memories P d)) (memories (delete_memories P d))"
    using r by (simp add: delete_memories_def Let_def refers_to_map) (intro refers_filter, auto)
  show "may_refer mi_merged_into_id (memories (delete_memories P d)) (memories (delete_memories P d))"
    using r by (simp add: delete_memories_def Let_def may_refer_to_map) (intro may_refer_forget, auto)
  show "may_refer mo_conversation_id (memory_sources (delete_memories P d)) (conversations (delete_memories P d))"
    "may_refer mo_message_id (memory_sources (delete_memories P d)) (messages (delete_memories P d))"
    using r by (simp_all add: delete_memories_def Let_def may_refer_filter)
qed
lemma delete_conversations_refs:
  assumes "conversation_refs d" shows "conversation_refs (delete_conversations P d)"
proof -
  define gone where "gone = map row_id (filter P (conversations d))"
  define lost where "lost = (\<lambda>m :: message. ms_conversation_id m \<in> set gone)"
  define gm where "gm = map row_id (filter lost (messages d))"
  define out where "out = (\<lambda>r :: run_row. rn_conversation_id r \<in> set gone \<or> rn_source_message_id r \<in> set gm)"
  define gr where "gr = map row_id (filter out (runs d))"
  let ?cs = "map (\<lambda>cv. cv\<lparr>cv_continuation_of_id := forget gone (cv_continuation_of_id cv)\<rparr>) (filter (\<lambda>x. \<not> P x) (conversations d))"
  let ?rs = "map (\<lambda>r. r\<lparr>rn_response_message_id := forget gm (rn_response_message_id r)\<rparr>) (filter (\<lambda>r. \<not> out r) (runs d))"
  have sel: "conversations (delete_conversations P d) = ?cs"
      "messages (delete_conversations P d) = filter (\<lambda>m. \<not> lost m) (messages d)"
      "runs (delete_conversations P d) = ?rs"
      "attempts (delete_conversations P d) = filter (\<lambda>a. at_run_id a \<notin> set gr) (attempts d)"
      "actions (delete_conversations P d) = filter (\<lambda>a. ta_run_id a \<notin> set gr) (actions d)"
      "revisions (delete_conversations P d) = filter (\<lambda>r. mr_message_id r \<notin> set gm) (revisions d)"
      "links (delete_conversations P d) = filter (\<lambda>l. cl_source_id l \<notin> set gone \<and> cl_target_id l \<notin> set gone) (links d)"
      "summaries (delete_conversations P d) = filter (\<lambda>s. cs_conversation_id s \<notin> set gone) (summaries d)"
    unfolding delete_conversations_def Let_def gone_def lost_def gm_def out_def gr_def by simp_all
  note r = assms [unfolded conversation_refs_def]
  have c: "refers f (filter Q t) (filter (\<lambda>x. \<not> P x) (conversations d))"
    if "refers f t (conversations d)" "\<And>r. Q r \<Longrightarrow> f r \<notin> set gone" for f :: "'x \<Rightarrow> uuid" and t Q
    using that unfolding gone_def by (rule refers_filter)
  have m: "refers f (filter Q t) (filter (\<lambda>x. \<not> lost x) (messages d))"
    if "refers f t (messages d)" "\<And>r. Q r \<Longrightarrow> f r \<notin> set gm" for f :: "'x \<Rightarrow> uuid" and t Q
    using that unfolding gm_def by (rule refers_filter)
  have n: "refers f (filter Q t) (filter (\<lambda>x. \<not> out x) (runs d))"
    if "refers f t (runs d)" "\<And>r. Q r \<Longrightarrow> f r \<notin> set gr" for f :: "'x \<Rightarrow> uuid" and t Q
    using that unfolding gr_def by (rule refers_filter)
  show ?thesis
    unfolding conversation_refs_def sel
  proof (intro conjI)
    show "refers ms_conversation_id (filter (\<lambda>m. \<not> lost m) (messages d)) ?cs"
      using r by (simp add: refers_to_map) (rule c, auto simp: lost_def)
    show "refers cl_source_id (filter (\<lambda>l. cl_source_id l \<notin> set gone \<and> cl_target_id l \<notin> set gone) (links d)) ?cs"
      "refers cl_target_id (filter (\<lambda>l. cl_source_id l \<notin> set gone \<and> cl_target_id l \<notin> set gone) (links d)) ?cs"
      "refers cs_conversation_id (filter (\<lambda>s. cs_conversation_id s \<notin> set gone) (summaries d)) ?cs"
      using r by (simp_all add: refers_to_map) (rule c, auto)+
    show "refers mr_message_id (filter (\<lambda>r. mr_message_id r \<notin> set gm) (revisions d)) (filter (\<lambda>m. \<not> lost m) (messages d))"
      using r by (intro m) auto
    show "refers at_run_id (filter (\<lambda>a. at_run_id a \<notin> set gr) (attempts d)) ?rs"
      "refers ta_run_id (filter (\<lambda>a. ta_run_id a \<notin> set gr) (actions d)) ?rs"
      using r by (simp_all add: refers_to_map) (rule n, auto)+
    show "refers rn_conversation_id ?rs ?cs"
      using r by (simp add: refers_to_map refers_map) (rule c, auto simp: out_def)
    show "refers rn_source_message_id ?rs (filter (\<lambda>m. \<not> lost m) (messages d))"
      using r by (simp add: refers_map) (rule m, auto simp: out_def)
    show "may_refer rn_response_message_id ?rs (filter (\<lambda>m. \<not> lost m) (messages d))"
      using r by (intro may_refer_forget) (auto simp: gm_def)
    show "may_refer cv_continuation_of_id ?cs ?cs"
      using r by (simp add: may_refer_to_map) (intro may_refer_forget, auto simp: gone_def)
  qed
qed
lemma delete_conversations_memory_refs:
  assumes "memory_refs d" shows "memory_refs (delete_conversations P d)"
proof -
  define gone where "gone = map row_id (filter P (conversations d))"
  define lost where "lost = (\<lambda>m :: message. ms_conversation_id m \<in> set gone)"
  define gm where "gm = map row_id (filter lost (messages d))"
  let ?g = "\<lambda>s. s\<lparr>mo_conversation_id := forget gone (mo_conversation_id s),
      mo_message_id := forget gm (mo_message_id s)\<rparr>"
  have sel: "memory_sources (delete_conversations P d) = map ?g (memory_sources d)"
      "messages (delete_conversations P d) = filter (\<lambda>m. \<not> lost m) (messages d)"
      "memories (delete_conversations P d) = memories d"
      "memory_versions (delete_conversations P d) = memory_versions d"
      "conversations (delete_conversations P d)
        = map (\<lambda>cv. cv\<lparr>cv_continuation_of_id := forget gone (cv_continuation_of_id cv)\<rparr>) (filter (\<lambda>x. \<not> P x) (conversations d))"
    unfolding delete_conversations_def Let_def gone_def lost_def gm_def by simp_all
  note r = assms [unfolded memory_refs_def]
  have "may_refer mo_conversation_id (map ?g (memory_sources d)) (filter (\<lambda>x. \<not> P x) (conversations d))"
    using r by (intro may_refer_forget_all) (auto simp: gone_def)
  moreover have "may_refer mo_message_id (map ?g (memory_sources d)) (filter (\<lambda>m. \<not> lost m) (messages d))"
    using r by (intro may_refer_forget_all) (auto simp: gm_def)
  ultimately show ?thesis
    using r unfolding memory_refs_def sel by (simp add: refers_map may_refer_to_map)
qed

lemma refs_cong:
  "conversation_refs (delete_memories P d) \<longleftrightarrow> conversation_refs d"
  "conversation_refs (delete_documents Q d) \<longleftrightarrow> conversation_refs d"
  "memory_refs (delete_documents Q d) \<longleftrightarrow> memory_refs d"
  "index_refs (delete_memories P d) \<longleftrightarrow> index_refs d"
  "index_refs (delete_conversations R d) \<longleftrightarrow> index_refs d"
  "conversation_refs (d\<lparr>exports := x\<rparr>) \<longleftrightarrow> conversation_refs d"
  "memory_refs (d\<lparr>exports := x\<rparr>) \<longleftrightarrow> memory_refs d"
  "index_refs (d\<lparr>exports := x\<rparr>) \<longleftrightarrow> index_refs d"
  by (simp_all add: conversation_refs_def memory_refs_def index_refs_def delete_memories_def delete_documents_def
      delete_conversations_def Let_def)

definition owner_purged :: "instant \<Rightarrow> db \<Rightarrow> search_document \<Rightarrow> bool" where
  "owner_purged now d s \<longleftrightarrow>
     sd_owner_type s = ''memory'' \<and> sd_owner_id s \<in> gone_ids (memory_purgeable now) (memories d)
   \<or> sd_owner_type s = ''conversation'' \<and> sd_owner_id s \<in> gone_ids (conversation_purgeable now) (conversations d)"

lemma purge_expired_eq:
  "fst (purge_expired xe now d fs) = fst (export_purge xe now (delete_conversations (conversation_purgeable now)
     (delete_memories (memory_purgeable now)
       (if map row_id (filter (memory_purgeable now) (memories d)) = []
           \<and> map row_id (filter (conversation_purgeable now) (conversations d)) = []
        then d else delete_documents (owner_purged now d) d))) fs)"
  unfolding purge_expired_def Let_def owner_purged_def ..

lemma deleted_documents_sel:
  "memories (delete_documents P d) = memories d" "conversations (delete_documents P d) = conversations d"
  "messages (delete_documents P d) = messages d"
  "search_documents (delete_documents P d) = filter (\<lambda>s. \<not> P s) (search_documents d)"
  by (simp_all add: delete_documents_def)

lemma deleted_memories_sel:
  "map row_id (memories (delete_memories P d)) = map row_id (filter (\<lambda>i. \<not> P i) (memories d))"
  "conversations (delete_memories P d) = conversations d" "messages (delete_memories P d) = messages d"
  "search_documents (delete_memories P d) = search_documents d"
  by (simp_all add: delete_memories_def Let_def comp_def)

lemma deleted_conversations_sel:
  "memories (delete_conversations P d) = memories d"
  "map row_id (conversations (delete_conversations P d)) = map row_id (filter (\<lambda>cv. \<not> P cv) (conversations d))"
  "messages (delete_conversations P d) = filter (\<lambda>m. ms_conversation_id m \<notin> gone_ids P (conversations d)) (messages d)"
  "search_documents (delete_conversations P d) = search_documents d"
  by (simp_all add: delete_conversations_def Let_def comp_def)

lemma export_purge_sel:
  "memories (fst (export_purge xe now d fs)) = memories d"
  "conversations (fst (export_purge xe now d fs)) = conversations d"
  "messages (fst (export_purge xe now d fs)) = messages d"
  "search_documents (fst (export_purge xe now d fs)) = search_documents d"
  by (simp_all add: export_purge_def)

lemma purge_tables:
  assumes "d' = fst (purge_expired xe now d fs)"
  shows "map row_id (memories d') = map row_id (filter (\<lambda>i. \<not> memory_purgeable now i) (memories d))"
    and "map row_id (conversations d') = map row_id (filter (\<lambda>cv. \<not> conversation_purgeable now cv) (conversations d))"
    and "messages d' = filter (\<lambda>m. ms_conversation_id m \<notin> gone_ids (conversation_purgeable now) (conversations d)) (messages d)"
    and "search_documents d' = filter (\<lambda>s. \<not> owner_purged now d s) (search_documents d)"
proof -
  let ?none = "map row_id (filter (memory_purgeable now) (memories d)) = []
      \<and> map row_id (filter (conversation_purgeable now) (conversations d)) = []"
  define d1 where "d1 = (if ?none then d else delete_documents (owner_purged now d) d)"
  have d1: "memories d1 = memories d" "conversations d1 = conversations d" "messages d1 = messages d"
    by (simp_all only: d1_def deleted_documents_sel if_distrib [of memories] if_distrib [of conversations]
        if_distrib [of messages] if_cancel)
  have "search_documents d1 = filter (\<lambda>s. \<not> owner_purged now d s) (search_documents d)"
  proof (cases ?none)
    case True
    then have "\<not> owner_purged now d s" for s unfolding owner_purged_def by simp
    with True show ?thesis by (simp add: d1_def)
  next
    case False
    then show ?thesis unfolding d1_def by (simp only: if_False deleted_documents_sel)
  qed
  then show "map row_id (memories d') = map row_id (filter (\<lambda>i. \<not> memory_purgeable now i) (memories d))"
    "map row_id (conversations d') = map row_id (filter (\<lambda>cv. \<not> conversation_purgeable now cv) (conversations d))"
    "messages d' = filter (\<lambda>m. ms_conversation_id m \<notin> gone_ids (conversation_purgeable now) (conversations d)) (messages d)"
    "search_documents d' = filter (\<lambda>s. \<not> owner_purged now d s) (search_documents d)"
    unfolding assms purge_expired_eq d1_def [symmetric]
    by (simp_all only: export_purge_sel deleted_conversations_sel deleted_memories_sel d1)
qed

lemma purge_refs:
  "memory_refs d \<Longrightarrow> memory_refs (fst (purge_expired xe now d fs))"
  "conversation_refs d \<Longrightarrow> conversation_refs (fst (purge_expired xe now d fs))"
  "index_refs d \<Longrightarrow> index_refs (fst (purge_expired xe now d fs))"
  unfolding purge_expired_eq export_purge_def fst_conv
  by (simp_all add: refs_cong delete_conversations_memory_refs delete_memories_refs delete_conversations_refs
      delete_documents_refs)

text \<open>
  C25. The purge removes exactly what is due: the memories and conversations that were deleted and whose
  purge time has come, with the messages of these conversations and the index entries of both; every
  other one stays. No row is left that refers to a removed one.
\<close>

theorem purge_exact:
  assumes "purge_expired xe now d fs = (d', fs')" "memory_refs d" "conversation_refs d" "index_refs d"
  shows "map row_id (memories d') = map row_id (filter (\<lambda>i. \<not> memory_purgeable now i) (memories d))
    \<and> map row_id (conversations d') = map row_id (filter (\<lambda>cv. \<not> conversation_purgeable now cv) (conversations d))
    \<and> messages d' = filter (\<lambda>m. ms_conversation_id m \<notin> gone_ids (conversation_purgeable now) (conversations d)) (messages d)
    \<and> search_documents d' = filter (\<lambda>s. \<not> owner_purged now d s) (search_documents d)
    \<and> memory_refs d' \<and> conversation_refs d' \<and> index_refs d'"
proof -
  have d': "d' = fst (purge_expired xe now d fs)" using assms(1) by simp
  show ?thesis
    using purge_tables [OF d'] purge_refs(1) [OF assms(2), of xe now fs] purge_refs(2) [OF assms(3), of xe now fs]
      purge_refs(3) [OF assms(4), of xe now fs]
    unfolding d' [symmetric] by blast
qed
section \<open>Index entries\<close>

lemma embed_documents:
  "fst (embed_document w now s t d) = Inr () \<Longrightarrow>
     search_documents (snd (embed_document w now s t d)) = search_documents d"
  by (auto simp: embed_document_def store_embedding_def fresh_def Let_def
      split: option.splits sum.splits list.splits if_splits)

definition mirrors :: "memory_item \<Rightarrow> search_document \<Rightarrow> bool" where
  "mirrors m s \<longleftrightarrow> sd_searchable_text s = mi_content m \<and> sd_source_version s = version m \<and> \<not> sd_stale s"

text \<open>Whether a document belongs to the memory item.\<close>

definition of_memory :: "uuid \<Rightarrow> search_document \<Rightarrow> bool" where
  "of_memory i s \<longleftrightarrow> sd_owner_type s = ''memory'' \<and> sd_owner_id s = i"

lemma find_document_memory: "find_document ''memory'' i d = query_one (of_memory i) (search_documents d)"
  unfolding find_document_def by (rule arg_cong [of _ _ "\<lambda>P. query_one P _"]) (simp add: fun_eq_iff of_memory_def)

lemma of_memory_unique:
  assumes "constraints d" "s \<in> set (search_documents d)" "s' \<in> set (search_documents d)" "of_memory i s" "of_memory i s'"
  shows "s = s'"
proof -
  have "inj_on (\<lambda>r. (sd_owner_type r, sd_owner_id r)) (set (search_documents d))"
    using assms(1) unfolding constraints_def unique_by_def distinct_map by blast
  then show ?thesis
    by (rule inj_onD) (use assms(2-5) in \<open>simp_all add: of_memory_def\<close>)
qed

text \<open>The row of a document that was added or refreshed, before and after its flush.\<close>

lemma added_document:
  assumes "add_document now ''memory'' i acc (mi_content m) (version m) d = (s, d1)"
  shows "search_documents d1 = search_documents d @ [s]" "of_memory i s" "mirrors m s"
  using assms by (auto simp: add_document_def Let_def of_memory_def mirrors_def)

lemma refreshed_document:
  assumes "refresh_document now (mi_content m) (version m) s0 d = (s, d1)"
  shows "search_documents d1 = put_row (s\<lparr>updated_at := now\<rparr>) (search_documents d)"
    and "row_id s = row_id s0" "of_memory i s \<longleftrightarrow> of_memory i s0" "mirrors m s"
  using assms by (auto simp: refresh_document_def Let_def of_memory_def mirrors_def save_row_def)

lemma touched_document:
  "of_memory i (s\<lparr>updated_at := t\<rparr>) = of_memory i s" "mirrors m (s\<lparr>updated_at := t\<rparr>) = mirrors m s"
  "row_id (s\<lparr>updated_at := t\<rparr>) = row_id s"
  by (simp_all add: of_memory_def mirrors_def)

text \<open>What indexing an item does to the documents, in its three cases.\<close>

lemma memory_index_cases:
  assumes "memory_index w now p d = (Inr (), d')" "payload_uuid p ''memory_id'' = Inr i"
    and "get_row i (memories d) = Some m"
  shows "(find_document ''memory'' i d = None
      \<and> (\<exists>s. search_documents d' = search_documents d @ [s] \<and> of_memory i s \<and> mirrors m s))
    \<or> (\<exists>s0. find_document ''memory'' i d = Some s0 \<and> mi_state m \<in> {MDeleted, MMerged}
        \<and> search_documents d' = filter (\<lambda>s. row_id s \<noteq> row_id s0) (search_documents d))
    \<or> (\<exists>s0 s. find_document ''memory'' i d = Some s0 \<and> mi_state m \<notin> {MDeleted, MMerged}
        \<and> search_documents d' = put_row s (search_documents d) \<and> row_id s = row_id s0
        \<and> (of_memory i s \<longleftrightarrow> of_memory i s0) \<and> mirrors m s)"
proof (cases "find_document ''memory'' i d")
  case None
  obtain s d1 where a: "add_document now ''memory'' i (mi_account_id m) (mi_content m) (version m) d = (s, d1)"
    by fastforce
  have "embed_document w now s (mi_content m) d1 = (Inr (), d')"
    using assms None a get_row_id [OF assms(3)] by (simp add: memory_index_def)
  then have "search_documents d' = search_documents d1" using embed_documents [of w now s "mi_content m" d1] by simp
  with added_document [OF a] None show ?thesis by auto
next
  case (Some s0)
  show ?thesis
  proof (cases "mi_state m \<in> {MDeleted, MMerged}")
    case True
    have "d' = delete_documents (\<lambda>s. row_id s = row_id s0) d"
      using assms Some True get_row_id [OF assms(3)] by (auto simp: memory_index_def)
    then show ?thesis using Some True by (simp add: deleted_documents_sel)
  next
    case False
    obtain s d1 where a: "refresh_document now (mi_content m) (version m) s0 d = (s, d1)" by fastforce
    have "embed_document w now s (mi_content m) d1 = (Inr (), d')"
      using assms Some False a get_row_id [OF assms(3)] by (simp add: memory_index_def)
    then have "search_documents d' = search_documents d1" using embed_documents [of w now s "mi_content m" d1] by simp
    with refreshed_document [OF a] Some False touched_document show ?thesis by metis
  qed
qed

text \<open>
  After a job has indexed a memory item, its document mirrors the item - its text, its version, not
  stale - or, when the item was deleted or merged and a document was there, there is none; no document
  of another owner changes.
\<close>

theorem memory_index_mirrors:
  assumes "memory_index w now p d = (Inr (), d')" "payload_uuid p ''memory_id'' = Inr i"
    and "get_row i (memories d) = Some m" "constraints d" "keyed (next_id d) (search_documents d)"
  shows "(if mi_state m \<in> {MDeleted, MMerged} \<and> find_document ''memory'' i d \<noteq> None
      then find_document ''memory'' i d' = None
      else \<exists>s. find_document ''memory'' i d' = Some s \<and> mirrors m s)
    \<and> filter (\<lambda>s. \<not> of_memory i s) (search_documents d') = filter (\<lambda>s. \<not> of_memory i s) (search_documents d)"
proof -
  let ?t = "search_documents d"
  have mine: "s0 \<in> set ?t \<and> of_memory i s0" if "find_document ''memory'' i d = Some s0" for s0
    using that query_one_Some unfolding find_document_memory by metis
  have same: "x = s0" if "x \<in> set ?t" "row_id x = row_id s0" "s0 \<in> set ?t" for x s0
    using keyed_unique [OF assms(5) that(1,3,2)] .
  consider (added) s where "find_document ''memory'' i d = None" "search_documents d' = ?t @ [s]" "of_memory i s" "mirrors m s"
    | (removed) s0 where "find_document ''memory'' i d = Some s0" "mi_state m \<in> {MDeleted, MMerged}"
        "search_documents d' = filter (\<lambda>s. row_id s \<noteq> row_id s0) ?t"
    | (kept) s0 s where "find_document ''memory'' i d = Some s0" "mi_state m \<notin> {MDeleted, MMerged}"
        "search_documents d' = put_row s ?t" "row_id s = row_id s0" "of_memory i s \<longleftrightarrow> of_memory i s0" "mirrors m s"
    using memory_index_cases [OF assms(1-3)] by blast
  then show ?thesis
  proof cases
    case added
    then show ?thesis unfolding find_document_memory by (simp add: query_one_snoc)
  next
    case removed
    have "s = s0" if "s \<in> set ?t" "of_memory i s" for s
      using of_memory_unique [OF assms(4) that(1) _ that(2)] mine [OF removed(1)] by blast
    then have "find_document ''memory'' i d' = None"
      unfolding find_document_memory query_one_None removed(3) by auto
    moreover have "filter (\<lambda>s. row_id s \<noteq> row_id s0 \<and> \<not> of_memory i s) ?t = filter (\<lambda>s. \<not> of_memory i s) ?t"
      using mine [OF removed(1)] same by (intro filter_cong refl) blast
    ultimately show ?thesis using removed(1,2) unfolding removed(3) filter_filter by simp
  next
    case kept
    note s0 = mine [OF kept(1)]
    have "query_one (of_memory i) (put_row s ?t) = Some s"
      using query_one_put_row [OF assms(5)] kept s0 unfolding find_document_memory by blast
    moreover have "filter (\<lambda>s. \<not> of_memory i s) (put_row s ?t) = filter (\<lambda>s. \<not> of_memory i s) ?t"
      using s0 same kept(4,5) by (intro filter_put_row) auto
    ultimately show ?thesis using kept unfolding find_document_memory by simp
  qed
qed

text \<open>
  The state of the item is looked at only where a document exists: a deleted item without a document
  - a second job after the deletion, or the first index request arriving late - gets one, which holds its text.
\<close>

lemma deleted_memory_indexed:
  assumes "memory_index w now p d = (Inr (), d')" "payload_uuid p ''memory_id'' = Inr i"
    and "get_row i (memories d) = Some m" "mi_state m = MDeleted" "find_document ''memory'' i d = None"
  shows "\<exists>s \<in> set (search_documents d'). of_memory i s \<and> sd_searchable_text s = mi_content m"
  using memory_index_cases [OF assms(1-3)] assms(5) by (auto simp: mirrors_def)
section \<open>The theorems on concrete data\<close>

definition plain_worker :: worker_env where
  "plain_worker = \<lparr>wk_id = ''w'', wk_env = plain_env, wk_search = small_search, wk_exports = demo_store,
     wk_digest = (\<lambda>_. []), wk_crypto = plain_crypto, wk_mail = demo_mail, wk_aead = demo_aead,
     wk_cipher = demo_cipher, wk_deliver = (\<lambda>_. Inr True), wk_token = asc ''t'',
     wk_summarize = (\<lambda>_ _. Inr None), wk_class_name = (\<lambda>_. ''ValueError'')\<rparr>"

definition demo_memory :: "uuid \<Rightarrow> memory_state \<Rightarrow> memory_item" where
  "demo_memory i st = \<lparr>row_id = i, created_at = 0, updated_at = 0, version = 1, mi_account_id = 7,
     mi_content = asc ''tea'', mi_category = Preference, mi_state = st, mi_origin_type = Manual,
     mi_event_at = None, mi_valid_from = None, mi_valid_until = None, mi_original_expression = None,
     mi_keywords = [], mi_merged_into_id = None, mi_deleted_at = None, mi_purge_after = Some 3,
     mi_confirmed_at = None\<rparr>"

text \<open>Two items, the second one deleted; a request to index the first.\<close>

definition demo_items :: db where
  "demo_items = empty_db\<lparr>next_id := 9, memories := [demo_memory 4 MActive, demo_memory 6 MDeleted],
     outbox := [\<lparr>row_id = 3, ob_aggregate_type = ''memory'', ob_aggregate_id = 4,
       ob_event_type = ''memory.index_requested'', ob_payload = [(asc ''memory_id'', JStr (uuid_str 4))],
       ob_sequence = 1, ob_created_at = 0, ob_published_at = None, ob_attempts = 0, ob_last_error_code = None\<rparr>]\<rparr>"

lemma demo_items_sel:
  "keyed 9 (outbox demo_items)" "jobs demo_items = []" "search_documents demo_items = []" "next_id demo_items = 9"
  "memories demo_items = [demo_memory 4 MActive, demo_memory 6 MDeleted]" "settings demo_items = []"
  "conversations demo_items = []" "exports demo_items = []"
  by (simp_all add: demo_items_def empty_db_def keyed_def)

lemma demo_unpublished: "unpublished demo_items = outbox demo_items"
  by (simp add: unpublished_def demo_items_def empty_db_def)

theorem outbox_dispatched_witness:
  "\<exists>d'. dispatch_outbox 5 demo_items = (1, d') \<and> map ob_attempts (outbox d') = [1]
     \<and> map ob_published_at (outbox d') = [Some 5] \<and> map jb_kind (jobs d') = [''memory_index'']"
proof -
  obtain k d' where e: "dispatch_outbox 5 demo_items = (k, d')" by fastforce
  obtain x where x: "outbox demo_items = [x]" "ob_attempts x = 0" "event_jobs (ob_event_type x) = [''memory_index'']"
    by (simp add: demo_items_def empty_db_def event_jobs_def)
  have p: "pending_events demo_items = [x]"
    by (simp add: pending_unpublished demo_unpublished x(1))
  have t: "k = 1" "outbox d' = [publish 5 x]" "appended 5 demo_items d' (map (\<lambda>k. (k, ob_payload x)) [''memory_index''])"
    using outbox_dispatched [OF demo_items_sel(1) e] unfolding p x(1) jobs_of_simps x(3) by auto
  have "map jb_kind (jobs d') = [''memory_index'']"
    using t(3) unfolding appended_def demo_items_sel(2) by (auto simp: job_request_def)
  moreover have "map ob_attempts (outbox d') = [1]" "map ob_published_at (outbox d') = [Some 5]"
    unfolding t(2) using x(2) by (simp_all add: publish_def)
  ultimately show ?thesis
    by (intro exI [of _ d'] conjI e [unfolded t(1)])
qed

theorem outbox_drains_witness:
  "pending_events (snd (dispatch_outbox 5 demo_items)) = []
   \<and> length (jobs (snd (dispatch_outbox 5 demo_items))) = 1"
proof -
  have l: "length (unpublished demo_items) \<le> 50 * length [5 :: instant]"
    by (simp add: demo_unpublished) (simp add: demo_items_def empty_db_def)
  have "length (jobs_of (unpublished demo_items)) = 1"
    by (simp add: demo_unpublished) (simp add: demo_items_def empty_db_def event_jobs_def)
  with outbox_drains [OF demo_items_sel(1) l] show ?thesis
    by (auto simp: demo_items_sel dest: arg_cong [of _ _ length])
qed

theorem purge_exact_witness:
  "map row_id (memories (fst (purge_expired demo_store 5 demo_items []))) = [4]"
proof -
  obtain d' fs' where e: "purge_expired demo_store 5 demo_items [] = (d', fs')" by fastforce
  have r: "memory_refs demo_items" "conversation_refs demo_items" "index_refs demo_items"
    by (simp_all add: memory_refs_def conversation_refs_def index_refs_def demo_items_def empty_db_def
        refers_def may_refer_def demo_memory_def)
  have "map row_id (filter (\<lambda>i. \<not> memory_purgeable 5 i) (memories demo_items)) = [4]"
    by (simp add: demo_items_sel memory_purgeable_def demo_memory_def purge_due_def)
  with purge_exact [OF e r] e show ?thesis by simp
qed

lemma demo_payload: "payload_uuid [(asc ''memory_id'', JStr (uuid_str i))] ''memory_id'' = Inr i" if "i < 2 ^ 128"
  using uuid_parse_str [OF that] by (simp add: payload_uuid_def jget_def)

lemma demo_constraints: "constraints demo_items"
  by (simp add: demo_items_def constraints_def unique_by_def empty_db_def)

theorem memory_index_mirrors_witness:
  "\<exists>d' s. memory_index plain_worker 5 [(asc ''memory_id'', JStr (uuid_str 4))] demo_items = (Inr (), d')
     \<and> find_document ''memory'' 4 d' = Some s \<and> sd_searchable_text s = asc ''tea''"
proof -
  let ?p = "[(asc ''memory_id'', JStr (uuid_str 4))]"
  have p: "payload_uuid ?p ''memory_id'' = Inr 4" by (rule demo_payload) simp
  have m: "get_row 4 (memories demo_items) = Some (demo_memory 4 MActive)"
    by (simp add: demo_items_sel demo_memory_def)
  have n: "find_document ''memory'' i demo_items = None" for i
    by (simp add: find_document_def demo_items_sel query_one_def)
  have "fst (memory_index plain_worker 5 ?p demo_items) = Inr ()"
    unfolding memory_index_def p
    by (simp add: m n embed_document_def embedding_setting_def query_one_def Let_def
        add_document_def demo_items_sel fresh_def)
  then obtain d' where e: "memory_index plain_worker 5 ?p demo_items = (Inr (), d')"
    by (metis prod.collapse)
  have k: "keyed (next_id demo_items) (search_documents demo_items)" by (simp add: demo_items_sel)
  have "mi_state (demo_memory 4 MActive) = MActive" "mi_content (demo_memory 4 MActive) = asc ''tea''"
    by (simp_all add: demo_memory_def)
  with memory_index_mirrors [OF e p m demo_constraints k] e show ?thesis by (auto simp: mirrors_def)
qed

theorem round_settles_jobs_witness:
  "\<exists>r d' fs'. worker_round plain_worker 5 0 demo_items [] = (Inr r, d', fs') \<and> jobs_ok d'"
proof -
  have "isl (fst (worker_round plain_worker 5 0 demo_items [])) = False" by code_simp
  then obtain r d' fs' where e: "worker_round plain_worker 5 0 demo_items [] = (Inr r, d', fs')"
    by (metis isl_def prod.collapse sum.exhaust_sel)
  have "jobs_ok demo_items" by (simp add: jobs_ok_def demo_items_sel)
  with round_settles_jobs [OF e] e show ?thesis by (simp add: demo_items_sel)
qed

end
