(* ===== verification/MemoryProps.thy ===== *)
theory MemoryProps
  imports Memory
begin

text \<open>
  The properties of the memory service: no lost updates, commits that the constraints accept, the
  exact conditions of \<open>create\<close>, the effect of \<open>merge\<close>, the deletion round trip, account isolation
  and the result of \<open>search\<close>. What holds of the history of an item over the whole program is in
  \<open>MemoryHistory\<close>.
\<close>

section \<open>The unique constraints\<close>

lemma bump_keys:
  assumes "constraints d"
    and "(row_id i, version i) \<notin> (\<lambda>r. (mv_memory_id r, mv_version_number r)) ` set (memory_versions d)"
    and "(''memory'', row_id i, version i)
      \<notin> (\<lambda>r. (ob_aggregate_type r, ob_aggregate_id r, ob_sequence r)) ` set (outbox d)"
  shows "constraints (bump now acc kind ix i d)"
  using assms
  by (simp add: constraints_def unique_by_def bump_def Let_def record_version_def save_memory_def
      request_index_def add_outbox_def fresh_def)

lemma bump_constraints:
  assumes inv: "memory_inv d" and c: "constraints d" and i0: "get_row (row_id i) (memories d) = Some i0"
    and v: "version i = version i0 + 1"
  shows "constraints (bump now acc kind ix i d)"
proof -
  have mem: "i0 \<in> set (memories d)" "row_id i0 = row_id i" using get_row_Some [OF i0] by auto
  have "map mv_version_number (history_of (row_id i) d) = [1..version i0]"
    using inv mem by (auto simp: memory_inv_def history_ok_def)
  then have "set (map mv_version_number (history_of (row_id i) d)) = {1..version i0}" by simp
  then have "mv_version_number w \<le> version i0"
    if "w \<in> set (memory_versions d)" "mv_memory_id w = row_id i" for w
    using that by (auto simp: history_of_def set_eq_iff image_iff)
  then have 1: "(row_id i, version i) \<notin> (\<lambda>r. (mv_memory_id r, mv_version_number r)) ` set (memory_versions d)"
    using v by force
  have 2: "(''memory'', row_id i, version i)
      \<notin> (\<lambda>r. (ob_aggregate_type r, ob_aggregate_id r, ob_sequence r)) ` set (outbox d)"
    using inv v mem by (force simp: memory_inv_def events_ok_def)
  show ?thesis using bump_keys [OF c 1 2] .
qed

lemma memory_inv_empty:
  "memories d = [] \<Longrightarrow> memory_versions d = [] \<Longrightarrow> outbox d = [] \<Longrightarrow> memory_inv d"
  by (simp add: memory_inv_def events_ok_def)

text \<open>A request that the examples evaluate.\<close>

definition demo_request :: memory_create_request where
  "demo_request = \<lparr>rq_content = asc '' Likes tea '', rq_category = Preference, rq_origin_type = Manual,
     rq_source_conversation_id = None, rq_source_message_id = None, rq_original_expression = None,
     rq_event_at = None, rq_valid_from = None, rq_valid_until = None, rq_keywords = [],
     rq_confirmed = False\<rparr>"

section \<open>Properties\<close>

abbreviation demo_context :: audit_context where
  "demo_context \<equiv> system_context ''user'' (Some 7)"

text \<open>One item, of account 7, after one create.\<close>

definition demo_db :: db where
  "demo_db = snd (run_tx (memory_create plain_crypto 5 7 demo_request demo_context) empty_db)"

lemma memory_create_tx_inv: "memory_inv d \<Longrightarrow> memory_inv (snd (run_tx (memory_create c now acc rq ctx) d))"
  using run_tx_state [of "memory_create c now acc rq ctx" d] memory_services_inv(1) by (metis prod.collapse)

lemma memory_inv_demo: "memory_inv demo_db"
  unfolding demo_db_def by (rule memory_create_tx_inv) (simp add: memory_inv_empty empty_db_def)

lemma demo_rows: "map row_id (memories demo_db) = [1]" "map version (memories demo_db) = [1]"
    "constraints demo_db" "map mi_account_id (memories demo_db) = [7]"
  by code_simp+

lemma demo_item: "\<exists>i. get_row 1 (memories demo_db) = Some i \<and> version i = 1 \<and> mi_account_id i = 7"
  using demo_rows(1,2,4) by (auto simp: map_eq_Cons_conv)

text \<open>
  No lost update: once a confirm, an update, a deletion or a restore based on
  version \<open>v\<close> of an item has changed something, every later request of any
  client based on the same version fails and changes nothing, whatever
  requests were served in between.
\<close>

theorem memory_no_lost_update:
  assumes "memory_inv d" "run_tx (memory_write c w mid v) d = (Inr r, d1)" "d1 \<noteq> d"
  shows "\<exists>e. run_tx (memory_write c w' mid v) (mem.writes c ws d1) = (Inl e, mem.writes c ws d1)"
  using assms by (rule mem.stale_write_fails)

definition demo_delete :: memory_call where
  "demo_delete = \<lparr>ca_change = SoftDelete 30, ca_now = 9, ca_account = 7, ca_context = demo_context\<rparr>"

theorem memory_no_lost_update_witness:
  "\<exists>d1. snd (run_tx (memory_write plain_crypto demo_delete 1 1) demo_db) = d1
     \<and> (\<exists>e. run_tx (memory_write plain_crypto demo_delete 1 1) d1 = (Inl e, d1))"
proof -
  have a: "map version (memories (snd (run_tx (memory_write plain_crypto demo_delete 1 1) demo_db))) = [2]"
    by code_simp
  have b: "\<not> isl (fst (run_tx (memory_write plain_crypto demo_delete 1 1) demo_db))" by code_simp
  obtain r d1 where t: "run_tx (memory_write plain_crypto demo_delete 1 1) demo_db = (Inr r, d1)"
    using not_isl_result [OF b] by blast
  have "d1 \<noteq> demo_db" using a t demo_rows(2) by auto
  from memory_no_lost_update [OF memory_inv_demo t this, of demo_delete "[]"] t show ?thesis by simp
qed

text \<open>
  A memory write that the service accepts is never undone by the database:
  its version row and its outbox event do not collide with the existing
  ones, so the transaction commits with the result of the service.
\<close>

theorem memory_write_commits:
  assumes "memory_inv d" "constraints d" "memory_write c w mid v d = (Inr r, d')"
  shows "run_tx (memory_write c w mid v) d = (Inr r, d')"
proof -
  have k: "keyed (next_id d) (memories d)" using assms(1) by (simp add: memory_inv_def)
  from assms(3) have "constraints d'"
  proof (cases rule: memory_write_success)
    case (change i kind ix ety det)
    have "get_row (row_id (changed (ca_change w) (ca_now w) i)) (memories d) = Some i"
      using change(1) get_row_id by (auto simp: locked_item_row [OF k])
    then show ?thesis
      using bump_constraints [OF assms(1,2)] change(5) by simp
  qed (simp add: assms(2))
  then show ?thesis using assms(3) by (simp add: run_tx_def commit_def)
qed

theorem memory_write_commits_witness:
  "\<exists>r d'. memory_write plain_crypto demo_delete 1 1 demo_db = (Inr r, d')
     \<and> run_tx (memory_write plain_crypto demo_delete 1 1) demo_db = (Inr r, d')"
proof -
  have "\<not> isl (fst (memory_write plain_crypto demo_delete 1 1 demo_db))" by code_simp
  then obtain r d' where w: "memory_write plain_crypto demo_delete 1 1 demo_db = (Inr r, d')"
    using not_isl_result by blast
  show ?thesis using memory_write_commits [OF memory_inv_demo demo_rows(3) w] w by blast
qed

text \<open>
  \<open>create\<close> accepts a request exactly when its content names no secret, its
  validity interval is not reversed and no active or pending item of the
  account has the same words up to case and white space; the new item is
  active at once when it was confirmed or not suggested by the assistant.
\<close>

theorem memory_create_accepts:
  "(\<exists>i d'. memory_create c now acc rq ctx d = (Inr i, d')
       \<and> memories d' = memories d @ [i] \<and> mi_account_id i = acc \<and> mi_content i = strip (rq_content rq)
       \<and> (mi_state i = MActive \<longleftrightarrow> rq_confirmed rq \<or> rq_origin_type rq \<in> {ExplicitCommand, Manual}))
   \<longleftrightarrow> \<not> contains_secret_instruction (rq_content rq)
     \<and> \<not> invalid_interval (rq_valid_from rq) (rq_valid_until rq)
     \<and> \<not> (\<exists>i \<in> set (memories d). current acc i
           \<and> map casefold (py_split (mi_content i)) = map casefold (py_split (rq_content rq)))"
    (is "?L \<longleftrightarrow> ?R")
proof
  assume ?L
  then obtain i d' where "memory_create c now acc rq ctx d = (Inr i, d')" by blast
  from memory_create_success(1-3) [OF this] show ?R
    by (auto simp: canonical_content_eq_iff)
next
  assume R: ?R
  then obtain d' where m: "memory_create c now acc rq ctx d = (Inr (new_item now acc rq d), d')"
    using memory_create_ok [of rq d acc c now ctx] by (auto simp: canonical_content_eq_iff)
  then have "memories d' = memories d @ [new_item now acc rq d]"
    using memory_create_success(5) [OF m] by (auto simp: insert_item_sel)
  with m show ?L by fastforce
qed

text \<open>
  \<open>merge\<close>: when it succeeds, exactly the requested sources, all of them items
  of the account, are marked as merged into the new active item, each with a
  new version; every other item is as it was.
\<close>

theorem memory_merge_result:
  assumes "memory_inv d" "memory_merge c now acc ids rq ctx d = (Inr r, d')"
  shows "get_row (row_id r) (memories d') = Some r \<and> mi_state r = MActive
    \<and> get_row (row_id r) (memories d) = None
    \<and> (\<forall>k \<in> set ids. \<exists>s. get_row k (memories d) = Some s \<and> mi_account_id s = acc
          \<and> get_row k (memories d') = Some (s\<lparr>mi_state := MMerged, mi_merged_into_id := Some (row_id r),
               version := version s + 1, updated_at := now\<rparr>))
    \<and> (\<forall>k. k \<notin> set ids \<and> k \<noteq> row_id r \<longrightarrow> get_row k (memories d') = get_row k (memories d))"
proof -
  let ?ss = "merge_sources acc ids d"
  from assms(2) obtain d1 where m: "memory_create c now acc (rq\<lparr>rq_confirmed := True\<rparr>) ctx d = (Inr r, d1)"
    by (elim memory_merge_success)
  have r: "row_id r = next_id d" "mi_state r = MActive"
    using memory_create_success(4) [OF m] by simp_all
  have fresh: "get_row (next_id d) (memories d) = None"
    using assms(1) get_row_fresh by (auto simp: memory_inv_def)
  note rows = merge_sources_rows [OF assms(1)]
  have ids: "row_id ` set ?ss = set ids" by (rule merge_source_ids [OF assms])
  have src: "\<exists>s. get_row k ?ss = Some s \<and> get_row k (memories d) = Some s \<and> mi_account_id s = acc"
    if "k \<in> set ids" for k
  proof -
    have "k \<in> row_id ` set ?ss" using that ids by simp
    then obtain s where s: "s \<in> set ?ss" "row_id s = k" by blast
    then have "get_row k ?ss = Some s" using rows(1) by (auto simp: get_row_def find_unique)
    with s rows(2) show ?thesis by (auto simp: merge_sources_def)
  qed
  have none: "get_row k ?ss = None" if "k \<notin> set ids" for k
    using that by (auto simp: get_row_def find_None_iff merge_sources_def)
  have "next_id d \<notin> set ids" using src fresh by fastforce
  then show ?thesis
    using memory_merge_effect(2) [OF assms] src none r fresh by fastforce
qed

definition demo_request2 :: memory_create_request where
  "demo_request2 = demo_request\<lparr>rq_content := asc ''Likes green tea''\<rparr>"

definition demo_db2 :: db where
  "demo_db2 = snd (run_tx (memory_create plain_crypto 6 7 demo_request2 demo_context) demo_db)"

definition demo_target :: memory_create_request where
  "demo_target = demo_request\<lparr>rq_content := asc ''Drinks tea''\<rparr>"

theorem memory_merge_result_witness:
  "\<exists>r d'. memory_merge plain_crypto 9 7 [1, 5] demo_target demo_context demo_db2 = (Inr r, d')
     \<and> get_row (row_id r) (memories d') = Some r
     \<and> (\<exists>s. get_row 5 (memories d') = Some s \<and> mi_state s = MMerged)"
proof -
  have inv: "memory_inv demo_db2"
    unfolding demo_db2_def by (rule memory_create_tx_inv [OF memory_inv_demo])
  have src: "map mi_state (merge_sources 7 [1, 5] demo_db2) = [MActive, MActive]" by code_simp
  have len: "length (merge_sources 7 [1, 5] demo_db2) = 2" using arg_cong [OF src, of length] by simp
  have st: "\<forall>s \<in> set (merge_sources 7 [1, 5] demo_db2). mi_state s \<in> {MActive, MOutdated}"
    using arg_cong [OF src, of set] by auto
  have "\<not> contains_secret_instruction (rq_content demo_target)"
      "\<not> invalid_interval (rq_valid_from demo_target) (rq_valid_until demo_target)"
      "\<forall>i \<in> set (memories demo_db2). current 7 i \<longrightarrow>
         canonical_content (mi_content i) \<noteq> canonical_content (rq_content demo_target)"
    by code_simp+
  then obtain r d1 where "memory_create plain_crypto 9 7 (demo_target\<lparr>rq_confirmed := True\<rparr>) demo_context demo_db2 = (Inr r, d1)"
    using memory_create_ok [of "demo_target\<lparr>rq_confirmed := True\<rparr>" demo_db2 7
        plain_crypto 9 demo_context] by auto
  from memory_merge_accepts [OF _ _ st this] len
  obtain d' where m: "memory_merge plain_crypto 9 7 [1, 5] demo_target demo_context demo_db2 = (Inr r, d')"
    by auto
  note h = memory_merge_result [OF inv m]
  have "\<exists>s. get_row 5 (memories d') = Some s \<and> mi_state s = MMerged"
    using bspec [OF h [THEN conjunct2, THEN conjunct2, THEN conjunct2, THEN conjunct1], of 5] by auto
  with h m show ?thesis by blast
qed

text \<open>
  Deleting an item and restoring it within the retention period gives the
  item back, active and two versions on.
\<close>

theorem memory_delete_restore:
  assumes "memory_inv d" "locked_item acc mid d = Some i" "mi_state i \<noteq> MDeleted"
    and "now' < now + days retention"
  shows "\<exists>r1 d1 d2. memory_soft_delete c now acc mid (version i) retention ctx d = (Inr r1, d1)
    \<and> memory_restore c now' acc mid (version i + 1) ctx d1
       = (Inr (i\<lparr>mi_state := MActive, version := version i + 2, updated_at := now'\<rparr>), d2)"
proof -
  have k: "keyed (next_id d) (memories d)" using assms(1) by (simp add: memory_inv_def)
  have g: "get_row mid (memories d) = Some i" "mi_account_id i = acc"
    using assms(2) by (simp_all add: locked_item_row [OF k])
  have "row_ok i" using assms(1) get_row_Some [OF g(1)] by (simp add: memory_inv_def)
  then have clear: "mi_deleted_at i = None" "mi_purge_after i = None"
    using assms(3) by (auto simp: row_ok_def)
  let ?i = "i\<lparr>mi_state := MDeleted, mi_deleted_at := Some now,
      mi_purge_after := Some (now + days retention), version := version i + 1, updated_at := now\<rparr>"
  have same: "i\<lparr>mi_state := MActive, mi_deleted_at := None, mi_purge_after := None,
      version := version i + 2, updated_at := now'\<rparr>
      = i\<lparr>mi_state := MActive, version := version i + 2, updated_at := now'\<rparr>"
    using clear by (cases i) simp
  obtain r1 d1 where del: "memory_soft_delete c now acc mid (version i) retention ctx d = (Inr r1, d1)"
      "memories d1 = save_row now ?i (memories d)" "next_id d \<le> next_id d1"
    using assms(2,3)
    by (simp add: memory_soft_delete_def Let_def record_version_def save_memory_def fresh_def save_row_def)
  have "keyed (next_id d) (memories d1)" using k del(2) by simp
  then have "locked_item acc mid d1 = Some ?i"
    using g del(2) get_row_id [OF g(1)] by (simp add: locked_item_row get_row_save_row)
  then have "\<exists>d2. memory_restore c now' acc mid (version i + 1) ctx d1 = (Inr (i\<lparr>mi_state := MActive,
      mi_deleted_at := None, mi_purge_after := None, version := version i + 2, updated_at := now'\<rparr>), d2)"
    using assms(4) by (simp add: memory_restore_def Let_def)
  then show ?thesis using del(1) same by metis
qed

theorem memory_delete_restore_witness:
  "\<exists>i r1 d1 d2. locked_item 7 1 demo_db = Some i
     \<and> memory_soft_delete plain_crypto 9 7 1 1 30 demo_context demo_db = (Inr r1, d1)
     \<and> memory_restore plain_crypto 10 7 1 2 demo_context d1
        = (Inr (i\<lparr>mi_state := MActive, version := 3, updated_at := 10\<rparr>), d2)"
proof -
  have "map_option (\<lambda>i. (version i, mi_state i)) (locked_item 7 1 demo_db) = Some (1, MActive)"
    by code_simp
  then obtain i where i: "locked_item 7 1 demo_db = Some i" "version i = 1" "mi_state i = MActive"
    by auto
  have "(10::int) < 9 + days 30" by (simp add: days_def hours_def minutes_def seconds_def)
  from memory_delete_restore [OF memory_inv_demo i(1) _ this] i show ?thesis by simp
qed

text \<open>
  Accounts are isolated: on an item of another account every request answers
  ``not found'' and changes nothing, and an account's merge or search never reaches it.
\<close>

theorem memory_account_isolation:
  assumes "memory_inv d" "get_row mid (memories d) = Some i" "mi_account_id i \<noteq> acc"
  shows "(ca_account w = acc \<longrightarrow> memory_write c w mid v d = (Inl NotFoundError, d))
    \<and> memory_get acc mid deleted d = Inl NotFoundError
    \<and> (mid \<in> set ids \<longrightarrow> (\<exists>e. memory_merge c now acc ids rq ctx d = (Inl e, d)))
    \<and> i \<notin> set (memory_search lower acc q ranked d)"
proof (intro conjI impI)
  have k: "keyed (next_id d) (memories d)" using assms(1) by (simp add: memory_inv_def)
  have l: "locked_item acc mid d = None"
    unfolding locked_item_def query_one_owned [OF k] using assms(2,3) by simp
  show "memory_write c w mid v d = (Inl NotFoundError, d)" if "ca_account w = acc"
    using that l by (simp add: memory_write_def memory_confirm_def memory_update_def
        memory_soft_delete_def memory_restore_def split: memory_change.split)
  have "query_one (\<lambda>i. row_id i = mid \<and> mi_account_id i = acc \<and> (deleted \<or> mi_state i \<noteq> MDeleted))
      (memories d) = None"
    unfolding query_one_owned [OF k] using assms(2,3) by simp
  then show "memory_get acc mid deleted d = Inl NotFoundError" by (simp add: memory_get_def)
  show "i \<notin> set (memory_search lower acc q ranked d)"
    using assms(3) by (auto simp: memory_search_def Let_def dest: in_set_takeD)
  show "\<exists>e. memory_merge c now acc ids rq ctx d = (Inl e, d)" if "mid \<in> set ids"
  proof -
    have "mid \<notin> row_id ` set (merge_sources acc ids d)"
      using assms(2,3) merge_sources_rows(2) [OF assms(1)] by (fastforce simp: merge_sources_def)
    then have "\<And>r d'. memory_merge c now acc ids rq ctx d \<noteq> (Inr r, d')"
      using merge_source_ids [OF assms(1)] that by blast
    then show ?thesis
      using memory_merge_error by (metis sum.exhaust surj_pair)
  qed
qed

theorem memory_account_isolation_witness:
  "memory_get 8 1 True demo_db = Inl NotFoundError
   \<and> (\<exists>e. memory_merge plain_crypto 9 8 [1, 2] demo_request demo_context demo_db = (Inl e, demo_db))"
proof -
  obtain i where i: "get_row 1 (memories demo_db) = Some i" "mi_account_id i = 7"
    using demo_item by blast
  show ?thesis
    using memory_account_isolation [OF memory_inv_demo i(1), of 8] i(2) by simp
qed

text \<open>
  \<open>search\<close> returns distinct items of the account in the requested states and
  categories, at most \<open>limit\<close> of them, and without a query it returns the
  newest ones: no matching item that is left out was changed later than one that is returned.
\<close>

theorem memory_search_sound:
  assumes "memory_inv d"
  shows "distinct (memory_search lower acc rq ranked d)
    \<and> length (memory_search lower acc rq ranked d) \<le> sq_limit rq
    \<and> (\<forall>i \<in> set (memory_search lower acc rq ranked d). i \<in> set (memories d) \<and> mi_account_id i = acc
         \<and> mi_state i \<in> set (sq_states rq)
         \<and> (sq_categories rq = [] \<or> mi_category i \<in> set (sq_categories rq)))
    \<and> (strip (sq_query rq) = [] \<and> sq_categories rq = [] \<and> sq_from_at rq = None \<and> sq_to_at rq = None \<longrightarrow>
        (\<forall>i \<in> set (memory_search lower acc rq ranked d). \<forall>j \<in> set (memories d).
           mi_account_id j = acc \<and> mi_state j \<in> set (sq_states rq)
           \<and> j \<notin> set (memory_search lower acc rq ranked d) \<longrightarrow> updated_at j \<le> updated_at i))"
proof -
  have dist: "distinct (memories d)"
    using assms by (simp add: memory_inv_def keyed_def distinct_map)
  let ?S = "memory_search lower acc rq ranked d"
  have "distinct ?S" "length ?S \<le> sq_limit rq"
    using dist by (simp_all add: memory_search_def Let_def)
  moreover have "\<forall>i \<in> set ?S. i \<in> set (memories d) \<and> mi_account_id i = acc \<and> mi_state i \<in> set (sq_states rq)
      \<and> (sq_categories rq = [] \<or> mi_category i \<in> set (sq_categories rq))"
    by (auto simp: memory_search_def Let_def split: if_splits dest!: in_set_takeD)
  moreover have "updated_at j \<le> updated_at i"
    if q: "strip (sq_query rq) = [] \<and> sq_categories rq = [] \<and> sq_from_at rq = None \<and> sq_to_at rq = None"
      and i: "i \<in> set ?S" and j: "j \<in> set (memories d)" "mi_account_id j = acc"
        "mi_state j \<in> set (sq_states rq)" "j \<notin> set ?S" for i j
  proof -
    let ?f = "\<lambda>i::memory_item. (- updated_at i, row_id i)"
    let ?b = "sort_key ?f (filter (\<lambda>i. mi_account_id i = acc \<and> mi_state i \<in> set (sq_states rq)) (memories d))"
    have S: "?S = take (sq_limit rq) ?b"
      using q by (simp add: memory_search_def Let_def date_match_def)
    have "?f i \<le> ?f j"
      by (rule sorted_take_le [of ?f ?b i "sq_limit rq" j]) (use i j S in auto)
    then show ?thesis by (auto simp: less_eq_prod_def)
  qed
  ultimately show ?thesis by blast
qed

definition demo_search :: memory_search_request where
  "demo_search = \<lparr>sq_query = [], sq_categories = [], sq_states = [MActive], sq_from_at = None,
     sq_to_at = None, sq_limit = 1\<rparr>"

theorem memory_search_sound_witness:
  "map mi_account_id (memory_search casefold 7 demo_search [] demo_db) = [7]
   \<and> set (memory_search casefold 7 demo_search [] demo_db) \<subseteq> set (memories demo_db)"
proof -
  have "map mi_account_id (memory_search casefold 7 demo_search [] demo_db) = [7]" by code_simp
  then show ?thesis using memory_search_sound [OF memory_inv_demo, of casefold 7 demo_search "[]"] by blast
qed

end
