(* ===== verification/MemoryHistory.thy ===== *)
theory MemoryHistory
  imports MemoryProps OrchestrationProps WorkerTheorems
begin

text \<open>
  The history of the memory items over the whole program: the requests to the memory service, the
  answers, confirmations and cancellations of the orchestration, whose confirmed actions run memory
  operations in a transaction that is committed even when they are refused, the purge of the worker,
  and the other services, which leave the memory tables alone.
\<close>

section \<open>Operations that leave the memory tables alone\<close>

definition memory_frame :: "db \<Rightarrow> db \<Rightarrow> bool" where
  "memory_frame d d' \<longleftrightarrow>
     memories d' = memories d \<and> memory_versions d' = memory_versions d \<and> next_id d \<le> next_id d'
   \<and> (\<forall>e \<in> set (outbox d'). ob_aggregate_type e = ''memory'' \<longrightarrow>
        (\<exists>e0 \<in> set (outbox d). ob_aggregate_type e0 = ''memory''
           \<and> ob_aggregate_id e0 = ob_aggregate_id e \<and> ob_sequence e0 = ob_sequence e))"

lemma memory_frame_refl [simp]: "memory_frame d d"
  by (auto simp: memory_frame_def)

lemma memory_frameI:
  "memories d' = memories d \<Longrightarrow> memory_versions d' = memory_versions d \<Longrightarrow> outbox d' = outbox d
     \<Longrightarrow> next_id d \<le> next_id d' \<Longrightarrow> memory_frame d d'"
  by (auto simp: memory_frame_def)

lemma memory_frame_inv:
  assumes "memory_inv d" "memory_frame d d'"
  shows "memory_inv d'"
proof -
  have f: "memories d' = memories d" "memory_versions d' = memory_versions d" "next_id d \<le> next_id d'"
    using assms(2) by (simp_all add: memory_frame_def)
  have "history_ok d' i \<longleftrightarrow> history_ok d i" for i by (simp add: history_ok_def history_of_def f(2))
  moreover have "events_ok d'"
    using assms f(1,3) unfolding events_ok_def memory_inv_def memory_frame_def by fastforce
  moreover have "keyed (next_id d') (memories d')"
    unfolding f(1) by (rule keyed_mono [OF _ f(3)]) (use assms(1) in \<open>simp add: memory_inv_def\<close>)
  ultimately show ?thesis using assms(1) f by (fastforce simp: memory_inv_def)
qed

text \<open>What the orchestration itself writes.\<close>

lemma orchestration_frame [simp]:
  "memory_inv (set_action t aid f d) = memory_inv d"
  "memory_inv (settle_run t rid aid d) = memory_inv d"
  "memory_inv (set_run t rid g d) = memory_inv d"
  "memory_inv (d\<lparr>actions := x\<rparr>) = memory_inv d"
  "memory_inv (d\<lparr>conversations := y\<rparr>) = memory_inv d"
  by (simp_all add: memory_inv_def events_ok_def history_ok_def history_of_def set_action_def settle_run_def
      set_run_def split: option.split)

lemma conversation_services_frame:
  "memory_frame d (snd (continue_from c t acc cid ctx d))"
  "memory_frame d (snd (history_soft_delete c t acc cid v n ctx d))"
  "memory_frame d (snd (history_restore c t acc cid v ctx d))"
  by (intro memory_frameI;
      simp add: continue_from_def history_soft_delete_def history_restore_def add_link_def audit_append_def
        fresh_def Let_def split: sum.split option.split prod.split)+

section \<open>The invariant\<close>

lemma execute_inv:
  assumes "memory_inv d"
  shows "memory_inv (snd (execute_state_action env c t acc a ctx d))"
proof -
  note s = memory_services_inv [OF assms] conversation_services_frame [THEN memory_frame_inv [OF assms]]
  have "memory_inv (snd (run_update env c t acc name args ctx d))" for name args
    using s assms by (auto simp: run_update_def split: sum.split prod.split)
  moreover have "memory_inv (snd (run_delete env c t acc args ctx d))" for args
    using s assms by (auto simp: run_delete_def split: sum.split prod.split)
  moreover have "memory_inv (snd (run_restore env c t acc args ctx d))" for args
    using s assms by (auto simp: run_restore_def split: sum.split prod.split)
  moreover have "memory_inv (snd (run_merge env c t acc args ctx d))" for args
    using s assms by (auto simp: run_merge_def split: sum.split prod.split json.split)
  moreover have "memory_inv (snd (run_continue c t acc args ctx d))" for args
    using s assms by (auto simp: run_continue_def split: sum.split prod.split)
  moreover have "memory_inv (snd (run_history_delete env c t acc args ctx d))" for args
    using s assms by (auto simp: run_history_delete_def split: sum.split prod.split)
  moreover have "memory_inv (snd (run_history_restore env c t acc args ctx d))" for args
    using s assms by (auto simp: run_history_restore_def split: sum.split prod.split)
  moreover have "memory_inv (snd (case parse_create env args of Inl e \<Rightarrow> (Inl e, d)
      | Inr rq \<Rightarrow> memory_outcome (memory_create c t acc rq ctx d)))" for args
    using s assms by (auto split: sum.split)
  ultimately show ?thesis using assms by (simp add: execute_state_action_def Let_def)
qed

lemma confirm_action_inv:
  assumes "memory_inv d"
  shows "memory_inv (snd (confirm_action env c t acc aid v ctx d))"
proof (cases "owned_action acc aid d")
  case None
  then show ?thesis using assms by (simp add: confirm_action_def)
next
  case (Some a)
  let ?d1 = "set_action t aid (\<lambda>a. a\<lparr>ta_state := ARunning, ta_confirmed_at := Some t, version := version a + 1\<rparr>) d"
  obtain q d2 where e: "execute_state_action env c t acc a ctx ?d1 = (q, d2)" by fastforce
  have "memory_inv d2" using execute_inv [of ?d1 env c t acc a ctx] assms by (simp add: e)
  then show ?thesis
    using Some e assms by (cases q) (simp_all add: confirm_action_def Let_def split: if_splits)
qed

lemma cancel_run_inv: "memory_inv d \<Longrightarrow> memory_inv (snd (cancel_run c t acc rid ctx d))"
  by (simp add: cancel_run_def Let_def split: option.split)

lemma answer_frame: "memory_frame d (snd (answer env c t acc cid mid ctx d))"
proof -
  let ?d = "snd (answer env c t acc cid mid ctx d)"
  have "untouched ?d = untouched d" "next_id d \<le> next_id ?d"
    using answer_effect [of c t d env acc cid mid ctx] by (simp_all add: answer_effect_def)
  moreover from this(1) have "memories (untouched ?d) = memories (untouched d)"
      "memory_versions (untouched ?d) = memory_versions (untouched d)" "outbox (untouched ?d) = outbox (untouched d)"
    by simp_all
  moreover have "memories (untouched x) = memories x" "memory_versions (untouched x) = memory_versions x"
      "outbox (untouched x) = outbox x" for x
    by (simp_all add: untouched_def)
  ultimately show ?thesis by (intro memory_frameI) metis+
qed

text \<open>The purge removes the rows of an item together with the item.\<close>

lemma remaining_memories:
  assumes "keyed n (memories d)" "i \<in> set (memories d)" "\<not> P i"
  shows "row_id i \<notin> row_id ` {x \<in> set (memories d). P x}"
proof
  assume "row_id i \<in> row_id ` {x \<in> set (memories d). P x}"
  then obtain x where "x \<in> set (memories d)" "P x" "row_id x = row_id i" by auto
  with keyed_unique [OF assms(1) _ assms(2), of x] assms(3) show False by simp
qed

lemma delete_memories_rows:
  "memories (delete_memories P d)
     = map (\<lambda>i. i\<lparr>mi_merged_into_id := forget (map row_id (filter P (memories d))) (mi_merged_into_id i)\<rparr>)
         (filter (\<lambda>i. \<not> P i) (memories d))"
  "memory_versions (delete_memories P d)
     = filter (\<lambda>v. mv_memory_id v \<notin> row_id ` {x \<in> set (memories d). P x}) (memory_versions d)"
  "outbox (delete_memories P d) = outbox d" "next_id (delete_memories P d) = next_id d"
  by (simp_all add: delete_memories_def Let_def)

lemma history_of_deleted:
  "k \<notin> row_id ` {x \<in> set (memories d). P x} \<Longrightarrow> history_of k (delete_memories P d) = history_of k d"
  by (auto simp: history_of_def delete_memories_rows(2) intro: filter_cong)

lemma delete_memories_inv:
  assumes "memory_inv d"
  shows "memory_inv (delete_memories P d)"
proof -
  let ?d = "delete_memories P d"
  let ?f = "\<lambda>i. i\<lparr>mi_merged_into_id := forget (map row_id (filter P (memories d))) (mi_merged_into_id i)\<rparr>"
  have k: "keyed (next_id d) (memories d)" using assms by (simp add: memory_inv_def)
  have f: "row_ok (?f i) = row_ok i" "history_ok e (?f i) = history_ok e i" "row_id (?f i) = row_id i"
      "version (?f i) = version i" for i e
    by (simp_all add: row_ok_def history_ok_def snapshot_def)
  have h: "history_ok ?d i = history_ok d i" if "i \<in> set (memories d)" "\<not> P i" for i
    using history_of_deleted [OF remaining_memories [of _ d i P, OF k that]] by (simp add: history_ok_def)
  have ids: "map row_id (memories ?d) = map row_id (filter (\<lambda>i. \<not> P i) (memories d))"
    by (simp add: delete_memories_rows(1) comp_def f(3))
  have "keyed (next_id ?d) (memories ?d)"
    using k unfolding keyed_def ids delete_memories_rows(4)
    by (auto simp: distinct_map_filter delete_memories_rows(1))
  moreover have "\<forall>i \<in> set (memories ?d). row_ok i \<and> history_ok ?d i"
    using assms h by (auto simp: delete_memories_rows(1) f memory_inv_def)
  moreover have "events_ok ?d"
    using assms by (auto simp: events_ok_def delete_memories_rows f memory_inv_def)
  ultimately show ?thesis
    using assms by (auto simp: memory_inv_def delete_memories_rows(2,4))
qed

lemma purge_frames:
  "memory_frame d (delete_documents Q d)" "memory_frame d (delete_conversations R d)"
  "memory_frame d (fst (export_purge xe now d fs))"
  by (intro memory_frameI; simp add: delete_documents_def delete_conversations_def export_purge_def Let_def)+

lemma purge_inv:
  assumes "memory_inv d"
  shows "memory_inv (fst (purge_expired xe now d fs))"
  unfolding purge_expired_eq
  by (intro memory_frame_inv [OF _ purge_frames(3)] memory_frame_inv [OF _ purge_frames(2)] delete_memories_inv)
    (use assms memory_frame_inv [OF assms purge_frames(1)] in auto)

section \<open>What was recorded stays\<close>

text \<open>An operation other than the purge only adds version rows, and its new items have new identifiers.\<close>

definition memory_grows :: "db \<Rightarrow> db \<Rightarrow> bool" where
  "memory_grows d d' \<longleftrightarrow>
     next_id d \<le> next_id d' \<and> (\<exists>vs. memory_versions d' = memory_versions d @ vs)
   \<and> (\<forall>k \<in> row_id ` set (memories d'). k < next_id d \<longrightarrow> k \<in> row_id ` set (memories d))"

lemma memory_grows_refl [simp]: "memory_grows d d"
  by (simp add: memory_grows_def)

lemma memory_frame_grows: "memory_frame d d' \<Longrightarrow> memory_grows d d'"
  by (simp add: memory_frame_def memory_grows_def)

lemma memory_grows_eq:
  "memory_grows a d \<Longrightarrow> memories d' = memories d \<Longrightarrow> memory_versions d' = memory_versions d
     \<Longrightarrow> next_id d \<le> next_id d' \<Longrightarrow> memory_grows a d'"
  by (auto simp: memory_grows_def)

lemma memory_grows_same [simp]:
  "memory_grows a (audit_append c t ctx ety res tty tid det d) = memory_grows a d"
  "memory_grows a (set_action t aid f d) = memory_grows a d"
  "memory_grows a (settle_run t rid aid d) = memory_grows a d"
  "memory_grows a (set_run t rid g d) = memory_grows a d"
  "memory_grows a (d\<lparr>actions := x\<rparr>) = memory_grows a d"
  by (simp_all add: memory_grows_def audit_append_def set_action_def settle_run_def set_run_def split: option.split)

lemma memory_grows_parts:
  "memory_grows a d \<Longrightarrow> memory_grows a (save_memory t i d)"
  "memory_grows a d \<Longrightarrow> memory_grows a (record_version t i acc kind d)"
  "memory_grows a d \<Longrightarrow> memory_grows a (request_index t i n d)"
  "memory_grows a d \<Longrightarrow> memory_grows a (mark_merged t acc m i d)"
proof -
  show s: "memory_grows a d \<Longrightarrow> memory_grows a (save_memory t i d)" for i d
    by (simp add: memory_grows_def save_memory_def save_row_def flip: set_map)
  show r: "memory_grows a d \<Longrightarrow> memory_grows a (record_version t i acc kind d)" for i d kind
    by (auto simp: memory_grows_def record_version_def fresh_def)
  show "memory_grows a d \<Longrightarrow> memory_grows a (request_index t i n d)"
    by (erule memory_grows_eq) (simp_all add: request_index_def add_outbox_def fresh_def)
  show "memory_grows a d \<Longrightarrow> memory_grows a (mark_merged t acc m i d)"
    unfolding mark_merged_def Let_def by (intro r s)
qed

lemma memory_services_grow:
  "memory_grows d (snd (memory_create c t acc rq ctx d))"
  "memory_grows d (snd (memory_update c t acc mid urq ctx d))"
  "memory_grows d (snd (memory_soft_delete c t acc mid v n ctx d))"
  "memory_grows d (snd (memory_restore c t acc mid v ctx d))"
  "memory_grows d (snd (memory_confirm c t acc mid v ctx d))"
  "memory_grows d (snd (memory_merge c t acc srcs rq ctx d))"
proof -
  have new: "memory_grows d (insert_item t acc rq (new_item t acc rq' d) d)" for rq rq'
    by (auto simp: memory_grows_def insert_item_sel)
  show create: "memory_grows d (snd (memory_create c t acc rq ctx d))" for rq
    by (simp add: memory_create_def new Let_def split: option.split)
  show "memory_grows d (snd (memory_update c t acc mid urq ctx d))"
    by (simp add: memory_update_def memory_grows_parts Let_def split: option.split)
  show "memory_grows d (snd (memory_soft_delete c t acc mid v n ctx d))"
    by (simp add: memory_soft_delete_def memory_grows_parts Let_def split: option.split)
  show "memory_grows d (snd (memory_restore c t acc mid v ctx d))"
    by (simp add: memory_restore_def memory_grows_parts Let_def split: option.split)
  show "memory_grows d (snd (memory_confirm c t acc mid v ctx d))"
    by (simp add: memory_confirm_def memory_grows_parts Let_def split: option.split)
  have loop: "memory_grows d (foldl (\<lambda>d s. mark_merged t acc m s d) e ss)" if "memory_grows d e" for m e ss
    using that by (induction ss arbitrary: e) (simp_all add: memory_grows_parts)
  have "memory_create c t acc rq' ctx d = (r, x) \<Longrightarrow> memory_grows d x" for rq' r x
    using create [of rq'] by simp
  then show "memory_grows d (snd (memory_merge c t acc srcs rq ctx d))"
    by (auto simp: memory_merge_def loop Let_def split: prod.split sum.split)
qed

lemma execute_grows: "memory_grows d (snd (execute_state_action env c t acc a ctx d))"
proof -
  note s = memory_services_grow conversation_services_frame [THEN memory_frame_grows]
  have "memory_grows d (snd (run_update env c t acc name args ctx d))" for name args
    by (auto simp: run_update_def s split: sum.split prod.split)
  moreover have "memory_grows d (snd (run_delete env c t acc args ctx d))" for args
    by (auto simp: run_delete_def s split: sum.split prod.split)
  moreover have "memory_grows d (snd (run_restore env c t acc args ctx d))" for args
    by (auto simp: run_restore_def s split: sum.split prod.split)
  moreover have "memory_grows d (snd (run_merge env c t acc args ctx d))" for args
    by (auto simp: run_merge_def s split: sum.split prod.split json.split)
  moreover have "memory_grows d (snd (run_continue c t acc args ctx d))" for args
    by (auto simp: run_continue_def s split: sum.split prod.split)
  moreover have "memory_grows d (snd (run_history_delete env c t acc args ctx d))" for args
    by (auto simp: run_history_delete_def s split: sum.split prod.split)
  moreover have "memory_grows d (snd (run_history_restore env c t acc args ctx d))" for args
    by (auto simp: run_history_restore_def s split: sum.split prod.split)
  moreover have "memory_grows d (snd (case parse_create env args of Inl e \<Rightarrow> (Inl e, d)
      | Inr rq \<Rightarrow> memory_outcome (memory_create c t acc rq ctx d)))" for args
    by (auto simp: s split: sum.split)
  ultimately show ?thesis by (simp add: execute_state_action_def Let_def)
qed

lemma confirm_action_grows: "memory_grows d (snd (confirm_action env c t acc aid v ctx d))"
proof (cases "owned_action acc aid d")
  case None
  then show ?thesis by (simp add: confirm_action_def)
next
  case (Some a)
  let ?d1 = "set_action t aid (\<lambda>a. a\<lparr>ta_state := ARunning, ta_confirmed_at := Some t, version := version a + 1\<rparr>) d"
  obtain q d2 where e: "execute_state_action env c t acc a ctx ?d1 = (q, d2)" by fastforce
  have "memory_grows ?d1 d2" using execute_grows [of ?d1 env c t acc a ctx] by (simp add: e)
  then have "memory_grows d d2" by (simp add: memory_grows_def set_action_def)
  then show ?thesis
    using Some e by (cases q) (simp_all add: confirm_action_def Let_def split: if_splits)
qed

lemma cancel_run_grows: "memory_grows d (snd (cancel_run c t acc rid ctx d))"
  by (simp add: cancel_run_def Let_def split: option.split)

text \<open>The identifiers that are not used any more stay unused, and the version rows of an item that is
  still there stay as they are, in their order.\<close>

definition histories_kept :: "db \<Rightarrow> db \<Rightarrow> bool" where
  "histories_kept d d' \<longleftrightarrow>
     next_id d \<le> next_id d'
   \<and> (\<forall>k \<in> row_id ` set (memories d'). k < next_id d \<longrightarrow>
        k \<in> row_id ` set (memories d) \<and> (\<exists>vs. history_of k d' = history_of k d @ vs))"

lemma histories_kept_refl: "histories_kept d d"
  by (simp add: histories_kept_def)

lemma histories_kept_trans:
  assumes "histories_kept a b" "histories_kept b d"
  shows "histories_kept a d"
  unfolding histories_kept_def
proof (intro conjI ballI impI)
  show "next_id a \<le> next_id d" using assms by (simp add: histories_kept_def)
  fix k assume k: "k \<in> row_id ` set (memories d)" "k < next_id a"
  then have "k < next_id b" using assms(1) by (simp add: histories_kept_def)
  then obtain vs where b: "k \<in> row_id ` set (memories b)" "history_of k d = history_of k b @ vs"
    using assms(2) k(1) unfolding histories_kept_def by blast
  then obtain us where "k \<in> row_id ` set (memories a)" "history_of k b = history_of k a @ us"
    using assms(1) k(2) unfolding histories_kept_def by blast
  with b(2) show "k \<in> row_id ` set (memories a)" "\<exists>vs. history_of k d = history_of k a @ vs" by simp_all
qed

lemma memory_grows_kept: "memory_grows d d' \<Longrightarrow> histories_kept d d'"
  by (auto simp: memory_grows_def histories_kept_def history_of_def)

lemma purge_kept:
  assumes "memory_inv d"
  shows "histories_kept d (fst (purge_expired xe now d fs))"
proof -
  have k: "keyed (next_id e) (memories e)" if "memory_inv e" for e using that by (simp add: memory_inv_def)
  have del: "histories_kept e (delete_memories P e)" if e: "memory_inv e" for e P
    unfolding histories_kept_def
  proof (intro conjI ballI impI)
    show "next_id e \<le> next_id (delete_memories P e)" by (simp add: delete_memories_rows(4))
    fix j assume "j \<in> row_id ` set (memories (delete_memories P e))"
    then obtain i where i: "i \<in> set (memories e)" "\<not> P i" "j = row_id i"
      by (auto simp: delete_memories_rows(1))
    then show "j \<in> row_id ` set (memories e)" by simp
    show "\<exists>vs. history_of j (delete_memories P e) = history_of j e @ vs"
      using history_of_deleted [OF remaining_memories [of _ e i P, OF k [OF e] i(1,2)]] i(3) by simp
  qed
  note f = purge_frames [THEN memory_frame_grows, THEN memory_grows_kept]
  note i = memory_frame_inv [OF assms purge_frames(1)]
  show ?thesis
    unfolding purge_expired_eq
    by (rule histories_kept_trans [OF _ f(3)], rule histories_kept_trans [OF _ f(2)],
        rule histories_kept_trans [OF _ del])
      (use assms i f(1) histories_kept_refl in auto)
qed

section \<open>The program as a transition system\<close>

text \<open>A transaction of the program, as far as it can touch the memory tables: a request to the memory
  service, one to the orchestration, the purge of the worker, or a transaction of another service. A
  confirmed action runs its memory operation inside the transaction of the confirmation. Restoring a
  backup, which replaces the database as a whole, is not a step.\<close>

inductive memory_step :: "crypto \<Rightarrow> db \<Rightarrow> db \<Rightarrow> bool" for c where
  create: "run_tx (memory_create c now acc rq ctx) d = (r, d') \<Longrightarrow> memory_step c d d'"
| change: "run_tx (memory_write c w mid v) d = (r, d') \<Longrightarrow> memory_step c d d'"
| merge: "run_tx (memory_merge c now acc srcs rq ctx) d = (r, d') \<Longrightarrow> memory_step c d d'"
| ask: "run_tx (answer env c now acc cid mid actx) d = (ra, d') \<Longrightarrow> memory_step c d d'"
| confirm: "run_tx (confirm_action env c now acc aid v ctx) d = (rc, d') \<Longrightarrow> memory_step c d d'"
| cancel: "run_tx (cancel_run c now acc rid ctx) d = (rr, d') \<Longrightarrow> memory_step c d d'"
| purge: "purge_expired xe now d fs = (d', fs') \<Longrightarrow> memory_step c d d'"
| other: "memory_frame d d' \<Longrightarrow> memory_step c d d'"

lemma memory_write_grows: "memory_grows d (snd (memory_write c w mid v d))"
  using memory_services_grow by (cases "ca_change w") (simp_all add: memory_write_def)

lemma memory_step_ok:
  assumes inv: "memory_inv d" and step: "memory_step c d d'"
  shows "memory_inv d' \<and> histories_kept d d'"
proof -
  let ?P = "\<lambda>x. memory_inv x \<and> histories_kept d x"
  have refl: "?P d" using inv histories_kept_refl by blast
  note kept = memory_grows_kept
  note tx = run_tx_keeps [where P = "\<lambda>x. memory_inv x \<and> histories_kept d x"]
  from step show ?thesis
  proof cases
    case create
    show ?thesis
      by (rule tx [OF create refl]) (use memory_services_inv(1) [OF inv] kept [OF memory_services_grow(1)] in blast)
  next
    case change
    show ?thesis
      by (rule tx [OF change refl]) (use memory_write_tx_inv [OF inv] kept [OF memory_write_grows] in blast)
  next
    case merge
    show ?thesis
      by (rule tx [OF merge refl]) (use memory_services_inv(6) [OF inv] kept [OF memory_services_grow(6)] in blast)
  next
    case ask
    show ?thesis
      by (rule tx [OF ask refl])
        (use memory_frame_inv [OF inv answer_frame] kept [OF memory_frame_grows [OF answer_frame]] in blast)
  next
    case confirm
    show ?thesis
      by (rule tx [OF confirm refl]) (use confirm_action_inv [OF inv] kept [OF confirm_action_grows] in blast)
  next
    case cancel
    show ?thesis
      by (rule tx [OF cancel refl]) (use cancel_run_inv [OF inv] kept [OF cancel_run_grows] in blast)
  next
    case (purge xe now fs fs')
    then show ?thesis using purge_inv [OF inv, of xe now fs] purge_kept [OF inv, of xe now fs] by simp
  next
    case other
    then show ?thesis using memory_frame_inv [OF inv] kept [OF memory_frame_grows] by blast
  qed
qed

interpretation mem_sys: step_system "memory_step c" memory_inv for c
  by unfold_locales (use memory_step_ok in blast)

lemma memory_reach_kept: "(memory_step c)\<^sup>*\<^sup>* d d' \<Longrightarrow> memory_inv d \<Longrightarrow> histories_kept d d'"
  by (rule mem_sys.reach_rel [of c d d' histories_kept])
    (use histories_kept_refl histories_kept_trans memory_step_ok in blast)+

section \<open>Properties\<close>

text \<open>
  C12. In every database that the program leads to from empty memory tables - by requests to the memory
  service, answers, confirmed and cancelled actions, purges, and whatever the other services do - the
  version rows of each memory item are numbered 1, 2, ... up to the version of the item, and the newest
  one is a snapshot of its present content, unless the validity interval of the item is reversed: this
  is what a confirmed update leaves that was refused for the interval. A deleted item, and no other, has
  a deletion instant and a purge instant, and no content holds a secret term. Whatever happens later,
  the version rows of an item that is still there stay as they are, in their order, before the new ones.
\<close>

theorem memory_history_complete:
  assumes "memories d = []" "memory_versions d = []" "outbox d = []"
    and "(memory_step c)\<^sup>*\<^sup>* d d'" "i \<in> set (memories d')"
    and "(memory_step c)\<^sup>*\<^sup>* d' d''" "j \<in> set (memories d'')" "row_id j = row_id i"
  shows "map mv_version_number (history_of (row_id i) d') = [1..version i]
    \<and> (\<not> invalid_interval (mi_valid_from i) (mi_valid_until i) \<longrightarrow>
         mv_snapshot (last (history_of (row_id i) d')) = snapshot i)
    \<and> (mi_state i = MDeleted \<longleftrightarrow> mi_purge_after i \<noteq> None \<and> mi_deleted_at i \<noteq> None)
    \<and> \<not> contains_secret_instruction (mi_content i)
    \<and> (\<exists>vs. history_of (row_id i) d'' = history_of (row_id i) d' @ vs)"
proof -
  have inv: "memory_inv d'"
    using mem_sys.reach_inv [OF assms(4)] memory_inv_empty [OF assms(1-3)] by blast
  then have i: "row_ok i" "history_ok d' i" "row_id i < next_id d'"
    using assms(5) by (auto simp: memory_inv_def keyed_def)
  have "row_id i \<in> row_id ` set (memories d'')" using assms(7,8) by (metis imageI)
  then have "\<exists>vs. history_of (row_id i) d'' = history_of (row_id i) d' @ vs"
    using memory_reach_kept [OF assms(6) inv] i(3) unfolding histories_kept_def by blast
  with i(1,2) show ?thesis by (auto simp: row_ok_def history_ok_def)
qed

lemma demo_history_steps:
  "(memory_step plain_crypto)\<^sup>*\<^sup>* empty_db demo_db"
  "(memory_step plain_crypto)\<^sup>*\<^sup>* demo_db (snd (run_tx (memory_write plain_crypto demo_delete 1 1) demo_db))"
proof -
  have "memory_step plain_crypto empty_db demo_db"
    unfolding demo_db_def by (rule memory_step.create [OF surjective_pairing])
  then show "(memory_step plain_crypto)\<^sup>*\<^sup>* empty_db demo_db" by simp
  have "memory_step plain_crypto demo_db (snd (run_tx (memory_write plain_crypto demo_delete 1 1) demo_db))"
    by (rule memory_step.change [OF surjective_pairing])
  then show "(memory_step plain_crypto)\<^sup>*\<^sup>* demo_db (snd (run_tx (memory_write plain_crypto demo_delete 1 1) demo_db))"
    by simp
qed

theorem memory_history_complete_witness:
  "\<exists>i d2 vs. get_row 1 (memories demo_db) = Some i
     \<and> map mv_version_number (history_of 1 demo_db) = [1..1]
     \<and> \<not> contains_secret_instruction (mi_content i)
     \<and> snd (run_tx (memory_write plain_crypto demo_delete 1 1) demo_db) = d2
     \<and> history_of 1 d2 = history_of 1 demo_db @ vs"
proof -
  let ?d2 = "snd (run_tx (memory_write plain_crypto demo_delete 1 1) demo_db)"
  obtain i where i: "get_row 1 (memories demo_db) = Some i" "version i = 1"
    using demo_item by blast
  have "map row_id (memories ?d2) = [1]" by code_simp
  then obtain j where j: "j \<in> set (memories ?d2)" "row_id j = 1" by (auto simp: map_eq_Cons_conv)
  have e: "memories empty_db = []" "memory_versions empty_db = []" "outbox empty_db = []"
    by (simp_all add: empty_db_def)
  have m: "i \<in> set (memories demo_db)" "row_id i = 1" using get_row_Some [OF i(1)] by simp_all
  with j have "row_id j = row_id i" by simp
  from memory_history_complete [OF e demo_history_steps(1) m(1) demo_history_steps(2) j(1) this]
  show ?thesis using i m(2) by auto
qed

text \<open>The exception is real: a refused update is stored by the durable commit of the failed action, the
  fields changed, the version and the history as before.\<close>

lemma refused_update_kept:
  assumes "memory_inv d" "memory_update c now acc mid rq ctx d = (Inl e, d')" "d' \<noteq> d"
  shows "\<exists>i. get_row mid (memories d) = Some i
    \<and> get_row mid (memories d') = Some ((apply_update rq i)\<lparr>updated_at := now\<rparr>)
    \<and> memory_versions d' = memory_versions d \<and> version (apply_update rq i) = version i
    \<and> invalid_interval (mi_valid_from (apply_update rq i)) (mi_valid_until (apply_update rq i))"
  using assms(2)
proof (cases rule: memory_update_refused)
  case (row i)
  have k: "keyed (next_id d) (memories d)" using assms(1) by (simp add: memory_inv_def)
  have g: "get_row mid (memories d) = Some i" using row(1) by (simp add: locked_item_row [OF k])
  have "row_id (apply_update rq i) = mid" using get_row_id [OF g] by (simp add: apply_update_def)
  then have "get_row mid (memories d') = Some ((apply_update rq i)\<lparr>updated_at := now\<rparr>)"
    using g by (simp add: row(5) save_memory_def get_row_save_row)
  then show ?thesis using g row(4,5) by (simp add: save_memory_def apply_update_def)
qed (use assms(3) in simp)

end
