(* ===== verification/Dialogue.thy ===== *)
theory Dialogue
  imports History
begin

text \<open>
  Conversations and history together as a transition system: every request of
  a client in its transaction, and the assistant's turns, over any number of
  conversations. The properties: gap-free numbering, idempotent turns, closed
  conversations stay closed, no lost updates, the deletion round trip.
\<close>

section \<open>The transition system\<close>

inductive dialogue_step :: "crypto \<Rightarrow> db \<Rightarrow> db \<Rightarrow> bool" for c where
  start: "run_tx (start c now acc rq ctx) d = (r, d') \<Longrightarrow> dialogue_step c d d'"
| user_turn: "run_tx (add_user_turn c now acc cid rq ctx) d = (r, d') \<Longrightarrow> dialogue_step c d d'"
| assistant_turn: "run_tx (add_assistant_turn now cid content key run intr) d = (r, d') \<Longrightarrow> dialogue_step c d d'"
| correction: "run_tx (correct_transcript c now acc mid rq ctx) d = (r, d') \<Longrightarrow> dialogue_step c d d'"
| end_conversation: "run_tx (end_conversation c now acc cid reason ctx) d = (r, d') \<Longrightarrow> dialogue_step c d d'"
| history: "run_tx (history_write c w cid v) d = (r, d') \<Longrightarrow> dialogue_step c d d'"
| continue_from: "run_tx (continue_from c now acc cid ctx) d = (r, d') \<Longrightarrow> dialogue_step c d d'"

definition dialogue_inv :: "db \<Rightarrow> bool" where
  "dialogue_inv d \<longleftrightarrow> conversation_inv d \<and> constraints d"

lemma not_durable:
  "start c now acc sq ctx d = (Inl e, d') \<Longrightarrow> \<not> is_durable e"
  "add_user_turn c now acc cid rq ctx d = (Inl e, d') \<Longrightarrow> \<not> is_durable e"
  "add_assistant_turn now cid content key run intr d = (Inl e, d') \<Longrightarrow> \<not> is_durable e"
  "correct_transcript c now acc mid tq ctx d = (Inl e, d') \<Longrightarrow> \<not> is_durable e"
  "end_conversation c now acc cid reason ctx d = (Inl e, d') \<Longrightarrow> \<not> is_durable e"
  "continue_from c now acc cid ctx d = (Inl e, d') \<Longrightarrow> \<not> is_durable e"
  by (auto simp: start_def add_user_turn_def add_assistant_turn_def correct_transcript_def
      end_conversation_def continue_from_def detail_def Let_def exc_defs
      split: option.splits if_splits sum.splits)

text \<open>A step commits the state of one successful operation that satisfies the constraints, or nothing.\<close>

lemma dialogue_step_cases:
  assumes "dialogue_step c d d'"
  obtains (none) "d' = d"
  | (start) now acc rq ctx r where "start c now acc rq ctx d = (Inr r, d')" "constraints d'"
  | (user_turn) now acc cid rq ctx r where "add_user_turn c now acc cid rq ctx d = (Inr r, d')" "constraints d'"
  | (assistant_turn) now cid content key run intr r where
      "add_assistant_turn now cid content key run intr d = (Inr r, d')" "constraints d'"
  | (correction) now acc mid rq ctx r where "correct_transcript c now acc mid rq ctx d = (Inr r, d')" "constraints d'"
  | (end_conversation) now acc cid reason ctx r where
      "end_conversation c now acc cid reason ctx d = (Inr r, d')" "constraints d'"
  | (history) w cid v r where "history_write c w cid v d = (Inr r, d')" "constraints d'"
  | (continue_from) now acc cid ctx r where "continue_from c now acc cid ctx d = (Inr r, d')" "constraints d'"
proof -
  have tx: "d' = d \<or> (\<exists>v. f d = (Inr v, d') \<and> constraints d')"
    if "run_tx f d = (r, d')" "\<And>e d'. f d = (Inl e, d') \<Longrightarrow> \<not> is_durable e"
    for f :: "db \<Rightarrow> 'a result \<times> db" and r
    using that run_tx_failed [of f d _ d'] run_tx_commitD [of f d _ d'] by (cases r) blast+
  from assms show thesis
  proof (cases rule: dialogue_step.cases)
    case (start now acc rq ctx r)
    show ?thesis
      by (rule disjE [OF tx [OF start not_durable(1)]]) (use none that(2) in \<open>assumption | blast\<close>)+
  next
    case (user_turn now acc cid rq ctx r)
    show ?thesis
      by (rule disjE [OF tx [OF user_turn not_durable(2)]]) (use none that(3) in \<open>assumption | blast\<close>)+
  next
    case (assistant_turn now cid content key run intr r)
    show ?thesis
      by (rule disjE [OF tx [OF assistant_turn not_durable(3)]]) (use none that(4) in \<open>assumption | blast\<close>)+
  next
    case (correction now acc mid rq ctx r)
    show ?thesis
      by (rule disjE [OF tx [OF correction not_durable(4)]]) (use none that(5) in \<open>assumption | blast\<close>)+
  next
    case (end_conversation now acc cid reason ctx r)
    show ?thesis
      by (rule disjE [OF tx [OF end_conversation not_durable(5)]]) (use none that(6) in \<open>assumption | blast\<close>)+
  next
    case (history w cid v r)
    show ?thesis
      by (rule disjE [OF tx [OF history history_write_not_durable]]) (use none that(7) in \<open>assumption | blast\<close>)+
  next
    case (continue_from now acc cid ctx r)
    show ?thesis
      by (rule disjE [OF tx [OF continue_from not_durable(6)]]) (use none that(8) in \<open>assumption | blast\<close>)+
  qed
qed

lemma continue_from_success:
  assumes "continue_from c now acc cid ctx d = (Inr cv, d')"
  shows "row_id cv = next_id d \<and> cv_message_count cv = 0 \<and> cv_state cv = CActive \<and> cv_deleted_at cv = None
    \<and> cv_purge_after cv = None \<and> conversations d' = conversations d @ [cv] \<and> messages d' = messages d
    \<and> outbox d' = outbox d \<and> next_id d < next_id d'"
  using assms
  by (auto simp: continue_from_def Let_def add_link_def fresh_def new_conversation_def split: sum.splits)

text \<open>A correction that asks for a new answer repeats the outbox key of the turn it corrects.\<close>

lemma correction_collides:
  assumes "conversation_inv d" "correct_transcript c now acc mid rq ctx d = (Inr r, d')"
    and "tc_request_new_answer rq"
  shows "\<not> constraints d'"
proof -
  have t: "turns_ok d" and ev: "turn_events_ok d" using assms(1) by (auto simp: conversation_inv_def)
  from t assms(2) have "\<not> distinct (map outbox_key (outbox d'))"
  proof (cases rule: correct_transcript_success)
    case (1 m)
    have "m \<in> set (messages d)" using get_row_Some [OF 1(1)] by simp
    then have "(''conversation'', ms_conversation_id m, int (ms_sequence m)) \<in> outbox_key ` set (outbox d)"
      using ev 1(2) by (simp add: turn_events_ok_def)
    then show ?thesis using 1(10) [OF assms(3)] by simp
  qed
  then show ?thesis by (simp add: constraints_def unique_by_def)
qed

lemma correction_inv:
  assumes "conversation_inv d" "correct_transcript c now acc mid rq ctx d = (Inr r, d')" "constraints d'"
  shows "conversation_inv d'"
proof -
  have t: "turns_ok d" using assms(1) by (simp add: conversation_inv_def)
  have na: "\<not> tc_request_new_answer rq" using correction_collides assms by blast
  from t assms(2) show ?thesis
  proof (cases rule: correct_transcript_success)
    case (1 m)
    have "row_id r = mid" using 1(4) get_row_id [OF 1(1)] by simp
    with 1 na show ?thesis by (intro save_message_inv [OF assms(1), of r m d']) auto
  qed
qed

lemma dialogue_step_inv:
  assumes "dialogue_inv d" "dialogue_step c d d'"
  shows "dialogue_inv d'"
proof -
  have c: "conversation_inv d" using assms(1) by (simp add: dialogue_inv_def)
  from assms(2) show ?thesis
    unfolding dialogue_inv_def
  proof (cases rule: dialogue_step_cases)
    case none
    then show "conversation_inv d' \<and> constraints d'" using assms(1) by (simp add: dialogue_inv_def)
  next
    case continue_from
    from continue_from_success [OF continue_from(1)] have "conversation_inv d'"
      by (elim conjE) (rule insert_conversation_inv [OF c])
    with continue_from(2) show "conversation_inv d' \<and> constraints d'" by simp
  next
    case start
    with start_inv [OF c start(1)] show "conversation_inv d' \<and> constraints d'" by simp
  next
    case user_turn
    with add_user_turn_inv [OF c user_turn(1)] show "conversation_inv d' \<and> constraints d'" by simp
  next
    case assistant_turn
    with add_assistant_turn_inv [OF c assistant_turn(1)] show "conversation_inv d' \<and> constraints d'" by simp
  next
    case correction
    with correction_inv [OF c] show "conversation_inv d' \<and> constraints d'" by simp
  next
    case end_conversation
    with end_conversation_inv [OF c end_conversation(1)] show "conversation_inv d' \<and> constraints d'" by simp
  next
    case history
    with history_write_inv [OF c history(1)] show "conversation_inv d' \<and> constraints d'" by simp
  qed
qed

interpretation dialogue: step_system "dialogue_step c" dialogue_inv for c
  by unfold_locales (rule dialogue_step_inv)

section \<open>What no step undoes\<close>

text \<open>Messages are never lost, and keep their key, request hash and number.\<close>

definition keeps_messages :: "db \<Rightarrow> db \<Rightarrow> bool" where
  "keeps_messages d d' \<longleftrightarrow> (\<forall>m \<in> set (messages d). \<exists>m' \<in> set (messages d'). row_id m' = row_id m
     \<and> ms_conversation_id m' = ms_conversation_id m \<and> ms_idempotency_key m' = ms_idempotency_key m
     \<and> ms_request_hash m' = ms_request_hash m \<and> ms_sequence m' = ms_sequence m \<and> ms_role m' = ms_role m)"

text \<open>A conversation that is closed stays closed.\<close>

definition keeps_closed :: "db \<Rightarrow> db \<Rightarrow> bool" where
  "keeps_closed d d' \<longleftrightarrow> (\<forall>cv. get_row (row_id cv) (conversations d) = Some cv \<and> cv_state cv \<noteq> CActive \<longrightarrow>
     (\<exists>cv'. get_row (row_id cv) (conversations d') = Some cv' \<and> cv_state cv' \<noteq> CActive))"

lemma keeps_messages_append: "messages d' = messages d @ ms \<Longrightarrow> keeps_messages d d'"
  by (auto simp: keeps_messages_def)

lemma keeps_closed_save:
  assumes "get_row (row_id x) (conversations d) = Some cv" "cv_state x = CActive \<Longrightarrow> cv_state cv = CActive"
    and "conversations d' = save_row now x (conversations d)"
  shows "keeps_closed d d'"
  using assms by (auto simp: keeps_closed_def get_row_save_row)

lemma keeps_closed_append: "conversations d' = conversations d @ cvs \<Longrightarrow> keeps_closed d d'"
  by (auto simp: keeps_closed_def get_row_append)

lemma dialogue_step_keeps:
  assumes "dialogue_inv d" "dialogue_step c d d'"
  shows "keeps_messages d d' \<and> keeps_closed d d'"
proof -
  have t: "turns_ok d" and k: "keyed (next_id d) (messages d)"
    using assms(1) by (auto simp: dialogue_inv_def conversation_inv_def turns_ok_def)
  have am: "messages (add_message now cv m d) = messages d @ [m]"
    "conversations (add_message now cv m d) = save_row now (cv\<lparr>cv_message_count := Suc (cv_message_count cv),
       cv_last_activity_at := now, version := version cv + 1\<rparr>) (conversations d)" for now cv m
    by (simp_all add: add_message_def)
  from assms(2) show ?thesis
  proof (cases rule: dialogue_step_cases)
    case none
    then show ?thesis using keeps_messages_append [of d d "[]"] keeps_closed_append [of d d "[]"] by simp
  next
    case (start now acc rq ctx r)
    then have "messages d' = messages d @ []" "conversations d' = conversations d @ [r]"
      by (auto simp: start_def Let_def add_link_def fresh_def split: if_splits option.splits)
    then show ?thesis using keeps_messages_append keeps_closed_append by blast
  next
    case (user_turn now acc cid rq ctx r)
    from t user_turn(1) show ?thesis
    proof (cases rule: add_user_turn_success)
      case (replay cv)
      then show ?thesis using keeps_messages_append [of d d "[]"] keeps_closed_append [of d d "[]"] by simp
    next
      case (new cv det ety pl)
      then show ?thesis
        using keeps_messages_append [of d' d "[r]"] get_row_id [OF new(1)] am
          keeps_closed_save [of "cv\<lparr>cv_message_count := Suc (cv_message_count cv),
             cv_last_activity_at := now, version := version cv + 1\<rparr>" d cv d' now] by simp
    qed
  next
    case (assistant_turn now cid content key run intr r)
    then obtain cv where cv: "get_row cid (conversations d) = Some cv"
      by (auto simp: add_assistant_turn_def split: option.splits)
    show ?thesis
    proof (cases "find_turn cid key d")
      case None
      then have "d' = add_message now cv r d"
        using assistant_turn(1) cv by (auto simp: add_assistant_turn_def Let_def)
      then show ?thesis
        using keeps_messages_append [of d' d "[r]"] get_row_id [OF cv] am cv
          keeps_closed_save [of "cv\<lparr>cv_message_count := Suc (cv_message_count cv),
             cv_last_activity_at := now, version := version cv + 1\<rparr>" d cv d' now] by simp
    next
      case (Some m)
      then have "d' = d" using assistant_turn(1) cv by (simp add: add_assistant_turn_def)
      then show ?thesis using keeps_messages_append [of d d "[]"] keeps_closed_append [of d d "[]"] by simp
    qed
  next
    case (correction now acc mid rq ctx r)
    from t correction(1) show ?thesis
    proof (cases rule: correct_transcript_success)
      case (1 m)
      have id: "row_id r = mid" using 1(4) get_row_id [OF 1(1)] by simp
      have "keeps_messages d d'"
        unfolding keeps_messages_def
      proof
        fix x assume x: "x \<in> set (messages d)"
        show "\<exists>m' \<in> set (messages d'). row_id m' = row_id x
          \<and> ms_conversation_id m' = ms_conversation_id x \<and> ms_idempotency_key m' = ms_idempotency_key x
          \<and> ms_request_hash m' = ms_request_hash x \<and> ms_sequence m' = ms_sequence x \<and> ms_role m' = ms_role x"
        proof (cases "row_id x = mid")
          case True
          then have "x = m" using get_row_mem [OF k x] 1(1) by simp
          then show ?thesis
            using 1(1,4,5) id set_put_row [OF k, of r] by (intro bexI [of _ r]) auto
        next
          case False
          then show ?thesis using 1(1,5) id x set_put_row [OF k, of r] by (intro bexI [of _ x]) auto
        qed
      qed
      then show ?thesis using 1(6) keeps_closed_append [of d' d "[]"] by simp
    qed
  next
    case (end_conversation now acc cid reason ctx r)
    then obtain cv where cv: "query_one (\<lambda>x. row_id x = cid \<and> cv_account_id x = acc) (conversations d) = Some cv"
      by (auto simp: end_conversation_def split: option.splits)
    note o = owned_conversation [OF t cv]
    show ?thesis
    proof (cases "cv_state cv = CActive")
      case True
      let ?x = "cv\<lparr>cv_state := (if reason = ''user_ended'' then CCompleted else CInterrupted),
         cv_end_reason := Some reason, cv_ended_at := Some now, cv_last_activity_at := now, version := version cv + 1\<rparr>"
      have "conversations d' = save_row now ?x (conversations d)" "messages d' = messages d @ []"
        using end_conversation(1) cv True by (auto simp: end_conversation_def Let_def)
      then show ?thesis
        using keeps_messages_append [of d' d "[]"] keeps_closed_save [of ?x d cv d' now] o True by simp
    next
      case False
      then have "d' = d" using end_conversation(1) cv by (simp add: end_conversation_def)
      then show ?thesis using keeps_messages_append [of d d "[]"] keeps_closed_append [of d d "[]"] by simp
    qed
  next
    case (history w cid v r)
    from t history(1) show ?thesis
    proof (cases rule: history_write_success)
      case (1 cv x)
      then show ?thesis
        using keeps_messages_append [of d' d "[]"] keeps_closed_save [of x d cv d' "hc_now w"] by simp
    qed
  next
    case (continue_from now acc cid ctx r)
    then show ?thesis
      using continue_from_success [OF continue_from(1)] keeps_messages_append [of d' d "[]"]
        keeps_closed_append [of d' d "[r]"] by simp
  qed
qed

lemma dialogue_reach_keeps:
  assumes "(dialogue_step c)\<^sup>*\<^sup>* d d'" "dialogue_inv d"
  shows "keeps_messages d d'" "keeps_closed d d'"
proof -
  show "keeps_messages d d'"
    by (rule dialogue.reach_rel [OF assms, where R = keeps_messages])
      (use dialogue_step_keeps in \<open>auto simp: keeps_messages_def dest!: bspec\<close>)
  show "keeps_closed d d'"
    by (rule dialogue.reach_rel [OF assms, where R = keeps_closed])
      (use dialogue_step_keeps in \<open>auto simp: keeps_closed_def\<close>, metis get_row_id)
qed

lemma find_turn_unique:
  assumes "constraints d" "m \<in> set (messages d)"
  shows "find_turn (ms_conversation_id m) (ms_idempotency_key m) d = Some m"
proof -
  have "distinct (map (\<lambda>r. (ms_conversation_id r, ms_idempotency_key r)) (messages d))"
    using assms(1) by (simp add: constraints_def unique_by_def)
  from find_unique [OF this assms(2)] show ?thesis by (simp add: find_turn_def query_one_def)
qed

lemma find_turn_Some:
  "find_turn cid key d = Some m \<Longrightarrow> m \<in> set (messages d) \<and> ms_conversation_id m = cid \<and> ms_idempotency_key m = key"
  unfolding find_turn_def by (drule query_one_Some) simp

text \<open>The hash of a turn fixes its text, mode and language, up to a collision.\<close>

lemma turn_object_fields:
  assumes "jsort (turn_object rq) = jsort (turn_object rq')"
  shows "strip (ut_content rq) = strip (ut_content rq') \<and> ut_input_mode rq = ut_input_mode rq'
    \<and> ut_language rq = ut_language rq'"
proof -
  let ?D = "\<lambda>rq. map (\<lambda>(k, v). (asc k, v)) [(''content'', JStr (strip (ut_content rq))),
       (''input_mode'', jstr (ut_input_mode rq)), (''language'', JStr (ut_language rq))]"
  have "jsort (JObj (?D rq)) = jsort (JObj (?D rq'))"
    using assms unfolding turn_object_def jobj_def .
  moreover have dist: "distinct (map fst (?D rq))" for rq by (simp add: asc_def)
  ultimately have f: "map_option jsort (map_of (?D rq) (asc k)) = map_option jsort (map_of (?D rq') (asc k))" for k
    using jsort_field [OF dist, of rq "asc k"] jsort_field [OF dist, of rq' "asc k"] by (metis json.inject(6))
  show ?thesis
    using f [of "''content''"] f [of "''input_mode''"] f [of "''language''"] by (simp add: jstr_def)
qed

section \<open>Optimistic locking\<close>

interpretation hist: versioned_store dialogue_inv "\<lambda>k d. get_row k (conversations d)" version
  "\<lambda>w k v. run_tx (history_write c w k v)" for c
proof unfold_locales
  fix s s' :: db and w k v and r :: "conversation result"
  assume i: "dialogue_inv s" and t: "run_tx (history_write c w k v) s = (r, s')"
  show "dialogue_inv s'" using dialogue_step_inv [OF i dialogue_step.history [OF t]] .
next
  fix s s' :: db and w k v and a :: conversation
  assume i: "dialogue_inv s" and t: "run_tx (history_write c w k v) s = (Inr a, s')"
  have ok: "turns_ok s" using i by (simp add: dialogue_inv_def conversation_inv_def)
  from ok run_tx_commitD [OF t, THEN conjunct1]
  show "\<exists>x. get_row k (conversations s) = Some x \<and> version x = v"
    and "s' = s \<or> (\<exists>x. get_row k (conversations s') = Some x \<and> version x = v + 1)"
    by (cases rule: history_write_success; simp add: get_row_save_row)+
next
  fix s s' :: db and w k v e
  assume "run_tx (history_write c w k v) s = (Inl e, s')"
  then show "s' = s" by (rule run_tx_failed) (rule history_write_not_durable)
next
  fix s s' :: db and w k v k' and r :: "conversation result"
  assume i: "dialogue_inv s" and t: "run_tx (history_write c w k v) s = (r, s')" and k: "k' \<noteq> k"
  have ok: "turns_ok s" using i by (simp add: dialogue_inv_def conversation_inv_def)
  have "s' = s \<or> (\<exists>a. history_write c w k v s = (Inr a, s'))"
    using run_tx_step [OF t] history_write_not_durable by blast
  then show "get_row k' (conversations s') = get_row k' (conversations s)"
  proof (elim disjE exE)
    fix a assume "history_write c w k v s = (Inr a, s')"
    with ok show ?thesis by (cases rule: history_write_success) (use k in \<open>simp add: get_row_save_row\<close>)
  next
    assume "s' = s" then show ?thesis by (rule arg_cong)
  qed
qed

text \<open>Corrections of a transcript, as writes to the message.\<close>

definition correction_write ::
  "crypto \<Rightarrow> instant \<times> uuid \<times> transcript_correction \<times> audit_context \<Rightarrow> uuid \<Rightarrow> int \<Rightarrow> db
    \<Rightarrow> message result \<times> db" where
  "correction_write c w mid v d = (case w of (now, acc, rq, ctx) \<Rightarrow>
     correct_transcript c now acc mid (rq\<lparr>tc_expected_message_version := v\<rparr>) ctx d)"

lemma correction_write_not_durable: "correction_write c w mid v d = (Inl e, d') \<Longrightarrow> \<not> is_durable e"
  by (cases w) (auto simp: correction_write_def dest: not_durable(4))

lemma correction_write_success:
  assumes "turns_ok d" "correction_write c w mid v d = (Inr r, d')"
  shows "\<exists>m. get_row mid (messages d) = Some m \<and> version m = v \<and> row_id r = mid \<and> version r = v + 1
    \<and> messages d' = put_row r (messages d)"
proof -
  obtain now acc rq ctx where w: "w = (now, acc, rq, ctx)" by (cases w)
  from assms(2) have c: "correct_transcript c now acc mid (rq\<lparr>tc_expected_message_version := v\<rparr>) ctx d = (Inr r, d')"
    by (simp add: correction_write_def w)
  from assms(1) c show ?thesis
    by (cases rule: correct_transcript_success) (auto dest: get_row_id)
qed

interpretation corr: versioned_store dialogue_inv "\<lambda>k d. get_row k (messages d)" version
  "\<lambda>w k v. run_tx (correction_write c w k v)" for c
proof unfold_locales
  fix s s' :: db and w k v and r :: "message result"
  assume i: "dialogue_inv s" and t: "run_tx (correction_write c w k v) s = (r, s')"
  then show "dialogue_inv s'"
    using dialogue_step_inv [OF i, of c s'] dialogue_step.correction [of c]
    by (cases w) (simp add: correction_write_def [abs_def])
next
  fix s s' :: db and w k v and a :: message
  assume i: "dialogue_inv s" and t: "run_tx (correction_write c w k v) s = (Inr a, s')"
  have ok: "turns_ok s" using i by (simp add: dialogue_inv_def conversation_inv_def)
  from correction_write_success [OF ok run_tx_commitD [OF t, THEN conjunct1]]
  show "\<exists>x. get_row k (messages s) = Some x \<and> version x = v"
    and "s' = s \<or> (\<exists>x. get_row k (messages s') = Some x \<and> version x = v + 1)"
    by (auto simp: get_row_put_row)
next
  fix s s' :: db and w k v e
  assume "run_tx (correction_write c w k v) s = (Inl e, s')"
  then show "s' = s" by (rule run_tx_failed) (rule correction_write_not_durable)
next
  fix s s' :: db and w k v k' and r :: "message result"
  assume i: "dialogue_inv s" and t: "run_tx (correction_write c w k v) s = (r, s')" and k: "k' \<noteq> k"
  have ok: "turns_ok s" using i by (simp add: dialogue_inv_def conversation_inv_def)
  have "s' = s \<or> (\<exists>a. correction_write c w k v s = (Inr a, s'))"
    using run_tx_step [OF t] correction_write_not_durable by blast
  then show "get_row k' (messages s') = get_row k' (messages s)"
  proof (elim disjE exE)
    fix a assume "correction_write c w k v s = (Inr a, s')"
    from correction_write_success [OF ok this] k show ?thesis by (auto simp: get_row_put_row)
  next
    assume "s' = s" then show ?thesis by (rule arg_cong)
  qed
qed

section \<open>Properties\<close>

lemma dialogue_inv_empty: "dialogue_inv empty_db"
  by (simp add: dialogue_inv_def conversation_inv_def turns_ok_def turn_events_ok_def)
    (simp add: empty_db_def)

lemma user_turn_commits:
  assumes "dialogue_inv d" "add_user_turn c now acc cid rq ctx d = (Inr m, d')"
  shows "constraints d'"
proof -
  have t: "turns_ok d" and ev: "turn_events_ok d" and cs: "constraints d"
    using assms(1) by (auto simp: dialogue_inv_def conversation_inv_def)
  from t assms(2) show ?thesis
  proof (cases rule: add_user_turn_success)
    case (new cv det ety pl)
    let ?n = "cv_message_count cv"
    have mem: "cv \<in> set (conversations d)" "row_id cv = cid" using get_row_Some [OF new(1)] by auto
    have "map ms_sequence (conv_messages cid d) = [1..<Suc ?n]"
      using t mem by (auto simp: turns_ok_def conversation_ok_def)
    then have "set (map ms_sequence (conv_messages cid d)) = {1..<Suc ?n}" by (simp only: set_upt)
    then have "\<And>x. x \<in> set (messages d) \<Longrightarrow> ms_conversation_id x = cid \<Longrightarrow> ms_sequence x \<le> ?n"
      by (auto simp: conv_messages_def set_eq_iff image_iff less_Suc_eq_le)
    then have 1: "(cid, Suc ?n) \<notin> (\<lambda>r. (ms_conversation_id r, ms_sequence r)) ` set (messages d)"
      by fastforce
    have 2: "(cid, ut_idempotency_key rq) \<notin> (\<lambda>r. (ms_conversation_id r, ms_idempotency_key r)) ` set (messages d)"
      using new(4) by (auto simp: find_turn_def query_one_None)
    have 3: "(''conversation'', cid, int (Suc ?n)) \<notin> outbox_key ` set (outbox d)"
      using ev new(2) mem by (fastforce simp: turn_events_ok_def)
    show ?thesis
      using cs 1 2 3 new(5-7,9)
      unfolding new(13) constraints_def unique_by_def
      by (simp add: add_outbox_def add_message_def fresh_def)
  qed (use cs in simp)
qed

definition demo_turn :: user_turn where
  "demo_turn = \<lparr>ut_idempotency_key = asc ''0123456789abcdef'', ut_content = asc '' Hello '',
     ut_input_mode = ''text'', ut_language = asc ''cs''\<rparr>"

abbreviation chat_context :: audit_context where
  "chat_context \<equiv> system_context ''user'' (Some 7)"

definition demo_chat :: db where
  "demo_chat = snd (run_tx (start plain_crypto 1 7 \<lparr>cq_input_mode = ''text'', cq_language = asc ''cs'',
     cq_continuation_of_id = None\<rparr> chat_context) empty_db)"

lemma demo_chat_step: "dialogue_step plain_crypto empty_db demo_chat"
  unfolding demo_chat_def by (rule dialogue_step.start [OF surjective_pairing])

lemma demo_chat_inv: "dialogue_inv demo_chat"
  by (rule dialogue_step_inv [OF dialogue_inv_empty demo_chat_step])

lemma demo_turn_ok: "\<exists>m d'. run_tx (add_user_turn plain_crypto 2 7 1 demo_turn chat_context) demo_chat = (Inr m, d')
    \<and> add_user_turn plain_crypto 2 7 1 demo_turn chat_context demo_chat = (Inr m, d')"
proof -
  have "\<not> isl (fst (add_user_turn plain_crypto 2 7 1 demo_turn chat_context demo_chat))" by code_simp
  then obtain m d' where "add_user_turn plain_crypto 2 7 1 demo_turn chat_context demo_chat = (Inr m, d')"
    using not_isl_result by blast
  with user_turn_commits [OF demo_chat_inv this] show ?thesis by (simp add: run_tx_def commit_def)
qed

text \<open>
  C17. In every database that requests and answers lead to from an empty one, the
  messages of each conversation are numbered 1, 2, ... without a gap up to its
  message count, and reading a conversation returns them in that order.
\<close>

theorem turns_gap_free:
  assumes "(dialogue_step c)\<^sup>*\<^sup>* empty_db d" "cv \<in> set (conversations d)"
  shows "map ms_sequence (conv_messages (row_id cv) d) = [1..<Suc (cv_message_count cv)]
    \<and> (\<exists>ms. detail (cv_account_id cv) (row_id cv) True d = Inr (cv, ms)
          \<and> map ms_sequence ms = [1..<Suc (cv_message_count cv)])"
proof -
  have "dialogue_inv d" using dialogue.reach_inv [OF assms(1) dialogue_inv_empty] .
  then have t: "turns_ok d" by (simp add: dialogue_inv_def conversation_inv_def)
  then have k: "keyed (next_id d) (conversations d)" by (simp add: turns_ok_def)
  have s: "map ms_sequence (conv_messages (row_id cv) d) = [1..<Suc (cv_message_count cv)]"
    using t assms(2) by (simp only: turns_ok_def conversation_ok_def)
  then have "sorted (map ms_sequence (conv_messages (row_id cv) d))" by (simp only: sorted_upt)
  then have "sort_key ms_sequence (conv_messages (row_id cv) d) = conv_messages (row_id cv) d"
    by (rule sort_key_id_if_sorted)
  moreover have "query_one (\<lambda>x. row_id x = row_id cv \<and> cv_account_id x = cv_account_id cv
      \<and> (True \<or> cv_deleted_at x = None)) (conversations d) = Some cv"
    unfolding query_one_owned [OF k] using get_row_mem [OF k assms(2)] by simp
  ultimately show ?thesis
    using s unfolding detail_def conv_messages_def [symmetric] by simp
qed

theorem turns_gap_free_witness:
  "\<exists>d cv. (dialogue_step plain_crypto)\<^sup>*\<^sup>* empty_db d \<and> cv \<in> set (conversations d)
     \<and> map ms_sequence (conv_messages (row_id cv) d) = [1..<Suc (cv_message_count cv)]"
proof -
  have "length (conversations demo_chat) = 1" by code_simp
  then obtain cv where cv: "cv \<in> set (conversations demo_chat)" by (cases "conversations demo_chat") auto
  have "(dialogue_step plain_crypto)\<^sup>*\<^sup>* empty_db demo_chat" using demo_chat_step by simp
  with turns_gap_free [OF this cv] cv show ?thesis by blast
qed

text \<open>
  Turns are idempotent: a turn that was accepted can be sent again at any later
  time, after any other requests, while its conversation is active, and the
  answer is the stored message with the same identifier and number; nothing changes.
\<close>

theorem user_turn_idempotent:
  assumes "dialogue_inv d" "run_tx (add_user_turn c now acc cid rq ctx) d = (Inr m, d1)"
    and "ms_request_hash m = Some (request_hash c rq)"
    and "(dialogue_step c)\<^sup>*\<^sup>* d1 d2" "get_row cid (conversations d2) = Some cv"
      "cv_account_id cv = acc" "cv_state cv = CActive"
  shows "\<exists>m'. add_user_turn c now' acc cid rq ctx' d2 = (Inr m', d2) \<and> row_id m' = row_id m
    \<and> ms_sequence m' = ms_sequence m"
proof -
  have op: "add_user_turn c now acc cid rq ctx d = (Inr m, d1)" using run_tx_commitD [OF assms(2)] by simp
  have i1: "dialogue_inv d1" using dialogue_step_inv [OF assms(1) dialogue_step.user_turn [OF assms(2)]] .
  have t: "turns_ok d" using assms(1) by (simp add: dialogue_inv_def conversation_inv_def)
  have i2: "dialogue_inv d2" using dialogue.reach_inv [OF assms(4) i1] .
  from t op have m: "m \<in> set (messages d1)" "ms_conversation_id m = cid" "ms_idempotency_key m = ut_idempotency_key rq"
    by (cases rule: add_user_turn_success; auto dest: find_turn_Some)+
  then obtain m' where m': "m' \<in> set (messages d2)" "row_id m' = row_id m" "ms_conversation_id m' = cid"
      "ms_idempotency_key m' = ut_idempotency_key rq" "ms_request_hash m' = Some (request_hash c rq)"
      "ms_sequence m' = ms_sequence m"
    using dialogue_reach_keeps(1) [OF assms(4) i1] assms(3) by (fastforce simp: keeps_messages_def)
  have "find_turn cid (ut_idempotency_key rq) d2 = Some m'"
    using find_turn_unique [OF _ m'(1)] i2 m'(3,4) by (simp add: dialogue_inv_def)
  moreover have "query_one (\<lambda>x. row_id x = cid \<and> cv_account_id x = acc) (conversations d2) = Some cv"
  proof -
    have k: "keyed (next_id d2) (conversations d2)"
      using i2 by (simp add: dialogue_inv_def conversation_inv_def turns_ok_def)
    show ?thesis unfolding query_one_owned [OF k] using assms(5,6) by simp
  qed
  ultimately show ?thesis using m' assms(7) by (simp add: add_user_turn_def)
qed

theorem user_turn_idempotent_witness:
  "\<exists>m d1 m'. run_tx (add_user_turn plain_crypto 2 7 1 demo_turn chat_context) demo_chat = (Inr m, d1)
     \<and> add_user_turn plain_crypto 9 7 1 demo_turn chat_context d1 = (Inr m', d1) \<and> row_id m' = row_id m"
proof -
  obtain m d1 where t: "run_tx (add_user_turn plain_crypto 2 7 1 demo_turn chat_context) demo_chat = (Inr m, d1)"
    and o: "add_user_turn plain_crypto 2 7 1 demo_turn chat_context demo_chat = (Inr m, d1)"
    using demo_turn_ok by blast
  have "map_option (\<lambda>cv. (cv_account_id cv, cv_state cv)) (get_row 1 (conversations (snd
      (add_user_turn plain_crypto 2 7 1 demo_turn chat_context demo_chat)))) = Some (7, CActive)"
    by code_simp
  then obtain cv where cv: "get_row 1 (conversations d1) = Some cv" "cv_account_id cv = 7" "cv_state cv = CActive"
    using o by auto
  have "messages demo_chat = []" by code_simp
  then have "find_turn 1 (ut_idempotency_key demo_turn) demo_chat = None"
    by (simp add: find_turn_def query_one_def)
  then have "ms_request_hash m = Some (request_hash plain_crypto demo_turn)"
    using o by (auto simp: add_user_turn_def Let_def split: option.splits if_splits)
  from user_turn_idempotent [OF demo_chat_inv t this _ cv] t show ?thesis by blast
qed

text \<open>
  An idempotency key names one request: sending it again with another text,
  another mode or another language is refused, unless the two different request objects have the same SHA-256 hash.
\<close>

theorem user_turn_key_conflict:
  assumes "turns_ok d" "find_turn cid (ut_idempotency_key rq') d = Some m"
    and "ms_request_hash m = Some (request_hash c rq)" "request_hash c rq \<noteq> []"
    and "strip (ut_content rq') \<noteq> strip (ut_content rq) \<or> ut_input_mode rq' \<noteq> ut_input_mode rq
      \<or> ut_language rq' \<noteq> ut_language rq"
  shows "(\<exists>e. add_user_turn c now acc cid rq' ctx d = (Inl e, d))
    \<or> jsort (turn_object rq') \<noteq> jsort (turn_object rq)
      \<and> json_sha256 c (jsort (turn_object rq')) = json_sha256 c (jsort (turn_object rq))"
proof (cases "request_hash c rq' = request_hash c rq")
  case True
  then show ?thesis
    using turn_object_fields [of rq' rq] assms(5) by (auto simp: request_hash_def canonical_digest_def)
next
  case False
  then show ?thesis
    using assms(2-4) by (auto simp: add_user_turn_def split: option.split)
qed

theorem user_turn_key_conflict_witness:
  "\<exists>e. add_user_turn text_crypto 3 7 1 (demo_turn\<lparr>ut_content := asc ''Bye''\<rparr>) chat_context
      (snd (add_user_turn text_crypto 2 7 1 demo_turn chat_context demo_chat))
    = (Inl e, snd (add_user_turn text_crypto 2 7 1 demo_turn chat_context demo_chat))"
proof -
  let ?d1 = "snd (add_user_turn text_crypto 2 7 1 demo_turn chat_context demo_chat)"
  let ?rq = "demo_turn\<lparr>ut_content := asc ''Bye''\<rparr>"
  have "map_option ms_request_hash (find_turn 1 (ut_idempotency_key demo_turn) ?d1)
      = Some (Some (request_hash text_crypto demo_turn))" by code_simp
  then obtain m where m: "find_turn 1 (ut_idempotency_key demo_turn) ?d1 = Some m"
    "ms_request_hash m = Some (request_hash text_crypto demo_turn)"
    by auto
  have h: "request_hash text_crypto demo_turn \<noteq> []" by code_simp
  have "\<not> isl (fst (add_user_turn text_crypto 2 7 1 demo_turn chat_context demo_chat))" by code_simp
  then obtain m' d1 where o: "add_user_turn text_crypto 2 7 1 demo_turn chat_context demo_chat = (Inr m', d1)"
    by (blast dest: not_isl_result)
  have "turns_ok ?d1"
    using add_user_turn_inv [OF _ o] demo_chat_inv o by (simp add: dialogue_inv_def conversation_inv_def)
  moreover have "strip (asc ''Bye'') \<noteq> strip (ut_content demo_turn)" by code_simp
  moreover have "json_sha256 text_crypto (jsort (turn_object ?rq)) \<noteq> json_sha256 text_crypto (jsort (turn_object demo_turn))"
    by code_simp
  ultimately show ?thesis
    using user_turn_key_conflict [of ?d1 1 ?rq m text_crypto demo_turn 3 7 chat_context] m h
    by simp
qed

text \<open>
  A conversation that has been closed, whether ended or deleted, accepts no
  further user turn, whatever is requested afterwards, restoring included.
\<close>

theorem closed_stays_closed:
  assumes "dialogue_inv d" "get_row cid (conversations d) = Some cv" "cv_state cv \<noteq> CActive"
    and "(dialogue_step c)\<^sup>*\<^sup>* d d'"
  shows "\<exists>e. add_user_turn c now acc cid rq ctx d' = (Inl e, d') \<and> e \<in> {NotFoundError, ConflictError None}"
proof -
  have "row_id cv = cid" using get_row_id [OF assms(2)] .
  then obtain cv' where cv': "get_row cid (conversations d') = Some cv'" "cv_state cv' \<noteq> CActive"
    using dialogue_reach_keeps(2) [OF assms(4,1)] assms(2,3) unfolding keeps_closed_def by blast
  have k: "keyed (next_id d') (conversations d')"
    using dialogue.reach_inv [OF assms(4,1)] by (simp add: dialogue_inv_def conversation_inv_def turns_ok_def)
  show ?thesis
    unfolding add_user_turn_def query_one_owned [OF k] using cv' by simp
qed

theorem closed_stays_closed_witness:
  "\<exists>e d'. snd (run_tx (end_conversation plain_crypto 5 7 1 ''user_ended'' chat_context) demo_chat) = d'
     \<and> add_user_turn plain_crypto 6 7 1 demo_turn chat_context d' = (Inl e, d')"
proof -
  let ?d = "snd (run_tx (end_conversation plain_crypto 5 7 1 ''user_ended'' chat_context) demo_chat)"
  have i: "dialogue_inv ?d"
    by (rule dialogue_step_inv [OF demo_chat_inv, of plain_crypto])
      (rule dialogue_step.end_conversation [OF surjective_pairing])
  have "map_option cv_state (get_row 1 (conversations ?d)) = Some CCompleted" by code_simp
  then obtain cv where "get_row 1 (conversations ?d) = Some cv" "cv_state cv \<noteq> CActive" by auto
  from closed_stays_closed [OF i this, of plain_crypto ?d] show ?thesis by blast
qed

text \<open>
  An accepted user turn is never undone by the constraints of the database: its
  number, its idempotency key and its outbox event are new.
\<close>

theorem user_turn_never_rolled_back:
  assumes "dialogue_inv d" "add_user_turn c now acc cid rq ctx d = (Inr m, d')"
  shows "run_tx (add_user_turn c now acc cid rq ctx) d = (Inr m, d')"
  using user_turn_commits [OF assms] assms(2) by (simp add: run_tx_def commit_def)

theorem user_turn_never_rolled_back_witness:
  "\<exists>m d'. run_tx (add_user_turn plain_crypto 2 7 1 demo_turn chat_context) demo_chat = (Inr m, d')"
proof -
  obtain m d' where "add_user_turn plain_crypto 2 7 1 demo_turn chat_context demo_chat = (Inr m, d')"
    using demo_turn_ok by blast
  from user_turn_never_rolled_back [OF demo_chat_inv this] show ?thesis by blast
qed

text \<open>
  Titles, deletions and restores of a conversation, and corrections of a message,
  lose no update: once one of them based on a version has taken effect, every other one
  based on that version fails and changes nothing.
\<close>

theorem dialogue_no_lost_update:
  assumes "dialogue_inv d"
  shows "(run_tx (history_write c w cid v) d = (Inr r, d1) \<and> d1 \<noteq> d \<longrightarrow>
       (\<exists>e. run_tx (history_write c w' cid v) (hist.writes c ws d1) = (Inl e, hist.writes c ws d1)))
    \<and> (run_tx (correction_write c u mid v) d = (Inr m, d2) \<and> d2 \<noteq> d \<longrightarrow>
       (\<exists>e. run_tx (correction_write c u' mid v) (corr.writes c us d2) = (Inl e, corr.writes c us d2)))"
  using hist.stale_write_fails [OF assms] corr.stale_write_fails [OF assms] by blast

definition demo_delete_chat :: history_call where
  "demo_delete_chat = \<lparr>hc_change = DeleteConversation 30, hc_now = 3, hc_account = 7, hc_context = chat_context\<rparr>"

theorem dialogue_no_lost_update_witness:
  "\<exists>d1 e. snd (run_tx (history_write plain_crypto demo_delete_chat 1 1) demo_chat) = d1
     \<and> run_tx (history_write plain_crypto demo_delete_chat 1 1) d1 = (Inl e, d1)"
proof -
  let ?t = "run_tx (history_write plain_crypto demo_delete_chat 1 1) demo_chat"
  have a: "map version (conversations (snd ?t)) = [2]" "map version (conversations demo_chat) = [1]"
    "\<not> isl (fst ?t)" by code_simp+
  then obtain r d1 where t: "?t = (Inr r, d1)" using not_isl_result by blast
  then have "d1 \<noteq> demo_chat" using a by auto
  with dialogue_no_lost_update [OF demo_chat_inv, THEN conjunct1, rule_format, of plain_crypto demo_delete_chat 1 1 r d1
      demo_delete_chat "[]"] t
  show ?thesis by auto
qed

text \<open>
  A correction that asks for a new answer is always rolled back: its outbox event has the
  key of the event of the turn that it corrects.
\<close>

theorem correction_with_new_answer_fails:
  assumes "conversation_inv d" "tc_request_new_answer rq"
  shows "\<exists>e. run_tx (correct_transcript c now acc mid rq ctx) d = (Inl e, d)"
proof (cases "correct_transcript c now acc mid rq ctx d")
  case (Pair r d')
  show ?thesis
  proof (cases r)
    case (Inl e)
    then show ?thesis using Pair not_durable(4) by (simp add: run_tx_def)
  next
    case (Inr m)
    then show ?thesis
      using Pair correction_collides [OF assms(1) _ assms(2)] by (simp add: run_tx_def commit_def)
  qed
qed

end
