(* ===== verification/SettingsTheorems.thy ===== *)
theory SettingsTheorems
  imports ProviderTheorems
begin

text \<open>
  What the settings guarantee: the settings in effect always satisfy their definitions; the
  operations refine a store that keeps every value a setting ever had; a change based on a stale
  version is refused; a model that is chosen can be used.
\<close>

section \<open>The settings in effect\<close>

lemma map_of_rev_distinct: "distinct (map fst xs) \<Longrightarrow> map_of (rev xs) = map_of xs"
  by (simp add: fun_eq_iff) (metis distinct_rev map_of_eq_Some_iff not_Some_eq rev_map set_rev)

lemma map_of_rows: "map_of (map (\<lambda>r. (f r, r)) t) k = query_one (\<lambda>r. f r = k) t"
  by (induction t) (auto simp: query_one_def)

lemma stored_setting_find:
  assumes "settings_inv d"
  shows "stored_setting d (sd_area s, sd_key s) = find_setting s d"
proof -
  have "distinct (map fst (map (\<lambda>r. ((st_area r, st_key r), r)) (settings d)))"
    using assms by (simp add: settings_inv_def comp_def)
  from map_of_rev_distinct [OF this] show ?thesis
    unfolding stored_setting_def find_setting_def by (simp add: map_of_rows)
qed

lemma definitions_distinct: "distinct (map (\<lambda>s. (sd_area s, sd_key s)) DEFINITIONS)"
  by code_simp

lemma definition_unique:
  "s \<in> set DEFINITIONS \<Longrightarrow> t \<in> set DEFINITIONS \<Longrightarrow> sd_area s = sd_area t \<Longrightarrow> sd_key s = sd_key t \<Longrightarrow> s = t"
  using definitions_distinct by (auto simp: distinct_map dest: inj_onD)

lemma defaults_valid: "\<forall>s \<in> set DEFINITIONS. validate_value s (sd_default s) = Inr (sd_default s)"
  by code_simp

lemma last_revision:
  assumes "settings_inv d" "r \<in> set (settings d)"
  shows "\<exists>v. st_value r = [(asc ''value'', v)] \<and> typed (st_area r) (st_key r) v
     \<and> revs (row_id r) d \<noteq> [] \<and> last (map revision_value (revs (row_id r) d)) = v"
proof -
  have ok: "setting_ok d r" using assms by (simp add: settings_inv_def)
  then obtain v where v: "st_value r = [(asc ''value'', v)]" "typed (st_area r) (st_key r) v"
    by (auto simp: setting_ok_def holds_value_def)
  have n: "revs (row_id r) d \<noteq> []" using row_versions [OF assms] ok by (auto simp: setting_ok_def)
  have "sr_value (last (revs (row_id r) d)) = st_value r" using ok by (simp add: setting_ok_def)
  then show ?thesis using v n by (simp add: last_map revision_value_def get_or_def jget_def)
qed

definition view_ok :: "db \<Rightarrow> setting_definition \<Rightarrow> (string \<times> string) \<times> setting_view \<Rightarrow> bool" where
  "view_ok d s kv \<longleftrightarrow> fst kv = (sd_area s, sd_key s)
     \<and> validate_value s (sv_value (snd kv)) = Inr (sv_value (snd kv))
     \<and> sv_version (snd kv) = int (length (value_log d (fst kv)))
     \<and> sv_value (snd kv) = (if value_log d (fst kv) = [] then sd_default s else last (value_log d (fst kv)))"

lemma effective_views_ok:
  assumes "settings_inv d" "set ss \<subseteq> set DEFINITIONS"
  shows "\<exists>vs. effective_views d ss = Inr vs \<and> list_all2 (view_ok d) ss vs"
  using assms(2)
proof (induction ss)
  case (Cons s ss)
  then obtain vs where vs: "effective_views d ss = Inr vs" "list_all2 (view_ok d) ss vs" by auto
  have s: "s \<in> set DEFINITIONS" using Cons.prems by simp
  show ?case
  proof (cases "find_setting s d")
    case None
    then have "view_ok d s ((sd_area s, sd_key s), view_of s (sd_default s) 0)"
      using defaults_valid s by (simp add: view_ok_def view_of_def value_log_def find_setting_def)
    then show ?thesis using None vs by (simp add: stored_setting_find [OF assms(1)])
  next
    case (Some r)
    note r = find_setting_row [OF Some]
    obtain v where v: "st_value r = [(asc ''value'', v)]" "typed (st_area r) (st_key r) v"
        "revs (row_id r) d \<noteq> []" "last (map revision_value (revs (row_id r) d)) = v"
      using last_revision [OF assms(1)] r by blast
    have "validate_value s v = Inr v" using v(2) r s definition_unique unfolding typed_def by metis
    then have "view_ok d s ((sd_area s, sd_key s), view_of s v (version r))"
      using v(3,4) row_versions [OF assms(1), of r] r Some
      by (simp add: view_ok_def view_of_def value_log_def find_setting_def)
    then show ?thesis using Some vs v(1) by (simp add: stored_setting_find [OF assms(1)] jget_def)
  qed
qed simp

lemma effective_ok: "settings_inv d \<Longrightarrow> \<exists>vs. effective d = Inr vs \<and> list_all2 (view_ok d) DEFINITIONS vs"
  unfolding effective_def by (rule effective_views_ok) simp_all

section \<open>A small instance\<close>

definition demo_change :: "int \<Rightarrow> int \<Rightarrow> (pystr \<times> jdict) list" where
  "demo_change v n = [(asc ''output_volume'', [(asc ''value'', JInt v), (asc ''version'', JInt n)])]"

definition demo_update :: "int \<Rightarrow> int \<Rightarrow> db \<Rightarrow> setting_outcome list result \<times> db" where
  "demo_update v n = update_area plain_crypto 10 (asc ''voice'') (demo_change v n) 7 (system_context ''user'' None)"

definition demo_settings :: db where
  "demo_settings = snd (run_tx (demo_update 55 0) empty_db)"

lemma demo_settings_reach: "(settings_step plain_crypto)\<^sup>*\<^sup>* empty_db demo_settings"
proof -
  have "settings_step plain_crypto empty_db demo_settings"
    unfolding demo_settings_def demo_update_def by (rule step_update) (rule surjective_pairing)
  then show ?thesis by blast
qed

lemma demo_settings_inv: "settings_inv demo_settings"
  by (rule settings.reach_inv [OF demo_settings_reach settings_inv_empty])

lemma demo_settings_log: "value_log demo_settings (''voice'', ''output_volume'') = [JInt 55]"
  by code_simp

section \<open>Properties\<close>

text \<open>
  C8. The settings are typed: in every reachable database the settings in effect can be read, there is
  one for each definition of the catalog, and each value has the type, range and choices that its
  definition asks for.
\<close>

theorem settings_typed:
  assumes "(settings_step c)\<^sup>*\<^sup>* empty_db d"
  shows "\<exists>vs. effective d = Inr vs
    \<and> list_all2 (\<lambda>s (k, v). k = (sd_area s, sd_key s) \<and> validate_value s (sv_value v) = Inr (sv_value v))
        DEFINITIONS vs"
proof -
  have "settings_inv d" by (rule settings.reach_inv [OF assms settings_inv_empty])
  from effective_ok [OF this] obtain vs where vs: "effective d = Inr vs" "list_all2 (view_ok d) DEFINITIONS vs" by blast
  from vs(2) have "list_all2 (\<lambda>s (k, v). k = (sd_area s, sd_key s) \<and> validate_value s (sv_value v) = Inr (sv_value v))
      DEFINITIONS vs"
    by (rule list_all2_mono) (auto simp: view_ok_def)
  with vs(1) show ?thesis by blast
qed

theorem settings_typed_witness:
  "\<exists>vs. effective demo_settings = Inr vs \<and> length vs = 21 \<and> length (settings demo_settings) = 1"
proof -
  from settings_typed [OF demo_settings_reach] obtain vs where vs: "effective demo_settings = Inr vs"
      "length DEFINITIONS = length vs" by (auto dest: list_all2_lengthD)
  have "length (settings demo_settings) = 1" by code_simp
  moreover have "length DEFINITIONS = 21" by (simp add: DEFINITIONS_def)
  ultimately show ?thesis using vs by auto
qed

text \<open>
  C7. The settings service refines a store that keeps for each setting the list of all values it has had.
  A change appends the new value, restoring a revision appends the value of that number again, applying
  recommendations appends the chosen models; the value in effect is the last one, or the default when
  there is none, and its version is the length of the list.
\<close>

theorem settings_refine_log:
  assumes "settings_inv d"
  shows "(update_area c now (asc area) changes acc ctx d = (Inr outs, d1)
        \<longrightarrow> value_log d1 = fold (outcome_write area) outs (value_log d))
    \<and> (restore_revision c now (asc area) (asc key) n expected acc ctx d = (Inr r, d2)
        \<longrightarrow> value_log d2 = log_write (area, key) (value_log d (area, key) ! nat (n - 1)) (value_log d))
    \<and> (apply_recommended c now pid acc ctx d = (Inr cs, d3)
        \<longrightarrow> value_log d3 = fold (\<lambda>(role, t). log_write (''models'', role) (JStr t)) cs (value_log d))
    \<and> (\<exists>vs. effective d = Inr vs \<and> list_all2 (\<lambda>s (k, v). k = (sd_area s, sd_key s)
          \<and> sv_version v = int (length (value_log d k))
          \<and> sv_value v = (if value_log d k = [] then sd_default s else last (value_log d k))) DEFINITIONS vs)"
proof (intro conjI impI)
  assume "update_area c now (asc area) changes acc ctx d = (Inr outs, d1)"
  then show "value_log d1 = fold (outcome_write area) outs (value_log d)" by (rule update_area_refines [OF assms])
next
  assume "restore_revision c now (asc area) (asc key) n expected acc ctx d = (Inr r, d2)"
  then show "value_log d2 = log_write (area, key) (value_log d (area, key) ! nat (n - 1)) (value_log d)"
    by (rule restore_refines(3) [OF assms])
next
  assume "apply_recommended c now pid acc ctx d = (Inr cs, d3)"
  then show "value_log d3 = fold (\<lambda>(role, t). log_write (''models'', role) (JStr t)) cs (value_log d)"
    by (rule apply_recommended_refines(3) [OF assms _ refl])
next
  from effective_ok [OF assms] obtain vs where vs: "effective d = Inr vs" "list_all2 (view_ok d) DEFINITIONS vs" by blast
  from vs(2) have "list_all2 (\<lambda>s (k, v). k = (sd_area s, sd_key s)
          \<and> sv_version v = int (length (value_log d k))
          \<and> sv_value v = (if value_log d k = [] then sd_default s else last (value_log d k))) DEFINITIONS vs"
    by (rule list_all2_mono) (auto simp: view_ok_def)
  with vs(1) show "\<exists>vs. effective d = Inr vs \<and> list_all2 (\<lambda>s (k, v). k = (sd_area s, sd_key s)
          \<and> sv_version v = int (length (value_log d k))
          \<and> sv_value v = (if value_log d k = [] then sd_default s else last (value_log d k))) DEFINITIONS vs" by blast
qed

theorem settings_refine_log_witness:
  "\<exists>outs d1. demo_update 60 1 demo_settings = (Inr outs, d1)
     \<and> value_log d1 (''voice'', ''output_volume'') = [JInt 55, JInt 60]"
proof -
  have s: "(case demo_update 60 1 demo_settings of (Inr outs, d1) \<Rightarrow> map so_value outs = [JInt 60] \<and> map so_key outs = [''output_volume'']
      | _ \<Rightarrow> False)"
    by code_simp
  obtain q d1 where q: "demo_update 60 1 demo_settings = (q, d1)" by fastforce
  with s obtain outs where o: "q = Inr outs" "map so_value outs = [JInt 60]" "map so_key outs = [''output_volume'']"
    by (cases q) auto
  then obtain out where out: "outs = [out]" "so_value out = JInt 60" "so_key out = ''output_volume''"
    by (auto simp: map_eq_Cons_conv)
  have u: "update_area plain_crypto 10 (asc ''voice'') (demo_change 60 1) 7 (system_context ''user'' None) demo_settings
      = (Inr outs, d1)"
    using q o(1) by (simp add: demo_update_def)
  from settings_refine_log [OF demo_settings_inv, THEN conjunct1, THEN mp, OF u]
  have "value_log d1 (''voice'', ''output_volume'') = [JInt 55, JInt 60]"
    using demo_settings_log by (simp add: out outcome_write_def log_write_def)
  with q o(1) show ?thesis by blast
qed

section \<open>Optimistic locking\<close>

text \<open>One write of a setting, on the version it was based on: a new value, or restoring a revision.\<close>

datatype setting_write = NewValue json | RestoreOf int

record setting_call =
  sl_now :: instant
  sl_account :: uuid
  sl_context :: audit_context
  sl_write :: setting_write

definition setting_put ::
  "crypto \<Rightarrow> setting_call \<Rightarrow> string \<times> string \<Rightarrow> int \<Rightarrow> db \<Rightarrow> unit result \<times> db" where
  "setting_put c w k v d =
     (case sl_write w of
        NewValue x \<Rightarrow>
          (case run_tx (update_area c (sl_now w) (asc (fst k))
                  [(asc (snd k), [(asc ''value'', x), (asc ''version'', JInt v)])] (sl_account w) (sl_context w)) d of
             (Inl e, d') \<Rightarrow> (Inl e, d') | (Inr _, d') \<Rightarrow> (Inr (), d'))
      | RestoreOf n \<Rightarrow>
          (case run_tx (restore_revision c (sl_now w) (asc (fst k)) (asc (snd k)) n v (sl_account w) (sl_context w)) d of
             (Inl e, d') \<Rightarrow> (Inl e, d') | (Inr _, d') \<Rightarrow> (Inr (), d')))"

definition setting_lookup :: "string \<times> string \<Rightarrow> db \<Rightarrow> int option" where
  "setting_lookup k d = Some (int (length (value_log d k)))"

lemma setting_version_log:
  assumes "settings_inv d"
  shows "setting_version s d = int (length (value_log d (sd_area s, sd_key s)))"
proof (cases "find_setting s d")
  case None
  then show ?thesis by (simp add: setting_version_def value_log_def find_setting_def)
next
  case (Some r)
  with row_versions [OF assms, of r] find_setting_row [OF Some] show ?thesis
    by (simp add: setting_version_def value_log_def find_setting_def)
qed

lemma run_tx_Inr: "run_tx f d = (Inr v, d') \<Longrightarrow> f d = (Inr v, d')"
  by (auto simp: run_tx_def commit_def split: prod.splits sum.splits if_splits)

lemma run_tx_Inl: "run_tx f d = (Inl e, d') \<Longrightarrow> (\<And>e x. f d = (Inl e, x) \<Longrightarrow> x = d) \<Longrightarrow> d' = d"
proof -
  assume r: "run_tx f d = (Inl e, d')" and k: "\<And>e x. f d = (Inl e, x) \<Longrightarrow> x = d"
  obtain q x where q: "f d = (q, x)" by fastforce
  show "d' = d"
  proof (cases q)
    case (Inl e')
    then have "x = d" using k q by simp
    then show ?thesis using r q Inl by (auto simp: run_tx_def commit_def split: if_splits)
  next
    case (Inr v)
    then show ?thesis using r q by (auto simp: run_tx_def commit_def split: if_splits)
  qed
qed

lemma single_change:
  "update_area c now area [(key, rq)] acc ctx d = (Inr outs, d') \<longleftrightarrow>
     (\<exists>out. outs = [out] \<and> change_setting c now area key rq acc ctx d = (Inr out, d'))"
  by (auto split: prod.splits sum.splits)

lemma single_change_failed:
  "update_area c now area [(key, rq)] acc ctx d = (Inl e, d') \<Longrightarrow> d' = d"
  by (auto split: prod.splits sum.splits dest: change_setting_failed)

lemma change_settingE:
  assumes "change_setting c now area key rq acc ctx d = (Inr out, d')"
  obtains s v where "by_key area key = Some s" "validate_value s v = Inr v"
    "json_int (get_or rq ''version'' (JInt 0)) = Inr (setting_version s d)"
    "sd_area s = ''models'' \<and> truthy v \<longrightarrow> validate_model_selection (sd_key s) (setting_text v) d = Inr ()"
    "so_key out = sd_key s" "so_value out = v"
  using change_setting_done [OF assms] by (elim exE conjE) (rule that, simp_all)

lemma setting_put_done:
  assumes i: "settings_inv d" and e: "setting_put c w k v d = (Inr u, d')"
  shows "settings_inv d'" "v = int (length (value_log d k))" "\<exists>x. value_log d' = log_write k x (value_log d)"
proof -
  obtain a key where k: "k = (a, key)" by fastforce
  have "settings_inv d' \<and> v = int (length (value_log d k)) \<and> (\<exists>x. value_log d' = log_write k x (value_log d))"
  proof (cases "sl_write w")
    case (NewValue y)
    with e obtain outs where t: "run_tx (update_area c (sl_now w) (asc a)
        [(asc key, [(asc ''value'', y), (asc ''version'', JInt v)])] (sl_account w) (sl_context w)) d = (Inr outs, d')"
      by (auto simp: setting_put_def k split: prod.splits sum.splits)
    from run_tx_Inr [OF t] obtain out where o: "change_setting c (sl_now w) (asc a) (asc key)
        [(asc ''value'', y), (asc ''version'', JInt v)] (sl_account w) (sl_context w) d = (Inr out, d')"
      unfolding single_change by blast
    from change_settingE [OF o] obtain s where s: "by_key (asc a) (asc key) = Some s"
        "json_int (get_or [(asc ''value'', y), (asc ''version'', JInt v)] ''version'' (JInt 0)) = Inr (setting_version s d)"
        "so_key out = sd_key s" by blast
    have n: "sd_area s = a" "sd_key s = key" using by_key_Some [OF s(1)] by simp_all
    have "v = setting_version s d" using s(2) by (simp add: get_or_def jget_def)
    then show ?thesis
      using change_setting_refines(1,2) [OF i o] setting_version_log [OF i, of s] n s(3)
      by (auto simp: outcome_write_def k)
  next
    case (RestoreOf n)
    with e obtain r where t: "run_tx (restore_revision c (sl_now w) (asc a) (asc key) n v (sl_account w) (sl_context w)) d
        = (Inr r, d')"
      by (auto simp: setting_put_def k split: prod.splits sum.splits)
    from restore_refines [OF i run_tx_Inr [OF t]] show ?thesis unfolding k by blast
  qed
  then show "settings_inv d'" "v = int (length (value_log d k))" "\<exists>x. value_log d' = log_write k x (value_log d)" by blast+
qed

lemma setting_put_failed: "setting_put c w k v d = (Inl e, d') \<Longrightarrow> d' = d"
  by (auto simp: setting_put_def split: prod.splits sum.splits setting_write.splits
      dest!: run_tx_Inl intro: single_change_failed restore_failed)

interpretation setting_store: versioned_store settings_inv setting_lookup id "setting_put c" for c
proof unfold_locales
  fix s s' and w :: setting_call and k v r
  assume i: "settings_inv s" and p: "setting_put c w k v s = (r, s')"
  show "settings_inv s'"
    using setting_put_done(1) [OF i] setting_put_failed p i by (cases r) blast+
next
  fix s s' and w :: setting_call and k v a
  assume i: "settings_inv s" and p: "setting_put c w k v s = (Inr a, s')"
  show "\<exists>x. setting_lookup k s = Some x \<and> id x = v"
    using setting_put_done(2) [OF i p] by (simp add: setting_lookup_def)
  show "s' = s \<or> (\<exists>x. setting_lookup k s' = Some x \<and> id x = v + 1)"
    using setting_put_done(2,3) [OF i p] by (auto simp: setting_lookup_def log_write_def)
next
  fix s s' and w :: setting_call and k v e
  assume "settings_inv s" and p: "setting_put c w k v s = (Inl e, s')"
  show "s' = s" by (rule setting_put_failed [OF p])
next
  fix s s' and w :: setting_call and k v r k'
  assume i: "settings_inv s" and p: "setting_put c w k v s = (r, s')" and n: "k' \<noteq> k"
  show "setting_lookup k' s' = setting_lookup k' s"
  proof (cases r)
    case (Inl e)
    then show ?thesis using setting_put_failed p by blast
  next
    case (Inr u)
    with p obtain x where "value_log s' = log_write k x (value_log s)" using setting_put_done(3) [OF i] by blast
    with n show ?thesis by (simp add: setting_lookup_def log_write_def)
  qed
qed

text \<open>
  No change of a setting is lost: once a change based on a version of a setting took effect, every
  other change or restoration based on that version fails and changes nothing, whatever was changed in
  between.
\<close>

theorem setting_no_lost_update:
  assumes "settings_inv d" "setting_put c w k v d = (Inr u, d1)" "d1 \<noteq> d"
  shows "\<exists>e. setting_put c w' k v (setting_store.writes c ws d1) = (Inl e, setting_store.writes c ws d1)"
  using assms by (rule setting_store.stale_write_fails)

theorem setting_no_lost_update_witness:
  "\<exists>e d1. setting_put plain_crypto \<lparr>sl_now = 20, sl_account = 7, sl_context = system_context ''user'' None,
       sl_write = NewValue (JInt 60)\<rparr> (''voice'', ''output_volume'') 1 demo_settings = (Inr (), d1)
    \<and> setting_put plain_crypto \<lparr>sl_now = 30, sl_account = 7, sl_context = system_context ''user'' None,
       sl_write = RestoreOf 1\<rparr> (''voice'', ''output_volume'') 1 d1 = (Inl e, d1)"
proof -
  let ?w = "\<lparr>sl_now = 20, sl_account = 7, sl_context = system_context ''user'' None, sl_write = NewValue (JInt 60)\<rparr>"
  obtain r d1 where r: "setting_put plain_crypto ?w (''voice'', ''output_volume'') 1 demo_settings = (r, d1)" by fastforce
  have "\<not> isl (fst (setting_put plain_crypto ?w (''voice'', ''output_volume'') 1 demo_settings))" by code_simp
  then have ok: "setting_put plain_crypto ?w (''voice'', ''output_volume'') 1 demo_settings = (Inr (), d1)"
    using r by (cases r) auto
  have "d1 \<noteq> demo_settings"
  proof
    assume "d1 = demo_settings"
    moreover obtain x where "value_log d1 = log_write (''voice'', ''output_volume'') x (value_log demo_settings)"
      using setting_put_done(3) [OF demo_settings_inv ok] by blast
    then have "length (value_log d1 (''voice'', ''output_volume'')) = 2"
      by (simp add: log_write_def demo_settings_log)
    ultimately show False by (simp add: demo_settings_log)
  qed
  from setting_no_lost_update [OF demo_settings_inv ok this, of _ "[]"] ok show ?thesis by (simp del: fun_upd_apply)
qed

text \<open>
  A model that is selected can be used: when a change of the model settings that names a model is
  accepted, the catalog has that model, available and of that role, and its provider is verified and
  enabled.
\<close>

theorem selected_model_usable:
  assumes "update_area c now (asc ''models'') [(key, rq)] acc ctx d = (Inr outs, d')"
    and "out \<in> set outs" "so_value out = JStr t" "t \<noteq> []"
  shows "\<exists>m p. uuid_parse t = Some (row_id m) \<and> m \<in> set (catalog d) \<and> mc_available m
    \<and> mc_role m = so_key out \<and> p \<in> set (providers d) \<and> row_id p = mc_provider_id m
    \<and> pv_enabled p \<and> pv_verification_state p = ''verified''"
proof -
  have o: "change_setting c now (asc ''models'') key rq acc ctx d = (Inr out, d')"
    using assms(1,2) unfolding single_change by auto
  from change_settingE [OF o] obtain s v where s: "by_key (asc ''models'') key = Some s"
      "sd_area s = ''models'' \<and> truthy v \<longrightarrow> validate_model_selection (sd_key s) (setting_text v) d = Inr ()"
      "so_key out = sd_key s" "so_value out = v" by blast
  have "sd_area s = ''models''" using by_key_Some [OF s(1)] asc_eq_iff by blast
  moreover have "v = JStr t" using s(4) assms(3) by simp
  ultimately have "validate_model_selection (so_key out) t d = Inr ()"
    using s(2,3) assms(4) by (simp add: setting_text_def)
  then obtain u m p where u: "uuid_parse t = Some u" and m: "get_row u (catalog d) = Some m" "mc_available m"
      "mc_role m = so_key out" and p: "get_row (mc_provider_id m) (providers d) = Some p"
      "pv_verification_state p = ''verified''" "pv_enabled p"
    by (auto simp: validate_model_selection_def Let_def split: option.splits if_splits)
  then show ?thesis using get_row_Some [OF m(1)] get_row_Some [OF p(1)] by blast
qed

theorem selected_model_usable_witness:
  "\<exists>outs d'. update_area plain_crypto 5 (asc ''models'')
      [(asc ''conversation_model'', [(asc ''value'', JStr (uuid_str 3)), (asc ''version'', JInt 0)])] 7
      (system_context ''user'' None) demo_prov = (Inr outs, d')
    \<and> list_ex (\<lambda>m. uuid_parse (uuid_str 3) = Some (row_id m) \<and> mc_available m) (catalog demo_prov)"
proof -
  let ?f = "update_area plain_crypto 5 (asc ''models'')
      [(asc ''conversation_model'', [(asc ''value'', JStr (uuid_str 3)), (asc ''version'', JInt 0)])] 7
      (system_context ''user'' None) demo_prov"
  have s: "(case ?f of (Inr outs, d') \<Rightarrow> map so_value outs = [JStr (uuid_str 3)] | _ \<Rightarrow> False)" by code_simp
  obtain q d' where q: "?f = (q, d')" by fastforce
  from s q obtain outs where o: "q = Inr outs" "map so_value outs = [JStr (uuid_str 3)]" by (cases q) auto
  then obtain out where out: "out \<in> set outs" "so_value out = JStr (uuid_str 3)" by (auto simp: map_eq_Cons_conv)
  have "uuid_str 3 \<noteq> []" by code_simp
  from selected_model_usable [OF q [unfolded o(1)] out this]
  have "list_ex (\<lambda>m. uuid_parse (uuid_str 3) = Some (row_id m) \<and> mc_available m) (catalog demo_prov)"
    unfolding list_ex_iff by blast
  with q o(1) show ?thesis by blast
qed

lemma reindex_all_effect:
  "list_all sd_stale (search_documents (reindex_all now reason d))
   \<and> (\<exists>j. jobs (reindex_all now reason d) = jobs d @ [j] \<and> jb_kind j = ''search_reindex_all'' \<and> jb_state j = JobQueued)"
proof -
  have "list_all sd_stale (update_where (\<lambda>_. True) (\<lambda>s. s\<lparr>sd_stale := True, updated_at := now\<rparr>) t)" for t
    by (simp add: update_where_def list_all_iff)
  then show ?thesis by (simp add: reindex_all_def mark_all_stale_def enqueue_def fresh_def Let_def)
qed

lemma null_invalid: "validate_value s JNull \<noteq> Inr v"
  by (cases "sd_type s") (simp_all add: validate_value_def)

lemma current_log:
  assumes "settings_inv d"
  shows "(case find_setting s d of None \<Rightarrow> JNull | Some r \<Rightarrow> get_or (st_value r) ''value'' JNull)
    = (if value_log d (sd_area s, sd_key s) = [] then JNull else last (value_log d (sd_area s, sd_key s)))"
proof (cases "find_setting s d")
  case None
  then show ?thesis by (simp add: value_log_def find_setting_def)
next
  case (Some r)
  note r = find_setting_row [OF Some]
  obtain v where v: "st_value r = [(asc ''value'', v)]" "revs (row_id r) d \<noteq> []"
      "last (map revision_value (revs (row_id r) d)) = v"
    using last_revision [OF assms] r by blast
  have "value_log d (sd_area s, sd_key s) = map revision_value (revs (row_id r) d)"
    using Some by (simp add: value_log_def find_setting_def)
  then show ?thesis using Some v by (simp add: get_or_def jget_def)
qed

text \<open>
  A change of the embedding model renews the search index: when an accepted change gives it another
  value, every search document is marked as stale and a job that indexes everything anew is queued.
\<close>

theorem embedding_change_reindexes:
  assumes "settings_inv d"
    and "update_area c now (asc ''models'') [(asc ''embedding_model'', rq)] acc ctx d = (Inr outs, d')"
    and "out \<in> set outs"
    and "value_log d (''models'', ''embedding_model'') = [] \<or>
         last (value_log d (''models'', ''embedding_model'')) \<noteq> so_value out"
  shows "list_all sd_stale (search_documents d')
    \<and> (\<exists>j. jobs d' = jobs d @ [j] \<and> jb_kind j = ''search_reindex_all'' \<and> jb_state j = JobQueued)"
proof -
  have o: "change_setting c now (asc ''models'') (asc ''embedding_model'') rq acc ctx d = (Inr out, d')"
    using assms(2,3) unfolding single_change by auto
  from change_settingE [OF o] obtain s v where s: "by_key (asc ''models'') (asc ''embedding_model'') = Some s"
      "validate_value s v = Inr v"
      "json_int (get_or rq ''version'' (JInt 0)) = Inr (setting_version s d)"
      "sd_area s = ''models'' \<and> truthy v \<longrightarrow> validate_model_selection (sd_key s) (setting_text v) d = Inr ()"
      "so_key out = sd_key s" "so_value out = v" by blast
  have n: "sd_area s = ''models''" "sd_key s = ''embedding_model''"
    using by_key_Some [OF s(1)] asc_eq_iff by blast+
  from o s(1) obtain w where w: "validate_value s (get_or rq ''value'' JNull) = Inr w"
    by (cases "validate_value s (get_or rq ''value'' JNull)") (simp_all add: change_setting_def del: asc_simps)
  obtain r d1 where p: "put_setting now s w acc d = (r, d1)" by fastforce
  have j: "jobs d1 = jobs d" using put_setting_search(2) [of now s w acc d] p by simp
  have m: "(if sd_area s = ''models'' \<and> truthy w then validate_model_selection (sd_key s) (setting_text w) d else Inr ()) = Inr ()"
    using o s(1) w by (auto simp: change_setting_def simp del: asc_simps split: sum.splits if_splits)
  have v: "so_value out = w"
    using o s(1,3) w p m by (auto simp: change_setting_def Let_def simp del: asc_simps split: if_splits)
  have "(case find_setting s d of None \<Rightarrow> JNull | Some r \<Rightarrow> get_or (st_value r) ''value'' JNull) \<noteq> w"
    using assms(4) s(2,6) v null_invalid [of s v] unfolding current_log [OF assms(1)] n by auto
  note changed = this
  define x where "x = audit_append c now ctx ''settings.changed'' ''success''
         (Some ''application_setting'') (Some (row_id r)) [(asc ''area'', jstr (sd_area s)), (asc ''key'', jstr (sd_key s)),
           (asc ''version'', JInt (version r))] (add_setting_revision now r w (sd_boundary s) acc ''changed'' d1)"
  have "d' = audit_append c now ctx ''memory.reindex_requested'' ''success'' None None
      [(asc ''reason'', jstr ''embedding_model_changed''),
       (asc ''stale_documents'', JInt (int (length (search_documents x))))] (reindex_all now ''embedding_model_changed'' x)"
    unfolding x_def using changed o s(1,3) w p m n
    by (simp add: change_setting_def Let_def del: asc_simps split: if_splits)
  then have "search_documents d' = search_documents (reindex_all now ''embedding_model_changed'' x)"
      "jobs d' = jobs (reindex_all now ''embedding_model_changed'' x)"
    by (simp_all add: audit_append_def)
  moreover have "jobs x = jobs d" using j by (simp add: x_def audit_append_def add_setting_revision_def fresh_def)
  ultimately show ?thesis
    using reindex_all_effect [of now "''embedding_model_changed''" x] by simp
qed

theorem embedding_change_reindexes_witness:
  "\<exists>outs d'. update_area plain_crypto 5 (asc ''models'') [(asc ''embedding_model'', [(asc ''value'', JStr [])])] 7
      (system_context ''user'' None) empty_db = (Inr outs, d') \<and> length (jobs d') = 1"
proof -
  let ?f = "update_area plain_crypto 5 (asc ''models'') [(asc ''embedding_model'', [(asc ''value'', JStr [])])] 7
      (system_context ''user'' None) empty_db"
  have s: "(case ?f of (Inr outs, d') \<Rightarrow> length outs = 1 | _ \<Rightarrow> False)" by code_simp
  obtain q d' where q: "?f = (q, d')" by fastforce
  from s q obtain outs where o: "q = Inr outs" "length outs = 1" by (cases q) auto
  then obtain out where out: "out \<in> set outs" by (cases outs) auto
  have l: "value_log empty_db (''models'', ''embedding_model'') = []" by code_simp
  have "jobs empty_db = []" by (simp add: empty_db_def)
  with embedding_change_reindexes [OF settings_inv_empty q [unfolded o(1)] out disjI1 [OF l]] q o(1)
  show ?thesis by auto
qed

end
