(* ===== verification/Spec2Isabelle.thy ===== *)
theory Spec2Isabelle
  imports BackupTheorems OperationTheorems RealtimeTheorems WorkerTheorems Search ExportTheorems NotificationTheorems Jobs MemoryHistory Dialogue IdentityProps OrchestrationTheorems SettingsTheorems
begin

text \<open>
  A verification of the backend of KajovoDagmar, a personal assistant for one account
  (\<^verbatim>\<open>src/backend/src/kajovodagmar\<close>; the paths below are relative to it).

  \<^bold>\<open>The program.\<close> HTTP routers and a worker call services; a service gets the session of a
  database transaction, reads and changes rows, appends to the audit log and may queue a job or an
  outbox event. \<^verbatim>\<open>db/session.py\<close> commits the transaction when the handler returns, and also when
  it raises an error that is marked durable; any other error rolls it back. The model keeps this
  shape: an operation is a function from its arguments and the database (\<open>db\<close>, a record of tables) to a
  result (\<open>Inl\<close> the exception, \<open>Inr\<close> the value) and the database as the session left it, and
  \<open>run_tx\<close> decides what is committed. Log lines and metrics are left out.

  \<^bold>\<open>Theories.\<close>
  \<^item> \<open>PyPrelude\<close>: Python text, JSON, UUID text, lists. \<open>Models\<close>: the rows of \<^verbatim>\<open>db/models.py\<close>, the
    enumerations, the exceptions, queries, constraints, transactions, the outbox.
  \<^item> \<open>Interfaces\<close>: the locales \<open>versioned_store\<close> (optimistic locking), \<open>single_use\<close> (one-time
    secrets), \<open>step_system\<close> (invariants). The audit log and the job queue state their own interfaces;
    every locale is interpreted on the operations of the model.
  \<^item> \<open>AuditLog\<close>: \<^verbatim>\<open>audit/service.py\<close>. The chain only grows, and an altered event or a broken link
    is found by the check.
  \<^item> \<open>Jobs\<close>: \<^verbatim>\<open>jobs/service.py\<close>. Two claims never share a job, retries end, delays are bounded.
  \<^item> \<open>Memory\<close>, \<open>MemoryProps\<close>, \<open>MemoryHistory\<close>: \<^verbatim>\<open>memory/service.py\<close>, \<^verbatim>\<open>memory/schemas.py\<close>. Writes are
    not lost, accounts are isolated, deletion is undone. \<open>MemoryHistory\<close> follows the memory tables through
    the whole program, the confirmed actions of the orchestration and the purge of the worker included:
    the history of an item is numbered, complete but for one refused update, and append-only.
  \<^item> \<open>Conversations\<close>, \<open>History\<close>, \<open>Dialogue\<close>: \<^verbatim>\<open>conversations/\<close> and \<^verbatim>\<open>history/\<close> as one transition
    system: gap-free turn numbers, idempotent turns, closed conversations, optimistic locking.
  \<^item> \<open>Security\<close>, \<open>Identity\<close>, \<open>IdentityProps\<close>: \<^verbatim>\<open>security/\<close>, \<^verbatim>\<open>realtime/tickets.py\<close>,
    \<^verbatim>\<open>identity/service.py\<close>, \<^verbatim>\<open>api/dependencies.py\<close>: initialisation, login with its lockout, sessions,
    passwords, one-time secrets, the voice service key.
  \<^item> \<open>Orchestration\<close>, \<open>OrchestrationProps\<close>, \<open>OrchestrationTheorems\<close>: \<^verbatim>\<open>orchestration/service.py\<close>,
    \<^verbatim>\<open>orchestration/contracts.py\<close>: answering a turn with the language model only proposes changes;
    an action runs at most once, confirmed, unaltered and in time; cancelled runs stay inert.
  \<^item> \<open>Search\<close>: \<^verbatim>\<open>search/\<close>: the fusion of the text and the semantic ranking respects both and never
    leaves the account; the two rankings themselves are queries of the database.
  \<^item> \<open>Settings\<close>, \<open>SettingsProps\<close>, \<open>SettingsTheorems\<close>: \<^verbatim>\<open>settings/\<close>: typed values, the tables refine
    a log of values per setting, optimistic locking, what a changed embedding model reindexes.
  \<^item> \<open>Envelope\<close>, \<open>ModelRoles\<close>, \<open>Providers\<close>, \<open>ProviderTheorems\<close>: the envelope encryption of
    \<^verbatim>\<open>security/crypto.py\<close> and \<^verbatim>\<open>providers/\<close>: keys are stored encrypted and open to what was saved, a replaced or
    revoked key is never used again, verification publishes the catalog or changes nothing, and
    models are classified by role.

  \<^item> \<open>Exports\<close>, \<open>ExportTheorems\<close>: \<^verbatim>\<open>files/\<close> and the download of \<^verbatim>\<open>api/exports.py\<close>, on a model of
    the file system with symbolic links: generating an export changes files only below the directory of
    its account and where a link at the temporary name leads, and what is downloaded is what was generated.
  \<^item> \<open>Notifications\<close>, \<open>NotificationTheorems\<close>: \<^verbatim>\<open>notifications/\<close> and the endpoints of
    \<^verbatim>\<open>api/notifications.py\<close> and \<^verbatim>\<open>api/profile.py\<close> that send mail: the stored mail server is read back as
    it was saved, unless it is an IPv6 address, no password is sent unencrypted, a mailed link resets the password.
  \<^item> \<open>Worker\<close>, \<open>WorkerTheorems\<close>: \<^verbatim>\<open>worker.py\<close>: a round of its loop with every handler, each in a
    savepoint: every claimed job gets an outcome, the outbox drains, the purge removes what is due.
  \<^item> \<open>Voice\<close>, \<open>Realtime\<close>, \<open>RealtimeTheorems\<close>: \<^verbatim>\<open>realtime/\<close>: audio packets, the voice detector and
    the handler of the socket. A task runs in steps from one suspension to the next, may be cancelled
    at each, and keeps the socket it was started with; a closed connection is parked. The loudness is
    compared with the threshold by exact integers. Events are taken in order and numbered, audio is
    bounded and in order, turns settle, the database changes by whole turns, connections resume.
  \<^item> \<open>Operations\<close>, \<open>OperationTheorems\<close>: \<^verbatim>\<open>api/operations.py\<close>: readiness, status, paging through the
    audit log, requests for backups.
  \<^item> \<open>Backups\<close>, \<open>BackupTheorems\<close>: \<^verbatim>\<open>src/deployment/backup_agent.py\<close>. The machine answers each call as
    an arbitrary function of the calls before it, and the trace of the calls is part of the state. The
    agent takes jobs as the job service does and keeps the audit chain, a completed backup was checked, a
    started server is stopped, and a turn ends: the loop that waits for the server has 181 rounds of
    fuel, one for each second of its limit and one more.

  \<^bold>\<open>Parameters.\<close> Code outside the repository is an argument: hashing, canonical JSON and AES-GCM
  (records of functions), Argon2, the language model and the search index's ranking (\<open>orch_env\<close>), the
  instant, random tokens. Where a property needs a law of them (an injective digest, decryption
  undoing encryption) the law is a hypothesis, and its witness instantiates the parameter with a
  concrete function. The transcription, the speech, the network and the mail server are arguments too,
  as is what pgBackRest and PostgreSQL answer. But for the loop named above every function terminates by
  structural recursion, without fuel. Python integers are unbounded integers; the capture time of an audio
  packet is the 64 bits of its float.

  \<^bold>\<open>Not modelled.\<close> The routing, cookies and response shapes of the HTTP interface other than the
  endpoints named above; the network clients of the providers (\<^verbatim>\<open>providers/openai_compatible.py\<close>) and the
  deterministic provider of the tests; logging, metrics, tracing, diagnostics, configuration and the
  command line; texts for people; random identifiers of events. They are I/O around the services. Concurrency
  between transactions is modelled by the order of the committed transactions only: row locks and isolation
  levels belong to the database.
\<close>

end
